(* ===== verification/Prelude.thy ===== *)
theory Prelude
  imports Main "HOL-Library.Word" "HOL-Library.AList" "HOL-Library.Sublist" "HOL-Library.Multiset"
begin

text \<open>
  What the component theories share: the collections of facts (\<^theory_text>\<open>named_theorems\<close>) the
  proofs draw on, the Go values every service uses (a machine \<open>int\<close>, the 16-byte
  \<open>uuid.UUID\<close> with its byte order, instants in nanoseconds), the first-occurrence
  deduplication loop that the services write again and again over a \<open>seen\<close> map, and Go maps
  as association lists.
\<close>

named_theorems guar_intros "every primitive and combinator keeps a relation between pre- and post-state"
named_theorems run_simps "running the action combinators on a state"

subsection \<open>Machine integers\<close>

type_synonym u64 = "64 word"
type_synonym u32 = "32 word"
type_synonym u16 = "16 word"

text \<open>Go's \<open>int\<close> and \<open>int64\<close> are 64-bit two's complement and wrap on overflow.\<close>

definition i64 :: "int \<Rightarrow> int" where
  "i64 x = signed_take_bit 63 x"

lemma i64_id: "- (2 ^ 63) \<le> x \<Longrightarrow> x < 2 ^ 63 \<Longrightarrow> i64 x = x"
  by (simp add: i64_def signed_take_bit_int_eq_self)

lemma i64_range: "- (2 ^ 63) \<le> i64 x" "i64 x < 2 ^ 63"
  using signed_take_bit_int_greater_eq_minus_exp [of 63 x] signed_take_bit_int_less_exp [of 63 x]
  by (simp_all add: i64_def)

text \<open>Instants and durations are nanoseconds; \<open>time.Duration\<close> saturates at the \<open>int64\<close> range.\<close>

type_synonym time = int

definition sat64 :: "int \<Rightarrow> int" where
  "sat64 d = max (- (2 ^ 63)) (min (2 ^ 63 - 1) d)"

lemma sat64_id: "- (2 ^ 63) \<le> x \<Longrightarrow> x < 2 ^ 63 \<Longrightarrow> sat64 x = x"
  by (simp add: sat64_def)

text \<open>Go divides integers towards zero.\<close>

definition quot :: "int \<Rightarrow> int \<Rightarrow> int" where
  "quot a b = sgn a * sgn b * (\<bar>a\<bar> div \<bar>b\<bar>)"

lemma quot_nonneg: "0 \<le> a \<Longrightarrow> 0 < b \<Longrightarrow> quot a b = a div b"
  by (cases "a = 0") (simp_all add: quot_def)

subsection \<open>UUIDs\<close>

text \<open>A \<open>uuid.UUID\<close> is 16 bytes; it is kept as their big-endian value.\<close>

datatype uuid = UUID (uuid_val: "128 word")

fun be_bytes :: "nat \<Rightarrow> 128 word \<Rightarrow> 8 word list" where
  "be_bytes 0 w = []"
| "be_bytes (Suc n) w = ucast (drop_bit (8 * n) w) # be_bytes n w"

definition uuid_bytes :: "uuid \<Rightarrow> 8 word list" where
  "uuid_bytes u = be_bytes 16 (uuid_val u)"

text \<open>\<open>bytes.Compare\<close>: the first differing byte decides, then the length.\<close>

fun bytes_compare :: "8 word list \<Rightarrow> 8 word list \<Rightarrow> int" where
  "bytes_compare [] [] = 0"
| "bytes_compare [] (_ # _) = -1"
| "bytes_compare (_ # _) [] = 1"
| "bytes_compare (a # as) (b # bs) =
     (if a < b then -1 else if b < a then 1 else bytes_compare as bs)"

instantiation uuid :: linorder
begin

definition less_eq_uuid :: "uuid \<Rightarrow> uuid \<Rightarrow> bool" where
  "less_eq_uuid a b \<longleftrightarrow> uuid_val a \<le> uuid_val b"

definition less_uuid :: "uuid \<Rightarrow> uuid \<Rightarrow> bool" where
  "less_uuid a b \<longleftrightarrow> uuid_val a < uuid_val b"

instance
  by standard (auto simp: less_eq_uuid_def less_uuid_def uuid.expand)

end

lemma unat_digit: "unat (ucast (drop_bit (8 * n) w) :: 8 word) = (unat (w :: 128 word) div 256 ^ n) mod 256"
proof -
  have "(2 :: nat) ^ (8 * n) = 256 ^ n"
    by (simp add: power_mult)
  moreover have "unat (drop_bit (8 * n) w) = unat w div 2 ^ (8 * n)"
    using unsigned_drop_bit_eq [of "8 * n" w, where ?'a = nat] unsigned_less [of w, where ?'a = nat]
    by (simp add: drop_bit_eq_div [where ?'a = nat] take_bit_nat_eq_self_iff [THEN iffD2])
  moreover have "unat (ucast (drop_bit (8 * n) w) :: 8 word) = unat (drop_bit (8 * n) w) mod 256"
    by (simp add: unsigned_ucast_eq take_bit_eq_mod)
  ultimately show ?thesis by simp
qed

lemma digits_less_iff:
  fixes B :: nat
  assumes "ra < B" "rb < B"
  shows "da * B + ra < db * B + rb \<longleftrightarrow> da < db \<or> da = db \<and> ra < rb"
proof -
  have up: "x * B + r < y * B + q" if "x < y" "r < B" for x y r q :: nat
  proof -
    have "x * B + r < Suc x * B" using that(2) by simp
    also have "\<dots> \<le> y * B" using that(1) by (intro mult_le_mono1) simp
    finally show ?thesis by simp
  qed
  show ?thesis
    using up [of da db ra rb] up [of db da rb ra] assms by (cases da db rule: linorder_cases) auto
qed

text \<open>Comparing the low \<open>n\<close> bytes is comparing the values modulo \<open>256 ^ n\<close>.\<close>

lemma be_bytes_compare:
  "bytes_compare (be_bytes n a) (be_bytes n b) =
     (if unat a mod 256 ^ n < unat b mod 256 ^ n then -1
      else if unat b mod 256 ^ n < unat a mod 256 ^ n then 1 else 0)"
proof (induction n)
  case 0
  then show ?case by simp
next
  case (Suc n)
  define da db where "da = (unat a div 256 ^ n) mod 256" and "db = (unat b div 256 ^ n) mod 256"
  define ra rb where "ra = unat a mod 256 ^ n" and "rb = unat b mod 256 ^ n"
  have split: "unat a mod 256 ^ Suc n = da * 256 ^ n + ra" "unat b mod 256 ^ Suc n = db * 256 ^ n + rb"
    using mod_mult2_eq [of "unat a" "256 ^ n" 256] mod_mult2_eq [of "unat b" "256 ^ n" 256]
    by (simp_all add: da_def db_def ra_def rb_def mult.commute)
  have "ra < 256 ^ n" "rb < 256 ^ n" by (simp_all add: ra_def rb_def)
  then have less: "da * 256 ^ n + ra < db * 256 ^ n + rb \<longleftrightarrow> da < db \<or> da = db \<and> ra < rb"
      "db * 256 ^ n + rb < da * 256 ^ n + ra \<longleftrightarrow> db < da \<or> db = da \<and> rb < ra"
    by (simp_all only: digits_less_iff)
  have heads: "(ucast (drop_bit (8 * n) a) :: 8 word) < ucast (drop_bit (8 * n) b) \<longleftrightarrow> da < db"
      "(ucast (drop_bit (8 * n) b) :: 8 word) < ucast (drop_bit (8 * n) a) \<longleftrightarrow> db < da"
    by (simp_all add: word_less_nat_alt unat_digit da_def db_def)
  show ?case
    unfolding be_bytes.simps bytes_compare.simps heads split less Suc.IH ra_def [symmetric] rb_def [symmetric]
    by auto
qed

lemma uuid_compare_less [simp]: "bytes_compare (uuid_bytes a) (uuid_bytes b) < 0 \<longleftrightarrow> a < b"
proof -
  have "unat (uuid_val u) mod 256 ^ 16 = unat (uuid_val u)" for u
    using unsigned_less [of "uuid_val u", where ?'a = nat] by simp
  then show ?thesis
    by (simp add: uuid_bytes_def be_bytes_compare less_uuid_def word_less_nat_alt)
qed

subsection \<open>First occurrence wins\<close>

text \<open>
  The loop \<open>for x in xs { if seen[key(x)] { continue }; seen[key(x)] = {}; out = append(out, x) }\<close>,
  as it stands in \<open>dedupeUUIDs\<close>, \<open>dedupeOrderItemInputs\<close>, \<open>uniqueUUIDs\<close>,
  \<open>dedupeDiscountsByID\<close>, \<open>missingIDs\<close> and \<open>distinctPtrIDs\<close>.
\<close>

fun first_seen :: "('a \<Rightarrow> 'k) \<Rightarrow> 'k set \<Rightarrow> 'a list \<Rightarrow> 'a list" where
  "first_seen key seen [] = []"
| "first_seen key seen (x # xs) =
     (if key x \<in> seen then first_seen key seen xs
      else x # first_seen key (insert (key x) seen) xs)"

lemma keys_first_seen: "key ` set (first_seen key seen xs) = key ` set xs - seen"
  by (induction xs arbitrary: seen) auto

lemma set_first_seen_subset: "set (first_seen key seen xs) \<subseteq> set xs"
  by (induction xs arbitrary: seen) auto

lemma set_first_seen_id [simp]: "set (first_seen id seen xs) = set xs - seen"
  using keys_first_seen [of id seen xs] by simp

lemma distinct_first_seen: "distinct (map key (first_seen key seen xs))"
proof (induction xs arbitrary: seen)
  case (Cons x xs)
  have "key x \<notin> key ` set (first_seen key (insert (key x) seen) xs)"
    by (simp add: keys_first_seen)
  then show ?case using Cons.IH by simp
qed simp

lemma distinct_first_seen_id [simp]: "distinct (first_seen id seen xs)"
  using distinct_first_seen [of id seen xs] by simp

lemma subseq_first_seen: "subseq (first_seen key seen xs) xs"
  by (induction xs arbitrary: seen) auto

lemma first_seen_fresh:
  "distinct (map key xs) \<Longrightarrow> key ` set xs \<inter> seen = {} \<Longrightarrow> first_seen key seen xs = xs"
  by (induction xs arbitrary: seen) auto

lemma find_first_seen:
  "k \<notin> seen \<Longrightarrow> find (\<lambda>x. key x = k) (first_seen key seen xs) = find (\<lambda>x. key x = k) xs"
  by (induction xs arbitrary: seen) auto

subsection \<open>Go maps\<close>

text \<open>
  A Go map is an association list with one entry per key: \<open>m[k] = v\<close> is
  \<^const>\<open>AList.update\<close>, \<open>v, ok := m[k]\<close> is \<^const>\<open>map_of\<close>. The order in which \<open>range\<close>
  visits the keys is not part of the map: a loop whose outcome shows it takes a permutation of
  the keys as a parameter.
\<close>

type_synonym ('k, 'v) gomap = "('k \<times> 'v) list"

definition gomap_ok :: "('k, 'v) gomap \<Rightarrow> bool" where
  "gomap_ok m \<longleftrightarrow> distinct (map fst m)"

fun gomap_of :: "('k, 'v) gomap \<Rightarrow> ('k \<times> 'v) list \<Rightarrow> ('k, 'v) gomap" where
  "gomap_of m [] = m"
| "gomap_of m ((k, v) # kvs) = gomap_of (AList.update k v m) kvs"

lemma gomap_ok_Nil [simp]: "gomap_ok []"
  by (simp add: gomap_ok_def)

lemma gomap_ok_update [simp]: "gomap_ok m \<Longrightarrow> gomap_ok (AList.update k v m)"
  by (simp add: gomap_ok_def distinct_update)

lemma gomap_ok_of [simp]: "gomap_ok m \<Longrightarrow> gomap_ok (gomap_of m kvs)"
  by (induction m kvs rule: gomap_of.induct) simp_all

lemma map_of_gomap_of: "map_of (gomap_of m kvs) = map_of m ++ map_of (rev kvs)"
  by (induction m kvs rule: gomap_of.induct)
    (auto simp: fun_eq_iff update_conv map_add_def split: option.splits)

lemma keys_gomap_of: "fst ` set (gomap_of m kvs) = fst ` set m \<union> fst ` set kvs"
  by (induction m kvs rule: gomap_of.induct) (auto simp: dom_update)

subsection \<open>Payloads\<close>

text \<open>A JSON payload is its raw text with what \<open>json.Unmarshal\<close> makes of it (\<open>None\<close>: an error).\<close>

record 'a payload =
  payload_raw :: string
  payload_parsed :: "'a option"

end
