(* ===== verification/Effects.thy ===== *)
theory Effects
  imports Prelude
begin

text \<open>
  How the services' effects are written. A method is an action: it takes the service's state and
  returns an error or a value, with the new state. The state of every service extends the record
  \<open>io\<close>, which holds what the outside world decides: the outcome of each call that leaves the
  process (a database round trip, a publish to the Dapr sidecar, an HTTP request), the ids
  \<open>uuid.New()\<close> returns, the instants \<open>time.Now()\<close> returns, and the messages sent so far. The
  fields after \<open>io\<close> are the collections and tables the service owns.

  An outside call is answered, refused (an error, nothing happened) or its reply is lost (an error,
  but the effect took place); which of the three is scripted by \<open>faults\<close>, and every theorem
  quantifies over all scripts. An empty script answers every call.
\<close>

datatype fault = Answered | Refused | ReplyLost

record 'ev io =
  faults :: "fault list"
  outbox :: "'ev list"
  fresh :: "nat \<Rightarrow> uuid"
  minted :: nat
  clock :: "nat \<Rightarrow> time"
  reads :: nat

type_synonym ('s, 'e, 'a) act = "'s \<Rightarrow> ('e + 'a) \<times> 's"

subsection \<open>Combinators\<close>

definition ret :: "'a \<Rightarrow> ('s, 'e, 'a) act" where
  "ret x = (\<lambda>s. (Inr x, s))"

definition fail :: "'e \<Rightarrow> ('s, 'e, 'a) act" where
  "fail e = (\<lambda>s. (Inl e, s))"

text \<open>\<open>x, err := m(); if err != nil { return err }; k(x)\<close>\<close>

definition andThen :: "('s, 'e, 'a) act \<Rightarrow> ('a \<Rightarrow> ('s, 'e, 'b) act) \<Rightarrow> ('s, 'e, 'b) act" where
  "andThen m k = (\<lambda>s. case m s of (Inl e, s') \<Rightarrow> (Inl e, s') | (Inr x, s') \<Rightarrow> k x s')"

text \<open>\<open>x, err := m()\<close> with the error inspected by the caller.\<close>

definition attempt :: "('s, 'e, 'a) act \<Rightarrow> ('s, 'f, 'e + 'a) act" where
  "attempt m = (\<lambda>s. case m s of (r, s') \<Rightarrow> (Inr r, s'))"

text \<open>\<open>if err != nil { return wrap(err) }\<close>\<close>

definition map_err :: "('e \<Rightarrow> 'f) \<Rightarrow> ('s, 'e, 'a) act \<Rightarrow> ('s, 'f, 'a) act" where
  "map_err f m = (\<lambda>s. case m s of (Inl e, s') \<Rightarrow> (Inl (f e), s') | (Inr x, s') \<Rightarrow> (Inr x, s'))"

definition gets :: "('s \<Rightarrow> 'a) \<Rightarrow> ('s, 'e, 'a) act" where
  "gets f = (\<lambda>s. (Inr (f s), s))"

definition modify :: "('s \<Rightarrow> 's) \<Rightarrow> ('s, 'e, unit) act" where
  "modify f = (\<lambda>s. (Inr (), f s))"

text \<open>\<open>for _, x := range xs { if err := f(x); err != nil { return err } }\<close>\<close>

fun each :: "('x \<Rightarrow> ('s, 'e, unit) act) \<Rightarrow> 'x list \<Rightarrow> ('s, 'e, unit) act" where
  "each f [] = ret ()"
| "each f (x # xs) = andThen (f x) (\<lambda>_. each f xs)"

subsection \<open>Calls that leave the process\<close>

definition ext :: "'e \<Rightarrow> (('ev, 'x) io_scheme, 'e, 'a) act \<Rightarrow> (('ev, 'x) io_scheme, 'e, 'a) act" where
  "ext e m = (\<lambda>s. case faults s of
     [] \<Rightarrow> m s
   | Answered # fs \<Rightarrow> m (s\<lparr>faults := fs\<rparr>)
   | Refused # fs \<Rightarrow> (Inl e, s\<lparr>faults := fs\<rparr>)
   | ReplyLost # fs \<Rightarrow> (Inl e, snd (m (s\<lparr>faults := fs\<rparr>))))"

definition emit :: "'e \<Rightarrow> 'ev \<Rightarrow> (('ev, 'x) io_scheme, 'e, unit) act" where
  "emit e ev = ext e (modify (\<lambda>s. s\<lparr>outbox := outbox s @ [ev]\<rparr>))"

definition new_uuid :: "(('ev, 'x) io_scheme, 'e, uuid) act" where
  "new_uuid = (\<lambda>s. (Inr (fresh s (minted s)), s\<lparr>minted := Suc (minted s)\<rparr>))"

definition now :: "(('ev, 'x) io_scheme, 'e, time) act" where
  "now = (\<lambda>s. (Inr (clock s (reads s)), s\<lparr>reads := Suc (reads s)\<rparr>))"

text \<open>
  A database transaction. An error inside it, or a refused begin or commit, puts the owned tables
  back; what already left the process (the outbox, consumed ids and instants) stays.
\<close>

definition restore :: "('ev, 'x) io_scheme \<Rightarrow> ('ev, 'x) io_scheme \<Rightarrow> ('ev, 'x) io_scheme" where
  "restore s s' = io.more_update (\<lambda>_. io.more s) s'"

definition transaction :: "'e \<Rightarrow> 'e \<Rightarrow> (('ev, 'x) io_scheme, 'e, 'a) act \<Rightarrow> (('ev, 'x) io_scheme, 'e, 'a) act" where
  "transaction eBegin eCommit m = (\<lambda>s.
     case ext eBegin (ret ()) s of
       (Inl e, s1) \<Rightarrow> (Inl e, s1)
     | (Inr _, s1) \<Rightarrow>
         (case m s1 of
            (Inl e, s2) \<Rightarrow> (Inl e, restore s1 s2)
          | (Inr x, s2) \<Rightarrow>
              (case faults s2 of
                 [] \<Rightarrow> (Inr x, s2)
               | Answered # fs \<Rightarrow> (Inr x, s2\<lparr>faults := fs\<rparr>)
               | Refused # fs \<Rightarrow> (Inl eCommit, restore s1 (s2\<lparr>faults := fs\<rparr>))
               | ReplyLost # fs \<Rightarrow> (Inl eCommit, s2\<lparr>faults := fs\<rparr>))))"

subsection \<open>Running actions\<close>

lemma run_ret [run_simps]: "ret x s = (Inr x, s)"
  by (simp add: ret_def)

lemma run_fail [run_simps]: "fail e s = (Inl e, s)"
  by (simp add: fail_def)

lemma run_andThen: "andThen m k s = (case m s of (Inl e, s') \<Rightarrow> (Inl e, s') | (Inr x, s') \<Rightarrow> k x s')"
  by (simp add: andThen_def)

lemma run_andThen_Inr [run_simps]: "m s = (Inr x, s') \<Longrightarrow> andThen m k s = k x s'"
  by (simp add: andThen_def)

lemma run_andThen_Inl [run_simps]: "m s = (Inl e, s') \<Longrightarrow> andThen m k s = (Inl e, s')"
  by (simp add: andThen_def)

lemma run_attempt [run_simps]: "attempt m s = (Inr (fst (m s)), snd (m s))"
  by (simp add: attempt_def split: prod.split)

lemma run_map_err: "map_err f m s = (case m s of (Inl e, s') \<Rightarrow> (Inl (f e), s') | (Inr x, s') \<Rightarrow> (Inr x, s'))"
  by (simp add: map_err_def)

lemma run_map_err_Inr [run_simps]: "m s = (Inr x, s') \<Longrightarrow> map_err f m s = (Inr x, s')"
  by (simp add: map_err_def)

lemma run_map_err_Inl [run_simps]: "m s = (Inl e, s') \<Longrightarrow> map_err f m s = (Inl (f e), s')"
  by (simp add: map_err_def)

lemma map_err_InrE: "map_err f m s = (Inr x, s') \<Longrightarrow> (m s = (Inr x, s') \<Longrightarrow> P) \<Longrightarrow> P"
  by (auto simp: map_err_def split: prod.splits sum.splits)

lemma run_gets [run_simps]: "gets f s = (Inr (f s), s)"
  by (simp add: gets_def)

lemma run_modify [run_simps]: "modify f s = (Inr (), f s)"
  by (simp add: modify_def)

lemma run_new_uuid [run_simps]: "new_uuid s = (Inr (fresh s (minted s)), s\<lparr>minted := Suc (minted s)\<rparr>)"
  by (simp add: new_uuid_def)

lemma run_now [run_simps]: "now s = (Inr (clock s (reads s)), s\<lparr>reads := Suc (reads s)\<rparr>)"
  by (simp add: now_def)

lemma run_ext_quiet [run_simps]: "faults s = [] \<Longrightarrow> ext e m s = m s"
  by (simp add: ext_def)

lemma run_emit_quiet [run_simps]:
  "faults s = [] \<Longrightarrow> emit e ev s = (Inr (), s\<lparr>outbox := outbox s @ [ev]\<rparr>)"
  by (simp add: emit_def run_simps)

lemma ext_cases:
  obtains (answered) fs where "ext e m s = m (s\<lparr>faults := fs\<rparr>)"
  | (refused) fs where "ext e m s = (Inl e, s\<lparr>faults := fs\<rparr>)"
  | (lost) fs where "ext e m s = (Inl e, snd (m (s\<lparr>faults := fs\<rparr>)))"
proof (cases "faults s")
  case Nil
  then have "ext e m s = m (s\<lparr>faults := []\<rparr>)" by (cases s) (simp add: ext_def)
  then show ?thesis by (rule answered)
next
  case (Cons f fs)
  then show ?thesis
    using answered [of fs] refused [of fs] lost [of fs] by (cases f) (simp_all add: ext_def)
qed

lemma andThen_InrE:
  assumes "andThen m k s = (Inr y, s'')"
  obtains x s' where "m s = (Inr x, s')" "k x s' = (Inr y, s'')"
  using assms by (auto simp: andThen_def split: prod.splits sum.splits)

lemma attempt_case_InrE:
  assumes "andThen (attempt m) (\<lambda>r. case r of Inl e \<Rightarrow> fail (h e) | Inr x \<Rightarrow> k x) s = (Inr y, s')"
  obtains x s1 where "m s = (Inr x, s1)" "k x s1 = (Inr y, s')"
  using assms unfolding run_andThen run_attempt
  by (cases "m s"; cases "fst (m s)") (auto simp: run_fail)

lemma emit_run:
  assumes "emit e ev s = (r, s')"
  obtains (refused) fs where "r = Inl e" "s' = s\<lparr>faults := fs\<rparr>"
  | (sent) fs where "r = Inr () \<or> r = Inl e" "s' = s\<lparr>faults := fs, outbox := outbox s @ [ev]\<rparr>"
  using assms unfolding emit_def
  by (cases rule: ext_cases [of e "modify (\<lambda>s. s\<lparr>outbox := outbox s @ [ev]\<rparr>)" s]) (auto simp: modify_def)

subsection \<open>What every run of an action guarantees\<close>

text \<open>
  \<open>guar R m\<close>: whatever the outside world does, \<open>R\<close> relates the state before \<open>m\<close> to the
  state after it, on success and on error. Invariants are the relation
  \<open>keeping I\<close>; frame properties and monotonicity are other preorders.
\<close>

definition guar :: "('s \<Rightarrow> 's \<Rightarrow> bool) \<Rightarrow> ('s, 'e, 'a) act \<Rightarrow> bool" where
  "guar R m \<longleftrightarrow> (\<forall>s. R s (snd (m s)))"

definition keeping :: "('s \<Rightarrow> bool) \<Rightarrow> 's \<Rightarrow> 's \<Rightarrow> bool" where
  "keeping I s s' \<longleftrightarrow> (I s \<longrightarrow> I s')"

lemma guarI: "(\<And>s. R s (snd (m s))) \<Longrightarrow> guar R m"
  by (simp add: guar_def)

lemma guarD: "guar R m \<Longrightarrow> m s = (r, s') \<Longrightarrow> R s s'"
  unfolding guar_def by (metis snd_conv)

text \<open>The interface of such a relation: it composes, and the bookkeeping of \<open>io\<close> is inside it.\<close>

locale effect_rel =
  fixes R :: "('ev, 'x) io_scheme \<Rightarrow> ('ev, 'x) io_scheme \<Rightarrow> bool"
  assumes R_refl: "R s s"
    and R_trans: "R s t \<Longrightarrow> R t u \<Longrightarrow> R s u"
    and R_faults: "R s (s\<lparr>faults := fs\<rparr>)"
    and R_minted: "R s (s\<lparr>minted := n\<rparr>)"
    and R_reads: "R s (s\<lparr>reads := n\<rparr>)"
begin

lemma guar_ret [guar_intros]: "guar R (ret x)"
  by (simp add: guar_def ret_def R_refl)

lemma guar_fail [guar_intros]: "guar R (fail e)"
  by (simp add: guar_def fail_def R_refl)

lemma guar_gets [guar_intros]: "guar R (gets f)"
  by (simp add: guar_def gets_def R_refl)

lemma guar_new_uuid [guar_intros]: "guar R new_uuid"
  by (simp add: guar_def new_uuid_def R_minted)

lemma guar_now [guar_intros]: "guar R now"
  by (simp add: guar_def now_def R_reads)

lemma guar_modify: "(\<And>s. R s (f s)) \<Longrightarrow> guar R (modify f)"
  by (simp add: guar_def modify_def)

lemma guar_andThen [guar_intros]:
  assumes "guar R m" and "\<And>x. guar R (k x)"
  shows "guar R (andThen m k)"
proof (rule guarI)
  fix s
  show "R s (snd (andThen m k s))"
  proof (cases "m s")
    case (Pair r s')
    then have "R s s'" by (rule guarD [OF assms(1)])
    moreover have "R s' (snd (k x s'))" for x
      using assms(2) by (simp add: guar_def)
    ultimately show ?thesis
      using R_trans Pair by (cases r) (auto simp: andThen_def)
  qed
qed

lemma guar_attempt [guar_intros]: "guar R m \<Longrightarrow> guar R (attempt m)"
  by (simp add: guar_def run_attempt)

lemma guar_map_err [guar_intros]: "guar R m \<Longrightarrow> guar R (map_err f m)"
  by (auto simp: map_err_def split: prod.split sum.split intro!: guarI dest: guarD)

lemma guar_each [guar_intros]: "(\<And>x. guar R (f x)) \<Longrightarrow> guar R (each f xs)"
  by (induction xs) (auto intro: guar_ret guar_andThen)

lemma guar_ext [guar_intros]:
  assumes "guar R m"
  shows "guar R (ext e m)"
proof (rule guarI)
  fix s
  have "R s (snd (m (s\<lparr>faults := fs\<rparr>)))" for fs
    using assms R_trans [OF R_faults] by (auto simp: guar_def)
  then show "R s (snd (ext e m s))"
    by (cases rule: ext_cases [of e m s]) (simp_all add: R_faults)
qed

lemma guar_emit: "(\<And>s. R s (s\<lparr>outbox := outbox s @ [ev]\<rparr>)) \<Longrightarrow> guar R (emit e ev)"
  unfolding emit_def by (intro guar_ext guar_modify)

end

text \<open>Runs that only read: the tables, the outbox and the clock's readings are the same afterwards.\<close>

definition reading :: "('ev, 'x) io_scheme \<Rightarrow> ('ev, 'x) io_scheme \<Rightarrow> bool" where
  "reading s s' \<longleftrightarrow> io.more s' = io.more s \<and> outbox s' = outbox s \<and> clock s' = clock s"

interpretation reading: effect_rel reading
  by unfold_locales (auto simp: reading_def)

text \<open>A relation that also survives putting the tables back is kept by transactions.\<close>

locale effect_rel_tx = effect_rel R for R :: "('ev, 'x) io_scheme \<Rightarrow> ('ev, 'x) io_scheme \<Rightarrow> bool" +
  assumes R_restore: "R s t \<Longrightarrow> R s (restore s t)"
begin

lemma guar_transaction [guar_intros]:
  assumes "guar R m"
  shows "guar R (transaction eB eC m)"
proof (rule guarI)
  fix s :: "('ev, 'x) io_scheme"
  obtain r1 s1 where b: "ext eB (ret ()) s = (r1, s1)" by fastforce
  have 1: "R s s1" by (rule guarD [OF guar_ext [OF guar_ret] b])
  obtain r2 s2 where m: "m s1 = (r2, s2)" by fastforce
  have 2: "R s1 s2" by (rule guarD [OF assms m])
  have 3: "R s1 (s2\<lparr>faults := fs\<rparr>)" for fs by (rule R_trans [OF 2 R_faults])
  show "R s (snd (transaction eB eC m s))"
    using 1 R_trans [OF 1] 2 3 R_restore [OF 2] R_restore [OF 3]
    by (auto simp: transaction_def b m split: sum.split list.split fault.split)
qed

end

text \<open>Runs that send nothing.\<close>

definition mute :: "('ev, 'x) io_scheme \<Rightarrow> ('ev, 'x) io_scheme \<Rightarrow> bool" where
  "mute s s' \<longleftrightarrow> outbox s' = outbox s"

interpretation mute: effect_rel_tx mute
  by unfold_locales (auto simp: mute_def restore_def)

text \<open>The outcomes of a transaction, seen in the tables.\<close>

lemma restore_more [simp]: "io.more (restore s t) = io.more s"
  by (simp add: restore_def)

lemma restore_outbox [simp]: "outbox (restore s t) = outbox t"
  by (simp add: restore_def)

lemma transaction_run:
  assumes "transaction eB eC m s = (r, s')"
  obtains (kept) e where "r = Inl e" "io.more s' = io.more s"
  | (ran) x fs s2 where "m (s\<lparr>faults := fs\<rparr>) = (Inr x, s2)" "io.more s' = io.more s2" "r = Inr x \<or> r = Inl eC"
proof -
  obtain rb s1 where b: "ext eB (ret ()) s = (rb, s1)" by fastforce
  obtain fs where s1: "s1 = s\<lparr>faults := fs\<rparr>"
    using b by (cases rule: ext_cases [of eB "ret ()" s]) (auto simp: run_ret)
  obtain rm s2 where m: "m (s\<lparr>faults := fs\<rparr>) = (rm, s2)" by fastforce
  show thesis
  proof (cases rb)
    case (Inl e)
    then show ?thesis using assms kept s1 by (auto simp: transaction_def b)
  next
    case b2: (Inr u)
    show ?thesis
    proof (cases rm)
      case (Inl e)
      then show ?thesis using assms kept s1 b2 by (auto simp: transaction_def b m)
    next
      case (Inr x)
      then show ?thesis
        using assms kept ran m s1 b2 by (auto simp: transaction_def b split: list.splits fault.splits)
    qed
  qed
qed

text \<open>The same with the messages: what the body sent stays sent.\<close>

lemma transaction_outcomes:
  assumes "transaction eB eC m s = (r, s')"
  obtains (unbegun) fs where "r = Inl eB" "s' = s\<lparr>faults := fs\<rparr>"
  | (failed) fs e s2 where "m (s\<lparr>faults := fs\<rparr>) = (Inl e, s2)" "r = Inl e" "io.more s' = io.more s" "outbox s' = outbox s2"
  | (aborted) fs x s2 where "m (s\<lparr>faults := fs\<rparr>) = (Inr x, s2)" "r = Inl eC" "io.more s' = io.more s" "outbox s' = outbox s2"
  | (committed) fs x s2 where "m (s\<lparr>faults := fs\<rparr>) = (Inr x, s2)" "r = Inr x \<or> r = Inl eC"
      "io.more s' = io.more s2" "outbox s' = outbox s2"
proof -
  obtain rb s1 where b: "ext eB (ret ()) s = (rb, s1)" by fastforce
  obtain fs where s1: "s1 = s\<lparr>faults := fs\<rparr>" and rb: "rb = Inr () \<or> rb = Inl eB"
    using b by (cases rule: ext_cases [of eB "ret ()" s]) (auto simp: run_ret)
  obtain rm s2 where m: "m (s\<lparr>faults := fs\<rparr>) = (rm, s2)" by fastforce
  show thesis
  proof (cases rb)
    case (Inl e)
    then show ?thesis using assms rb unbegun s1 by (auto simp: transaction_def b)
  next
    case b2: (Inr u)
    show ?thesis
    proof (cases rm)
      case (Inl e)
      then show ?thesis using assms failed m s1 b2 by (auto simp: transaction_def b)
    next
      case (Inr x)
      then show ?thesis
        using assms aborted committed m s1 b2 by (auto simp: transaction_def b split: list.splits fault.splits)
    qed
  qed
qed

text \<open>An invariant of the owned tables alone gives such a relation.\<close>

locale table_invariant =
  fixes I :: "('ev, 'x) io_scheme \<Rightarrow> bool"
  assumes only_tables: "io.more s = io.more t \<Longrightarrow> I s = I t"
begin

lemma I_io [simp]:
  "I (s\<lparr>faults := fs\<rparr>) = I s" "I (s\<lparr>outbox := evs\<rparr>) = I s" "I (s\<lparr>minted := n\<rparr>) = I s" "I (s\<lparr>reads := n\<rparr>) = I s"
  by (rule only_tables; simp)+

lemma I_restore [simp]: "I (restore s t) = I s"
  by (rule only_tables) (simp add: restore_def)

end

sublocale table_invariant \<subseteq> effect_rel_tx "keeping I"
  by unfold_locales (simp_all add: keeping_def)

context table_invariant
begin

lemma guar_keeping_emit [guar_intros]: "guar (keeping I) (emit e ev)"
  by (rule guar_emit) (simp add: keeping_def)

lemma guar_keeping_modify: "(\<And>s. I s \<Longrightarrow> I (f s)) \<Longrightarrow> guar (keeping I) (modify f)"
  by (rule guar_modify) (simp add: keeping_def)

text \<open>Inside a transaction the invariant may be broken, as long as a body that succeeds restores it.\<close>

lemma guar_keeping_transaction:
  assumes "\<And>s x s'. m s = (Inr x, s') \<Longrightarrow> I s \<Longrightarrow> I s'"
  shows "guar (keeping I) (transaction eB eC m)"
proof (rule guarI)
  fix s :: "('ev, 'x) io_scheme"
  obtain r s' where run: "transaction eB eC m s = (r, s')" by fastforce
  then have "I s \<Longrightarrow> I s'"
  proof (cases rule: transaction_run)
    case (kept e)
    then show "I s \<Longrightarrow> I s'" using only_tables [OF kept(2)] by simp
  next
    case (ran x fs s2)
    then show "I s \<Longrightarrow> I s'" using assms [OF ran(1)] only_tables [OF ran(2)] by simp
  qed
  then show "keeping I s (snd (transaction eB eC m s))" by (simp add: keeping_def run)
qed

end

lemma keepingD: "guar (keeping I) m \<Longrightarrow> I s \<Longrightarrow> I (snd (m s))"
  by (simp add: guar_def keeping_def)

text \<open>Branching needs no law of the relation.\<close>

lemma guar_if [guar_intros]: "(b \<Longrightarrow> guar R m) \<Longrightarrow> (\<not> b \<Longrightarrow> guar R m') \<Longrightarrow> guar R (if b then m else m')"
  by simp

lemma guar_case_option [guar_intros]:
  "(x = None \<Longrightarrow> guar R m) \<Longrightarrow> (\<And>y. x = Some y \<Longrightarrow> guar R (k y)) \<Longrightarrow> guar R (case x of None \<Rightarrow> m | Some y \<Rightarrow> k y)"
  by (cases x) simp_all

lemma guar_case_sum [guar_intros]:
  "(\<And>e. x = Inl e \<Longrightarrow> guar R (h e)) \<Longrightarrow> (\<And>y. x = Inr y \<Longrightarrow> guar R (k y)) \<Longrightarrow>
     guar R (case x of Inl e \<Rightarrow> h e | Inr y \<Rightarrow> k y)"
  by (cases x) simp_all

lemma guar_case_prod [guar_intros]: "(\<And>a b. guar R (k a b)) \<Longrightarrow> guar R (case p of (a, b) \<Rightarrow> k a b)"
  by (cases p) simp

lemma guar_Let [guar_intros]: "guar R (k x) \<Longrightarrow> guar R (let y = x in k y)"
  by simp

end
