(* ===== verification/Collections.thy ===== *)
theory Collections
  imports Effects
begin

text \<open>
  The collections and tables a service owns are lists of documents in its state, in the order a
  scan returns them (any order: every theorem holds for every list). The services reach them
  through a fixed set of queries, whose filter and update documents are the functions passed
  here: \<open>find\<close>, \<open>findOne\<close>, \<open>insertOne\<close> with the unique \<open>_id\<close>,
  \<open>updateOne\<close>, \<open>updateMany\<close>, \<open>findOneAndUpdate\<close>, \<open>findOneAndDelete\<close>
  and an upsert. Each is one round trip, so each can be refused or lose its reply.

  \<open>get\<close> reads the collection in the state and \<open>upd\<close> is the record's update of that field.
\<close>

subsection \<open>Lists of documents\<close>

text \<open>Update the first match only.\<close>

fun map_first :: "('d \<Rightarrow> bool) \<Rightarrow> ('d \<Rightarrow> 'd) \<Rightarrow> 'd list \<Rightarrow> 'd list" where
  "map_first P f [] = []"
| "map_first P f (d # ds) = (if P d then f d # ds else d # map_first P f ds)"

definition map_all :: "('d \<Rightarrow> bool) \<Rightarrow> ('d \<Rightarrow> 'd) \<Rightarrow> 'd list \<Rightarrow> 'd list" where
  "map_all P f ds = map (\<lambda>d. if P d then f d else d) ds"

fun remove_first :: "('d \<Rightarrow> bool) \<Rightarrow> 'd list \<Rightarrow> 'd list" where
  "remove_first P [] = []"
| "remove_first P (d # ds) = (if P d then ds else d # remove_first P ds)"

lemma map_all_Nil [simp]: "map_all P f [] = []"
  and map_all_Cons [simp]: "map_all P f (d # ds) = (if P d then f d else d) # map_all P f ds"
  by (simp_all add: map_all_def)

lemma length_map_all [simp]: "length (map_all P f ds) = length ds"
  by (simp add: map_all_def)

lemma set_map_all: "set (map_all P f ds) = f ` {d \<in> set ds. P d} \<union> {d \<in> set ds. \<not> P d}"
  by (auto simp: map_all_def)

lemma map_all_none: "(\<And>d. d \<in> set ds \<Longrightarrow> \<not> P d) \<Longrightarrow> map_all P f ds = ds"
  by (induction ds) auto

lemma map_map_first: "(\<And>d. P d \<Longrightarrow> g (f d) = g d) \<Longrightarrow> map g (map_first P f ds) = map g ds"
  by (induction ds) auto

lemma map_map_all: "(\<And>d. g (f d) = g d) \<Longrightarrow> map g (map_all P f ds) = map g ds"
  by (induction ds) auto

lemma image_map_all: "(\<And>d. g (f d) = g d) \<Longrightarrow> g ` set (map_all P f ds) = g ` set ds"
  by (induction ds) auto

lemma find_by_key: "distinct (map key ds) \<Longrightarrow> d \<in> set ds \<Longrightarrow> find (\<lambda>r. key r = key d) ds = Some d"
  by (induction ds) (auto simp: image_iff)

lemma map_first_none: "find P ds = None \<Longrightarrow> map_first P f ds = ds"
  by (induction ds) (auto split: if_splits)

lemma set_map_first_subset: "set (map_first P f ds) \<subseteq> set ds \<union> f ` {d \<in> set ds. P d}"
  by (induction ds) auto

lemma find_map_first_same:
  "find P ds = Some d \<Longrightarrow> P (f d) \<Longrightarrow> find P (map_first P f ds) = Some (f d)"
  by (induction ds) (auto split: if_splits)

lemma find_map_first_other:
  "(\<And>d. Q d \<Longrightarrow> \<not> P d) \<Longrightarrow> (\<And>d. P d \<Longrightarrow> \<not> Q (f d)) \<Longrightarrow> find Q (map_first P f ds) = find Q ds"
  by (induction ds) (auto split: if_splits)

lemma map_first_eq_map_all:
  "distinct (map key ds) \<Longrightarrow> map_first (\<lambda>d. key d = k) f ds = map_all (\<lambda>d. key d = k) f ds"
proof (induction ds)
  case (Cons d ds)
  then show ?case
    by (cases "key d = k") (auto simp: image_iff intro!: map_all_none [symmetric])
qed simp

lemma set_remove_first_subset: "set (remove_first P ds) \<subseteq> set ds"
  by (induction ds) auto

lemma distinct_remove_first: "distinct (map key ds) \<Longrightarrow> distinct (map key (remove_first P ds))"
  by (induction ds) (use set_remove_first_subset in fastforce)+

lemma remove_first_filter:
  "distinct (map key ds) \<Longrightarrow> remove_first (\<lambda>d. key d = k) ds = filter (\<lambda>d. key d \<noteq> k) ds"
proof (induction ds)
  case (Cons d ds)
  then show ?case
    by (cases "key d = k") (auto simp: image_iff intro!: filter_True [symmetric])
qed simp

lemma find_Some_in: "find P xs = Some x \<Longrightarrow> x \<in> set xs \<and> P x"
  by (induction xs) (auto split: if_splits)

lemma find_key_eq:
  "distinct (map key ds) \<Longrightarrow> d \<in> set ds \<Longrightarrow> find (\<lambda>x. key x = key d) ds = Some d"
  by (induction ds) (auto simp: image_iff)

lemma find_append: "find P (xs @ ys) = (case find P xs of None \<Rightarrow> find P ys | Some x \<Rightarrow> Some x)"
  by (induction xs) auto

subsection \<open>Round trips\<close>

definition find_one ::
  "'e \<Rightarrow> 'e \<Rightarrow> (('ev, 'x) io_scheme \<Rightarrow> 'd list) \<Rightarrow> ('d \<Rightarrow> bool) \<Rightarrow> (('ev, 'x) io_scheme, 'e, 'd) act" where
  "find_one eDrv eNone get P = ext eDrv (\<lambda>s.
     case find P (get s) of None \<Rightarrow> (Inl eNone, s) | Some d \<Rightarrow> (Inr d, s))"

definition find_all ::
  "'e \<Rightarrow> (('ev, 'x) io_scheme \<Rightarrow> 'd list) \<Rightarrow> ('d \<Rightarrow> bool) \<Rightarrow> (('ev, 'x) io_scheme, 'e, 'd list) act" where
  "find_all eDrv get P = ext eDrv (gets (\<lambda>s. filter P (get s)))"

definition insert_one ::
  "'e \<Rightarrow> 'e \<Rightarrow> (('ev, 'x) io_scheme \<Rightarrow> 'd list) \<Rightarrow> (('d list \<Rightarrow> 'd list) \<Rightarrow> ('ev, 'x) io_scheme \<Rightarrow> ('ev, 'x) io_scheme) \<Rightarrow>
     ('d \<Rightarrow> 'k) \<Rightarrow> 'd \<Rightarrow> (('ev, 'x) io_scheme, 'e, unit) act" where
  "insert_one eDrv eDup get upd key d = ext eDrv (\<lambda>s.
     if key d \<in> key ` set (get s) then (Inl eDup, s) else (Inr (), upd (\<lambda>ds. ds @ [d]) s))"

definition update_one ::
  "'e \<Rightarrow> (('d list \<Rightarrow> 'd list) \<Rightarrow> ('ev, 'x) io_scheme \<Rightarrow> ('ev, 'x) io_scheme) \<Rightarrow> ('d \<Rightarrow> bool) \<Rightarrow> ('d \<Rightarrow> 'd) \<Rightarrow>
     (('ev, 'x) io_scheme, 'e, unit) act" where
  "update_one eDrv upd P f = ext eDrv (modify (upd (map_first P f)))"

definition update_many ::
  "'e \<Rightarrow> (('d list \<Rightarrow> 'd list) \<Rightarrow> ('ev, 'x) io_scheme \<Rightarrow> ('ev, 'x) io_scheme) \<Rightarrow> ('d \<Rightarrow> bool) \<Rightarrow> ('d \<Rightarrow> 'd) \<Rightarrow>
     (('ev, 'x) io_scheme, 'e, unit) act" where
  "update_many eDrv upd P f = ext eDrv (modify (upd (map_all P f)))"

text \<open>\<open>findOneAndUpdate\<close> with \<open>ReturnDocument(After)\<close>, \<open>UPDATE \<dots> RETURNING\<close>.\<close>

definition find_one_and_update ::
  "'e \<Rightarrow> 'e \<Rightarrow> (('ev, 'x) io_scheme \<Rightarrow> 'd list) \<Rightarrow> (('d list \<Rightarrow> 'd list) \<Rightarrow> ('ev, 'x) io_scheme \<Rightarrow> ('ev, 'x) io_scheme) \<Rightarrow>
     ('d \<Rightarrow> bool) \<Rightarrow> ('d \<Rightarrow> 'd) \<Rightarrow> (('ev, 'x) io_scheme, 'e, 'd) act" where
  "find_one_and_update eDrv eNone get upd P f = ext eDrv (\<lambda>s.
     case find P (get s) of
       None \<Rightarrow> (Inl eNone, s)
     | Some d \<Rightarrow> (Inr (f d), upd (map_first P f) s))"

definition find_one_and_delete ::
  "'e \<Rightarrow> 'e \<Rightarrow> (('ev, 'x) io_scheme \<Rightarrow> 'd list) \<Rightarrow> (('d list \<Rightarrow> 'd list) \<Rightarrow> ('ev, 'x) io_scheme \<Rightarrow> ('ev, 'x) io_scheme) \<Rightarrow>
     ('d \<Rightarrow> bool) \<Rightarrow> (('ev, 'x) io_scheme, 'e, 'd) act" where
  "find_one_and_delete eDrv eNone get upd P = ext eDrv (\<lambda>s.
     case find P (get s) of
       None \<Rightarrow> (Inl eNone, s)
     | Some d \<Rightarrow> (Inr d, upd (remove_first P) s))"

text \<open>Update the matching document, or insert a new one.\<close>

definition upsert_one ::
  "'e \<Rightarrow> (('ev, 'x) io_scheme \<Rightarrow> 'd list) \<Rightarrow> (('d list \<Rightarrow> 'd list) \<Rightarrow> ('ev, 'x) io_scheme \<Rightarrow> ('ev, 'x) io_scheme) \<Rightarrow>
     ('d \<Rightarrow> bool) \<Rightarrow> ('d \<Rightarrow> 'd) \<Rightarrow> 'd \<Rightarrow> (('ev, 'x) io_scheme, 'e, unit) act" where
  "upsert_one eDrv get upd P f d = ext eDrv (\<lambda>s.
     case find P (get s) of
       None \<Rightarrow> (Inr (), upd (\<lambda>ds. ds @ [d]) s)
     | Some _ \<Rightarrow> (Inr (), upd (map_first P f) s))"

lemmas round_trip_defs = find_one_def find_all_def insert_one_def update_one_def update_many_def
  find_one_and_update_def find_one_and_delete_def upsert_one_def

text \<open>Instants are stored as BSON datetimes, which keep milliseconds.\<close>

definition bson_time :: "time \<Rightarrow> time" where
  "bson_time t = t - t mod 1000000"

text \<open>The driver's \<open>SetLimit\<close>: zero is no limit, a negative limit counts like its magnitude.\<close>

definition bson_limit :: "int \<Rightarrow> 'a list \<Rightarrow> 'a list" where
  "bson_limit n xs = (if n = 0 then xs else take (nat \<bar>n\<bar>) xs)"

text \<open>An insert the server gives a fresh \<open>_id\<close> to.\<close>

definition insert_anon ::
  "'e \<Rightarrow> (('d list \<Rightarrow> 'd list) \<Rightarrow> ('ev, 'x) io_scheme \<Rightarrow> ('ev, 'x) io_scheme) \<Rightarrow> 'd \<Rightarrow> (('ev, 'x) io_scheme, 'e, unit) act" where
  "insert_anon eDrv upd d = ext eDrv (modify (upd (\<lambda>ds. ds @ [d])))"

text \<open>An ordered \<open>insertMany\<close> stops at the first duplicate.\<close>

fun insert_prefix :: "('d \<Rightarrow> 'k) \<Rightarrow> 'd list \<Rightarrow> 'd list \<Rightarrow> bool \<times> 'd list" where
  "insert_prefix key ds [] = (True, ds)"
| "insert_prefix key ds (d # new) =
     (if key d \<in> key ` set ds then (False, ds) else insert_prefix key (ds @ [d]) new)"

definition insert_many ::
  "'e \<Rightarrow> 'e \<Rightarrow> (('ev, 'x) io_scheme \<Rightarrow> 'd list) \<Rightarrow> (('d list \<Rightarrow> 'd list) \<Rightarrow> ('ev, 'x) io_scheme \<Rightarrow> ('ev, 'x) io_scheme) \<Rightarrow>
     ('d \<Rightarrow> 'k) \<Rightarrow> 'd list \<Rightarrow> (('ev, 'x) io_scheme, 'e, unit) act" where
  "insert_many eDrv eDup get upd key new = ext eDrv (\<lambda>s.
     case insert_prefix key (get s) new of
       (True, ds) \<Rightarrow> (Inr (), upd (\<lambda>_. ds) s)
     | (False, ds) \<Rightarrow> (Inl eDup, upd (\<lambda>_. ds) s))"

text \<open>\<open>if err == ErrNoDocuments { return nil, nil }\<close>\<close>

definition or_none :: "'e \<Rightarrow> ('s, 'e, 'a) act \<Rightarrow> ('s, 'e, 'a option) act" where
  "or_none eNone m = andThen (attempt m) (\<lambda>r.
     case r of Inl e \<Rightarrow> (if e = eNone then ret None else fail e) | Inr x \<Rightarrow> ret (Some x))"

lemma insert_prefix_distinct:
  "distinct (map key ds) \<Longrightarrow> insert_prefix key ds new = (b, ds') \<Longrightarrow> distinct (map key ds')"
  by (induction key ds new rule: insert_prefix.induct) (auto split: if_splits)

lemma insert_prefix_all: "insert_prefix key ds new = (True, ds') \<Longrightarrow> ds' = ds @ new"
  by (induction key ds new rule: insert_prefix.induct) (auto split: if_splits)

text \<open>The outcomes of a round trip under any script.\<close>

lemma find_one_run:
  assumes "find_one e1 e2 get P s = (Inr d, s')"
    and "\<And>t fs. get (t\<lparr>faults := fs\<rparr>) = get t"
  shows "find P (get s) = Some d \<and> (\<exists>fs. s' = s\<lparr>faults := fs\<rparr>)"
  using assms(1) assms(2) [where t = s] unfolding find_one_def
  by (cases rule: ext_cases [of e1 "\<lambda>s. case find P (get s) of None \<Rightarrow> (Inl e2, s) | Some d \<Rightarrow> (Inr d, s)" s])
    (auto split: option.splits)

lemma find_all_run:
  assumes "find_all e get P s = (Inr ds, s')" and "\<And>t fs. get (t\<lparr>faults := fs\<rparr>) = get t"
  shows "ds = filter P (get s) \<and> (\<exists>fs. s' = s\<lparr>faults := fs\<rparr>)"
  using assms(1) assms(2) [where t = s] unfolding find_all_def
  by (cases rule: ext_cases [of e "gets (\<lambda>s. filter P (get s))" s]) (auto simp: gets_def)

lemma update_one_run:
  assumes "update_one e upd P f s = (r, s')"
  obtains (refused) fs where "r = Inl e" "s' = s\<lparr>faults := fs\<rparr>"
  | (wrote) fs where "r = Inr () \<or> r = Inl e" "s' = upd (map_first P f) (s\<lparr>faults := fs\<rparr>)"
  using assms unfolding update_one_def
  by (cases rule: ext_cases [of e "modify (upd (map_first P f))" s]) (auto simp: modify_def)

lemma update_many_run:
  assumes "update_many e upd P f s = (r, s')"
  obtains (refused) fs where "r = Inl e" "s' = s\<lparr>faults := fs\<rparr>"
  | (wrote) fs where "r = Inr () \<or> r = Inl e" "s' = upd (map_all P f) (s\<lparr>faults := fs\<rparr>)"
  using assms unfolding update_many_def
  by (cases rule: ext_cases [of e "modify (upd (map_all P f))" s]) (auto simp: modify_def)

lemma ext_gets_run:
  "ext e (gets f) s = (Inr x, s') \<Longrightarrow> \<exists>fs. x = f (s\<lparr>faults := fs\<rparr>) \<and> s' = s\<lparr>faults := fs\<rparr>"
  by (cases rule: ext_cases [of e "gets f" s]) (auto simp: gets_def)

lemma insert_one_Inr:
  assumes "insert_one e1 e2 get upd key d s = (Inr (), s')"
  shows "\<exists>fs. s' = upd (\<lambda>ds. ds @ [d]) (s\<lparr>faults := fs\<rparr>) \<and> key d \<notin> key ` set (get (s\<lparr>faults := fs\<rparr>))"
  using assms unfolding insert_one_def
  by (cases rule: ext_cases [of e1 "\<lambda>s. if key d \<in> key ` set (get s) then (Inl e2, s) else (Inr (), upd (\<lambda>ds. ds @ [d]) s)" s])
    (auto split: if_splits)

text \<open>What each round trip needs of the relation it is to keep: reads nothing, writes their own update.\<close>

context effect_rel
begin

lemma guar_find_one [guar_intros]: "guar R (find_one e1 e2 get P)"
  unfolding find_one_def by (intro guar_ext guarI) (simp add: R_refl split: option.split)

lemma guar_find_all [guar_intros]: "guar R (find_all e get P)"
  unfolding find_all_def by (intro guar_ext guar_gets)

lemma guar_insert_one: "(\<And>s. R s (upd (\<lambda>ds. ds @ [d]) s)) \<Longrightarrow> guar R (insert_one e1 e2 get upd key d)"
  unfolding insert_one_def by (intro guar_ext guarI) (simp add: R_refl)

lemma guar_insert_anon: "(\<And>s. R s (upd (\<lambda>ds. ds @ [d]) s)) \<Longrightarrow> guar R (insert_anon e upd d)"
  unfolding insert_anon_def by (intro guar_ext guar_modify)

lemma guar_or_none [guar_intros]: "guar R m \<Longrightarrow> guar R (or_none e m)"
  unfolding or_none_def by (intro guar_intros)

lemma guar_update_one: "(\<And>s. R s (upd (map_first P f) s)) \<Longrightarrow> guar R (update_one e upd P f)"
  unfolding update_one_def by (intro guar_ext guar_modify)

lemma guar_update_many: "(\<And>s. R s (upd (map_all P f) s)) \<Longrightarrow> guar R (update_many e upd P f)"
  unfolding update_many_def by (intro guar_ext guar_modify)

lemma guar_find_one_and_update:
  "(\<And>s. R s (upd (map_first P f) s)) \<Longrightarrow> guar R (find_one_and_update e1 e2 get upd P f)"
  unfolding find_one_and_update_def by (intro guar_ext guarI) (simp add: R_refl split: option.split)

lemma guar_find_one_and_delete:
  "(\<And>s. R s (upd (remove_first P) s)) \<Longrightarrow> guar R (find_one_and_delete e1 e2 get upd P)"
  unfolding find_one_and_delete_def by (intro guar_ext guarI) (simp add: R_refl split: option.split)

lemma guar_upsert_one:
  "(\<And>s. R s (upd (map_first P f) s)) \<Longrightarrow> (\<And>s. R s (upd (\<lambda>ds. ds @ [d]) s)) \<Longrightarrow>
     guar R (upsert_one e get upd P f d)"
  unfolding upsert_one_def by (intro guar_ext guarI) (simp split: option.split)

end

text \<open>An insert meets the invariant knowing that the key was not there.\<close>

context table_invariant
begin

lemma guar_keeping_insert_one:
  "(\<And>s. I s \<Longrightarrow> key d \<notin> key ` set (get s) \<Longrightarrow> I (upd (\<lambda>ds. ds @ [d]) s)) \<Longrightarrow>
     guar (keeping I) (insert_one e1 e2 get upd key d)"
  unfolding insert_one_def by (intro guar_ext guarI) (simp add: keeping_def)

lemma guar_keeping_upsert_one:
  "(\<And>s. I s \<Longrightarrow> I (upd (map_first P f) s)) \<Longrightarrow>
   (\<And>s. I s \<Longrightarrow> find P (get s) = None \<Longrightarrow> I (upd (\<lambda>ds. ds @ [d]) s)) \<Longrightarrow>
     guar (keeping I) (upsert_one e get upd P f d)"
  unfolding upsert_one_def by (intro guar_ext guarI) (simp add: keeping_def split: option.split)

end

subsection \<open>A collection with unique keys\<close>

text \<open>
  The interface a service's collection gives: \<open>upd\<close> changes what \<open>get\<close> reads and nothing
  else of it. The client facts: no query duplicates a key, and reads leave the state alone up to
  the script.
\<close>

definition keys_unique :: "(('ev, 'x) io_scheme \<Rightarrow> 'd list) \<Rightarrow> ('d \<Rightarrow> 'k) \<Rightarrow> ('ev, 'x) io_scheme \<Rightarrow> bool" where
  "keys_unique get key s \<longleftrightarrow> distinct (map key (get s))"

locale collection =
  fixes get :: "('ev, 'x) io_scheme \<Rightarrow> 'd list"
    and upd :: "('d list \<Rightarrow> 'd list) \<Rightarrow> ('ev, 'x) io_scheme \<Rightarrow> ('ev, 'x) io_scheme"
    and key :: "'d \<Rightarrow> 'k"
  assumes get_upd: "get (upd f s) = f (get s)"
    and get_tables: "io.more s = io.more t \<Longrightarrow> get s = get t"
begin

lemma get_io [simp]:
  "get (s\<lparr>faults := fs\<rparr>) = get s" "get (s\<lparr>outbox := evs\<rparr>) = get s"
  "get (s\<lparr>minted := n\<rparr>) = get s" "get (s\<lparr>reads := n\<rparr>) = get s"
  using get_tables [of "s\<lparr>faults := fs\<rparr>" s] get_tables [of "s\<lparr>outbox := evs\<rparr>" s]
    get_tables [of "s\<lparr>minted := n\<rparr>" s] get_tables [of "s\<lparr>reads := n\<rparr>" s]
  by simp_all

end

sublocale collection \<subseteq> uniq: table_invariant "keys_unique get key"
  by unfold_locales (metis keys_unique_def get_tables)

context collection
begin

lemma unique_insert_one: "guar (keeping (keys_unique get key)) (insert_one e1 e2 get upd key d)"
  unfolding insert_one_def
  by (rule uniq.guar_ext) (auto simp: guar_def keeping_def keys_unique_def get_upd)

lemma unique_update_one:
  "(\<And>d. key (f d) = key d) \<Longrightarrow> guar (keeping (keys_unique get key)) (update_one e upd P f)"
  unfolding update_one_def
  by (rule uniq.guar_ext) (simp add: guar_def keeping_def keys_unique_def get_upd modify_def map_map_first)

lemma unique_update_many:
  "(\<And>d. key (f d) = key d) \<Longrightarrow> guar (keeping (keys_unique get key)) (update_many e upd P f)"
  unfolding update_many_def
  by (rule uniq.guar_ext) (simp add: guar_def keeping_def keys_unique_def get_upd modify_def map_map_all)

lemma unique_find_one_and_update:
  "(\<And>d. key (f d) = key d) \<Longrightarrow>
     guar (keeping (keys_unique get key)) (find_one_and_update e1 e2 get upd P f)"
  unfolding find_one_and_update_def
  by (rule uniq.guar_ext)
    (simp add: guar_def keeping_def keys_unique_def get_upd map_map_first split: option.split)

lemma unique_find_one_and_delete:
  "guar (keeping (keys_unique get key)) (find_one_and_delete e1 e2 get upd P)"
  unfolding find_one_and_delete_def
  by (rule uniq.guar_ext)
    (simp add: guar_def keeping_def keys_unique_def get_upd distinct_remove_first split: option.split)

lemma unique_insert_many: "guar (keeping (keys_unique get key)) (insert_many e1 e2 get upd key new)"
  unfolding insert_many_def
  by (rule uniq.guar_ext)
    (auto simp: guar_def keeping_def keys_unique_def get_upd split: prod.split bool.split dest: insert_prefix_distinct)

lemma unique_upsert_one:
  "(\<And>d. key (f d) = key d) \<Longrightarrow>
     guar (keeping (keys_unique get key)) (upsert_one e get upd (\<lambda>x. key x = key d) f d)"
  unfolding upsert_one_def
  by (rule uniq.guar_ext)
    (auto simp: guar_def keeping_def keys_unique_def get_upd map_map_first find_None_iff split: option.split)

end

end
