(* ===== verification/Go_Float.thy ===== *)
theory Go_Float
  imports Prelude Complex_Main "HOL-Library.Log_Nat"
begin

text \<open>
  Go's \<open>float64\<close>: IEEE 754 binary64 with round-to-nearest-even, executable over integers. A
  finite value is \<open>m * 2 ^ e\<close>, kept as the pair of integers; the sign of a zero is not
  represented (no code modelled here divides or looks at it). Products and sums of finite values
  are computed exactly and rounded once. The services multiply prices by discount factors, weights
  by quantities, and compare counters with configured limits; the lemmas bound what rounding can do
  there: rounding never passes a representable value.
\<close>

datatype f64 = Fin int int | PosInf | NegInf | NaN

subsection \<open>Rounding\<close>

text \<open>The nearest integer to \<open>a / d\<close>, ties to even.\<close>

definition rne :: "int \<Rightarrow> int \<Rightarrow> int" where
  "rne a d = (let q = a div d; r = a mod d in
     if 2 * r < d \<or> 2 * r = d \<and> even q then q else q + 1)"

definition round_mag :: "int \<Rightarrow> int \<Rightarrow> int \<times> int" where
  "round_mag a e = (let e' = max (- 1074) (e + bitlen a - 53) in
     if e' \<le> e then (a, e) else (rne a (2 ^ nat (e' - e)), e'))"

definition f64_round :: "int \<Rightarrow> int \<Rightarrow> f64" where
  "f64_round m e =
     (if m = 0 then Fin 0 0
      else let (q, e') = round_mag \<bar>m\<bar> e in
        if q \<noteq> 0 \<and> bitlen q + e' > 1024 then (if 0 < m then PosInf else NegInf)
        else Fin (sgn m * q) e')"

subsection \<open>Operations\<close>

fun f64_sgn :: "f64 \<Rightarrow> int" where
  "f64_sgn (Fin m e) = sgn m"
| "f64_sgn PosInf = 1"
| "f64_sgn NegInf = -1"
| "f64_sgn NaN = 0"

definition f64_inf :: "int \<Rightarrow> f64" where
  "f64_inf s = (if 0 < s then PosInf else if s < 0 then NegInf else NaN)"

fun f64_mul :: "f64 \<Rightarrow> f64 \<Rightarrow> f64" where
  "f64_mul (Fin m e) (Fin n d) = f64_round (m * n) (e + d)"
| "f64_mul NaN y = NaN"
| "f64_mul x NaN = NaN"
| "f64_mul x y = f64_inf (f64_sgn x * f64_sgn y)"

fun f64_add :: "f64 \<Rightarrow> f64 \<Rightarrow> f64" where
  "f64_add (Fin m e) (Fin n d) =
     (let k = min e d in f64_round (m * 2 ^ nat (e - k) + n * 2 ^ nat (d - k)) k)"
| "f64_add NaN y = NaN"
| "f64_add x NaN = NaN"
| "f64_add PosInf NegInf = NaN"
| "f64_add NegInf PosInf = NaN"
| "f64_add (Fin m e) y = y"
| "f64_add x y = x"

definition f64_of_int :: "int \<Rightarrow> f64" where
  "f64_of_int n = f64_round n 0"

fun f64_less :: "f64 \<Rightarrow> f64 \<Rightarrow> bool" where
  "f64_less (Fin m e) (Fin n d) =
     (let k = min e d in m * 2 ^ nat (e - k) < n * 2 ^ nat (d - k))"
| "f64_less NaN y = False"
| "f64_less x NaN = False"
| "f64_less PosInf y = False"
| "f64_less x PosInf = True"
| "f64_less NegInf NegInf = False"
| "f64_less NegInf y = True"
| "f64_less x NegInf = False"

text \<open>Every comparison with a NaN is false, so \<open>x >= y\<close> is not the negation of \<open>x < y\<close>.\<close>

definition f64_ge :: "f64 \<Rightarrow> f64 \<Rightarrow> bool" where
  "f64_ge x y \<longleftrightarrow> x \<noteq> NaN \<and> y \<noteq> NaN \<and> \<not> f64_less x y"

definition f64_is_nan :: "f64 \<Rightarrow> bool" where
  "f64_is_nan x \<longleftrightarrow> x = NaN"

text \<open>
  The conversion to an integer type drops the fraction. Go leaves the result of an out-of-range
  conversion (and of an infinity or a NaN) to the implementation: \<open>None\<close> here.
\<close>

fun f64_trunc :: "f64 \<Rightarrow> int option" where
  "f64_trunc (Fin m e) =
     Some (if 0 \<le> e then m * 2 ^ nat e else sgn m * (\<bar>m\<bar> div 2 ^ nat (- e)))"
| "f64_trunc x = None"

text \<open>
  \<open>oob\<close> is what the target machine yields out of range; nothing below depends on it.
\<close>

definition f64_to_u64 :: "(f64 \<Rightarrow> u64) \<Rightarrow> f64 \<Rightarrow> u64" where
  "f64_to_u64 oob x =
     (case f64_trunc x of
        Some n \<Rightarrow> if 0 \<le> n \<and> n < 2 ^ 64 then word_of_int n else oob x
      | None \<Rightarrow> oob x)"

definition f64_to_int :: "(f64 \<Rightarrow> int) \<Rightarrow> f64 \<Rightarrow> int" where
  "f64_to_int oob x =
     (case f64_trunc x of
        Some n \<Rightarrow> if - (2 ^ 63) \<le> n \<and> n < 2 ^ 63 then n else oob x
      | None \<Rightarrow> oob x)"

subsection \<open>Values and representable pairs\<close>

definition fin_val :: "int \<Rightarrow> int \<Rightarrow> real" where
  "fin_val m e = of_int m * 2 powi e"

definition f64_limit :: real where
  "f64_limit = 2 powi 1024"

fun f64_ok :: "f64 \<Rightarrow> bool" where
  "f64_ok (Fin m e) \<longleftrightarrow> \<bar>m\<bar> \<le> 2 ^ 53 \<and> - 1074 \<le> e \<and> \<bar>fin_val m e\<bar> < f64_limit"
| "f64_ok _ \<longleftrightarrow> True"

lemma powi_shift: "e \<le> e' \<Longrightarrow> (2 :: real) powi e' = 2 ^ nat (e' - e) * 2 powi e"
  by (metis add.commute diff_add_cancel diff_ge_0_iff_ge power_int_add power_int_of_nat
      nat_0_le zero_neq_numeral of_nat_0_le_iff power_int_nonneg_exp)

lemma fin_val_shift: "e \<le> e' \<Longrightarrow> fin_val m e' = fin_val (m * 2 ^ nat (e' - e)) e"
  by (simp add: fin_val_def powi_shift)

lemma fin_val_le_iff: "fin_val m e \<le> fin_val n e \<longleftrightarrow> m \<le> n"
  by (simp add: fin_val_def)

lemma fin_val_less_iff: "fin_val m e < fin_val n e \<longleftrightarrow> m < n"
  by (simp add: fin_val_def)

lemma fin_val_0 [simp]: "fin_val 0 e = 0"
  by (simp add: fin_val_def)

lemma fin_val_mult: "fin_val (m * n) (e + d) = fin_val m e * fin_val n d"
  by (simp add: fin_val_def power_int_add)

lemma fin_val_nonneg_iff [simp]: "0 \<le> fin_val m e \<longleftrightarrow> 0 \<le> m"
proof -
  have "(0 :: real) < 2 powi e" by simp
  then show ?thesis by (auto simp: fin_val_def zero_le_mult_iff simp del: zero_less_power_int)
qed

lemma f64_less_val: "f64_less (Fin m e) (Fin n d) \<longleftrightarrow> fin_val m e < fin_val n d"
proof -
  define k where "k = min e d"
  have "fin_val m e = fin_val (m * 2 ^ nat (e - k)) k" "fin_val n d = fin_val (n * 2 ^ nat (d - k)) k"
    by (simp_all add: k_def fin_val_shift)
  then show ?thesis
    by (simp add: fin_val_less_iff k_def [symmetric] Let_def)
qed

subsection \<open>Rounding never passes a representable value\<close>

lemma rne_le:
  assumes "0 < d" and "a \<le> z * d"
  shows "rne a d \<le> z"
proof (cases "a mod d = 0")
  case True
  then have "a div d * d \<le> z * d"
    using assms by (metis add.right_neutral div_mult_mod_eq)
  then have "a div d \<le> z"
    using assms(1) by (simp only: mult_le_cancel_right_pos)
  with True assms(1) show ?thesis by (simp add: rne_def)
next
  case False
  then have "0 < a mod d"
    using pos_mod_sign [OF assms(1), of a] by simp
  then have "a div d * d < z * d"
    using assms(2) div_mult_mod_eq [of a d] by linarith
  then have "a div d < z"
    using assms(1) by (simp only: mult_less_cancel_right_pos)
  then show ?thesis by (simp add: rne_def Let_def)
qed

lemma rne_nonneg: "0 \<le> a \<Longrightarrow> 0 < d \<Longrightarrow> 0 \<le> rne a d"
  by (simp add: rne_def Let_def pos_imp_zdiv_nonneg_iff add_nonneg_nonneg)

lemma round_mag_eq:
  assumes "r = max (- 1074) (e + bitlen a - 53)"
  shows "round_mag a e = (if r \<le> e then (a, e) else (rne a (2 ^ nat (r - e)), r))"
  by (simp only: round_mag_def assms Let_def)

lemma round_mag_ok:
  assumes "0 < a" and "round_mag a e = (q, e')"
  shows "0 \<le> q \<and> q \<le> 2 ^ 53 \<and> - 1074 \<le> e'"
proof -
  define r where "r = max (- 1074) (e + bitlen a - 53)"
  have a: "a < 2 ^ nat (bitlen a)" using bitlen_bounds [OF assms(1)] by simp
  have bl: "0 \<le> bitlen a" by (rule bitlen_nonneg)
  show ?thesis
  proof (cases "r \<le> e")
    case True
    then have "q = a" "e' = e" using assms(2) by (simp_all add: round_mag_eq [OF r_def])
    moreover have "nat (bitlen a) \<le> 53" using True by (simp add: r_def nat_le_iff)
    moreover from this have "(2 :: int) ^ nat (bitlen a) \<le> 2 ^ 53"
      by (intro power_increasing) simp_all
    ultimately show ?thesis using a assms(1) True by (simp add: r_def)
  next
    case False
    then have q: "q = rne a (2 ^ nat (r - e))" and e': "e' = r"
      using assms(2) by (auto simp: round_mag_eq [OF r_def])
    have "nat (bitlen a) \<le> 53 + nat (r - e)"
      using False by (simp add: r_def)
    then have "(2 :: int) ^ nat (bitlen a) \<le> 2 ^ (53 + nat (r - e))"
      by (intro power_increasing) simp_all
    then have "a \<le> 2 ^ 53 * 2 ^ nat (r - e)"
      using a by (simp add: power_add)
    then have "q \<le> 2 ^ 53"
      unfolding q by (intro rne_le) simp_all
    moreover have "0 \<le> q"
      unfolding q using assms(1) by (intro rne_nonneg) simp_all
    ultimately show ?thesis by (simp add: e' r_def)
  qed
qed

lemma round_mag_le:
  assumes a: "0 < a" and rm: "round_mag a e = (q, e')"
    and y: "k \<le> 2 ^ 53" "- 1074 \<le> j" and le: "fin_val a e \<le> fin_val k j"
  shows "fin_val q e' \<le> fin_val k j"
proof -
  define r where "r = max (- 1074) (e + bitlen a - 53)"
  have rounded: "fin_val q e' \<le> fin_val z r"
    if "\<not> r \<le> e" "fin_val a e \<le> fin_val z r" for z
  proof -
    from that have "a \<le> z * 2 ^ nat (r - e)"
      by (simp add: fin_val_shift [of e r] fin_val_le_iff)
    then have "rne a (2 ^ nat (r - e)) \<le> z" by (intro rne_le) simp_all
    then show ?thesis
      using rm that(1) by (auto simp: round_mag_eq [OF r_def] fin_val_le_iff)
  qed
  show ?thesis
  proof (cases "r \<le> e")
    case True
    then show ?thesis using rm le by (simp add: round_mag_eq [OF r_def])
  next
    case False
    show ?thesis
    proof (cases "r \<le> j")
      case True
      then show ?thesis
        using rounded [OF False, of "k * 2 ^ nat (j - r)"] le by (simp add: fin_val_shift [of r j])
    next
      case j: False
      then have r: "r = e + bitlen a - 53" using y(2) by (simp add: r_def)
      have pow: "(2 :: int) ^ nat (bitlen a - 1) \<le> a" using bitlen_bounds [OF a] by simp
      have "nat (bitlen a - 1) = nat (r - e) + 52" using False by (simp add: r)
      with pow have "2 ^ 52 * 2 ^ nat (r - e) \<le> a" by (simp add: power_add)
      then have top: "fin_val (2 ^ 52) r \<le> fin_val a e"
        using False by (simp add: fin_val_shift [of e r] fin_val_le_iff)
      have "fin_val k j \<le> fin_val (2 ^ 53) j"
        using y(1) by (simp only: fin_val_le_iff)
      also have "\<dots> \<le> fin_val (2 ^ 53) (r - 1)"
        using j by (simp add: fin_val_def power_int_increasing)
      also have "\<dots> = fin_val (2 ^ 52) r"
        by (simp add: fin_val_shift [of "r - 1" r])
      finally have "fin_val k j \<le> fin_val (2 ^ 52) r" .
      with le have "fin_val q e' \<le> fin_val (2 ^ 52) r"
        by (intro rounded [OF False]) simp
      with top le show ?thesis by linarith
    qed
  qed
qed

lemma overflow_val:
  assumes "0 < q" and "bitlen q + e > 1024"
  shows "f64_limit \<le> fin_val q e"
proof -
  have "2 ^ nat (bitlen q - 1) \<le> q" using bitlen_bounds [OF assms(1)] by simp
  moreover have "1 \<le> bitlen q" using assms(1) bitlen_eq_zero_iff [of q] bitlen_nonneg [of q] by linarith
  ultimately have "(2 :: real) powi (bitlen q - 1) \<le> of_int q"
    by (metis diff_ge_0_iff_ge nat_0_le of_int_le_iff of_int_numeral of_int_power power_int_of_nat)
  then have "(2 :: real) powi (bitlen q - 1) * 2 powi e \<le> fin_val q e"
    by (simp add: fin_val_def)
  moreover have "f64_limit \<le> 2 powi (bitlen q - 1 + e)"
    unfolding f64_limit_def using assms(2) by (intro power_int_increasing) simp_all
  ultimately show ?thesis by (simp add: power_int_add)
qed

lemma f64_round_le:
  assumes "0 \<le> m" and y: "f64_ok (Fin k j)" and le: "fin_val m e \<le> fin_val k j"
  obtains q e' where "f64_round m e = Fin q e'" "0 \<le> q" "f64_ok (Fin q e')" "fin_val q e' \<le> fin_val k j"
proof (cases "m = 0")
  case True
  then show ?thesis
    using that [of 0 0] le by (simp add: f64_round_def f64_limit_def)
next
  case False
  with assms(1) have m: "0 < m" by simp
  obtain q e' where rm: "round_mag m e = (q, e')" by fastforce
  note ok = round_mag_ok [OF m rm]
  have k: "k \<le> 2 ^ 53" "- 1074 \<le> j" "fin_val k j < f64_limit"
    using y by auto
  have val: "fin_val q e' \<le> fin_val k j"
    by (rule round_mag_le [OF m rm k(1,2) le])
  have "\<not> (q \<noteq> 0 \<and> bitlen q + e' > 1024)"
    using overflow_val [of q e'] val k(3) ok by (cases "q = 0") auto
  then have "f64_round m e = Fin q e'"
    using m rm by (auto simp: f64_round_def)
  moreover have "0 \<le> fin_val q e'" using ok by simp
  ultimately show ?thesis
    using that ok val k(3) by simp
qed

text \<open>Scaling by a factor in \<open>[0, 1]\<close> does not increase a value, rounding included.\<close>

lemma f64_mul_unit:
  assumes "0 \<le> m" "f64_ok (Fin m e)" "0 \<le> n" "fin_val n d \<le> 1"
  obtains q e' where "f64_mul (Fin m e) (Fin n d) = Fin q e'" "0 \<le> q" "f64_ok (Fin q e')"
    "fin_val q e' \<le> fin_val m e"
proof -
  have "fin_val (m * n) (e + d) \<le> fin_val m e"
    unfolding fin_val_mult using assms by (intro mult_right_le_one_le) simp_all
  then show ?thesis
    using f64_round_le [of "m * n" m e "e + d"] assms that by auto
qed

lemma f64_trunc_floor:
  assumes "0 \<le> m"
  shows "f64_trunc (Fin m e) = Some \<lfloor>fin_val m e\<rfloor>"
proof (cases "0 \<le> e")
  case True
  then have "fin_val m e = of_int (m * 2 ^ nat e)"
    by (simp add: fin_val_def power_int_def)
  with True show ?thesis by (simp only: f64_trunc.simps floor_of_int if_True)
next
  case False
  then have "(2 :: real) powi e = inverse (of_int (2 ^ nat (- e)))"
    by (simp only: power_int_def if_False power_inverse of_int_power of_int_numeral)
  then have "fin_val m e = of_int m / of_int (2 ^ nat (- e))"
    by (simp only: fin_val_def divide_inverse)
  then have val: "\<lfloor>fin_val m e\<rfloor> = m div 2 ^ nat (- e)"
    by (simp only: floor_divide_of_int_eq)
  have "sgn m * (\<bar>m\<bar> div D) = m div D" for D
    using assms by (auto simp: sgn_if)
  then show ?thesis using False by (simp only: f64_trunc.simps val if_False)
qed

lemma f64_of_int_exact:
  assumes "\<bar>n\<bar> < 2 ^ 53"
  shows "f64_of_int n = Fin n 0"
proof -
  have "bitlen \<bar>n\<bar> \<le> 53" using assms by (simp add: bitlen_le_iff_power)
  then show ?thesis
    by (auto simp: f64_of_int_def f64_round_def round_mag_eq [OF refl] sgn_mult_abs)
qed

end
