(* ===== verification/Order_Store.thy ===== *)
theory Order_Store
  imports Collections Go_Float
begin

text \<open>
  \<open>order/store\<close>: the documents of the order database, its collections as the service's state,
  and one action per store method. Instants are stored as BSON datetimes, which keep milliseconds;
  the driver's \<open>limit(0)\<close> means no limit.
\<close>

subsection \<open>Documents\<close>

record OUser =
  ouser_ID :: uuid
  ouser_UserAddressIDs :: "uuid list"

record UUIDRef =
  ref_ID :: uuid

record ProductVariantVersion =
  pvv_ID :: uuid
  pvv_Price :: u32
  pvv_TaxRateID :: uuid

text \<open>
  \<open>is_publicly_visible\<close> is \<open>any\<close>: a bool on the create path, a string after an update event.
\<close>

datatype visibility = BsonBool bool | BsonString string | BsonOther

record ProductVariant =
  pv_ID :: uuid
  pv_CurrentVersion :: ProductVariantVersion
  pv_IsPubliclyVisible :: visibility

fun bson_is_true :: "visibility \<Rightarrow> bool" where
  "bson_is_true (BsonBool b) = b"
| "bson_is_true _ = False"

definition IsVisible :: "ProductVariant \<Rightarrow> bool" where
  "IsVisible p = bson_is_true (pv_IsPubliclyVisible p)"

record TaxRateVersion =
  trv_ID :: uuid
  trv_Rate :: f64
  trv_Version :: u32

record TaxRate =
  tr_ID :: uuid
  tr_CurrentVersion :: TaxRateVersion

record ODiscount =
  od_ID :: uuid
  od_Discount :: f64

record OrderItem =
  oi_ID :: uuid
  oi_CreatedAt :: time
  oi_ProductVariant :: ProductVariant
  oi_ProductVariantVersion :: ProductVariantVersion
  oi_TaxRateVersion :: TaxRateVersion
  oi_ShoppingCartItem :: UUIDRef
  oi_Count :: u64
  oi_CompensatableAmount :: u64
  oi_ShipmentMethod :: UUIDRef
  oi_InternalDiscounts :: "ODiscount list"

record Order =
  o_ID :: uuid
  o_User :: OUser
  o_CreatedAt :: time
  o_OrderStatus :: string
  o_PlacedAt :: "time option"
  o_RejectionReason :: "string option"
  o_InternalOrderItems :: "OrderItem list"
  o_ShipmentAddress :: UUIDRef
  o_InvoiceAddress :: UUIDRef
  o_CompensatableOrderAmount :: u64
  o_PaymentInformationID :: uuid
  o_VatNumber :: "string option"

text \<open>
  A Go slice that may be nil (\<open>None\<close>) as well as empty. The BSON encoder writes a nil slice as
  \<open>null\<close> and the JSON decoder leaves an absent or null field nil, so the two are told apart where a
  slice can be nil; every other slice of the code is made with \<open>make\<close> and is a list here.
\<close>

type_synonym 'a slice = "'a list option"

definition elems :: "'a slice \<Rightarrow> 'a list" where
  "elems xs = (case xs of None \<Rightarrow> [] | Some ys \<Rightarrow> ys)"

text \<open>\<open>var xs []T\<close> followed by appends: nil as long as nothing was appended.\<close>

definition appended :: "'a list \<Rightarrow> 'a slice" where
  "appended xs = (if xs = [] then None else Some xs)"

lemma elems_simps [simp]: "elems (Some xs) = xs" "elems None = []" "elems (appended xs) = xs"
  by (simp_all add: elems_def appended_def)

record OrderCompensation =
  oc_ID :: uuid
  oc_OrderID :: uuid
  oc_OrderItemIDs :: "uuid slice"
  oc_TriggeredAt :: time
  oc_AmountToCompensate :: u64

subsection \<open>Event payloads\<close>

record PaymentAuthorization =
  pa_CVC :: u16

record OrderItemDTO =
  oid_ID :: uuid
  oid_CreatedAt :: time
  oid_ProductVariantID :: uuid
  oid_ProductVariantVersionID :: uuid
  oid_TaxRateVersionID :: uuid
  oid_ShoppingCartItemID :: uuid
  oid_Count :: u64
  oid_CompensatableAmount :: u64
  oid_ShipmentMethodID :: uuid
  oid_DiscountIDs :: "uuid list"

record OrderDTO =
  odto_ID :: uuid
  odto_UserID :: uuid
  odto_CreatedAt :: time
  odto_OrderStatus :: string
  odto_PlacedAt :: time
  odto_RejectionReason :: "string option"
  odto_OrderItems :: "OrderItemDTO list"
  odto_ShipmentAddressID :: uuid
  odto_InvoiceAddressID :: uuid
  odto_CompensatableOrderAmount :: u64
  odto_PaymentInformationID :: uuid
  odto_PaymentAuthorization :: "PaymentAuthorization option"
  odto_VatNumber :: "string option"

record OrderCompensationDTO =
  ocd_ID :: uuid
  ocd_AmountToCompensate :: u64

datatype order_event = OrderCreated OrderDTO | OrderCompensationCreated OrderCompensationDTO

subsection \<open>State and errors\<close>

record order_db = "order_event io" +
  orders :: "Order list"
  orderItems :: "OrderItem list"
  users :: "OUser list"
  productVariants :: "ProductVariant list"
  taxRates :: "TaxRate list"
  coupons :: "UUIDRef list"
  shipmentMethods :: "UUIDRef list"
  orderCompensations :: "OrderCompensation list"

datatype order_err =
    DriverError
  | ErrNoDocuments
  | DuplicateKey
  | TransportError
  | OrderNotFound uuid
  | OrderItemNotFound uuid
  | UserNotFound uuid
  | NoAuthHeader
  | AuthFailed uuid
  | NotPending string
  | RejectFailed uuid
  | WasRejected uuid
  | PlacedAtMissing
  | InsertOrderFailed
  | NotPresentSystem string
  | NotPresent string uuid
  | UserAddressNotFound uuid uuid
  | NegativeFirst
  | NegativeSkip
  | RetrieveOrdersFailed
  | NotVerified "uuid slice"
  | InsertCompensationFailed
  | ProductVariantsNotFound "uuid list"
  | TaxRatesNotFound "uuid list"
  | HashMapError uuid
  | ResponseEmpty string
  | NoUserEntity
  | EntityNotParsed
  | NotAvailable
  | DiscountsMissing uuid
  | GqlErrors string

type_synonym 'a order_act = "(order_db, order_err, 'a) act"

definition bson_item :: "OrderItem \<Rightarrow> OrderItem" where
  "bson_item i = i\<lparr>oi_CreatedAt := bson_time (oi_CreatedAt i)\<rparr>"

definition bson_order :: "Order \<Rightarrow> Order" where
  "bson_order o' = o'\<lparr>o_CreatedAt := bson_time (o_CreatedAt o'),
     o_PlacedAt := map_option bson_time (o_PlacedAt o'),
     o_InternalOrderItems := map bson_item (o_InternalOrderItems o')\<rparr>"

subsection \<open>Store methods: orders\<close>

definition GetOrder :: "uuid \<Rightarrow> Order order_act" where
  "GetOrder i = find_one DriverError ErrNoDocuments orders (\<lambda>o'. o_ID o' = i)"

definition GetUser :: "uuid \<Rightarrow> OUser order_act" where
  "GetUser i = find_one DriverError ErrNoDocuments users (\<lambda>u. ouser_ID u = i)"

definition GetOrderItemFromCollection :: "uuid \<Rightarrow> OrderItem order_act" where
  "GetOrderItemFromCollection i = find_one DriverError ErrNoDocuments orderItems (\<lambda>it. oi_ID it = i)"

definition GetOrderByEmbeddedItemID :: "uuid \<Rightarrow> Order order_act" where
  "GetOrderByEmbeddedItemID i = find_one DriverError ErrNoDocuments orders
     (\<lambda>o'. list_ex (\<lambda>it. oi_ID it = i) (o_InternalOrderItems o'))"

definition ValidateObjectUser :: "uuid \<Rightarrow> unit order_act" where
  "ValidateObjectUser i =
     andThen (find_one DriverError ErrNoDocuments users (\<lambda>u. ouser_ID u = i)) (\<lambda>_. ret ())"

text \<open>
  A find whose filter holds \<open>{$in: ids}\<close>: MongoDB answers a null operand with an error
  (\<open>$in needs an array\<close>) and returns no documents.
\<close>

definition find_in :: "(order_db \<Rightarrow> 'd list) \<Rightarrow> uuid slice \<Rightarrow> (uuid list \<Rightarrow> 'd \<Rightarrow> bool) \<Rightarrow> 'd list order_act" where
  "find_in coll ids P =
     (case ids of
        None \<Rightarrow> ext DriverError (fail DriverError)
      | Some is \<Rightarrow> find_all DriverError coll (P is))"

text \<open>The ids found are returned as a set in the source; it is only asked for membership.\<close>

definition presentIDs :: "(order_db \<Rightarrow> UUIDRef list) \<Rightarrow> uuid slice \<Rightarrow> uuid set order_act" where
  "presentIDs coll ids =
     andThen (find_in coll ids (\<lambda>is r. ref_ID r \<in> set is)) (\<lambda>refs. ret (set (map ref_ID refs)))"

definition ShipmentMethodsPresent :: "uuid slice \<Rightarrow> uuid set order_act" where
  "ShipmentMethodsPresent = presentIDs shipmentMethods"

definition CouponsPresent :: "uuid slice \<Rightarrow> uuid set order_act" where
  "CouponsPresent = presentIDs coupons"

definition GetProductVariants :: "uuid list \<Rightarrow> (uuid, ProductVariant) gomap order_act" where
  "GetProductVariants ids =
     andThen (find_all DriverError productVariants (\<lambda>p. pv_ID p \<in> set ids))
       (\<lambda>pvs. ret (gomap_of [] (map (\<lambda>p. (pv_ID p, p)) pvs)))"

definition GetTaxRates :: "uuid list \<Rightarrow> (uuid, TaxRate) gomap order_act" where
  "GetTaxRates ids =
     andThen (find_all DriverError taxRates (\<lambda>t. tr_ID t \<in> set ids))
       (\<lambda>trs. ret (gomap_of [] (map (\<lambda>t. (tr_ID t, t)) trs)))"

definition InsertOrder :: "Order \<Rightarrow> Order order_act" where
  "InsertOrder o' =
     andThen (insert_one DriverError DuplicateKey orders orders_update o_ID (bson_order o'))
       (\<lambda>_. GetOrder (o_ID o'))"

definition SetStatusPlaced :: "uuid \<Rightarrow> time \<Rightarrow> unit order_act" where
  "SetStatusPlaced i ts = update_one DriverError orders_update (\<lambda>o'. o_ID o' = i)
     (\<lambda>o'. o'\<lparr>o_OrderStatus := ''PLACED'', o_PlacedAt := Some (bson_time ts)\<rparr>)"

definition SetStatusRejected :: "uuid \<Rightarrow> unit order_act" where
  "SetStatusRejected i = update_one DriverError orders_update (\<lambda>o'. o_ID o' = i)
     (\<lambda>o'. o'\<lparr>o_OrderStatus := ''REJECTED''\<rparr>)"

record OrdersPage =
  op_Nodes :: "Order list"
  op_TotalCount :: int
  op_HasNextPage :: bool

text \<open>
  The value a document is sorted by; \<open>name\<close> and \<open>last_updated_at\<close> do not exist on it, and
  \<open>user._id\<close> is the same on all orders of a user.
\<close>

definition sort_value :: "string \<Rightarrow> Order \<Rightarrow> int" where
  "sort_value f o' =
     (if f = ''_id'' then uint (uuid_val (o_ID o'))
      else if f = ''user._id'' then uint (uuid_val (ouser_ID (o_User o')))
      else if f = ''created_at'' then o_CreatedAt o'
      else 0)"

definition ListOrdersByUser ::
  "uuid \<Rightarrow> string \<Rightarrow> int \<Rightarrow> int option \<Rightarrow> int option \<Rightarrow> OrdersPage order_act" where
  "ListOrdersByUser userID sortField direction skip first =
     andThen (ext DriverError (gets (\<lambda>s. int (length (filter (\<lambda>o'. ouser_ID (o_User o') = userID) (orders s))))))
       (\<lambda>total.
     andThen (ext DriverError (gets (\<lambda>s.
         let found = filter (\<lambda>o'. ouser_ID (o_User o') = userID) (orders s);
             sorted' = sort_key (\<lambda>o'. direction * sort_value sortField o') found;
             skipped' = (case skip of None \<Rightarrow> sorted' | Some n \<Rightarrow> drop (nat n) sorted')
         in case first of None \<Rightarrow> skipped' | Some n \<Rightarrow> bson_limit n skipped')))
       (\<lambda>nodes.
     let skipped = (case skip of None \<Rightarrow> 0 | Some n \<Rightarrow> n)
     in ret \<lparr>op_Nodes = nodes, op_TotalCount = total,
             op_HasNextPage = (i64 (skipped + int (length nodes)) < total)\<rparr>))"

subsection \<open>Store methods: read models kept by events\<close>

definition InsertCoupon :: "uuid \<Rightarrow> unit order_act" where
  "InsertCoupon i = insert_one DriverError DuplicateKey coupons coupons_update ref_ID \<lparr>ref_ID = i\<rparr>"

definition InsertShipmentMethod :: "uuid \<Rightarrow> unit order_act" where
  "InsertShipmentMethod i =
     insert_one DriverError DuplicateKey shipmentMethods shipmentMethods_update ref_ID \<lparr>ref_ID = i\<rparr>"

definition InsertUser :: "uuid \<Rightarrow> unit order_act" where
  "InsertUser i = insert_one DriverError DuplicateKey users users_update ouser_ID
     \<lparr>ouser_ID = i, ouser_UserAddressIDs = []\<rparr>"

definition GetProductVariant :: "uuid \<Rightarrow> ProductVariant order_act" where
  "GetProductVariant i = find_one DriverError ErrNoDocuments productVariants (\<lambda>p. pv_ID p = i)"

definition UpdateProductVariantVersion :: "uuid \<Rightarrow> ProductVariantVersion \<Rightarrow> unit order_act" where
  "UpdateProductVariantVersion i v =
     update_one DriverError productVariants_update (\<lambda>p. pv_ID p = i) (\<lambda>p. p\<lparr>pv_CurrentVersion := v\<rparr>)"

definition InsertProductVariant :: "uuid \<Rightarrow> ProductVariantVersion \<Rightarrow> unit order_act" where
  "InsertProductVariant i v =
     insert_one DriverError DuplicateKey productVariants productVariants_update pv_ID
       \<lparr>pv_ID = i, pv_CurrentVersion = v, pv_IsPubliclyVisible = BsonBool True\<rparr>"

definition SetProductVariantVisibility :: "uuid \<Rightarrow> visibility \<Rightarrow> unit order_act" where
  "SetProductVariantVisibility i v =
     update_one DriverError productVariants_update (\<lambda>p. pv_ID p = i) (\<lambda>p. p\<lparr>pv_IsPubliclyVisible := v\<rparr>)"

definition UpsertTaxRate :: "uuid \<Rightarrow> TaxRateVersion \<Rightarrow> unit order_act" where
  "UpsertTaxRate i v = upsert_one DriverError taxRates taxRates_update (\<lambda>t. tr_ID t = i)
     (\<lambda>t. t\<lparr>tr_ID := i, tr_CurrentVersion := v\<rparr>) \<lparr>tr_ID = i, tr_CurrentVersion = v\<rparr>"

definition PushUserAddress :: "uuid \<Rightarrow> uuid \<Rightarrow> unit order_act" where
  "PushUserAddress userID addressID = update_one DriverError users_update (\<lambda>u. ouser_ID u = userID)
     (\<lambda>u. u\<lparr>ouser_UserAddressIDs := ouser_UserAddressIDs u @ [addressID]\<rparr>)"

definition PullUserAddress :: "uuid \<Rightarrow> uuid \<Rightarrow> unit order_act" where
  "PullUserAddress userID addressID = update_one DriverError users_update (\<lambda>u. ouser_ID u = userID)
     (\<lambda>u. u\<lparr>ouser_UserAddressIDs := filter (\<lambda>a. a \<noteq> addressID) (ouser_UserAddressIDs u)\<rparr>)"

subsection \<open>Store methods: the compensation log\<close>

definition ValidateObjectOrder :: "uuid \<Rightarrow> unit order_act" where
  "ValidateObjectOrder i = andThen (GetOrder i) (\<lambda>_. ret ())"

text \<open>\<open>{order_item_ids: {$not: {$elemMatch: {$in: ids}}}}\<close>, verbatim.\<close>

definition CountUncompensatedProbe :: "uuid slice \<Rightarrow> int order_act" where
  "CountUncompensatedProbe ids =
     andThen (find_in orderCompensations ids
         (\<lambda>is c. \<not> list_ex (\<lambda>i. i \<in> set is) (elems (oc_OrderItemIDs c))))
       (\<lambda>docs. ret (int (length docs)))"

definition InsertOrderCompensation :: "OrderCompensation \<Rightarrow> unit order_act" where
  "InsertOrderCompensation c =
     insert_one DriverError DuplicateKey orderCompensations orderCompensations_update oc_ID
       (c\<lparr>oc_TriggeredAt := bson_time (oc_TriggeredAt c)\<rparr>)"

subsection \<open>The collections keep their ids unique\<close>

lemma order_tables:
  fixes s t :: order_db
  assumes "io.more s = io.more t"
  shows "orders s = orders t" "orderItems s = orderItems t" "users s = users t"
    "productVariants s = productVariants t" "taxRates s = taxRates t" "coupons s = coupons t"
    "shipmentMethods s = shipmentMethods t" "orderCompensations s = orderCompensations t"
  using assms by (cases s; cases t; simp)+

interpretation orders_coll: collection "orders :: order_db \<Rightarrow> _" orders_update o_ID
  by (unfold_locales, simp, erule order_tables)

interpretation users_coll: collection "users :: order_db \<Rightarrow> _" users_update ouser_ID
  by (unfold_locales, simp, erule order_tables)

interpretation pvs_coll: collection "productVariants :: order_db \<Rightarrow> _" productVariants_update pv_ID
  by (unfold_locales, simp, erule order_tables)

interpretation taxes_coll: collection "taxRates :: order_db \<Rightarrow> _" taxRates_update tr_ID
  by (unfold_locales, simp, erule order_tables)

interpretation coupons_coll: collection "coupons :: order_db \<Rightarrow> _" coupons_update ref_ID
  by (unfold_locales, simp, erule order_tables)

interpretation methods_coll: collection "shipmentMethods :: order_db \<Rightarrow> _" shipmentMethods_update ref_ID
  by (unfold_locales, simp, erule order_tables)

interpretation compensations_coll: collection "orderCompensations :: order_db \<Rightarrow> _" orderCompensations_update oc_ID
  by (unfold_locales, simp, erule order_tables)

lemmas order_store_defs = GetOrder_def GetUser_def GetOrderItemFromCollection_def
  GetOrderByEmbeddedItemID_def ValidateObjectUser_def find_in_def presentIDs_def ShipmentMethodsPresent_def
  CouponsPresent_def GetProductVariants_def GetTaxRates_def InsertOrder_def SetStatusPlaced_def
  SetStatusRejected_def InsertCoupon_def InsertShipmentMethod_def InsertUser_def
  GetProductVariant_def UpdateProductVariantVersion_def InsertProductVariant_def
  SetProductVariantVisibility_def UpsertTaxRate_def PushUserAddress_def PullUserAddress_def
  ValidateObjectOrder_def CountUncompensatedProbe_def InsertOrderCompensation_def

end
