(* ===== verification/Order_Saga.thy ===== *)
theory Order_Saga
  imports Order_Store
begin

text \<open>
  \<open>order/graph/saga.go\<close> and \<open>daprgql.go\<close>: the fan-out that turns a shopping cart into
  order items. The other services' GraphQL answers, the order in which Go's \<open>range\<close> walks a
  map, the permutation the unstable \<open>sort.Slice\<close> produces and the machine's out-of-range
  float conversion are the record \<open>downstream\<close>, a parameter of every definition that uses them.
\<close>

subsection \<open>Answers of the other services\<close>

datatype 'a gql_data = NullData | Undecodable | Data 'a

text \<open>No answer at all, a body that is no GraphQL response, or errors and data.\<close>

datatype 'a gql_reply = NoReply | Malformed | Reply "string list" "'a gql_data"

fun gql_query :: "'a gql_reply \<Rightarrow> order_err \<Rightarrow> order_err + 'a" where
  "gql_query NoReply emptyErr = Inl TransportError"
| "gql_query Malformed emptyErr = Inl (GqlErrors ''decode'')"
| "gql_query (Reply (e # es) d) emptyErr = Inl (GqlErrors e)"
| "gql_query (Reply [] NullData) emptyErr = Inl emptyErr"
| "gql_query (Reply [] Undecodable) emptyErr = Inl (GqlErrors ''decode data'')"
| "gql_query (Reply [] (Data x)) emptyErr = Inr x"

record cartNode =
  cn_ID :: uuid
  cn_ProductVariantID :: uuid
  cn_Count :: int

record shoppingCartEntity =
  sce_Shoppingcart :: "cartNode list option"

record inventoryEntity =
  ie_ID :: "uuid option"
  ie_InventoryCount :: "int option"

record applicableDiscounts =
  ad_ProductVariantID :: uuid
  ad_Discounts :: "(uuid \<times> f64) list"

record discountRequest =
  dr_UserID :: uuid
  dr_ProductVariants :: "(uuid \<times> u64 \<times> uuid list) list"
  dr_OrderAmount :: u64

record downstream =
  ask_shoppingcart :: "uuid \<Rightarrow> string \<Rightarrow> shoppingCartEntity list gql_reply"
  ask_inventory :: "uuid list \<Rightarrow> inventoryEntity list gql_reply"
  ask_discount :: "discountRequest \<Rightarrow> applicableDiscounts list gql_reply"
  ask_shipment :: "(uuid \<times> u64 \<times> uuid) list \<Rightarrow> int gql_reply"
  range_order :: "nat \<Rightarrow> uuid list \<Rightarrow> uuid list"
  sort_Slice :: "ODiscount list \<Rightarrow> ODiscount list"
  float_oob :: "f64 \<Rightarrow> u64"

text \<open>
  What the code relies on: \<open>range\<close> visits every key once and \<open>sort.Slice\<close> permutes the
  slice into ascending order of the compared field.
\<close>

definition runtime_ok :: "downstream \<Rightarrow> bool" where
  "runtime_ok D \<longleftrightarrow>
     (\<forall>n ks. mset (range_order D n ks) = mset ks) \<and>
     (\<forall>ds. mset (sort_Slice D ds) = mset ds \<and> sorted (map od_ID (sort_Slice D ds)))"

text \<open>The entries of a map in the order the \<open>n\<close>-th loop meets them.\<close>

definition ranged :: "downstream \<Rightarrow> nat \<Rightarrow> (uuid, 'v) gomap \<Rightarrow> (uuid \<times> 'v) list" where
  "ranged D n m = map (\<lambda>k. (k, the (map_of m k))) (range_order D n (map fst m))"

record orderItemInput =
  in_shoppingCartItemID :: uuid
  in_shipmentMethodID :: uuid
  in_couponIDs :: "uuid list"

definition uuidLess :: "uuid \<Rightarrow> uuid \<Rightarrow> bool" where
  "uuidLess a b \<longleftrightarrow> bytes_compare (uuid_bytes a) (uuid_bytes b) < 0"

definition buildHashMapError :: "uuid \<Rightarrow> order_err" where
  "buildHashMapError i = HashMapError i"

subsection \<open>Shopping cart\<close>

fun pick_inputs ::
  "(uuid, uuid \<times> u64) gomap \<Rightarrow> orderItemInput list \<Rightarrow> (uuid, u64) gomap \<Rightarrow> (uuid, orderItemInput) gomap \<Rightarrow>
     order_err + (uuid, u64) gomap \<times> (uuid, orderItemInput) gomap" where
  "pick_inputs idsAndCounts [] countsByPV inputsByPV = Inr (countsByPV, inputsByPV)"
| "pick_inputs idsAndCounts (i # ins) countsByPV inputsByPV =
     (case map_of idsAndCounts (in_shoppingCartItemID i) of
        None \<Rightarrow> Inl (buildHashMapError (in_shoppingCartItemID i))
      | Some (pv, cnt) \<Rightarrow>
          pick_inputs idsAndCounts ins (AList.update pv cnt countsByPV) (AList.update pv i inputsByPV))"

definition queryCountsByProductVariantIDs ::
  "downstream \<Rightarrow> uuid \<Rightarrow> orderItemInput list \<Rightarrow> string \<Rightarrow>
     order_err + (uuid, u64) gomap \<times> (uuid, orderItemInput) gomap" where
  "queryCountsByProductVariantIDs D userID inputs authorizedUser =
     (case gql_query (ask_shoppingcart D userID authorizedUser)
             (ResponseEmpty ''query_counts_by_product_variant_ids'') of
        Inl e \<Rightarrow> Inl e
      | Inr [] \<Rightarrow> Inl (ResponseEmpty ''query_counts_by_product_variant_ids'')
      | Inr (entity # _) \<Rightarrow>
          (case sce_Shoppingcart entity of
             None \<Rightarrow> Inl NoUserEntity
           | Some nodes \<Rightarrow>
               pick_inputs
                 (gomap_of [] (map (\<lambda>n. (cn_ID n, (cn_ProductVariantID n, word_of_int (cn_Count n)))) nodes))
                 inputs [] []))"

subsection \<open>Local product variants\<close>

definition queryProductVariantsByProductVariantIDs ::
  "uuid list \<Rightarrow> (uuid, ProductVariant) gomap order_act" where
  "queryProductVariantsByProductVariantIDs ids =
     andThen (attempt (GetProductVariants ids)) (\<lambda>r.
       case r of
         Inl _ \<Rightarrow> fail (ProductVariantsNotFound ids)
       | Inr pvs \<Rightarrow> ret (filter (\<lambda>(i, pv). IsVisible pv) pvs))"

subsection \<open>Inventory\<close>

fun stock_of :: "inventoryEntity list \<Rightarrow> (uuid, u64) gomap \<Rightarrow> order_err + (uuid, u64) gomap" where
  "stock_of [] stock = Inr stock"
| "stock_of (e # es) stock =
     (case (ie_ID e, ie_InventoryCount e) of
        (Some i, Some n) \<Rightarrow> stock_of es (AList.update i (word_of_int n) stock)
      | _ \<Rightarrow> Inl EntityNotParsed)"

fun enough_stock :: "(uuid, u64) gomap \<Rightarrow> (uuid \<times> u64) list \<Rightarrow> order_err + unit" where
  "enough_stock stock [] = Inr ()"
| "enough_stock stock ((i, expected) # rest) =
     (case map_of stock i of
        None \<Rightarrow> Inl (buildHashMapError i)
      | Some cnt \<Rightarrow> if cnt < expected then Inl NotAvailable else enough_stock stock rest)"

definition checkProductVariantAvailability ::
  "downstream \<Rightarrow> uuid list \<Rightarrow> (uuid, u64) gomap \<Rightarrow> order_err + unit" where
  "checkProductVariantAvailability D productVariantIDs countsByPV =
     (case gql_query (ask_inventory D productVariantIDs) (ResponseEmpty ''check_product_variant_availability'') of
        Inl e \<Rightarrow> Inl e
      | Inr entities \<Rightarrow>
          (case stock_of entities [] of
             Inl e \<Rightarrow> Inl e
           | Inr stock \<Rightarrow> enough_stock stock (ranged D 2 countsByPV)))"

subsection \<open>Tax rates\<close>

fun rate_versions ::
  "(uuid, TaxRate) gomap \<Rightarrow> (uuid \<times> ProductVariantVersion) list \<Rightarrow> (uuid, TaxRateVersion) gomap \<Rightarrow>
     order_err + (uuid, TaxRateVersion) gomap" where
  "rate_versions rates [] out = Inr out"
| "rate_versions rates ((i, pvv) # rest) out =
     (case map_of rates (pvv_TaxRateID pvv) of
        None \<Rightarrow> Inl (buildHashMapError i)
      | Some tr \<Rightarrow> rate_versions rates rest (AList.update i (tr_CurrentVersion tr) out))"

definition queryTaxRateVersionsByProductVariantIDs ::
  "downstream \<Rightarrow> (uuid, ProductVariantVersion) gomap \<Rightarrow> (uuid, TaxRateVersion) gomap order_act" where
  "queryTaxRateVersionsByProductVariantIDs D pvvByPV =
     (let taxRateIDs = map (\<lambda>(_, pvv). pvv_TaxRateID pvv) (ranged D 1 pvvByPV)
      in andThen (attempt (GetTaxRates taxRateIDs)) (\<lambda>r.
           case r of
             Inl _ \<Rightarrow> fail (TaxRatesNotFound taxRateIDs)
           | Inr rates \<Rightarrow>
               (case rate_versions rates (ranged D 3 pvvByPV) [] of
                  Inl e \<Rightarrow> fail e
                | Inr out \<Rightarrow> ret out)))"

subsection \<open>Discounts\<close>

fun drop_repeats :: "uuid option \<Rightarrow> ODiscount list \<Rightarrow> ODiscount list" where
  "drop_repeats prev [] = []"
| "drop_repeats prev (d # ds) =
     (if prev = Some (od_ID d) then drop_repeats prev ds
      else d # drop_repeats (Some (od_ID d)) ds)"

definition sortDedupeDiscounts :: "downstream \<Rightarrow> ODiscount list \<Rightarrow> ODiscount list" where
  "sortDedupeDiscounts D ds = drop_repeats None (sort_Slice D ds)"

fun discount_inputs ::
  "(uuid, u64) gomap \<Rightarrow> (uuid, orderItemInput) gomap \<Rightarrow> uuid list \<Rightarrow>
     order_err + (uuid \<times> u64 \<times> uuid list) list" where
  "discount_inputs counts inputs [] = Inr []"
| "discount_inputs counts inputs (i # ids) =
     (case map_of counts i of
        None \<Rightarrow> Inl (buildHashMapError i)
      | Some cnt \<Rightarrow>
          (case map_of inputs i of
             None \<Rightarrow> Inl (buildHashMapError i)
           | Some inp \<Rightarrow>
               (case discount_inputs counts inputs ids of
                  Inl e \<Rightarrow> Inl e
                | Inr rest \<Rightarrow> Inr ((i, cnt, in_couponIDs inp) # rest))))"

fun discounts_for ::
  "downstream \<Rightarrow> (uuid, ODiscount list) gomap \<Rightarrow> uuid list \<Rightarrow> (uuid, ODiscount list) gomap \<Rightarrow>
     order_err + (uuid, ODiscount list) gomap" where
  "discounts_for D byPV [] out = Inr out"
| "discounts_for D byPV (i # ids) out =
     (case map_of byPV i of
        None \<Rightarrow> Inl (DiscountsMissing i)
      | Some ds \<Rightarrow> discounts_for D byPV ids (AList.update i (sortDedupeDiscounts D ds) out))"

definition queryDiscountsByProductVariantIDs ::
  "downstream \<Rightarrow> uuid \<Rightarrow> (uuid, orderItemInput) gomap \<Rightarrow> uuid list \<Rightarrow> (uuid, ProductVariantVersion) gomap \<Rightarrow>
     (uuid, u64) gomap \<Rightarrow> order_err + (uuid, ODiscount list) gomap" where
  "queryDiscountsByProductVariantIDs D userID inputsByPV productVariantIDs pvvByPV countsByPV =
     (case discount_inputs countsByPV inputsByPV productVariantIDs of
        Inl e \<Rightarrow> Inl e
      | Inr pvInputs \<Rightarrow>
          (let orderAmount = sum_list (map (\<lambda>(_, pvv). ucast (pvv_Price pvv) :: u64) (ranged D 4 pvvByPV))
           in case gql_query (ask_discount D \<lparr>dr_UserID = userID, dr_ProductVariants = pvInputs, dr_OrderAmount = orderAmount\<rparr>)
                     (ResponseEmpty ''query_discounts'') of
                Inl e \<Rightarrow> Inl e
              | Inr found \<Rightarrow>
                  discounts_for D
                    (gomap_of [] (map (\<lambda>d. (ad_ProductVariantID d,
                       map (\<lambda>(i, x). \<lparr>od_ID = i, od_Discount = x\<rparr>) (ad_Discounts d))) found))
                    productVariantIDs []))"

subsection \<open>Shipment fees\<close>

fun shipment_items ::
  "(uuid, u64) gomap \<Rightarrow> (uuid, orderItemInput) gomap \<Rightarrow> (uuid \<times> ProductVariantVersion) list \<Rightarrow>
     order_err + (uuid \<times> u64 \<times> uuid) list" where
  "shipment_items counts inputs [] = Inr []"
| "shipment_items counts inputs ((i, pvv) # rest) =
     (case map_of counts i of
        None \<Rightarrow> Inl (buildHashMapError i)
      | Some cnt \<Rightarrow>
          (case map_of inputs i of
             None \<Rightarrow> Inl (buildHashMapError i)
           | Some inp \<Rightarrow>
               (case shipment_items counts inputs rest of
                  Inl e \<Rightarrow> Inl e
                | Inr items \<Rightarrow> Inr ((pvv_ID pvv, cnt, in_shipmentMethodID inp) # items))))"

definition queryShipmentFees ::
  "downstream \<Rightarrow> (uuid, orderItemInput) gomap \<Rightarrow> (uuid, ProductVariantVersion) gomap \<Rightarrow> (uuid, u64) gomap \<Rightarrow>
     order_err + unit" where
  "queryShipmentFees D inputsByPV pvvByPV countsByPV =
     (case shipment_items countsByPV inputsByPV (ranged D 5 pvvByPV) of
        Inl e \<Rightarrow> Inl e
      | Inr items \<Rightarrow>
          (case gql_query (ask_shipment D items) (ResponseEmpty ''query_shipment_fees'') of
             Inl e \<Rightarrow> Inl e
           | Inr _ \<Rightarrow> Inr ()))"

subsection \<open>Zip\<close>

definition calculateCompensatableAmount ::
  "downstream \<Rightarrow> ProductVariantVersion \<Rightarrow> ODiscount list \<Rightarrow> u64" where
  "calculateCompensatableAmount D pvv discounts =
     f64_to_u64 (float_oob D)
       (foldl (\<lambda>price d. f64_mul price (od_Discount d)) (f64_of_int (uint (pvv_Price pvv))) discounts)"

fun zip_items ::
  "downstream \<Rightarrow> (uuid, ProductVariant) gomap \<Rightarrow> (uuid, orderItemInput) gomap \<Rightarrow> (uuid, ProductVariantVersion) gomap \<Rightarrow>
     (uuid, TaxRateVersion) gomap \<Rightarrow> (uuid, u64) gomap \<Rightarrow> (uuid, ODiscount list) gomap \<Rightarrow> time \<Rightarrow>
     uuid list \<Rightarrow> OrderItem list order_act" where
  "zip_items D pvs inputs pvvs trvs counts discs createdAt [] = ret []"
| "zip_items D pvs inputs pvvs trvs counts discs createdAt (i # ids) =
     (case (map_of inputs i, map_of pvvs i, map_of trvs i, map_of counts i, map_of discs i) of
        (Some inp, Some pvv, Some trv, Some cnt, Some discounts) \<Rightarrow>
          andThen new_uuid (\<lambda>itemID.
          andThen (zip_items D pvs inputs pvvs trvs counts discs createdAt ids) (\<lambda>items.
            ret (\<lparr>oi_ID = itemID, oi_CreatedAt = createdAt, oi_ProductVariant = the (map_of pvs i),
                  oi_ProductVariantVersion = pvv, oi_TaxRateVersion = trv,
                  oi_ShoppingCartItem = \<lparr>ref_ID = in_shoppingCartItemID inp\<rparr>, oi_Count = cnt,
                  oi_CompensatableAmount = calculateCompensatableAmount D pvv discounts,
                  oi_ShipmentMethod = \<lparr>ref_ID = in_shipmentMethodID inp\<rparr>,
                  oi_InternalDiscounts = discounts\<rparr> # items)))
      | _ \<Rightarrow> fail (buildHashMapError i))"

text \<open>The ids are distinct map keys, so \<open>sort.Slice\<close> has one result: the ascending list.\<close>

definition zipToInternalOrderItems ::
  "downstream \<Rightarrow> (uuid, ProductVariant) gomap \<Rightarrow> (uuid, orderItemInput) gomap \<Rightarrow> (uuid, ProductVariantVersion) gomap \<Rightarrow>
     (uuid, TaxRateVersion) gomap \<Rightarrow> (uuid, u64) gomap \<Rightarrow> (uuid, ODiscount list) gomap \<Rightarrow> time \<Rightarrow>
     OrderItem list order_act" where
  "zipToInternalOrderItems D pvs inputs pvvs trvs counts discs createdAt =
     zip_items D pvs inputs pvvs trvs counts discs createdAt (sort (map fst pvs))"

subsection \<open>The saga\<close>

definition lift_result :: "order_err + 'a \<Rightarrow> 'a order_act" where
  "lift_result r = (case r of Inl e \<Rightarrow> fail e | Inr x \<Rightarrow> ret x)"

definition createInternalOrderItems ::
  "downstream \<Rightarrow> uuid \<Rightarrow> orderItemInput list \<Rightarrow> string \<Rightarrow> time \<Rightarrow> OrderItem list order_act" where
  "createInternalOrderItems D userID inputs authorizedUser createdAt =
     andThen (lift_result (queryCountsByProductVariantIDs D userID inputs authorizedUser)) (\<lambda>(countsByPV, inputsByPV).
     let productVariantIDs = map fst (ranged D 0 countsByPV) in
     andThen (queryProductVariantsByProductVariantIDs productVariantIDs) (\<lambda>productVariantsByPV.
     let pvvByPV = map (\<lambda>(i, pv). (i, pv_CurrentVersion pv)) productVariantsByPV in
     andThen (lift_result (checkProductVariantAvailability D productVariantIDs countsByPV)) (\<lambda>_.
     andThen (queryTaxRateVersionsByProductVariantIDs D pvvByPV) (\<lambda>taxRateVersionByPV.
     andThen (lift_result (queryDiscountsByProductVariantIDs D userID inputsByPV productVariantIDs pvvByPV countsByPV)) (\<lambda>discountsByPV.
     andThen (lift_result (queryShipmentFees D inputsByPV pvvByPV countsByPV)) (\<lambda>_.
     zipToInternalOrderItems D productVariantsByPV inputsByPV pvvByPV taxRateVersionByPV countsByPV discountsByPV createdAt))))))"

end
