(* ===== verification/Auth.thy ===== *)
theory Auth
  imports Prelude
begin

text \<open>
  \<open>pkg/auth\<close>: the user the gateway puts in the \<open>Authorized-User\<close> header, and the checks
  the resolvers make with it. A request's context carries the user, or none for an anonymous
  request. Decoding the header's JSON is \<open>encoding/json\<close>'s work on the \<open>User\<close> struct and is the
  parameter \<open>unmarshal\<close> of the middleware.
\<close>

record User =
  user_ID :: uuid
  user_Roles :: "string list"

type_synonym ctx = "User option"

definition RoleAdmin :: string where "RoleAdmin = ''admin''"

definition RoleEmployee :: string where "RoleEmployee = ''employee''"

definition RoleBuyer :: string where "RoleBuyer = ''buyer''"

datatype auth_err = ErrUnauthorized | ErrUnauthenticated

definition Middleware :: "(string \<Rightarrow> User option) \<Rightarrow> string \<Rightarrow> ctx" where
  "Middleware unmarshal raw =
     (if raw \<noteq> [] then
        (case unmarshal raw of
           Some u \<Rightarrow> if user_ID u \<noteq> UUID 0 then Some u else None
         | None \<Rightarrow> None)
      else None)"

definition FromContext :: "ctx \<Rightarrow> User option" where
  "FromContext c = c"

fun HasRole :: "User option \<Rightarrow> string \<Rightarrow> bool" where
  "HasRole None role = False"
| "HasRole (Some u) role = list_ex (\<lambda>r. r = role) (user_Roles u)"

definition IsEmployeeOrAdmin :: "User option \<Rightarrow> bool" where
  "IsEmployeeOrAdmin u \<longleftrightarrow> HasRole u RoleEmployee \<or> HasRole u RoleAdmin"

definition Require :: "ctx \<Rightarrow> auth_err + User" where
  "Require c = (case FromContext c of None \<Rightarrow> Inl ErrUnauthenticated | Some u \<Rightarrow> Inr u)"

fun first_role :: "User \<Rightarrow> string list \<Rightarrow> auth_err + User" where
  "first_role u [] = Inl ErrUnauthorized"
| "first_role u (role # roles) = (if HasRole (Some u) role then Inr u else first_role u roles)"

definition RequireRole :: "ctx \<Rightarrow> string list \<Rightarrow> auth_err + User" where
  "RequireRole c roles = (case Require c of Inl e \<Rightarrow> Inl e | Inr u \<Rightarrow> first_role u roles)"

definition RequireEmployeeOrAdmin :: "ctx \<Rightarrow> auth_err + User" where
  "RequireEmployeeOrAdmin c = RequireRole c [RoleEmployee, RoleAdmin]"

definition RequireSelfOrEmployee :: "ctx \<Rightarrow> uuid \<Rightarrow> auth_err + User" where
  "RequireSelfOrEmployee c owner =
     (case Require c of
        Inl e \<Rightarrow> Inl e
      | Inr u \<Rightarrow>
          if user_ID u = owner \<or> IsEmployeeOrAdmin (Some u) then Inr u else Inl ErrUnauthorized)"

lemma HasRole_iff: "HasRole c role \<longleftrightarrow> (\<exists>u. c = Some u \<and> role \<in> set (user_Roles u))"
  by (cases c) (auto simp: list_ex_iff)

lemma first_role_eq:
  "first_role u roles = (if \<exists>r \<in> set roles. r \<in> set (user_Roles u) then Inr u else Inl ErrUnauthorized)"
  by (induction roles) (auto simp: list_ex_iff)

lemma IsEmployeeOrAdmin_None [simp]: "\<not> IsEmployeeOrAdmin None"
  by (simp add: IsEmployeeOrAdmin_def)

text \<open>
  Every role check of \<open>pkg/auth\<close> returns exactly the caller of the context: anonymous
  requests are turned away as unauthenticated, \<open>RequireEmployeeOrAdmin\<close> admits exactly the
  holders of one of the two roles, and \<open>RequireSelfOrEmployee\<close> admits in addition the owner.
\<close>

theorem auth_checks_exact:
  "(RequireSelfOrEmployee c owner = Inr u \<longleftrightarrow>
     c = Some u \<and> (user_ID u = owner \<or> RequireEmployeeOrAdmin c = Inr u)) \<and>
   (RequireEmployeeOrAdmin c = Inr u \<longleftrightarrow>
     c = Some u \<and> (RoleEmployee \<in> set (user_Roles u) \<or> RoleAdmin \<in> set (user_Roles u))) \<and>
   (RequireSelfOrEmployee c owner = Inl ErrUnauthenticated \<longleftrightarrow> c = None)"
  by (cases c) (auto simp: RequireSelfOrEmployee_def RequireEmployeeOrAdmin_def RequireRole_def Require_def
      FromContext_def IsEmployeeOrAdmin_def HasRole_iff first_role_eq)

end
