(* ===== verification/Order_Graph.thy ===== *)
theory Order_Graph
  imports Order_Saga Auth
begin

text \<open>
  \<open>order/graph\<close>: the GraphQL models, authorization, the pending-timeout state machine, input
  validation, pagination, and the query and mutation resolvers.
\<close>

subsection \<open>Models and mappers\<close>

record GOrderItem =
  goi_ID :: uuid
  goi_CreatedAt :: time
  goi_Count :: int
  goi_CompensatableAmount :: int
  goi_ProductVariantID :: uuid
  goi_ProductVariantVersionID :: uuid
  goi_TaxRateVersionID :: uuid
  goi_ShoppingCartItemID :: uuid
  goi_ShipmentMethodID :: uuid
  goi_InternalDiscounts :: "uuid list"

record GOrder =
  go_ID :: uuid
  go_CreatedAt :: time
  go_OrderStatus :: string
  go_CompensatableOrderAmount :: int
  go_PaymentInformationID :: uuid
  go_UserID :: uuid
  go_InvoiceAddressID :: uuid
  go_InternalOrderItems :: "GOrderItem list"
  go_PlacedAt :: "time option"
  go_RejectionReason :: "string option"

text \<open>\<open>int(x)\<close> of a \<open>uint64\<close> reinterprets the bits.\<close>

definition toOrderItemModel :: "OrderItem \<Rightarrow> GOrderItem" where
  "toOrderItemModel oi = \<lparr>goi_ID = oi_ID oi, goi_CreatedAt = oi_CreatedAt oi,
     goi_Count = sint (oi_Count oi), goi_CompensatableAmount = sint (oi_CompensatableAmount oi),
     goi_ProductVariantID = pv_ID (oi_ProductVariant oi),
     goi_ProductVariantVersionID = pvv_ID (oi_ProductVariantVersion oi),
     goi_TaxRateVersionID = trv_ID (oi_TaxRateVersion oi),
     goi_ShoppingCartItemID = ref_ID (oi_ShoppingCartItem oi),
     goi_ShipmentMethodID = ref_ID (oi_ShipmentMethod oi),
     goi_InternalDiscounts = map od_ID (oi_InternalDiscounts oi)\<rparr>"

definition toOrderModel :: "Order \<Rightarrow> GOrder" where
  "toOrderModel o' = \<lparr>go_ID = o_ID o', go_CreatedAt = o_CreatedAt o', go_OrderStatus = o_OrderStatus o',
     go_CompensatableOrderAmount = sint (o_CompensatableOrderAmount o'),
     go_PaymentInformationID = o_PaymentInformationID o', go_UserID = ouser_ID (o_User o'),
     go_InvoiceAddressID = ref_ID (o_InvoiceAddress o'),
     go_InternalOrderItems = map toOrderItemModel (o_InternalOrderItems o'),
     go_PlacedAt = o_PlacedAt o', go_RejectionReason = o_RejectionReason o'\<rparr>"

definition toUserModel :: "OUser \<Rightarrow> uuid" where
  "toUserModel u = ouser_ID u"

subsection \<open>Authorization\<close>

definition authorizeUser :: "ctx \<Rightarrow> uuid \<Rightarrow> order_err + unit" where
  "authorizeUser c i =
     (case FromContext c of
        None \<Rightarrow> Inl NoAuthHeader
      | Some u \<Rightarrow>
          if IsEmployeeOrAdmin (Some u) \<or> user_ID u = i then Inr () else Inl (AuthFailed (user_ID u)))"

text \<open>\<open>marshal\<close> is \<open>encoding/json\<close> on the id and the roles.\<close>

definition authorizedUserHeaderJSON :: "(User \<Rightarrow> string) \<Rightarrow> ctx \<Rightarrow> order_err + string" where
  "authorizedUserHeaderJSON marshal c =
     (case FromContext c of None \<Rightarrow> Inl NoAuthHeader | Some u \<Rightarrow> Inr (marshal u))"

subsection \<open>The pending timeout\<close>

definition pendingTimeout :: time where
  "pendingTimeout = 3600 * 10 ^ 9"

definition setStatusPlaced :: "uuid \<Rightarrow> unit order_act" where
  "setStatusPlaced i =
     andThen now (\<lambda>t.
     andThen (attempt (GetOrder i)) (\<lambda>r.
       case r of
         Inl _ \<Rightarrow> fail (OrderNotFound i)
       | Inr order \<Rightarrow>
           if \<not> o_CreatedAt order + pendingTimeout < t then
             (if o_OrderStatus order = ''PENDING'' then SetStatusPlaced i t
              else fail (NotPending (o_OrderStatus order)))
           else
             andThen (attempt (SetStatusRejected i)) (\<lambda>r.
               case r of
                 Inl _ \<Rightarrow> fail (RejectFailed i)
               | Inr _ \<Rightarrow> fail (WasRejected i))))"

subsection \<open>Inputs\<close>

record OrderItemInput =
  oii_ShoppingCartItemID :: uuid
  oii_ShipmentMethodID :: uuid
  oii_CouponIds :: "uuid list"

record CreateOrderInput =
  coi_UserID :: uuid
  coi_OrderItemInputs :: "OrderItemInput list"
  coi_ShipmentAddressID :: uuid
  coi_InvoiceAddressID :: uuid
  coi_PaymentInformationID :: uuid
  coi_VatNumber :: "string option"

definition dedupeUUIDs :: "uuid list \<Rightarrow> uuid list" where
  "dedupeUUIDs ids = first_seen id {} ids"

definition dedupeOrderItemInputs :: "OrderItemInput list \<Rightarrow> orderItemInput list" where
  "dedupeOrderItemInputs ins =
     sort_key in_shoppingCartItemID
       (map (\<lambda>oi. \<lparr>in_shoppingCartItemID = oii_ShoppingCartItemID oi,
                   in_shipmentMethodID = oii_ShipmentMethodID oi,
                   in_couponIDs = dedupeUUIDs (oii_CouponIds oi)\<rparr>)
          (first_seen oii_ShoppingCartItemID {} ins))"

definition validateObjectsPresent ::
  "(uuid slice \<Rightarrow> uuid set order_act) \<Rightarrow> uuid slice \<Rightarrow> string \<Rightarrow> unit order_act" where
  "validateObjectsPresent lookup ids typeName =
     andThen (attempt (lookup ids)) (\<lambda>r.
       case r of
         Inl _ \<Rightarrow> fail (NotPresentSystem typeName)
       | Inr present \<Rightarrow>
           (case find (\<lambda>i. i \<notin> present) (elems ids) of
              Some i \<Rightarrow> fail (NotPresent typeName i)
            | None \<Rightarrow> ret ()))"

definition validateUserAddress :: "uuid \<Rightarrow> uuid \<Rightarrow> unit order_act" where
  "validateUserAddress addressID userID =
     andThen (attempt (ValidateObjectUser userID)) (\<lambda>r.
       case r of Inl _ \<Rightarrow> fail (UserAddressNotFound addressID userID) | Inr _ \<Rightarrow> ret ())"

text \<open>
  The shipment method ids are made with room for one per input; the coupon ids are appended to a
  nil slice, so that without any coupon they are nil.
\<close>

definition validateOrderInput :: "CreateOrderInput \<Rightarrow> orderItemInput list \<Rightarrow> unit order_act" where
  "validateOrderInput input inputs =
     andThen (attempt (ValidateObjectUser (coi_UserID input))) (\<lambda>r.
       case r of
         Inl _ \<Rightarrow> fail (UserNotFound (coi_UserID input))
       | Inr _ \<Rightarrow>
           andThen (validateObjectsPresent ShipmentMethodsPresent (Some (map in_shipmentMethodID inputs)) ''ShipmentMethod'') (\<lambda>_.
           andThen (validateObjectsPresent CouponsPresent (appended (concat (map in_couponIDs inputs))) ''Coupon'') (\<lambda>_.
           andThen (validateUserAddress (coi_ShipmentAddressID input) (coi_UserID input)) (\<lambda>_.
             validateUserAddress (coi_InvoiceAddressID input) (coi_UserID input)))))"

definition buildPaymentAuthorization :: "int option option \<Rightarrow> PaymentAuthorization option" where
  "buildPaymentAuthorization inp =
     (case inp of Some (Some cvc) \<Rightarrow> Some \<lparr>pa_CVC = word_of_int cvc\<rparr> | _ \<Rightarrow> None)"

subsection \<open>Events\<close>

definition toOrderItemDTO :: "OrderItem \<Rightarrow> OrderItemDTO" where
  "toOrderItemDTO oi = \<lparr>oid_ID = oi_ID oi, oid_CreatedAt = oi_CreatedAt oi,
     oid_ProductVariantID = pv_ID (oi_ProductVariant oi),
     oid_ProductVariantVersionID = pvv_ID (oi_ProductVariantVersion oi),
     oid_TaxRateVersionID = trv_ID (oi_TaxRateVersion oi),
     oid_ShoppingCartItemID = ref_ID (oi_ShoppingCartItem oi), oid_Count = oi_Count oi,
     oid_CompensatableAmount = oi_CompensatableAmount oi,
     oid_ShipmentMethodID = ref_ID (oi_ShipmentMethod oi),
     oid_DiscountIDs = map od_ID (oi_InternalDiscounts oi)\<rparr>"

definition toOrderDTO :: "Order \<Rightarrow> PaymentAuthorization option \<Rightarrow> order_err + OrderDTO" where
  "toOrderDTO o' auth =
     (case o_PlacedAt o' of
        None \<Rightarrow> Inl PlacedAtMissing
      | Some placed \<Rightarrow> Inr \<lparr>odto_ID = o_ID o', odto_UserID = ouser_ID (o_User o'),
          odto_CreatedAt = o_CreatedAt o', odto_OrderStatus = o_OrderStatus o', odto_PlacedAt = placed,
          odto_RejectionReason = o_RejectionReason o',
          odto_OrderItems = map toOrderItemDTO (o_InternalOrderItems o'),
          odto_ShipmentAddressID = ref_ID (o_ShipmentAddress o'),
          odto_InvoiceAddressID = ref_ID (o_InvoiceAddress o'),
          odto_CompensatableOrderAmount = o_CompensatableOrderAmount o',
          odto_PaymentInformationID = o_PaymentInformationID o',
          odto_PaymentAuthorization = auth, odto_VatNumber = o_VatNumber o'\<rparr>)"

text \<open>A publish fails only when the request itself does; the sidecar's status is ignored.\<close>

definition PublishOrderCreated :: "OrderDTO \<Rightarrow> unit order_act" where
  "PublishOrderCreated dto = emit TransportError (OrderCreated dto)"

subsection \<open>Mutations\<close>

definition newOrder :: "CreateOrderInput \<Rightarrow> uuid \<Rightarrow> time \<Rightarrow> OrderItem list \<Rightarrow> Order" where
  "newOrder input i t items =
     \<lparr>o_ID = i, o_User = \<lparr>ouser_ID = coi_UserID input, ouser_UserAddressIDs = []\<rparr>,
      o_CreatedAt = t, o_OrderStatus = ''PENDING'', o_PlacedAt = None, o_RejectionReason = None,
      o_InternalOrderItems = items, o_ShipmentAddress = \<lparr>ref_ID = coi_ShipmentAddressID input\<rparr>,
      o_InvoiceAddress = \<lparr>ref_ID = coi_InvoiceAddressID input\<rparr>,
      o_CompensatableOrderAmount = sum_list (map oi_CompensatableAmount items),
      o_PaymentInformationID = coi_PaymentInformationID input, o_VatNumber = coi_VatNumber input\<rparr>"

definition CreateOrder ::
  "downstream \<Rightarrow> (User \<Rightarrow> string) \<Rightarrow> ctx \<Rightarrow> CreateOrderInput \<Rightarrow> GOrder order_act" where
  "CreateOrder D marshal c input =
     andThen (lift_result (authorizeUser c (coi_UserID input))) (\<lambda>_.
     andThen (lift_result (authorizedUserHeaderJSON marshal c)) (\<lambda>authHeader.
     let inputs = dedupeOrderItemInputs (coi_OrderItemInputs input) in
     andThen (validateOrderInput input inputs) (\<lambda>_.
     andThen now (\<lambda>t.
     andThen (createInternalOrderItems D (coi_UserID input) inputs authHeader t) (\<lambda>items.
     andThen new_uuid (\<lambda>i.
     andThen (attempt (InsertOrder (newOrder input i t items))) (\<lambda>r.
       case r of
         Inl _ \<Rightarrow> fail InsertOrderFailed
       | Inr inserted \<Rightarrow> ret (toOrderModel inserted))))))))"

definition PlaceOrder :: "ctx \<Rightarrow> uuid \<Rightarrow> int option option \<Rightarrow> GOrder order_act" where
  "PlaceOrder c i authorization =
     andThen (attempt (GetOrder i)) (\<lambda>r.
       case r of
         Inl _ \<Rightarrow> fail (OrderNotFound i)
       | Inr order \<Rightarrow>
           andThen (lift_result (authorizeUser c (ouser_ID (o_User order)))) (\<lambda>_.
           andThen (setStatusPlaced i) (\<lambda>_.
           andThen (attempt (GetOrder i)) (\<lambda>r'.
             case r' of
               Inl _ \<Rightarrow> fail (OrderNotFound i)
             | Inr placed \<Rightarrow>
                 andThen (lift_result (toOrderDTO placed (buildPaymentAuthorization authorization))) (\<lambda>dto.
                 andThen (PublishOrderCreated dto) (\<lambda>_.
                   ret (toOrderModel placed)))))))"

subsection \<open>Pagination\<close>

datatype direction = ASC | DESC

definition directionAscending :: "direction option \<Rightarrow> bool" where
  "directionAscending d \<longleftrightarrow> d = None \<or> d \<noteq> Some DESC"

definition checkPagination :: "int option \<Rightarrow> int option \<Rightarrow> order_err + unit" where
  "checkPagination first skip =
     (if first \<noteq> None \<and> the first < 0 then Inl NegativeFirst
      else if skip \<noteq> None \<and> the skip < 0 then Inl NegativeSkip
      else Inr ())"

record CommonOrderInput =
  coi_Direction :: "direction option"

text \<open>
  Descending compares with the arguments swapped, so equal keys keep their order: a stable sort
  by the negated key.
\<close>

definition paginateInMemory ::
  "'a list \<Rightarrow> int option \<Rightarrow> int option \<Rightarrow> CommonOrderInput option \<Rightarrow> ('a \<Rightarrow> uuid) \<Rightarrow> 'a list \<times> bool \<times> int" where
  "paginateInMemory items first skip orderBy key =
     (let asc = (case orderBy of None \<Rightarrow> True | Some ob \<Rightarrow> directionAscending (coi_Direction ob));
          sorted' = (if asc then sort_key key items
                     else sort_key (\<lambda>x. - int (unat (uuid_val (key x)))) items);
          total = int (length sorted');
          sk = (case skip of None \<Rightarrow> 0 | Some n \<Rightarrow> n);
          start = (if sk > total then total else sk);
          window = drop (nat start) sorted';
          page = (case first of
                    Some n \<Rightarrow> if n < int (length window) then take (nat n) window else window
                  | None \<Rightarrow> window)
      in (page, total > i64 (int (length page) + sk), total))"

datatype OrderOrderField = FieldID | FieldUserID | FieldName | FieldCreatedAt | FieldLastUpdatedAt

fun orderOrderField :: "OrderOrderField option \<Rightarrow> string" where
  "orderOrderField None = ''_id''"
| "orderOrderField (Some FieldUserID) = ''user._id''"
| "orderOrderField (Some FieldName) = ''name''"
| "orderOrderField (Some FieldCreatedAt) = ''created_at''"
| "orderOrderField (Some FieldLastUpdatedAt) = ''last_updated_at''"
| "orderOrderField (Some FieldID) = ''_id''"

definition orderDirectionInt :: "direction option \<Rightarrow> int" where
  "orderDirectionInt d = (if d = Some DESC then -1 else 1)"

subsection \<open>Queries\<close>

definition Order_User :: "GOrder \<Rightarrow> uuid" where
  "Order_User obj = go_UserID obj"

definition Order_InvoiceAddress :: "GOrder \<Rightarrow> uuid" where
  "Order_InvoiceAddress obj = go_InvoiceAddressID obj"

definition Order_OrderItems ::
  "GOrder \<Rightarrow> int option \<Rightarrow> int option \<Rightarrow> CommonOrderInput option \<Rightarrow> order_err + GOrderItem list \<times> bool \<times> int" where
  "Order_OrderItems obj first skip orderBy =
     (case checkPagination first skip of
        Inl e \<Rightarrow> Inl e
      | Inr _ \<Rightarrow> Inr (paginateInMemory (go_InternalOrderItems obj) first skip orderBy goi_ID))"

definition OrderItem_Discounts ::
  "GOrderItem \<Rightarrow> int option \<Rightarrow> int option \<Rightarrow> CommonOrderInput option \<Rightarrow> order_err + uuid list \<times> bool \<times> int" where
  "OrderItem_Discounts obj first skip orderBy =
     (case checkPagination first skip of
        Inl e \<Rightarrow> Inl e
      | Inr _ \<Rightarrow> Inr (paginateInMemory (goi_InternalDiscounts obj) first skip orderBy (\<lambda>i. i)))"

definition Query_Order :: "ctx \<Rightarrow> uuid \<Rightarrow> GOrder order_act" where
  "Query_Order c i =
     andThen (attempt (GetOrder i)) (\<lambda>r.
       case r of
         Inl _ \<Rightarrow> fail (OrderNotFound i)
       | Inr order \<Rightarrow>
           andThen (lift_result (authorizeUser c (ouser_ID (o_User order)))) (\<lambda>_. ret (toOrderModel order)))"

definition Query_OrderItem :: "ctx \<Rightarrow> uuid \<Rightarrow> GOrderItem order_act" where
  "Query_OrderItem c i =
     andThen (attempt (GetOrderItemFromCollection i)) (\<lambda>r.
       case r of
         Inl _ \<Rightarrow> fail (OrderItemNotFound i)
       | Inr item \<Rightarrow>
           andThen (attempt (GetOrderByEmbeddedItemID i)) (\<lambda>r'.
             case r' of
               Inl _ \<Rightarrow> fail (OrderItemNotFound i)
             | Inr owner \<Rightarrow>
                 andThen (lift_result (authorizeUser c (ouser_ID (o_User owner)))) (\<lambda>_.
                   ret (toOrderItemModel item))))"

record OrderOrderInput =
  ooi_Field :: "OrderOrderField option"
  ooi_Direction :: "direction option"

definition User_Orders ::
  "ctx \<Rightarrow> uuid \<Rightarrow> int option \<Rightarrow> int option \<Rightarrow> OrderOrderInput option \<Rightarrow> (GOrder list \<times> bool \<times> int) order_act" where
  "User_Orders c objID first skip orderBy =
     andThen (lift_result (authorizeUser c objID)) (\<lambda>_.
     andThen (lift_result (checkPagination first skip)) (\<lambda>_.
     let field = (case orderBy of None \<Rightarrow> None | Some ob \<Rightarrow> ooi_Field ob);
         dir = (case orderBy of None \<Rightarrow> None | Some ob \<Rightarrow> ooi_Direction ob) in
     andThen (attempt (ListOrdersByUser objID (orderOrderField field) (orderDirectionInt dir) skip first)) (\<lambda>r.
       case r of
         Inl _ \<Rightarrow> fail RetrieveOrdersFailed
       | Inr page \<Rightarrow> ret (map toOrderModel (op_Nodes page), op_HasNextPage page, op_TotalCount page))))"

definition FindOrderByID :: "uuid \<Rightarrow> GOrder order_act" where
  "FindOrderByID i =
     andThen (attempt (GetOrder i)) (\<lambda>r.
       case r of Inl _ \<Rightarrow> fail (OrderNotFound i) | Inr order \<Rightarrow> ret (toOrderModel order))"

definition FindOrderItemByID :: "uuid \<Rightarrow> GOrderItem order_act" where
  "FindOrderItemByID i =
     andThen (attempt (GetOrderItemFromCollection i)) (\<lambda>r.
       case r of Inl _ \<Rightarrow> fail (OrderItemNotFound i) | Inr item \<Rightarrow> ret (toOrderItemModel item))"

definition FindUserByID :: "uuid \<Rightarrow> uuid order_act" where
  "FindUserByID i =
     andThen (attempt (GetUser i)) (\<lambda>r.
       case r of Inl _ \<Rightarrow> fail (UserNotFound i) | Inr u \<Rightarrow> ret (toUserModel u))"

end
