(* ===== verification/Go_Text.thy ===== *)
theory Go_Text
  imports Go_Float
begin

text \<open>
  What the services use of Go's \<open>strings\<close> and \<open>strconv\<close>: trimming and case folding of
  ASCII, decimal digits, and \<open>strconv.ParseFloat\<close> with its decimal, hexadecimal and special
  forms, rounding the exact value once. A string is the list of its bytes.
\<close>

subsection \<open>Bytes\<close>

definition is_space :: "char \<Rightarrow> bool" where
  "is_space c \<longleftrightarrow> of_char c \<in> {9 :: nat, 10, 11, 12, 13, 32}"

definition TrimSpace :: "string \<Rightarrow> string" where
  "TrimSpace s = rev (dropWhile is_space (rev (dropWhile is_space s)))"

definition ascii_lower :: "char \<Rightarrow> char" where
  "ascii_lower c = (let n = of_char c :: nat in if 65 \<le> n \<and> n \<le> 90 then char_of (n + 32) else c)"

definition EqualFold :: "string \<Rightarrow> string \<Rightarrow> bool" where
  "EqualFold a b \<longleftrightarrow> map ascii_lower a = map ascii_lower b"

definition digit :: "char \<Rightarrow> bool" where
  "digit c \<longleftrightarrow> (of_char c :: nat) \<in> {48..57}"

definition digit_nat :: "char \<Rightarrow> nat" where
  "digit_nat c = of_char c - 48"

text \<open>The last \<open>k\<close> decimal digits of \<open>n\<close>, leading zeros included.\<close>

fun dec_digits :: "nat \<Rightarrow> nat \<Rightarrow> string" where
  "dec_digits 0 n = []"
| "dec_digits (Suc k) n = dec_digits k (n div 10) @ [char_of (48 + n mod 10)]"

definition dec_value :: "string \<Rightarrow> nat" where
  "dec_value s = foldl (\<lambda>n c. 10 * n + digit_nat c) 0 s"

lemma length_dec_digits [simp]: "length (dec_digits k n) = k"
  by (induction k arbitrary: n) simp_all

lemma of_char_digit [simp]: "(of_char (char_of (48 + n mod 10) :: char) :: nat) = 48 + n mod 10"
proof -
  have "n mod 10 < 10" by simp
  then have "48 + n mod 10 < 256" by linarith
  then show ?thesis by simp
qed

lemma digits_dec_digits [simp]: "list_all digit (dec_digits k n)"
proof (induction k arbitrary: n)
  case (Suc k)
  have "n mod 10 < 10" by simp
  then have "digit (char_of (48 + n mod 10))"
    unfolding digit_def of_char_digit by simp
  with Suc show ?case by simp
qed simp

lemma dec_value_digits [simp]: "dec_value (dec_digits k n) = n mod 10 ^ k"
proof (induction k arbitrary: n)
  case (Suc k)
  have "dec_value (dec_digits (Suc k) n) = 10 * (n div 10 mod 10 ^ k) + n mod 10"
    using Suc by (simp add: dec_value_def digit_nat_def)
  also have "\<dots> = n mod 10 ^ Suc k" by (simp add: mod_mult2_eq)
  finally show ?case .
qed (simp add: dec_value_def)

text \<open>Groups of hexadecimal digits of the given lengths, joined by hyphens.\<close>

definition is_hex :: "char \<Rightarrow> bool" where
  "is_hex c = (let n = of_char c :: nat in 48 \<le> n \<and> n \<le> 57 \<or> 65 \<le> n \<and> n \<le> 70 \<or> 97 \<le> n \<and> n \<le> 102)"

fun hex_groups :: "nat list \<Rightarrow> string \<Rightarrow> bool" where
  "hex_groups [] s = (s = [])"
| "hex_groups [n] s = (length s = n \<and> list_all is_hex s)"
| "hex_groups (n # ns) s =
     (length (take n s) = n \<and> list_all is_hex (take n s) \<and>
      (case drop n s of [] \<Rightarrow> False | c # rest \<Rightarrow> c = CHR ''-'' \<and> hex_groups ns rest))"

subsection \<open>Numbers\<close>

text \<open>The float nearest to \<open>n / d\<close>: enough quotient bits, then one bit for the remainder.\<close>

definition f64_of_ratio :: "int \<Rightarrow> int \<Rightarrow> f64" where
  "f64_of_ratio n d =
     (let k = nat (max 0 (bitlen d - bitlen \<bar>n\<bar> + 64));
          a = \<bar>n\<bar> * 2 ^ k
      in f64_round (sgn n * (2 * (a div d) + (if a mod d = 0 then 0 else 1))) (- int k - 1))"

text \<open>\<open>readFloat\<close>: the mantissa of base 10 or 16, up to the first byte that is not part of it.\<close>

record mantissa =
  mt_digits :: "nat list"
  mt_point :: "nat option"
  mt_underscore :: bool
  mt_rest :: string

definition base_digit :: "nat \<Rightarrow> char \<Rightarrow> nat option" where
  "base_digit base c =
     (let n = of_char (ascii_lower c) :: nat
      in if 48 \<le> n \<and> n \<le> 57 then Some (n - 48)
         else if base = 16 \<and> 97 \<le> n \<and> n \<le> 102 then Some (n - 87) else None)"

fun read_mantissa :: "nat \<Rightarrow> nat list \<Rightarrow> nat option \<Rightarrow> bool \<Rightarrow> string \<Rightarrow> mantissa" where
  "read_mantissa base ds p u [] = \<lparr>mt_digits = ds, mt_point = p, mt_underscore = u, mt_rest = []\<rparr>"
| "read_mantissa base ds p u (c # cs) =
     (if c = CHR ''_'' then read_mantissa base ds p True cs
      else if c = CHR ''.'' \<and> p = None then read_mantissa base ds (Some (length ds)) u cs
      else case base_digit base c of
        Some d \<Rightarrow> read_mantissa base (ds @ [d]) p u cs
      | None \<Rightarrow> \<lparr>mt_digits = ds, mt_point = p, mt_underscore = u, mt_rest = c # cs\<rparr>)"

fun read_exponent :: "nat \<Rightarrow> bool \<Rightarrow> string \<Rightarrow> nat \<times> bool \<times> string" where
  "read_exponent e u [] = (e, u, [])"
| "read_exponent e u (c # cs) =
     (if c = CHR ''_'' then read_exponent e True cs
      else if digit c then read_exponent (if e < 10000 then 10 * e + digit_nat c else e) u cs
      else (e, u, c # cs))"

text \<open>An underscore stands between digits, a base prefix counting as one.\<close>

fun underscores :: "bool \<Rightarrow> char \<Rightarrow> string \<Rightarrow> bool" where
  "underscores hex saw [] \<longleftrightarrow> saw \<noteq> CHR ''_''"
| "underscores hex saw (c # cs) \<longleftrightarrow>
     (if base_digit (if hex then 16 else 10) c \<noteq> None then underscores hex CHR ''0'' cs
      else if c = CHR ''_'' then saw = CHR ''0'' \<and> underscores hex CHR ''_'' cs
      else saw \<noteq> CHR ''_'' \<and> underscores hex CHR ''!'' cs)"

fun unsigned_part :: "string \<Rightarrow> int \<times> string" where
  "unsigned_part [] = (1, [])"
| "unsigned_part (c # cs) = (if c = CHR ''-'' then (-1, cs) else if c = CHR ''+'' then (1, cs) else (1, c # cs))"

fun hex_prefix :: "string \<Rightarrow> bool" where
  "hex_prefix (z # x # c # cs) = (z = CHR ''0'' \<and> ascii_lower x = CHR ''x'')"
| "hex_prefix s = False"

definition special_float :: "string \<Rightarrow> f64 option" where
  "special_float s =
     (let (sg, body) = unsigned_part s; low = map ascii_lower body
      in if low = ''inf'' \<or> low = ''infinity'' then Some (f64_inf sg)
         else if map ascii_lower s = ''nan'' then Some NaN else None)"

definition parse_exponent :: "nat \<Rightarrow> string \<Rightarrow> (int \<times> bool \<times> string) option" where
  "parse_exponent base s =
     (case s of
        c # cs \<Rightarrow>
          if ascii_lower c = (if base = 16 then CHR ''p'' else CHR ''e'') then
            (let (sg, body) = unsigned_part cs
             in if body = [] \<or> \<not> digit (hd body) then None
                else let (e, u, rest) = read_exponent 0 False body in Some (sg * int e, u, rest))
          else if base = 16 then None else Some (0, False, s)
      | [] \<Rightarrow> if base = 16 then None else Some (0, False, []))"

text \<open>An infinite result is the range error.\<close>

definition ParseFloat :: "string \<Rightarrow> f64 option" where
  "ParseFloat s =
     (case special_float s of
        Some x \<Rightarrow> Some x
      | None \<Rightarrow>
          let (sg, body) = unsigned_part s;
              base = (if hex_prefix body then 16 else 10);
              m = read_mantissa base [] None False (if base = 16 then drop 2 body else body)
          in if mt_digits m = [] then None
             else case parse_exponent base (mt_rest m) of
               None \<Rightarrow> None
             | Some (e, u, rest) \<Rightarrow>
                 if rest \<noteq> [] \<or> (mt_underscore m \<or> u) \<and> \<not> underscores (base = 16) (if base = 16 then CHR ''0'' else CHR ''^'') (if base = 16 then drop 2 body else body)
                 then None
                 else
                   let n = foldl (\<lambda>a d. int base * a + int d) 0 (mt_digits m);
                       frac = (case mt_point m of None \<Rightarrow> 0 | Some p \<Rightarrow> int (length (mt_digits m)) - int p);
                       x = (if base = 16 then f64_round (sg * n) (e - 4 * frac)
                            else if 0 \<le> e - frac then f64_round (sg * n * 10 ^ nat (e - frac)) 0
                            else f64_of_ratio (sg * n) (10 ^ nat (frac - e)))
                   in if x = PosInf \<or> x = NegInf then None else Some x)"

end
