(* ===== verification/Order_Events.thy ===== *)
theory Order_Events
  imports Order_Store Go_Text
begin

text \<open>
  \<open>order/events\<close>: the Dapr delivery routes of the order service and the compensation saga. A
  delivery is the request's content type and what the JSON decoder makes of its body; a handler
  answers with an HTTP status.
\<close>

subsection \<open>Payloads and envelopes\<close>

record UUIDEventData =
  ue_ID :: uuid

record ProductVariantVersionEventData =
  pve_ID :: uuid
  pve_RetailPrice :: u32
  pve_TaxRateID :: uuid
  pve_ProductVariantID :: uuid

record UpdateProductVariantEventData =
  upe_ID :: uuid
  upe_IsPubliclyVisible :: string

record TaxRateVersionEventData =
  tre_ID :: uuid
  tre_Rate :: f64
  tre_Version :: u32
  tre_TaxRateID :: uuid

record UserAddressEventData =
  uae_ID :: uuid
  uae_UserID :: uuid

record ShipmentFailedEventData =
  sfe_OrderID :: uuid
  sfe_OrderItemIDs :: "uuid slice"

record 'a Envelope =
  env_Topic :: string
  env_Data :: 'a

definition TopicProductVariantUpdated :: string where
  "TopicProductVariantUpdated = ''catalog/product-variant/updated''"
definition TopicProductVariantVersionCreated :: string where
  "TopicProductVariantVersionCreated = ''catalog/product-variant-version/created''"
definition TopicCouponCreated :: string where
  "TopicCouponCreated = ''discount/coupon/created''"
definition TopicTaxRateVersionCreated :: string where
  "TopicTaxRateVersionCreated = ''tax/tax-rate-version/created''"
definition TopicShipmentMethodCreated :: string where
  "TopicShipmentMethodCreated = ''shipment/shipment-method/created''"
definition TopicUserCreated :: string where
  "TopicUserCreated = ''user/user/created''"
definition TopicUserAddressCreated :: string where
  "TopicUserAddressCreated = ''address/user-address/created''"
definition TopicUserAddressArchived :: string where
  "TopicUserAddressArchived = ''address/user-address/archived''"
definition TopicShipmentCreationFailed :: string where
  "TopicShipmentCreationFailed = ''shipment/shipment/creation-failed''"

lemmas order_topics = TopicProductVariantUpdated_def TopicProductVariantVersionCreated_def
  TopicCouponCreated_def TopicTaxRateVersionCreated_def TopicShipmentMethodCreated_def
  TopicUserCreated_def TopicUserAddressCreated_def TopicUserAddressArchived_def
  TopicShipmentCreationFailed_def

text \<open>The body cannot be read, is not JSON, does not fit the struct, or is an envelope.\<close>

datatype 'a event_body = Unreadable | InvalidJson | WrongShape | Decoded "'a Envelope"

record 'a delivery =
  dl_ContentType :: string
  dl_Body :: "'a event_body"

definition decodeEnvelope :: "'a delivery \<Rightarrow> int + 'a Envelope" where
  "decodeEnvelope r =
     (if dl_ContentType r \<noteq> [] \<and>
         \<not> EqualFold (TrimSpace (takeWhile (\<lambda>c. c \<noteq> CHR '';'') (dl_ContentType r))) ''application/json''
      then Inl 415
      else (case dl_Body r of
              Unreadable \<Rightarrow> Inl 400
            | InvalidJson \<Rightarrow> Inl 400
            | WrongShape \<Rightarrow> Inl 422
            | Decoded env \<Rightarrow> Inr env))"

definition handle :: "string \<Rightarrow> ('a \<Rightarrow> unit order_act) \<Rightarrow> 'a delivery \<Rightarrow> order_db \<Rightarrow> int \<times> order_db" where
  "handle expectedTopic fn r s =
     (case decodeEnvelope r of
        Inl status \<Rightarrow> (status, s)
      | Inr env \<Rightarrow>
          if env_Topic env \<noteq> expectedTopic then (500, s)
          else (case fn (env_Data env) s of
                  (Inl _, s') \<Rightarrow> (500, s')
                | (Inr _, s') \<Rightarrow> (200, s')))"

subsection \<open>Read-model handlers\<close>

definition onIDCreation :: "UUIDEventData delivery \<Rightarrow> order_db \<Rightarrow> int \<times> order_db" where
  "onIDCreation r s =
     (case decodeEnvelope r of
        Inl status \<Rightarrow> (status, s)
      | Inr env \<Rightarrow>
          let i = ue_ID (env_Data env);
              act = (if env_Topic env = TopicCouponCreated then Some (InsertCoupon i)
                     else if env_Topic env = TopicShipmentMethodCreated then Some (InsertShipmentMethod i)
                     else if env_Topic env = TopicUserCreated then Some (InsertUser i)
                     else None)
          in (case act of
                None \<Rightarrow> (500, s)
              | Some m \<Rightarrow> (case m s of (Inl _, s') \<Rightarrow> (500, s') | (Inr _, s') \<Rightarrow> (200, s'))))"

definition onProductVariantVersionCreated :: "ProductVariantVersionEventData \<Rightarrow> unit order_act" where
  "onProductVariantVersionCreated data =
     (let version = \<lparr>pvv_ID = pve_ID data, pvv_Price = pve_RetailPrice data, pvv_TaxRateID = pve_TaxRateID data\<rparr>
      in andThen (attempt (GetProductVariant (pve_ProductVariantID data))) (\<lambda>r.
           case r of
             Inl _ \<Rightarrow> InsertProductVariant (pve_ProductVariantID data) version
           | Inr _ \<Rightarrow> UpdateProductVariantVersion (pve_ProductVariantID data) version))"

definition onProductVariantUpdated :: "UpdateProductVariantEventData \<Rightarrow> unit order_act" where
  "onProductVariantUpdated data =
     SetProductVariantVisibility (upe_ID data) (BsonString (upe_IsPubliclyVisible data))"

definition onTaxRateVersionCreated :: "TaxRateVersionEventData \<Rightarrow> unit order_act" where
  "onTaxRateVersionCreated data =
     UpsertTaxRate (tre_TaxRateID data)
       \<lparr>trv_ID = tre_ID data, trv_Rate = tre_Rate data, trv_Version = tre_Version data\<rparr>"

definition onUserAddressCreated :: "UserAddressEventData \<Rightarrow> unit order_act" where
  "onUserAddressCreated data = PushUserAddress (uae_UserID data) (uae_ID data)"

definition onUserAddressArchived :: "UserAddressEventData \<Rightarrow> unit order_act" where
  "onUserAddressArchived data = PullUserAddress (uae_UserID data) (uae_ID data)"

subsection \<open>Compensation\<close>

definition calculateAmountToCompensate :: "ShipmentFailedEventData \<Rightarrow> u64 order_act" where
  "calculateAmountToCompensate data =
     andThen (attempt (GetOrder (sfe_OrderID data))) (\<lambda>r.
       case r of
         Inl e \<Rightarrow> fail (if e = ErrNoDocuments then OrderNotFound (sfe_OrderID data) else e)
       | Inr order \<Rightarrow>
           ret (sum_list (map oi_CompensatableAmount
             (filter (\<lambda>it. oi_ID it \<in> set (elems (sfe_OrderItemIDs data))) (o_InternalOrderItems order)))))"

definition PublishOrderCompensationCreated :: "OrderCompensationDTO \<Rightarrow> unit order_act" where
  "PublishOrderCompensationCreated dto = emit TransportError (OrderCompensationCreated dto)"

definition compensateOrder :: "ShipmentFailedEventData \<Rightarrow> unit order_act" where
  "compensateOrder data =
     andThen (attempt (ValidateObjectOrder (sfe_OrderID data))) (\<lambda>r.
       case r of
         Inl e \<Rightarrow> fail (if e = ErrNoDocuments then OrderNotFound (sfe_OrderID data) else e)
       | Inr _ \<Rightarrow>
     andThen (attempt (CountUncompensatedProbe (sfe_OrderItemIDs data))) (\<lambda>r.
       case r of
         Inl _ \<Rightarrow> fail (NotVerified (sfe_OrderItemIDs data))
       | Inr n \<Rightarrow>
           if n \<noteq> 0 then fail (NotVerified (sfe_OrderItemIDs data))
           else
     andThen (calculateAmountToCompensate data) (\<lambda>amount.
     andThen new_uuid (\<lambda>i.
     andThen now (\<lambda>t.
     andThen (attempt (InsertOrderCompensation
         \<lparr>oc_ID = i, oc_OrderID = sfe_OrderID data, oc_OrderItemIDs = sfe_OrderItemIDs data,
          oc_TriggeredAt = t, oc_AmountToCompensate = amount\<rparr>)) (\<lambda>r.
       case r of
         Inl _ \<Rightarrow> fail InsertCompensationFailed
       | Inr _ \<Rightarrow>
           PublishOrderCompensationCreated \<lparr>ocd_ID = i, ocd_AmountToCompensate = amount\<rparr>))))))"

end
