(* ===== verification/Order_Props.thy ===== *)
theory Order_Props
  imports Order_Graph Order_Events
begin

text \<open>
  What the order service guarantees over its whole life. The life cycle of one order is the step
  relation \<open>order_moves\<close>; the service's requests and deliveries are the step relation
  \<open>order_step\<close>. The first part shows, by the two relations \<open>orders_quiet\<close> and
  \<open>order_ids_unique\<close> and the effect rules of the library, what no operation can break under any
  fault script; the second part gives each operation's result.
\<close>

subsection \<open>The life cycle of an order\<close>

inductive order_moves :: "Order \<Rightarrow> Order \<Rightarrow> bool" where
  place: "o_OrderStatus ord = ''PENDING'' \<Longrightarrow>
     order_moves ord (ord\<lparr>o_OrderStatus := ''PLACED'', o_PlacedAt := Some t\<rparr>)"
| reject: "order_moves ord (ord\<lparr>o_OrderStatus := ''REJECTED''\<rparr>)"

inductive_cases order_movesE: "order_moves ord ord'"

text \<open>Everything but the status and the instant of placing is frozen at creation.\<close>

definition order_content :: "Order \<Rightarrow> Order" where
  "order_content ord = ord\<lparr>o_OrderStatus := '''', o_PlacedAt := None\<rparr>"

lemma order_moves_content: "order_moves\<^sup>*\<^sup>* ord ord' \<Longrightarrow> order_content ord' = order_content ord"
  by (induction rule: rtranclp_induct) (auto simp: order_content_def elim: order_movesE)

lemma order_content_ID: "order_content ord' = order_content ord \<Longrightarrow> o_ID ord' = o_ID ord"
  by (cases ord; cases ord') (simp add: order_content_def)

lemma order_moves_ID: "order_moves\<^sup>*\<^sup>* ord ord' \<Longrightarrow> o_ID ord' = o_ID ord"
  by (blast dest: order_moves_content order_content_ID)

lemma order_moves_rejected:
  "order_moves\<^sup>*\<^sup>* ord ord' \<Longrightarrow> o_OrderStatus ord = ''REJECTED'' \<Longrightarrow> ord' = ord"
  by (induction rule: rtranclp_induct) (auto elim!: order_movesE)

lemma order_moves_placed:
  "order_moves\<^sup>*\<^sup>* ord ord' \<Longrightarrow> o_OrderStatus ord = ''PLACED'' \<Longrightarrow>
     ord' = ord \<or> ord' = ord\<lparr>o_OrderStatus := ''REJECTED''\<rparr>"
  by (induction rule: rtranclp_induct) (auto elim!: order_movesE)

lemma order_moves_not_pending:
  "order_moves\<^sup>*\<^sup>* ord ord' \<Longrightarrow> o_OrderStatus ord \<noteq> ''PENDING'' \<Longrightarrow> o_OrderStatus ord' \<noteq> ''PENDING''"
  by (induction rule: rtranclp_induct) (auto elim!: order_movesE)

lemma order_moves_status:
  "order_moves\<^sup>*\<^sup>* ord ord' \<Longrightarrow> ord' = ord \<or> o_OrderStatus ord' \<in> {''PLACED'', ''REJECTED''}"
  by (induction rule: rtranclp_induct) (auto elim!: order_movesE)

text \<open>The collection only grows at its end, and each order in it moves.\<close>

definition orders_evolve :: "Order list \<Rightarrow> Order list \<Rightarrow> bool" where
  "orders_evolve xs ys \<longleftrightarrow> (\<exists>as bs. ys = as @ bs \<and> list_all2 order_moves\<^sup>*\<^sup>* xs as)"

lemma orders_evolve_refl: "orders_evolve xs xs"
  unfolding orders_evolve_def by (rule exI [of _ xs]) (simp add: list_all2_refl)

lemma orders_evolve_trans:
  assumes "orders_evolve xs ys" "orders_evolve ys zs"
  shows "orders_evolve xs zs"
proof -
  obtain as bs where y: "ys = as @ bs" and xa: "list_all2 order_moves\<^sup>*\<^sup>* xs as"
    using assms(1) by (auto simp: orders_evolve_def)
  obtain cs ds where z: "zs = cs @ ds" and yc: "list_all2 order_moves\<^sup>*\<^sup>* (as @ bs) cs"
    using assms(2) y by (auto simp: orders_evolve_def)
  then obtain c1 c2 where c: "cs = c1 @ c2" and ac: "list_all2 order_moves\<^sup>*\<^sup>* as c1"
    by (auto simp: list_all2_append1)
  have "list_all2 order_moves\<^sup>*\<^sup>* xs c1"
    by (rule list_all2_trans [OF _ xa ac]) (rule rtranclp_trans)
  then show ?thesis
    unfolding orders_evolve_def z c by (intro exI [of _ c1] exI [of _ "c2 @ ds"]) simp
qed

lemma orders_evolve_append: "orders_evolve xs (xs @ ys)"
  unfolding orders_evolve_def by (intro exI conjI, rule refl) (simp add: list_all2_refl)

lemma orders_evolve_map_first:
  assumes "\<And>x. find P xs = Some x \<Longrightarrow> order_moves\<^sup>*\<^sup>* x (f x)"
  shows "orders_evolve xs (map_first P f xs)"
proof -
  have "list_all2 order_moves\<^sup>*\<^sup>* xs (map_first P f xs)"
    using assms by (induction xs) (auto simp: list_all2_refl split: if_splits)
  then show ?thesis
    unfolding orders_evolve_def by (metis append_Nil2)
qed

lemma orders_evolve_find:
  assumes "orders_evolve xs ys" "ord \<in> set xs"
  shows "\<exists>ord' \<in> set ys. order_moves\<^sup>*\<^sup>* ord ord'"
proof -
  obtain as bs where y: "ys = as @ bs" and l: "list_all2 order_moves\<^sup>*\<^sup>* xs as"
    using assms(1) by (auto simp: orders_evolve_def)
  obtain i where "i < length xs" "xs ! i = ord"
    using assms(2) by (auto simp: in_set_conv_nth)
  then show ?thesis
    using l y by (auto simp: list_all2_conv_all_nth intro!: bexI [of _ "as ! i"])
qed

subsection \<open>What every operation keeps, whatever fails\<close>

fun published_ids :: "order_event list \<Rightarrow> uuid list" where
  "published_ids [] = []"
| "published_ids (OrderCreated dto # evs) = odto_ID dto # published_ids evs"
| "published_ids (OrderCompensationCreated _ # evs) = published_ids evs"

lemma published_ids_append [simp]: "published_ids (xs @ ys) = published_ids xs @ published_ids ys"
  by (induction xs rule: published_ids.induct) simp_all

definition published :: "order_db \<Rightarrow> uuid list" where
  "published s = published_ids (outbox s)"

definition orders_quiet :: "order_db \<Rightarrow> order_db \<Rightarrow> bool" where
  "orders_quiet s s' \<longleftrightarrow> orders_evolve (orders s) (orders s') \<and> published s' = published s"

lemma orders_quietI:
  "orders s' = orders s \<Longrightarrow> outbox s' = outbox s \<Longrightarrow> orders_quiet s s'"
  by (simp add: orders_quiet_def published_def orders_evolve_refl)

interpretation quiet: effect_rel orders_quiet
proof
  fix s t u :: order_db
  show "orders_quiet s t \<Longrightarrow> orders_quiet t u \<Longrightarrow> orders_quiet s u"
    by (auto simp: orders_quiet_def intro: orders_evolve_trans)
qed (rule orders_quietI; simp)+

lemma quiet_InsertOrder [guar_intros]: "guar orders_quiet (InsertOrder ord)"
  unfolding InsertOrder_def GetOrder_def
  by (intro guar_intros quiet.guar_insert_one)
    (simp add: orders_quiet_def published_def orders_evolve_append)

lemma quiet_SetStatusRejected [guar_intros]: "guar orders_quiet (SetStatusRejected i)"
  unfolding SetStatusRejected_def
  by (intro quiet.guar_update_one)
    (auto simp: orders_quiet_def published_def intro!: orders_evolve_map_first order_moves.reject)

text \<open>The other store methods do not touch the orders at all.\<close>

lemma quiet_store [guar_intros]:
  "guar orders_quiet (GetOrder i)" "guar orders_quiet (GetUser i)"
  "guar orders_quiet (GetOrderItemFromCollection i)" "guar orders_quiet (GetOrderByEmbeddedItemID i)"
  "guar orders_quiet (ValidateObjectUser i)" "guar orders_quiet (ShipmentMethodsPresent ids)"
  "guar orders_quiet (CouponsPresent ids)" "guar orders_quiet (GetProductVariants is)"
  "guar orders_quiet (GetTaxRates is)" "guar orders_quiet (InsertCoupon i)"
  "guar orders_quiet (InsertShipmentMethod i)" "guar orders_quiet (InsertUser i)"
  "guar orders_quiet (GetProductVariant i)" "guar orders_quiet (UpdateProductVariantVersion i v)"
  "guar orders_quiet (InsertProductVariant i v)" "guar orders_quiet (SetProductVariantVisibility i b)"
  "guar orders_quiet (UpsertTaxRate i rv)" "guar orders_quiet (PushUserAddress i a)"
  "guar orders_quiet (PullUserAddress i a)" "guar orders_quiet (ValidateObjectOrder i)"
  "guar orders_quiet (CountUncompensatedProbe ids)" "guar orders_quiet (InsertOrderCompensation c)"
  unfolding order_store_defs
  by (intro guar_intros quiet.guar_insert_one quiet.guar_update_one quiet.guar_upsert_one; rule orders_quietI; simp)+

lemma quiet_ListOrdersByUser [guar_intros]: "guar orders_quiet (ListOrdersByUser i f d sk n)"
  unfolding ListOrdersByUser_def by (intro guar_intros)

lemma quiet_lift_result [guar_intros]: "guar orders_quiet (lift_result r)"
  unfolding lift_result_def by (intro guar_intros)

lemma quiet_zip_items [guar_intros]:
  "guar orders_quiet (zip_items D pvs inputs pvvs trvs counts discs t ids)"
  by (induction ids) (auto intro!: guar_intros split: option.split)

lemma quiet_createInternalOrderItems [guar_intros]:
  "guar orders_quiet (createInternalOrderItems D u inputs h t)"
  unfolding createInternalOrderItems_def zipToInternalOrderItems_def queryProductVariantsByProductVariantIDs_def
    queryTaxRateVersionsByProductVariantIDs_def Let_def
  by (intro guar_intros)

lemma quiet_validateOrderInput [guar_intros]: "guar orders_quiet (validateOrderInput input inputs)"
  unfolding validateOrderInput_def validateObjectsPresent_def validateUserAddress_def
  by (intro guar_intros)

lemma quiet_CreateOrder: "guar orders_quiet (CreateOrder D marshal c input)"
  unfolding CreateOrder_def Let_def by (intro guar_intros)

lemma quiet_compensateOrder: "guar orders_quiet (compensateOrder data)"
proof -
  have "guar orders_quiet (PublishOrderCompensationCreated dto)" for dto
    unfolding PublishOrderCompensationCreated_def
    by (intro quiet.guar_emit) (simp add: orders_quiet_def published_def orders_evolve_refl)
  then show ?thesis
    unfolding compensateOrder_def calculateAmountToCompensate_def by (intro guar_intros) 
qed

text \<open>Placing is the one write that is only a move of the order because of what was read before.\<close>

lemma GetOrder_run:
  "GetOrder i s = (Inr ord, s') \<Longrightarrow>
     find (\<lambda>x. o_ID x = i) (orders s) = Some ord \<and> (\<exists>fs. s' = s\<lparr>faults := fs\<rparr>)"
  unfolding GetOrder_def by (erule find_one_run) simp

text \<open>An order older than the timeout at instant \<open>t\<close>.\<close>

definition stale :: "time \<Rightarrow> Order \<Rightarrow> bool" where
  "stale t ord \<longleftrightarrow> o_CreatedAt ord + pendingTimeout < t"

definition placed_at :: "time \<Rightarrow> Order \<Rightarrow> Order" where
  "placed_at t ord = ord\<lparr>o_OrderStatus := ''PLACED'', o_PlacedAt := Some (bson_time t)\<rparr>"

definition rejected :: "Order \<Rightarrow> Order" where
  "rejected ord = ord\<lparr>o_OrderStatus := ''REJECTED''\<rparr>"

lemma SetStatusPlaced_run:
  assumes "SetStatusPlaced i t s = (r, s')"
  obtains (refused) "r = Inl DriverError" "orders s' = orders s" "outbox s' = outbox s"
  | (wrote) "r = Inr () \<or> r = Inl DriverError" "orders s' = map_first (\<lambda>x. o_ID x = i) (placed_at t) (orders s)"
      "outbox s' = outbox s"
  using assms unfolding SetStatusPlaced_def
  by (cases rule: update_one_run) (auto simp: placed_at_def [abs_def])

lemma SetStatusRejected_run:
  assumes "SetStatusRejected i s = (r, s')"
  obtains (refused) "r = Inl DriverError" "orders s' = orders s" "outbox s' = outbox s"
  | (wrote) "r = Inr () \<or> r = Inl DriverError" "orders s' = map_first (\<lambda>x. o_ID x = i) rejected (orders s)"
      "outbox s' = outbox s"
  using assms unfolding SetStatusRejected_def
  by (cases rule: update_one_run) (auto simp: rejected_def [abs_def])

text \<open>Every run of \<open>setStatusPlaced\<close>, under any script.\<close>

lemma setStatusPlaced_run:
  assumes "setStatusPlaced i s = (r, s')"
  obtains (kept) e where "r = Inl e" "orders s' = orders s" "outbox s' = outbox s"
  | (placed) ord t where "find (\<lambda>x. o_ID x = i) (orders s) = Some ord" "o_OrderStatus ord = ''PENDING''"
      "t = clock s (reads s)" "\<not> stale t ord"
      "orders s' = map_first (\<lambda>x. o_ID x = i) (placed_at t) (orders s)" "outbox s' = outbox s"
  | (rejected) e ord where "r = Inl e" "find (\<lambda>x. o_ID x = i) (orders s) = Some ord"
      "stale (clock s (reads s)) ord"
      "orders s' = map_first (\<lambda>x. o_ID x = i) rejected (orders s)" "outbox s' = outbox s"
proof -
  let ?t = "clock s (reads s)" and ?s1 = "s\<lparr>reads := Suc (reads s)\<rparr>"
  obtain rg s2 where g: "GetOrder i ?s1 = (rg, s2)" by fastforce
  have same: "orders s2 = orders s" "outbox s2 = outbox s"
    using guarD [OF quiet_store(1) g] g
    by (auto simp: GetOrder_def find_one_def ext_def split: list.splits fault.splits option.splits)
  show thesis
  proof (cases rg)
    case (Inl e)
    then show ?thesis
      using assms g same by (intro kept) (auto simp: setStatusPlaced_def run_simps run_andThen)
  next
    case (Inr ord)
    then have f: "find (\<lambda>x. o_ID x = i) (orders s) = Some ord"
      using GetOrder_run g by fastforce
    have step: "(r, s') = (if \<not> stale ?t ord then
        (if o_OrderStatus ord = ''PENDING'' then SetStatusPlaced i ?t s2
         else fail (NotPending (o_OrderStatus ord)) s2)
      else (Inl (case fst (SetStatusRejected i s2) of Inl _ \<Rightarrow> RejectFailed i | Inr _ \<Rightarrow> WasRejected i),
            snd (SetStatusRejected i s2)))"
      using assms g Inr
      by (auto simp: setStatusPlaced_def stale_def run_simps run_andThen split: sum.split)
    show ?thesis
    proof (cases "stale ?t ord")
      case True
      obtain rr s3 where rj: "SetStatusRejected i s2 = (rr, s3)" by fastforce
      show ?thesis
        using step True same f kept rejected rj
        by (cases rule: SetStatusRejected_run [OF rj]) auto
    next
      case False
      then show ?thesis
      proof (cases "o_OrderStatus ord = ''PENDING''")
        case True
        then have "SetStatusPlaced i ?t s2 = (r, s')" using step False by simp
        then show ?thesis
          using same f True False kept placed by (cases rule: SetStatusPlaced_run) auto
      qed (use step False same kept in \<open>auto simp: run_simps\<close>)
    qed
  qed
qed

lemma placed_at_ID [simp]: "o_ID (placed_at t ord) = o_ID ord"
  by (simp add: placed_at_def)

lemma rejected_ID [simp]: "o_ID (rejected ord) = o_ID ord"
  by (simp add: rejected_def)

lemma toOrderDTO_ID: "toOrderDTO ord auth = Inr dto \<Longrightarrow> odto_ID dto = o_ID ord"
  by (auto simp: toOrderDTO_def split: option.splits)

lemma authorize_run: "lift_result (authorizeUser c i) s = (authorizeUser c i, s)"
  by (simp add: lift_result_def run_simps split: sum.split)

text \<open>Runs that move orders and send nothing.\<close>

definition calm :: "order_db \<Rightarrow> order_db \<Rightarrow> bool" where
  "calm s s' \<longleftrightarrow> orders_evolve (orders s) (orders s') \<and> outbox s' = outbox s"

interpretation calm: effect_rel calm
  by unfold_locales (auto simp: calm_def intro: orders_evolve_refl orders_evolve_trans)

lemma calm_quiet: "calm s s' \<Longrightarrow> orders_quiet s s'"
  by (simp add: calm_def orders_quiet_def published_def)

lemma calm_parts [guar_intros]:
  "guar calm (GetOrder i)" "guar calm (lift_result r)" "guar calm (setStatusPlaced i)"
proof -
  show "guar calm (setStatusPlaced i)"
  proof (rule guarI)
    fix s
    obtain r s' where run: "setStatusPlaced i s = (r, s')" by fastforce
    then have "orders_evolve (orders s) (orders s') \<and> outbox s' = outbox s"
      by (cases rule: setStatusPlaced_run)
        (fastforce intro: orders_evolve_refl orders_evolve_map_first order_moves.intros
          simp: placed_at_def rejected_def)+
    then show "calm s (snd (setStatusPlaced i s))" using run by (simp add: calm_def)
  qed
qed (auto simp: GetOrder_def lift_result_def intro!: guar_intros)

lemma quiet_setStatusPlaced [guar_intros]: "guar orders_quiet (setStatusPlaced i)"
  using calm_parts(3) by (auto simp: guar_def intro: calm_quiet)

text \<open>\<open>PlaceOrder\<close> up to the order it publishes.\<close>

definition placing :: "ctx \<Rightarrow> uuid \<Rightarrow> Order order_act" where
  "placing c i =
     andThen (attempt (GetOrder i)) (\<lambda>r.
       case r of
         Inl _ \<Rightarrow> fail (OrderNotFound i)
       | Inr order \<Rightarrow>
           andThen (lift_result (authorizeUser c (ouser_ID (o_User order)))) (\<lambda>_.
           andThen (setStatusPlaced i) (\<lambda>_.
           andThen (attempt (GetOrder i)) (\<lambda>r'.
             case r' of Inl _ \<Rightarrow> fail (OrderNotFound i) | Inr placed \<Rightarrow> ret placed))))"

lemma calm_placing: "guar calm (placing c i)"
  unfolding placing_def by (intro guar_intros)

lemma PlaceOrder_placing:
  "PlaceOrder c i auth =
     andThen (placing c i) (\<lambda>placed.
     andThen (lift_result (toOrderDTO placed (buildPaymentAuthorization auth))) (\<lambda>dto.
     andThen (PublishOrderCreated dto) (\<lambda>_. ret (toOrderModel placed))))"
  by (rule ext) (auto simp: PlaceOrder_def placing_def andThen_def attempt_def run_ret run_fail
      split: prod.split sum.split)

lemma attempt_Inr_run: "andThen (attempt m) k s = k (fst (m s)) (snd (m s))"
  by (simp add: run_andThen run_attempt)

lemma placing_Inr:
  assumes "placing c i s = (Inr placed, s')"
  obtains ord where "find (\<lambda>x. o_ID x = i) (orders s) = Some ord" "o_OrderStatus ord = ''PENDING''"
    "\<not> stale (clock s (reads s)) ord" "authorizeUser c (ouser_ID (o_User ord)) = Inr ()"
    "placed = placed_at (clock s (reads s)) ord"
    "orders s' = map_first (\<lambda>x. o_ID x = i) (placed_at (clock s (reads s))) (orders s)"
proof -
  obtain ord s1 where g: "GetOrder i s = (Inr ord, s1)"
    using assms unfolding placing_def attempt_Inr_run
    by (cases "GetOrder i s"; cases "fst (GetOrder i s)") (auto simp: run_fail)
  then obtain fs where s1: "s1 = s\<lparr>faults := fs\<rparr>" and f: "find (\<lambda>x. o_ID x = i) (orders s) = Some ord"
    using GetOrder_run by blast
  from assms g have tail: "andThen (lift_result (authorizeUser c (ouser_ID (o_User ord)))) (\<lambda>_.
      andThen (setStatusPlaced i) (\<lambda>_. andThen (attempt (GetOrder i)) (\<lambda>r'.
        case r' of Inl _ \<Rightarrow> fail (OrderNotFound i) | Inr placed \<Rightarrow> ret placed))) s1 = (Inr placed, s')"
    by (simp add: placing_def attempt_Inr_run)
  then obtain s2 where a: "authorizeUser c (ouser_ID (o_User ord)) = Inr ()"
      and p: "setStatusPlaced i s1 = (Inr (), s2)"
      and t2: "andThen (attempt (GetOrder i)) (\<lambda>r'.
        case r' of Inl _ \<Rightarrow> fail (OrderNotFound i) | Inr placed \<Rightarrow> ret placed) s2 = (Inr placed, s')"
    by (auto simp: run_andThen [of "lift_result _"] run_andThen [of "setStatusPlaced _"] authorize_run
        split: prod.splits sum.splits)
  obtain g2: "GetOrder i s2 = (Inr placed, s')"
    using t2 unfolding attempt_Inr_run
    by (cases "GetOrder i s2"; cases "fst (GetOrder i s2)") (auto simp: run_simps)
  have new: "o_OrderStatus ord = ''PENDING''" "\<not> stale (clock s (reads s)) ord"
      "orders s2 = map_first (\<lambda>x. o_ID x = i) (placed_at (clock s (reads s))) (orders s)"
    using p f s1 by (cases rule: setStatusPlaced_run; auto)+
  obtain fs' where s': "s' = s2\<lparr>faults := fs'\<rparr>" and f2: "find (\<lambda>x. o_ID x = i) (orders s2) = Some placed"
    using GetOrder_run [OF g2] by blast
  have "placed = placed_at (clock s (reads s)) ord"
    using f2 find_map_first_same [OF f, of "placed_at (clock s (reads s))"] find_Some_in [OF f] by (simp add: new)
  then show thesis using that f new a s' by simp
qed

text \<open>Every run of \<open>PlaceOrder\<close>: it publishes at most once, and only right after the order was placed.\<close>

lemma PlaceOrder_run:
  assumes "PlaceOrder c i auth s = (r, s')"
  obtains (quiet) e where "r = Inl e" "orders_quiet s s'" "outbox s' = outbox s"
  | (published) ord t dto where "find (\<lambda>x. o_ID x = i) (orders s) = Some ord"
      "o_OrderStatus ord = ''PENDING''" "t = clock s (reads s)" "\<not> stale t ord"
      "authorizeUser c (ouser_ID (o_User ord)) = Inr ()"
      "orders s' = map_first (\<lambda>x. o_ID x = i) (placed_at t) (orders s)"
      "toOrderDTO (placed_at t ord) (buildPaymentAuthorization auth) = Inr dto"
      "outbox s' = outbox s @ [OrderCreated dto]"
      "r = Inr (toOrderModel (placed_at t ord)) \<or> r = Inl TransportError"
  using assms unfolding PlaceOrder_placing run_andThen [of "placing c i"]
proof (cases "placing c i s")
  case (Pair rp s1)
  have c1: "calm s s1" by (rule guarD [OF calm_placing Pair])
  show thesis
  proof (cases rp)
    case (Inl e)
    then show ?thesis using assms Pair c1
      by (intro quiet) (auto simp: PlaceOrder_placing run_andThen calm_quiet calm_def)
  next
    case (Inr placed)
    then obtain ord where ord: "find (\<lambda>x. o_ID x = i) (orders s) = Some ord" "o_OrderStatus ord = ''PENDING''"
        "\<not> stale (clock s (reads s)) ord" "authorizeUser c (ouser_ID (o_User ord)) = Inr ()"
        "placed = placed_at (clock s (reads s)) ord"
        "orders s1 = map_first (\<lambda>x. o_ID x = i) (placed_at (clock s (reads s))) (orders s)"
      using Pair placing_Inr by metis
    obtain dto where dto: "toOrderDTO placed (buildPaymentAuthorization auth) = Inr dto"
      by (auto simp: toOrderDTO_def ord placed_at_def)
    obtain re s2 where e: "emit TransportError (OrderCreated dto) s1 = (re, s2)" by fastforce
    have r: "r = (case re of Inl e \<Rightarrow> Inl e | Inr _ \<Rightarrow> Inr (toOrderModel placed))" "s' = s2"
      using assms Pair Inr dto e
      by (auto simp: PlaceOrder_placing run_andThen PublishOrderCreated_def lift_result_def run_simps
          split: sum.splits)
    from e show ?thesis
    proof (cases rule: emit_run)
      case refused
      then show ?thesis using r c1 by (intro quiet) (auto simp: calm_quiet calm_def orders_quiet_def published_def)
    next
      case sent
      then show ?thesis using r ord dto c1 by (intro published) (auto simp: calm_def)
    qed
  qed
qed

subsection \<open>The service as a step relation\<close>

text \<open>
  One step is one request or one delivery, run to its end, or the outside world choosing the
  outcomes of the calls to come.
\<close>

inductive order_step :: "downstream \<Rightarrow> (User \<Rightarrow> string) \<Rightarrow> order_db \<Rightarrow> order_db \<Rightarrow> bool"
  for D marshal where
  script: "order_step D marshal s (s\<lparr>faults := fs\<rparr>)"
| create: "CreateOrder D marshal c input s = (r, s') \<Longrightarrow> order_step D marshal s s'"
| placing: "PlaceOrder c i auth s = (r, s') \<Longrightarrow> order_step D marshal s s'"
| query_order: "Query_Order c i s = (r, s') \<Longrightarrow> order_step D marshal s s'"
| query_item: "Query_OrderItem c i s = (r, s') \<Longrightarrow> order_step D marshal s s'"
| list_orders: "User_Orders c i n sk ob s = (r, s') \<Longrightarrow> order_step D marshal s s'"
| entity_order: "FindOrderByID i s = (r, s') \<Longrightarrow> order_step D marshal s s'"
| entity_item: "FindOrderItemByID i s = (r, s') \<Longrightarrow> order_step D marshal s s'"
| entity_user: "FindUserByID i s = (r, s') \<Longrightarrow> order_step D marshal s s'"
| id_created: "onIDCreation dl s = (st, s') \<Longrightarrow> order_step D marshal s s'"
| version_created: "handle TopicProductVariantVersionCreated onProductVariantVersionCreated dlv s = (st, s') \<Longrightarrow>
     order_step D marshal s s'"
| variant_updated: "handle TopicProductVariantUpdated onProductVariantUpdated dlu s = (st, s') \<Longrightarrow>
     order_step D marshal s s'"
| rate_created: "handle TopicTaxRateVersionCreated onTaxRateVersionCreated dlt s = (st, s') \<Longrightarrow>
     order_step D marshal s s'"
| address_created: "handle TopicUserAddressCreated onUserAddressCreated dla s = (st, s') \<Longrightarrow>
     order_step D marshal s s'"
| address_archived: "handle TopicUserAddressArchived onUserAddressArchived dla s = (st, s') \<Longrightarrow>
     order_step D marshal s s'"
| shipment_failed: "handle TopicShipmentCreationFailed compensateOrder dlf s = (st, s') \<Longrightarrow>
     order_step D marshal s s'"

text \<open>A handler's state is that of the function it wraps.\<close>

lemma handle_run:
  "handle topic fn dl s = (st, s') \<Longrightarrow> s' = s \<or> (\<exists>env. decodeEnvelope dl = Inr env \<and> env_Topic env = topic \<and> s' = snd (fn (env_Data env) s))"
  by (auto simp: handle_def split: sum.splits if_splits prod.splits)

lemma handle_rel:
  "handle topic fn dl s = (st, s') \<Longrightarrow> (\<And>x. guar R (fn x)) \<Longrightarrow> R s s \<Longrightarrow> R s s'"
  by (drule handle_run) (auto simp: guar_def)

lemma onIDCreation_rel:
  assumes "onIDCreation dl s = (st, s')" "R s s"
    and "\<And>i. guar R (InsertCoupon i)" "\<And>i. guar R (InsertShipmentMethod i)" "\<And>i. guar R (InsertUser i)"
  shows "R s s'"
  using assms by (auto simp: onIDCreation_def Let_def split: sum.splits if_splits prod.splits intro: guarD)

text \<open>What the step rule leaves to show for a relation kept by every operation but \<open>PlaceOrder\<close>.\<close>

lemma quiet_requests:
  "guar orders_quiet (Query_Order c i)" "guar orders_quiet (Query_OrderItem c i)"
  "guar orders_quiet (User_Orders c i n sk ob)" "guar orders_quiet (FindOrderByID i)"
  "guar orders_quiet (FindOrderItemByID i)" "guar orders_quiet (FindUserByID i)"
  "guar orders_quiet (onProductVariantVersionCreated d1)" "guar orders_quiet (onProductVariantUpdated d2)"
  "guar orders_quiet (onTaxRateVersionCreated d3)" "guar orders_quiet (onUserAddressCreated d4)"
  "guar orders_quiet (onUserAddressArchived d5)"
  unfolding Query_Order_def Query_OrderItem_def User_Orders_def FindOrderByID_def FindOrderItemByID_def
    FindUserByID_def onProductVariantVersionCreated_def onProductVariantUpdated_def
    onTaxRateVersionCreated_def onUserAddressCreated_def onUserAddressArchived_def Let_def
  by (intro guar_intros)+

lemma order_step_cases:
  assumes "order_step D marshal s s'"
  obtains (quiet) "orders_quiet s s'"
  | (placed) c i auth r where "PlaceOrder c i auth s = (r, s')"
proof -
  note refl = quiet.R_refl [of s]
  from assms show thesis
  proof cases
    case (placing c i auth r)
    then show ?thesis by (rule placed)
  next
    case (script fs)
    then show ?thesis using quiet.R_faults by (intro quiet) simp
  qed (rule quiet, erule guarD [OF quiet_CreateOrder] guarD [OF quiet_requests(1)] guarD [OF quiet_requests(2)]
      guarD [OF quiet_requests(3)] guarD [OF quiet_requests(4)] guarD [OF quiet_requests(5)]
      guarD [OF quiet_requests(6)] onIDCreation_rel [OF _ refl quiet_store(10,11,12)]
      handle_rel [OF _ quiet_requests(7) refl] handle_rel [OF _ quiet_requests(8) refl]
      handle_rel [OF _ quiet_requests(9) refl] handle_rel [OF _ quiet_requests(10) refl]
      handle_rel [OF _ quiet_requests(11) refl] handle_rel [OF _ quiet_compensateOrder refl])+
qed

subsection \<open>Ids stay unique\<close>

definition order_ids_unique :: "order_db \<Rightarrow> bool" where
  "order_ids_unique s \<longleftrightarrow> keys_unique orders o_ID s \<and> keys_unique users ouser_ID s \<and>
     keys_unique productVariants pv_ID s \<and> keys_unique taxRates tr_ID s \<and> keys_unique coupons ref_ID s \<and>
     keys_unique shipmentMethods ref_ID s \<and> keys_unique orderCompensations oc_ID s"

interpretation order_ids: table_invariant order_ids_unique
proof
  fix s t :: order_db
  assume same: "io.more s = io.more t"
  show "order_ids_unique s = order_ids_unique t"
    by (simp add: order_ids_unique_def keys_unique_def order_tables [OF same])
qed

lemma ids_store [guar_intros]:
  "guar (keeping order_ids_unique) (GetOrder i)" "guar (keeping order_ids_unique) (GetUser i)"
  "guar (keeping order_ids_unique) (GetOrderItemFromCollection i)"
  "guar (keeping order_ids_unique) (GetOrderByEmbeddedItemID i)"
  "guar (keeping order_ids_unique) (ValidateObjectUser i)"
  "guar (keeping order_ids_unique) (ShipmentMethodsPresent ids)"
  "guar (keeping order_ids_unique) (CouponsPresent ids)" "guar (keeping order_ids_unique) (GetProductVariants is)"
  "guar (keeping order_ids_unique) (GetTaxRates is)" "guar (keeping order_ids_unique) (InsertOrder ord)"
  "guar (keeping order_ids_unique) (SetStatusPlaced i t)" "guar (keeping order_ids_unique) (SetStatusRejected i)"
  "guar (keeping order_ids_unique) (InsertCoupon i)" "guar (keeping order_ids_unique) (InsertShipmentMethod i)"
  "guar (keeping order_ids_unique) (InsertUser i)" "guar (keeping order_ids_unique) (GetProductVariant i)"
  "guar (keeping order_ids_unique) (UpdateProductVariantVersion i v)"
  "guar (keeping order_ids_unique) (InsertProductVariant i v)"
  "guar (keeping order_ids_unique) (SetProductVariantVisibility i b)"
  "guar (keeping order_ids_unique) (UpsertTaxRate i rv)" "guar (keeping order_ids_unique) (PushUserAddress i a)"
  "guar (keeping order_ids_unique) (PullUserAddress i a)" "guar (keeping order_ids_unique) (ValidateObjectOrder i)"
  "guar (keeping order_ids_unique) (CountUncompensatedProbe ids)"
  "guar (keeping order_ids_unique) (InsertOrderCompensation c)"
  unfolding order_store_defs
  by (intro guar_intros order_ids.guar_keeping_insert_one order_ids.guar_update_one order_ids.guar_keeping_upsert_one;
      auto simp: order_ids_unique_def keys_unique_def keeping_def map_map_first bson_order_def find_None_iff)+

lemma ids_zip_items [guar_intros]:
  "guar (keeping order_ids_unique) (zip_items D pvs inputs pvvs trvs counts discs t ids)"
  by (induction ids) (auto intro!: guar_intros split: option.split)

lemma ids_lift_result [guar_intros]: "guar (keeping order_ids_unique) (lift_result r)"
  unfolding lift_result_def by (intro guar_intros)

lemma ids_requests:
  "guar (keeping order_ids_unique) (CreateOrder D marshal c input)"
  "guar (keeping order_ids_unique) (PlaceOrder c i auth)"
  "guar (keeping order_ids_unique) (Query_Order c i)" "guar (keeping order_ids_unique) (Query_OrderItem c i)"
  "guar (keeping order_ids_unique) (User_Orders c i n sk ob)" "guar (keeping order_ids_unique) (FindOrderByID i)"
  "guar (keeping order_ids_unique) (FindOrderItemByID i)" "guar (keeping order_ids_unique) (FindUserByID i)"
  "guar (keeping order_ids_unique) (onProductVariantVersionCreated d1)"
  "guar (keeping order_ids_unique) (onProductVariantUpdated d2)"
  "guar (keeping order_ids_unique) (onTaxRateVersionCreated d3)"
  "guar (keeping order_ids_unique) (onUserAddressCreated d4)"
  "guar (keeping order_ids_unique) (onUserAddressArchived d5)" "guar (keeping order_ids_unique) (compensateOrder d6)"
  unfolding CreateOrder_def PlaceOrder_def Query_Order_def Query_OrderItem_def User_Orders_def
    FindOrderByID_def FindOrderItemByID_def FindUserByID_def onProductVariantVersionCreated_def
    onProductVariantUpdated_def onTaxRateVersionCreated_def onUserAddressCreated_def
    onUserAddressArchived_def compensateOrder_def createInternalOrderItems_def zipToInternalOrderItems_def
    queryProductVariantsByProductVariantIDs_def queryTaxRateVersionsByProductVariantIDs_def
    validateOrderInput_def validateObjectsPresent_def validateUserAddress_def setStatusPlaced_def
    PublishOrderCreated_def PublishOrderCompensationCreated_def calculateAmountToCompensate_def
    ListOrdersByUser_def Let_def
  by (intro guar_intros)+

lemma order_step_ids:
  assumes "order_step D marshal s s'"
  shows "keeping order_ids_unique s s'"
proof -
  have refl: "keeping order_ids_unique s s" by (rule order_ids.R_refl)
  from assms show ?thesis
  proof cases
    case (script fs)
    then show ?thesis using order_ids.R_faults by simp
  qed (erule guarD [OF ids_requests(1)] guarD [OF ids_requests(2)] guarD [OF ids_requests(3)]
      guarD [OF ids_requests(4)] guarD [OF ids_requests(5)] guarD [OF ids_requests(6)]
      guarD [OF ids_requests(7)] guarD [OF ids_requests(8)] onIDCreation_rel [OF _ refl ids_store(13,14,15)]
      handle_rel [OF _ ids_requests(9) refl] handle_rel [OF _ ids_requests(10) refl]
      handle_rel [OF _ ids_requests(11) refl] handle_rel [OF _ ids_requests(12) refl]
      handle_rel [OF _ ids_requests(13) refl] handle_rel [OF _ ids_requests(14) refl])+
qed

end
