(* ===== verification/Order_Items.thy ===== *)
theory Order_Items
  imports Order_Graph
begin

text \<open>
  What the saga of \<open>createOrder\<close> builds, whatever the other services answer: facts on the loops
  over Go maps, on the discounts of an item and on the compensatable amount, and the contents of
  the order items a successful run returns.
\<close>

subsection \<open>Maps and loops\<close>

lemma map_of_filter_Some:
  "map_of (filter P kvs) k = Some v \<Longrightarrow> gomap_ok kvs \<Longrightarrow> map_of kvs k = Some v \<and> P (k, v)"
  by (auto simp: gomap_ok_def dest: map_of_SomeD)

lemma map_of_map_snd: "map_of (map (\<lambda>(k, v). (k, f v)) kvs) k = map_option f (map_of kvs k)"
  by (induction kvs) auto

lemma map_of_entries:
  "map_of (gomap_of [] (map (\<lambda>x. (key x, x)) xs)) k = Some x \<Longrightarrow> x \<in> set xs \<and> key x = k"
  by (auto simp: map_of_gomap_of dest!: map_of_SomeD)

lemma ranged_set:
  assumes "runtime_ok D" "gomap_ok m"
  shows "set (ranged D n m) = set m"
proof -
  have keys: "set (range_order D n (map fst m)) = fst ` set m"
    using assms(1) by (metis runtime_ok_def list.set_map mset_eq_setD)
  have "map_of m (fst e) = Some (snd e)" if "e \<in> set m" for e
    by (rule map_of_is_SomeI) (use that assms(2) in \<open>simp_all add: gomap_ok_def\<close>)
  then have "(\<lambda>e. (fst e, the (map_of m (fst e)))) ` set m = set m"
    by simp
  then show ?thesis
    by (simp add: ranged_def keys image_image)
qed

text \<open>The count and the input kept for a variant are those of one of its cart items.\<close>

definition picked :: "(uuid, uuid \<times> u64) gomap \<Rightarrow> (uuid, u64) gomap \<Rightarrow> (uuid, orderItemInput) gomap \<Rightarrow> bool" where
  "picked cart counts inputs \<longleftrightarrow> gomap_ok counts \<and>
     (\<forall>pv inp. map_of inputs pv = Some inp \<longrightarrow>
        (\<exists>cnt. map_of cart (in_shoppingCartItemID inp) = Some (pv, cnt) \<and> map_of counts pv = Some cnt))"

lemma pick_inputs_Inr:
  assumes "pick_inputs cart ins counts0 inputs0 = Inr (counts, inputsBy)" "picked cart counts0 inputs0"
  shows "picked cart counts inputsBy \<and>
    (\<forall>pv inp. map_of inputsBy pv = Some inp \<longrightarrow> inp \<in> set ins \<or> map_of inputs0 pv = Some inp)"
  using assms
proof (induction cart ins counts0 inputs0 rule: pick_inputs.induct)
  case (2 cart i ins counts0 inputs0)
  then obtain pv cnt where c: "map_of cart (in_shoppingCartItemID i) = Some (pv, cnt)"
      and r: "pick_inputs cart ins (AList.update pv cnt counts0) (AList.update pv i inputs0) = Inr (counts, inputsBy)"
    by (auto split: option.splits)
  have "picked cart (AList.update pv cnt counts0) (AList.update pv i inputs0)"
    using 2(3) c by (auto simp: picked_def update_conv split: if_splits)
  from 2(1) [OF c refl r this] show ?case
    by (auto simp: update_conv split: if_splits)
qed simp

lemma enough_stock_Inr:
  "enough_stock stock kvs = Inr () \<Longrightarrow> (k, expected) \<in> set kvs \<Longrightarrow> \<exists>n. map_of stock k = Some n \<and> expected \<le> n"
  by (induction stock kvs rule: enough_stock.induct) (auto split: option.splits if_splits)

lemma rate_versions_Inr:
  assumes "rate_versions rates kvs out0 = Inr out" "map_of out k = Some trv"
  shows "map_of out0 k = Some trv \<or>
    (\<exists>pvv tr. (k, pvv) \<in> set kvs \<and> map_of rates (pvv_TaxRateID pvv) = Some tr \<and> trv = tr_CurrentVersion tr)"
  using assms
  by (induction rates kvs out0 rule: rate_versions.induct) (fastforce simp: update_conv split: option.splits if_splits)+

subsection \<open>Discounts\<close>

lemma drop_repeats_sorted:
  assumes "sorted (map od_ID ds)" "\<forall>p \<in> set_option prev. \<forall>d \<in> set ds. p \<le> od_ID d"
  shows "sorted_wrt (<) (map od_ID (drop_repeats prev ds)) \<and>
    (\<forall>p \<in> set_option prev. \<forall>d \<in> set (drop_repeats prev ds). p < od_ID d)"
  using assms
proof (induction prev ds rule: drop_repeats.induct)
  case (2 prev d ds)
  show ?case
  proof (cases "prev = Some (od_ID d)")
    case True
    then show ?thesis using 2 by simp
  next
    case False
    have tail: "sorted_wrt (<) (map od_ID (drop_repeats (Some (od_ID d)) ds)) \<and>
        (\<forall>x \<in> set (drop_repeats (Some (od_ID d)) ds). od_ID d < od_ID x)"
      using 2(2) [OF False] 2(3) by simp
    moreover have "\<forall>p \<in> set_option prev. p < od_ID d"
      using 2(4) False by (cases prev) (auto simp: order.order_iff_strict)
    ultimately show ?thesis
      using False by (cases prev) (auto intro: less_trans)
  qed
qed simp

lemma drop_repeats_ids:
  "od_ID ` set (drop_repeats prev ds) \<union> set_option prev = od_ID ` set ds \<union> set_option prev"
  by (induction prev ds rule: drop_repeats.induct) auto

lemma set_drop_repeats: "set (drop_repeats prev ds) \<subseteq> set ds"
  by (induction prev ds rule: drop_repeats.induct) auto

lemma discounts_for_Inr:
  assumes "discounts_for D byPV ids out0 = Inr out" "map_of out i = Some ds"
  shows "map_of out0 i = Some ds \<or> (\<exists>ds0. map_of byPV i = Some ds0 \<and> ds = sortDedupeDiscounts D ds0)"
  using assms
  by (induction D byPV ids out0 rule: discounts_for.induct) (fastforce simp: update_conv split: option.splits if_splits)+

lemma sortDedupe_ascending:
  "runtime_ok D \<Longrightarrow> sorted_wrt (<) (map od_ID (sortDedupeDiscounts D ds))"
  using drop_repeats_sorted [of "sort_Slice D ds" None] by (simp add: sortDedupeDiscounts_def runtime_ok_def)

subsection \<open>Zip\<close>

definition zipped ::
  "downstream \<Rightarrow> (uuid, ProductVariant) gomap \<Rightarrow> (uuid, orderItemInput) gomap \<Rightarrow> (uuid, ProductVariantVersion) gomap \<Rightarrow>
     (uuid, TaxRateVersion) gomap \<Rightarrow> (uuid, u64) gomap \<Rightarrow> (uuid, ODiscount list) gomap \<Rightarrow> time \<Rightarrow>
     uuid \<Rightarrow> OrderItem \<Rightarrow> bool" where
  "zipped D pvs inputs pvvs trvs counts discs t i it \<longleftrightarrow>
     (\<exists>inp. map_of inputs i = Some inp \<and> map_of pvvs i = Some (oi_ProductVariantVersion it) \<and>
        map_of trvs i = Some (oi_TaxRateVersion it) \<and> map_of counts i = Some (oi_Count it) \<and>
        map_of discs i = Some (oi_InternalDiscounts it) \<and> oi_CreatedAt it = t \<and>
        oi_ProductVariant it = the (map_of pvs i) \<and>
        ref_ID (oi_ShoppingCartItem it) = in_shoppingCartItemID inp \<and>
        ref_ID (oi_ShipmentMethod it) = in_shipmentMethodID inp \<and>
        oi_CompensatableAmount it =
          calculateCompensatableAmount D (oi_ProductVariantVersion it) (oi_InternalDiscounts it))"

lemma zip_items_Inr:
  "zip_items D pvs inputs pvvs trvs counts discs t ids s = (Inr items, s') \<Longrightarrow>
     list_all2 (zipped D pvs inputs pvvs trvs counts discs t) ids items"
  by (induction ids arbitrary: items s)
    (auto simp: run_simps zipped_def split: option.splits elim!: andThen_InrE)

subsection \<open>The saga\<close>

lemma lift_result_InrE:
  assumes "lift_result r s = (Inr x, s')"
  obtains "r = Inr x" "s' = s"
  using assms by (cases r) (auto simp: lift_result_def run_simps)

lemma visible_variants_Inr:
  assumes "queryProductVariantsByProductVariantIDs ids s = (Inr pvs, s')"
  shows "gomap_ok pvs \<and> (\<exists>fs. s' = s\<lparr>faults := fs\<rparr>) \<and>
    (\<forall>i pv. map_of pvs i = Some pv \<longrightarrow> pv \<in> set (productVariants s) \<and> pv_ID pv = i \<and> i \<in> set ids \<and> IsVisible pv)"
proof -
  obtain found s1 where f: "find_all DriverError productVariants (\<lambda>p. pv_ID p \<in> set ids) s = (Inr found, s1)"
      and p: "pvs = filter (\<lambda>(i, pv). IsVisible pv) (gomap_of [] (map (\<lambda>p. (pv_ID p, p)) found))" "s' = s1"
    using assms unfolding queryProductVariantsByProductVariantIDs_def GetProductVariants_def
    by (elim attempt_case_InrE andThen_InrE) (auto simp: run_simps)
  from find_all_run [OF f] have found: "found = filter (\<lambda>p. pv_ID p \<in> set ids) (productVariants s)"
      and s1: "\<exists>fs. s1 = s\<lparr>faults := fs\<rparr>" by auto
  have ok: "gomap_ok pvs"
    unfolding p gomap_ok_def by (rule distinct_map_filter) (simp add: gomap_ok_def [symmetric])
  show ?thesis
    using ok s1 p
    by (auto dest!: map_of_filter_Some map_of_entries simp: found)
qed

lemma tax_versions_Inr:
  assumes "runtime_ok D" "gomap_ok pvvs"
    and "queryTaxRateVersionsByProductVariantIDs D pvvs s = (Inr trvs, s')" "map_of trvs i = Some trv"
  shows "\<exists>pvv tr. map_of pvvs i = Some pvv \<and> tr \<in> set (taxRates s) \<and> tr_ID tr = pvv_TaxRateID pvv \<and>
    trv = tr_CurrentVersion tr"
proof -
  let ?ids = "map (\<lambda>(_, pvv). pvv_TaxRateID pvv) (ranged D 1 pvvs)"
  obtain found s1 rates where f: "find_all DriverError taxRates (\<lambda>t. tr_ID t \<in> set ?ids) s = (Inr found, s1)"
      and r: "rates = gomap_of [] (map (\<lambda>t. (tr_ID t, t)) found)"
      "rate_versions rates (ranged D 3 pvvs) [] = Inr trvs"
    using assms(3) unfolding queryTaxRateVersionsByProductVariantIDs_def GetTaxRates_def Let_def
    by (elim attempt_case_InrE andThen_InrE) (auto simp: run_simps split: sum.splits)
  obtain pvv tr where "(i, pvv) \<in> set pvvs" "map_of rates (pvv_TaxRateID pvv) = Some tr" "trv = tr_CurrentVersion tr"
    using rate_versions_Inr [OF r(2) assms(4)] ranged_set [OF assms(1,2)] by auto
  then show ?thesis
    using assms(2) find_all_run [OF f]
    by (auto simp: r(1) gomap_ok_def map_of_eq_Some_iff dest!: map_of_entries intro!: exI [of _ pvv] exI [of _ tr])
qed

text \<open>What one stored order item owes to the cart, the inventory and the local read models.\<close>

definition item_sound ::
  "downstream \<Rightarrow> orderItemInput list \<Rightarrow> (uuid, uuid \<times> u64) gomap \<Rightarrow> (uuid, u64) gomap \<Rightarrow> discountRequest \<Rightarrow>
     (uuid, ODiscount list) gomap \<Rightarrow> order_db \<Rightarrow> time \<Rightarrow> OrderItem \<Rightarrow> bool" where
  "item_sound D inputs cart stock req granted s t it \<longleftrightarrow>
     oi_ProductVariant it \<in> set (productVariants s) \<and> IsVisible (oi_ProductVariant it) \<and>
     oi_ProductVariantVersion it = pv_CurrentVersion (oi_ProductVariant it) \<and>
     (\<exists>tr \<in> set (taxRates s). tr_ID tr = pvv_TaxRateID (oi_ProductVariantVersion it) \<and>
        oi_TaxRateVersion it = tr_CurrentVersion tr) \<and>
     (\<exists>inp \<in> set inputs. ref_ID (oi_ShoppingCartItem it) = in_shoppingCartItemID inp \<and>
        ref_ID (oi_ShipmentMethod it) = in_shipmentMethodID inp \<and>
        (pv_ID (oi_ProductVariant it), oi_Count it, in_couponIDs inp) \<in> set (dr_ProductVariants req)) \<and>
     map_of cart (ref_ID (oi_ShoppingCartItem it)) = Some (pv_ID (oi_ProductVariant it), oi_Count it) \<and>
     (\<exists>n. map_of stock (pv_ID (oi_ProductVariant it)) = Some n \<and> oi_Count it \<le> n) \<and>
     (\<exists>ds. map_of granted (pv_ID (oi_ProductVariant it)) = Some ds \<and>
        set (oi_InternalDiscounts it) \<subseteq> set ds \<and> od_ID ` set (oi_InternalDiscounts it) = od_ID ` set ds) \<and>
     sorted_wrt (<) (map od_ID (oi_InternalDiscounts it)) \<and>
     oi_CompensatableAmount it = calculateCompensatableAmount D (oi_ProductVariantVersion it) (oi_InternalDiscounts it) \<and>
     oi_CreatedAt it = t"

definition cart_of :: "cartNode list \<Rightarrow> (uuid, uuid \<times> u64) gomap" where
  "cart_of nodes = gomap_of [] (map (\<lambda>n. (cn_ID n, (cn_ProductVariantID n, word_of_int (cn_Count n)))) nodes)"

text \<open>The discounts of each variant in the discount service's reply, a later entry replacing an earlier one.\<close>

definition granted_of :: "applicableDiscounts list \<Rightarrow> (uuid, ODiscount list) gomap" where
  "granted_of found = gomap_of [] (map (\<lambda>d. (ad_ProductVariantID d,
     map (\<lambda>(i, x). \<lparr>od_ID = i, od_Discount = x\<rparr>) (ad_Discounts d))) found)"

lemma gql_query_Inr: "gql_query r e = Inr x \<Longrightarrow> r = Reply [] (Data x)"
  by (induction r e rule: gql_query.induct) auto

lemma cart_counts_Inr:
  assumes "queryCountsByProductVariantIDs D u inputs h = Inr (counts, inputsBy)"
  obtains entity es nodes where "ask_shoppingcart D u h = Reply [] (Data (entity # es))"
    "sce_Shoppingcart entity = Some nodes" "picked (cart_of nodes) counts inputsBy"
    "\<And>pv inp. map_of inputsBy pv = Some inp \<Longrightarrow> inp \<in> set inputs"
proof -
  obtain entity es nodes where a: "gql_query (ask_shoppingcart D u h)
        (ResponseEmpty ''query_counts_by_product_variant_ids'') = Inr (entity # es)"
      and n: "sce_Shoppingcart entity = Some nodes"
      and p: "pick_inputs (cart_of nodes) inputs [] [] = Inr (counts, inputsBy)"
    using assms by (auto simp: queryCountsByProductVariantIDs_def cart_of_def split: sum.splits list.splits option.splits)
  have "ask_shoppingcart D u h = Reply [] (Data (entity # es))"
    using a by (rule gql_query_Inr)
  then show thesis
    using that n pick_inputs_Inr [OF p] by (auto simp: picked_def)
qed

lemma availability_Inr:
  assumes "checkProductVariantAvailability D ids counts = Inr ()" "runtime_ok D" "gomap_ok counts"
  obtains entities stock where "ask_inventory D ids = Reply [] (Data entities)" "stock_of entities [] = Inr stock"
    "\<And>k c. map_of counts k = Some c \<Longrightarrow> \<exists>n. map_of stock k = Some n \<and> c \<le> n"
proof -
  obtain entities stock where a: "gql_query (ask_inventory D ids)
        (ResponseEmpty ''check_product_variant_availability'') = Inr entities"
      and s: "stock_of entities [] = Inr stock" and e: "enough_stock stock (ranged D 2 counts) = Inr ()"
    using assms(1) by (auto simp: checkProductVariantAvailability_def split: sum.splits)
  have "ask_inventory D ids = Reply [] (Data entities)"
    using a by (rule gql_query_Inr)
  then show thesis
    using that s enough_stock_Inr [OF e] ranged_set [OF assms(2,3)] by (metis map_of_SomeD)
qed

lemma sortDedupe_of:
  assumes "runtime_ok D"
  shows "set (sortDedupeDiscounts D ds) \<subseteq> set ds \<and> od_ID ` set (sortDedupeDiscounts D ds) = od_ID ` set ds"
proof -
  have "set (sort_Slice D ds) = set ds" using assms by (metis runtime_ok_def mset_eq_setD)
  then show ?thesis
    using drop_repeats_ids [of None "sort_Slice D ds"] set_drop_repeats [of None "sort_Slice D ds"]
    by (simp add: sortDedupeDiscounts_def)
qed

lemma discount_inputs_Inr:
  "discount_inputs counts inputs ids = Inr asked \<Longrightarrow> i \<in> set ids \<Longrightarrow>
    \<exists>c inp. map_of counts i = Some c \<and> map_of inputs i = Some inp \<and> (i, c, in_couponIDs inp) \<in> set asked"
  by (induction counts inputs ids arbitrary: asked rule: discount_inputs.induct) (fastforce split: option.splits sum.splits)+

lemma discounts_Inr:
  assumes run: "queryDiscountsByProductVariantIDs D u inputsBy ids pvvs counts = Inr discs" and D: "runtime_ok D"
  obtains req found where "ask_discount D req = Reply [] (Data found)" "dr_UserID req = u"
    "\<And>i. i \<in> set ids \<Longrightarrow> \<exists>c inp. map_of counts i = Some c \<and> map_of inputsBy i = Some inp \<and>
       (i, c, in_couponIDs inp) \<in> set (dr_ProductVariants req)"
    "\<And>i ds. map_of discs i = Some ds \<Longrightarrow> sorted_wrt (<) (map od_ID ds) \<and> (\<exists>ds0. map_of (granted_of found) i = Some ds0 \<and>
       set ds \<subseteq> set ds0 \<and> od_ID ` set ds = od_ID ` set ds0)"
proof -
  obtain asked found amount where a: "discount_inputs counts inputsBy ids = Inr asked"
      and q: "gql_query (ask_discount D \<lparr>dr_UserID = u, dr_ProductVariants = asked, dr_OrderAmount = amount\<rparr>)
        (ResponseEmpty ''query_discounts'') = Inr found"
      and f: "discounts_for D (granted_of found) ids [] = Inr discs"
    using run by (auto simp: queryDiscountsByProductVariantIDs_def granted_of_def Let_def split: sum.splits)
  show thesis
  proof (rule that [OF gql_query_Inr [OF q]])
    show "\<exists>c inp. map_of counts i = Some c \<and> map_of inputsBy i = Some inp \<and>
        (i, c, in_couponIDs inp) \<in> set (dr_ProductVariants \<lparr>dr_UserID = u, dr_ProductVariants = asked, dr_OrderAmount = amount\<rparr>)"
      if "i \<in> set ids" for i
      using discount_inputs_Inr [OF a that] by simp
    show "sorted_wrt (<) (map od_ID ds) \<and> (\<exists>ds0. map_of (granted_of found) i = Some ds0 \<and>
        set ds \<subseteq> set ds0 \<and> od_ID ` set ds = od_ID ` set ds0)" if "map_of discs i = Some ds" for i ds
      using discounts_for_Inr [OF f that] sortDedupe_ascending [OF D] sortDedupe_of [OF D] by auto
  qed simp
qed

lemma zipped_sound:
  assumes z: "zipped D pvs inputsBy (map (\<lambda>(i, pv). (i, pv_CurrentVersion pv)) pvs) trvs counts discs t i it"
    and pvs: "\<And>i pv. map_of pvs i = Some pv \<Longrightarrow> pv \<in> set (productVariants s) \<and> pv_ID pv = i \<and> IsVisible pv"
    and trv: "\<And>i trv. map_of trvs i = Some trv \<Longrightarrow> \<exists>pv tr. map_of pvs i = Some pv \<and> tr \<in> set (taxRates s) \<and>
        tr_ID tr = pvv_TaxRateID (pv_CurrentVersion pv) \<and> trv = tr_CurrentVersion tr"
    and cart: "picked cart counts inputsBy" "\<And>pv inp. map_of inputsBy pv = Some inp \<Longrightarrow> inp \<in> set inputs"
    and stock: "\<And>k c. map_of counts k = Some c \<Longrightarrow> \<exists>n. map_of stock k = Some n \<and> c \<le> n"
    and asked: "\<And>i. i \<in> dom (map_of counts) \<Longrightarrow> \<exists>c inp. map_of counts i = Some c \<and> map_of inputsBy i = Some inp \<and>
      (i, c, in_couponIDs inp) \<in> set (dr_ProductVariants req)"
    and disc: "\<And>i ds. map_of discs i = Some ds \<Longrightarrow> sorted_wrt (<) (map od_ID ds) \<and> (\<exists>ds0. map_of granted i = Some ds0 \<and>
      set ds \<subseteq> set ds0 \<and> od_ID ` set ds = od_ID ` set ds0)"
  shows "item_sound D inputs cart stock req granted s t it \<and> pv_ID (oi_ProductVariant it) = i"
proof -
  obtain inp pv where m: "map_of inputsBy i = Some inp" "map_of pvs i = Some pv"
      and it: "oi_ProductVariantVersion it = pv_CurrentVersion pv" "map_of trvs i = Some (oi_TaxRateVersion it)"
        "map_of counts i = Some (oi_Count it)" "map_of discs i = Some (oi_InternalDiscounts it)"
        "oi_CreatedAt it = t" "oi_ProductVariant it = pv"
        "ref_ID (oi_ShoppingCartItem it) = in_shoppingCartItemID inp"
        "ref_ID (oi_ShipmentMethod it) = in_shipmentMethodID inp"
        "oi_CompensatableAmount it = calculateCompensatableAmount D (oi_ProductVariantVersion it) (oi_InternalDiscounts it)"
    using z by (auto simp: zipped_def map_of_map_snd)
  have c: "map_of cart (in_shoppingCartItemID inp) = Some (i, oi_Count it)"
    using cart(1) m(1) it(3) unfolding picked_def by fastforce
  have q: "(i, oi_Count it, in_couponIDs inp) \<in> set (dr_ProductVariants req)"
    using asked [of i] m(1) it(3) by auto
  obtain ds0 where ds: "map_of granted i = Some ds0" "set (oi_InternalDiscounts it) \<subseteq> set ds0"
      "od_ID ` set (oi_InternalDiscounts it) = od_ID ` set ds0" "sorted_wrt (<) (map od_ID (oi_InternalDiscounts it))"
    using disc [OF it(4)] by blast
  show ?thesis
    using pvs [OF m(2)] trv [OF it(2)] cart(2) [OF m(1)] stock [OF it(3)] ds q c m it
    by (auto simp: item_sound_def)
qed

lemma createInternalOrderItems_sound:
  assumes run: "createInternalOrderItems D u inputs h t s = (Inr items, s')" and D: "runtime_ok D"
  obtains entity es nodes ids entities stock req found where
    "ask_discount D req = Reply [] (Data found)" "dr_UserID req = u"
    "ask_shoppingcart D u h = Reply [] (Data (entity # es))" "sce_Shoppingcart entity = Some nodes"
    "ask_inventory D ids = Reply [] (Data entities)" "stock_of entities [] = Inr stock"
    "sorted_wrt (<) (map (\<lambda>it. pv_ID (oi_ProductVariant it)) items)"
    "\<forall>it \<in> set items. item_sound D inputs (cart_of nodes) stock req (granted_of found) s t it"
proof -
  obtain counts inputsBy pvs s1 trvs s2 discs s3 where
      c: "queryCountsByProductVariantIDs D u inputs h = Inr (counts, inputsBy)"
    and v: "queryProductVariantsByProductVariantIDs (map fst (ranged D 0 counts)) s = (Inr pvs, s1)"
    and a: "checkProductVariantAvailability D (map fst (ranged D 0 counts)) counts = Inr ()"
    and r: "queryTaxRateVersionsByProductVariantIDs D (map (\<lambda>(i, pv). (i, pv_CurrentVersion pv)) pvs) s1 = (Inr trvs, s2)"
    and d: "queryDiscountsByProductVariantIDs D u inputsBy (map fst (ranged D 0 counts))
        (map (\<lambda>(i, pv). (i, pv_CurrentVersion pv)) pvs) counts = Inr discs"
    and z: "zip_items D pvs inputsBy (map (\<lambda>(i, pv). (i, pv_CurrentVersion pv)) pvs) trvs counts discs t
        (sort (map fst pvs)) s3 = (Inr items, s')"
    using run unfolding createInternalOrderItems_def zipToInternalOrderItems_def Let_def
    by (elim andThen_InrE lift_result_InrE) (auto elim!: andThen_InrE lift_result_InrE)
  from cart_counts_Inr [OF c] obtain entity es nodes where cart:
      "ask_shoppingcart D u h = Reply [] (Data (entity # es))" "sce_Shoppingcart entity = Some nodes"
      "picked (cart_of nodes) counts inputsBy" "\<And>pv inp. map_of inputsBy pv = Some inp \<Longrightarrow> inp \<in> set inputs"
    by blast
  have "gomap_ok counts" using cart(3) by (simp add: picked_def)
  from availability_Inr [OF a D this] obtain entities stock where stock:
      "ask_inventory D (map fst (ranged D 0 counts)) = Reply [] (Data entities)" "stock_of entities [] = Inr stock"
      "\<And>k n. map_of counts k = Some n \<Longrightarrow> \<exists>m. map_of stock k = Some m \<and> n \<le> m"
    by blast
  note vis = visible_variants_Inr [OF v]
  have pvvs: "gomap_ok (map (\<lambda>(i, pv). (i, pv_CurrentVersion pv)) pvs)"
    using vis by (simp add: gomap_ok_def comp_def split_def)
  have trv: "\<exists>pv tr. map_of pvs i = Some pv \<and> tr \<in> set (taxRates s) \<and>
        tr_ID tr = pvv_TaxRateID (pv_CurrentVersion pv) \<and> trv = tr_CurrentVersion tr"
    if "map_of trvs i = Some trv" for i trv
    using tax_versions_Inr [OF D pvvs r that] vis by (auto simp: map_of_map_snd)
  from discounts_Inr [OF d D] obtain req found where disc: "ask_discount D req = Reply [] (Data found)" "dr_UserID req = u"
      "\<And>i. i \<in> set (map fst (ranged D 0 counts)) \<Longrightarrow> \<exists>c inp. map_of counts i = Some c \<and> map_of inputsBy i = Some inp \<and>
         (i, c, in_couponIDs inp) \<in> set (dr_ProductVariants req)"
      "\<And>i ds. map_of discs i = Some ds \<Longrightarrow> sorted_wrt (<) (map od_ID ds) \<and> (\<exists>ds0. map_of (granted_of found) i = Some ds0 \<and>
         set ds \<subseteq> set ds0 \<and> od_ID ` set ds = od_ID ` set ds0)"
    by blast
  have "dom (map_of counts) = set (map fst (ranged D 0 counts))"
    using ranged_set [OF D \<open>gomap_ok counts\<close>, of 0] by (simp add: dom_map_of_conv_image_fst)
  then have asked: "\<exists>c inp. map_of counts i = Some c \<and> map_of inputsBy i = Some inp \<and>
      (i, c, in_couponIDs inp) \<in> set (dr_ProductVariants req)" if "i \<in> dom (map_of counts)" for i
    using disc(3) that by blast
  have l: "list_all2 (\<lambda>i it. item_sound D inputs (cart_of nodes) stock req (granted_of found) s t it \<and> pv_ID (oi_ProductVariant it) = i)
      (sort (map fst pvs)) items"
    using zip_items_Inr [OF z]
  proof (rule list_all2_mono)
    fix i it
    assume "zipped D pvs inputsBy (map (\<lambda>(i, pv). (i, pv_CurrentVersion pv)) pvs) trvs counts discs t i it"
    then show "item_sound D inputs (cart_of nodes) stock req (granted_of found) s t it \<and> pv_ID (oi_ProductVariant it) = i"
      by (rule zipped_sound) (use vis trv cart stock asked disc(4) in blast)+
  qed
  then have "map (\<lambda>it. pv_ID (oi_ProductVariant it)) items = sort (map fst pvs)"
    by (induction rule: list_all2_induct) auto
  then have "sorted_wrt (<) (map (\<lambda>it. pv_ID (oi_ProductVariant it)) items)"
    using vis by (simp add: strict_sorted_iff gomap_ok_def)
  moreover have "\<forall>it \<in> set items. item_sound D inputs (cart_of nodes) stock req (granted_of found) s t it"
    using l by (auto simp: list_all2_conv_all_nth in_set_conv_nth)
  ultimately show thesis using that disc(1,2) cart(1,2) stock(1,2) by blast
qed

subsection \<open>The compensatable amount\<close>

definition unit_factor :: "f64 \<Rightarrow> bool" where
  "unit_factor x \<longleftrightarrow> x \<noteq> NaN \<and> \<not> f64_less x (Fin 0 0) \<and> \<not> f64_less (Fin 1 0) x"

lemma unit_factor_Fin:
  assumes "unit_factor x"
  obtains n d where "x = Fin n d" "0 \<le> n" "fin_val n d \<le> 1"
proof (cases x)
  case (Fin n d)
  have "fin_val 0 0 \<le> fin_val n d" "fin_val n d \<le> fin_val 1 0"
    using assms by (simp_all add: unit_factor_def Fin f64_less_val not_less del: f64_less.simps fin_val_0)
  then have "0 \<le> n" "fin_val n d \<le> 1"
    using fin_val_nonneg_iff [of n d] by (simp_all add: fin_val_def)
  then show ?thesis by (rule that [OF Fin])
qed (use assms in \<open>auto simp: unit_factor_def\<close>)

lemma discounted_price:
  assumes "\<forall>d \<in> set ds. unit_factor (od_Discount d)" "0 \<le> m" "f64_ok (Fin m e)"
  shows "\<exists>q e'. foldl (\<lambda>p d. f64_mul p (od_Discount d)) (Fin m e) ds = Fin q e' \<and> 0 \<le> q \<and>
    f64_ok (Fin q e') \<and> fin_val q e' \<le> fin_val m e"
  using assms
proof (induction ds arbitrary: m e)
  case (Cons d ds)
  obtain n k where f: "od_Discount d = Fin n k" "0 \<le> n" "fin_val n k \<le> 1"
    using Cons.prems(1) by (auto elim: unit_factor_Fin)
  obtain q e' where q: "f64_mul (Fin m e) (Fin n k) = Fin q e'" "0 \<le> q" "f64_ok (Fin q e')"
      "fin_val q e' \<le> fin_val m e"
    using f64_mul_unit [OF Cons.prems(2,3) f(2,3)] by blast
  obtain q2 e2 where "foldl (\<lambda>p d. f64_mul p (od_Discount d)) (Fin q e') ds = Fin q2 e2" "0 \<le> q2"
      "f64_ok (Fin q2 e2)" "fin_val q2 e2 \<le> fin_val q e'"
    using Cons.IH [of q e'] Cons.prems(1) q by auto
  then show ?case using q f(1) by (intro exI [of _ q2] exI [of _ e2]) (simp del: f64_mul.simps)
qed auto

lemma f64_to_u64_floor:
  assumes "0 \<le> m" "fin_val m e \<le> of_int n" "n < 2 ^ 64"
  shows "f64_to_u64 oob (Fin m e) = word_of_int \<lfloor>fin_val m e\<rfloor> \<and> 0 \<le> \<lfloor>fin_val m e\<rfloor> \<and> \<lfloor>fin_val m e\<rfloor> \<le> n"
proof -
  have "0 \<le> \<lfloor>fin_val m e\<rfloor>" "\<lfloor>fin_val m e\<rfloor> \<le> n" "\<lfloor>fin_val m e\<rfloor> < 2 ^ 64"
    using assms by (linarith | simp add: floor_le_iff le_floor_iff)+
  then show ?thesis
    using assms(3) by (auto simp: f64_to_u64_def f64_trunc_floor [OF assms(1)] simp del: f64_trunc.simps)
qed

lemma uint_word_of_int_id: "0 \<le> n \<Longrightarrow> n < 2 ^ 64 \<Longrightarrow> uint (word_of_int n :: u64) = n"
  by (simp add: uint_word_of_int)

lemma compensatable_bound:
  assumes "\<forall>d \<in> set ds. unit_factor (od_Discount d)"
  shows "unat (calculateCompensatableAmount D v ds) \<le> unat (pvv_Price v) \<and>
    (\<exists>q e. foldl (\<lambda>p d. f64_mul p (od_Discount d)) (f64_of_int (uint (pvv_Price v))) ds = Fin q e \<and>
      uint (calculateCompensatableAmount D v ds) = \<lfloor>fin_val q e\<rfloor>)"
proof -
  let ?p = "uint (pvv_Price v)"
  have p: "0 \<le> ?p" "?p < 2 ^ 32" by (simp_all add: uint_lt2p [where ?'a = 32, simplified])
  have ex: "f64_of_int ?p = Fin ?p 0" using p by (intro f64_of_int_exact) simp
  have "fin_val ?p 0 < f64_limit"
  proof -
    have "fin_val ?p 0 = of_int ?p" by (simp only: fin_val_def power_int_0_right mult_1_right)
    also have "\<dots> < of_int (2 ^ 32)" using p(2) by (simp only: of_int_less_iff)
    also have "(of_int (2 ^ 32) :: real) = 2 ^ 32" by (simp only: of_int_power of_int_numeral)
    also have "(2 :: real) ^ 32 \<le> f64_limit"
    proof -
      have "(2 :: real) powi 32 \<le> 2 powi 1024" by (rule power_int_increasing) simp_all
      then show ?thesis by (simp only: f64_limit_def power_int_numeral)
    qed
    finally show ?thesis .
  qed
  moreover have "\<bar>?p\<bar> \<le> 2 ^ 53" using p by simp
  ultimately have "f64_ok (Fin ?p 0)" by simp
  from discounted_price [OF assms p(1) this] obtain q e where
    q: "foldl (\<lambda>p d. f64_mul p (od_Discount d)) (Fin ?p 0) ds = Fin q e" "0 \<le> q" "fin_val q e \<le> fin_val ?p 0"
    by blast
  have c: "calculateCompensatableAmount D v ds = word_of_int \<lfloor>fin_val q e\<rfloor>" "0 \<le> \<lfloor>fin_val q e\<rfloor>" "\<lfloor>fin_val q e\<rfloor> \<le> ?p"
    using f64_to_u64_floor [of q e ?p "float_oob D"] q p(2)
    by (simp_all add: calculateCompensatableAmount_def ex fin_val_def)
  then have u: "uint (calculateCompensatableAmount D v ds) = \<lfloor>fin_val q e\<rfloor>"
    unfolding c(1) using less_le_trans [OF le_less_trans [OF c(3) p(2)], of "2 ^ 64"]
    by (intro uint_word_of_int_id c(2)) simp
  have "unat (calculateCompensatableAmount D v ds) \<le> unat (pvv_Price v)"
    unfolding unat_eq_nat_uint u using c(3) by (rule nat_mono)
  then show ?thesis using u q(1) unfolding ex by blast
qed

subsection \<open>Creating an order\<close>

lemma read_store [guar_intros]:
  "guar reading (GetOrder i)" "guar reading (ValidateObjectUser i)"
  "guar reading (ShipmentMethodsPresent ids)" "guar reading (CouponsPresent ids)"
  "guar reading (GetProductVariants is)" "guar reading (GetTaxRates is)" "guar reading (lift_result r)"
  unfolding order_store_defs lift_result_def by (intro guar_intros)+

lemma read_validateOrderInput [guar_intros]: "guar reading (validateOrderInput input inputs)"
  unfolding validateOrderInput_def validateObjectsPresent_def validateUserAddress_def by (intro guar_intros)

text \<open>
  What the validation of an order finds out: the user, every shipment method and every coupon is
  known, and there is at least one coupon (a nil slice of coupon ids is an error of the lookup).
\<close>

definition inputs_known :: "orderItemInput list \<Rightarrow> order_db \<Rightarrow> bool" where
  "inputs_known inputs s \<longleftrightarrow> (\<exists>inp \<in> set inputs. in_couponIDs inp \<noteq> []) \<and>
     (\<forall>inp \<in> set inputs. in_shipmentMethodID inp \<in> ref_ID ` set (shipmentMethods s) \<and>
        set (in_couponIDs inp) \<subseteq> ref_ID ` set (coupons s))"

lemma presentIDs_Inr:
  assumes "validateObjectsPresent (presentIDs coll) ids n s = (Inr u, s')" "\<And>t fs. coll (t\<lparr>faults := fs\<rparr>) = coll t"
  shows "ids \<noteq> None \<and> set (elems ids) \<subseteq> ref_ID ` set (coll s)"
proof -
  obtain refs where f: "presentIDs coll ids s = (Inr refs, s')" and sub: "\<forall>i \<in> set (elems ids). i \<in> refs"
    using assms(1) unfolding validateObjectsPresent_def
    by (elim attempt_case_InrE) (auto simp: run_simps find_None_iff split: option.splits)
  have "ids \<noteq> None \<and> refs \<subseteq> ref_ID ` set (coll s)"
    using f by (auto simp: assms(2) presentIDs_def find_in_def find_all_def ext_def run_simps elim!: andThen_InrE
        split: option.splits list.splits fault.splits)
  with sub show ?thesis by auto
qed

lemma validateOrderInput_Inr:
  assumes "validateOrderInput input inputs s = (Inr u, s')"
  shows "coi_UserID input \<in> ouser_ID ` set (users s) \<and> inputs_known inputs s"
proof -
  obtain v s1 v2 s2 v3 s3 where u: "ValidateObjectUser (coi_UserID input) s = (Inr v, s1)"
      and m: "validateObjectsPresent ShipmentMethodsPresent (Some (map in_shipmentMethodID inputs)) ''ShipmentMethod'' s1 = (Inr v2, s2)"
      and c: "validateObjectsPresent CouponsPresent (appended (concat (map in_couponIDs inputs))) ''Coupon'' s2 = (Inr v3, s3)"
    using assms unfolding validateOrderInput_def by (elim attempt_case_InrE andThen_InrE) blast
  obtain usr where usr: "find_one DriverError ErrNoDocuments users (\<lambda>x. ouser_ID x = coi_UserID input) s = (Inr usr, s1)"
    using u by (auto simp: ValidateObjectUser_def run_simps elim: andThen_InrE)
  then have "find (\<lambda>x. ouser_ID x = coi_UserID input) (users s) = Some usr"
    by (simp add: find_one_run)
  then have "coi_UserID input \<in> ouser_ID ` set (users s)"
    by (auto dest!: find_Some_in intro: rev_image_eqI)
  moreover have "reading s s1" using guarD [OF read_store(2) u] .
  moreover have "guar reading (validateObjectsPresent ShipmentMethodsPresent js n)" for js n
    unfolding validateObjectsPresent_def by (intro guar_intros)
  from guarD [OF this m] have "reading s1 s2" .
  ultimately have same: "shipmentMethods s1 = shipmentMethods s" "coupons s2 = coupons s"
      "coi_UserID input \<in> ouser_ID ` set (users s)"
    by (auto simp: reading_def dest: order_tables)
  show ?thesis
    using presentIDs_Inr [OF m [unfolded ShipmentMethodsPresent_def]] presentIDs_Inr [OF c [unfolded CouponsPresent_def]] same
    by (auto simp: inputs_known_def appended_def split: if_splits)
qed

lemma read_zip_items [guar_intros]: "guar reading (zip_items D pvs inputs pvvs trvs counts discs t ids)"
  by (induction ids) (auto intro!: guar_intros split: option.split)

lemma read_createInternalOrderItems [guar_intros]: "guar reading (createInternalOrderItems D u inputs h t)"
  unfolding createInternalOrderItems_def zipToInternalOrderItems_def queryProductVariantsByProductVariantIDs_def
    queryTaxRateVersionsByProductVariantIDs_def Let_def
  by (intro guar_intros)

lemma InsertOrder_Inr:
  assumes "InsertOrder ord s = (Inr stored, s')"
  shows "stored = bson_order ord \<and> orders s' = orders s @ [bson_order ord] \<and> outbox s' = outbox s \<and>
    o_ID ord \<notin> o_ID ` set (orders s)"
proof -
  obtain s1 where i: "insert_one DriverError DuplicateKey orders orders_update o_ID (bson_order ord) s = (Inr (), s1)"
      and g: "GetOrder (o_ID ord) s1 = (Inr stored, s')"
    using assms by (auto simp: InsertOrder_def elim: andThen_InrE)
  obtain fs where s1: "s1 = orders_update (\<lambda>ds. ds @ [bson_order ord]) (s\<lparr>faults := fs\<rparr>)"
      "o_ID (bson_order ord) \<notin> o_ID ` set (orders s)"
    using insert_one_Inr [OF i] by auto
  have f: "find (\<lambda>x. o_ID x = o_ID ord) (orders s1) = Some stored" "\<exists>fs. s' = s1\<lparr>faults := fs\<rparr>"
    using find_one_run [OF g [unfolded GetOrder_def]] by auto
  have new: "o_ID ord \<notin> o_ID ` set (orders s)" using s1(2) by (simp add: bson_order_def)
  then have "find (\<lambda>x. o_ID x = o_ID ord) (orders s) = None"
    by (auto simp: find_None_iff intro: rev_image_eqI)
  then show ?thesis
    using f s1(1) new by (auto simp: find_append bson_order_def)
qed

end
