(* ===== verification/Order_Claims.thy ===== *)
theory Order_Claims
  imports Order_Props Order_Items
begin

text \<open>
  The properties of the order service, each followed by a run of it on a concrete state where it
  has hypotheses. \<open>demo_db\<close> is a database with given orders whose clock stands at two seconds.
\<close>

subsection \<open>Concrete states\<close>

definition demo_db :: "Order list \<Rightarrow> order_db" where
  "demo_db ords = \<lparr>faults = [], outbox = [], fresh = (\<lambda>n. UUID (of_nat (n + 100))), minted = 0,
     clock = (\<lambda>n. 2 * 10 ^ 9), reads = 0, orders = ords, orderItems = [],
     users = [\<lparr>ouser_ID = UUID 1, ouser_UserAddressIDs = []\<rparr>], productVariants = [], taxRates = [],
     coupons = [], shipmentMethods = [\<lparr>ref_ID = UUID 4\<rparr>], orderCompensations = []\<rparr>"

definition demo_order :: "string \<Rightarrow> time \<Rightarrow> Order" where
  "demo_order st t = \<lparr>o_ID = UUID 7, o_User = \<lparr>ouser_ID = UUID 1, ouser_UserAddressIDs = []\<rparr>, o_CreatedAt = t,
     o_OrderStatus = st, o_PlacedAt = (if st = ''PENDING'' then None else Some t), o_RejectionReason = None,
     o_InternalOrderItems = [], o_ShipmentAddress = \<lparr>ref_ID = UUID 2\<rparr>, o_InvoiceAddress = \<lparr>ref_ID = UUID 2\<rparr>,
     o_CompensatableOrderAmount = 0, o_PaymentInformationID = UUID 3, o_VatNumber = None\<rparr>"

definition demo_caller :: ctx where
  "demo_caller = Some \<lparr>user_ID = UUID 1, user_Roles = [''buyer'']\<rparr>"

lemmas demo_defs = demo_db_def demo_order_def demo_caller_def

subsection \<open>Placing\<close>

lemma GetOrder_quiet:
  "faults s = [] \<Longrightarrow> GetOrder i s =
     (case find (\<lambda>x. o_ID x = i) (orders s) of None \<Rightarrow> (Inl ErrNoDocuments, s) | Some ord \<Rightarrow> (Inr ord, s))"
  by (simp add: GetOrder_def find_one_def run_simps)

lemma SetStatus_quiet:
  "faults s = [] \<Longrightarrow> SetStatusPlaced i t s = (Inr (), s\<lparr>orders := map_first (\<lambda>x. o_ID x = i) (placed_at t) (orders s)\<rparr>)"
  "faults s = [] \<Longrightarrow> SetStatusRejected i s = (Inr (), s\<lparr>orders := map_first (\<lambda>x. o_ID x = i) rejected (orders s)\<rparr>)"
  by (simp_all add: SetStatusPlaced_def SetStatusRejected_def update_one_def run_simps placed_at_def [abs_def]
      rejected_def [abs_def])

lemma setStatusPlaced_quiet:
  assumes "faults s = []"
  shows "setStatusPlaced i s =
    (let t = clock s (reads s); s1 = s\<lparr>reads := Suc (reads s)\<rparr>; this = (\<lambda>x. o_ID x = i) in
     case find this (orders s) of
       None \<Rightarrow> (Inl (OrderNotFound i), s1)
     | Some ord \<Rightarrow>
         if stale t ord then (Inl (WasRejected i), s1\<lparr>orders := map_first this rejected (orders s)\<rparr>)
         else if o_OrderStatus ord = ''PENDING''
           then (Inr (), s1\<lparr>orders := map_first this (placed_at t) (orders s)\<rparr>)
         else (Inl (NotPending (o_OrderStatus ord)), s1))"
  using assms
  by (simp add: setStatusPlaced_def run_simps attempt_Inr_run GetOrder_quiet SetStatus_quiet stale_def Let_def
      split: option.split)

text \<open>
  C1. A successful \<open>placeOrder\<close>, whatever calls failed on the way: the stored order was pending,
  inside the one-hour window and the caller's own (or the caller is an employee or admin); it is
  now placed at the instant read, no other order changed, and exactly one order-created event was
  sent, the one built from the stored order.
\<close>

theorem placeOrder_success:
  assumes "PlaceOrder c i auth s = (Inr g, s')"
  shows "\<exists>ord dto. find (\<lambda>x. o_ID x = i) (orders s) = Some ord \<and> o_OrderStatus ord = ''PENDING'' \<and>
    clock s (reads s) \<le> o_CreatedAt ord + pendingTimeout \<and>
    authorizeUser c (ouser_ID (o_User ord)) = Inr () \<and>
    orders s' = map_first (\<lambda>x. o_ID x = i)
      (\<lambda>x. x\<lparr>o_OrderStatus := ''PLACED'', o_PlacedAt := Some (bson_time (clock s (reads s)))\<rparr>) (orders s) \<and>
    (\<exists>placed. find (\<lambda>x. o_ID x = i) (orders s') = Some placed \<and> g = toOrderModel placed \<and>
      toOrderDTO placed (buildPaymentAuthorization auth) = Inr dto) \<and>
    outbox s' = outbox s @ [OrderCreated dto]"
  using assms
proof (cases rule: PlaceOrder_run)
  case (published ord t dto)
  then have "find (\<lambda>x. o_ID x = i) (orders s') = Some (placed_at t ord)"
    using find_map_first_same [OF published(1), of "placed_at t"] find_Some_in [OF published(1)] by simp
  then show ?thesis using published
    by (intro exI [of _ ord] exI [of _ dto]) (auto simp: placed_at_def [abs_def] stale_def)
qed simp

lemma demo_place_run:
  "\<exists>g. PlaceOrder demo_caller (UUID 7) None (demo_db [demo_order ''PENDING'' 0]) =
    (Inr g, (demo_db [placed_at (2 * 10 ^ 9) (demo_order ''PENDING'' 0)])\<lparr>reads := 1,
       outbox := [OrderCreated (projr (toOrderDTO (placed_at (2 * 10 ^ 9) (demo_order ''PENDING'' 0)) None))]\<rparr>)"
  by (simp add: PlaceOrder_def attempt_Inr_run GetOrder_quiet authorize_run setStatusPlaced_quiet demo_defs
      authorizeUser_def FromContext_def IsEmployeeOrAdmin_def RoleEmployee_def RoleAdmin_def run_andThen
      stale_def pendingTimeout_def placed_at_def toOrderDTO_def lift_result_def PublishOrderCreated_def
      buildPaymentAuthorization_def run_simps)

lemma placeOrder_success_witness:
  "\<exists>g s'. PlaceOrder demo_caller (UUID 7) None (demo_db [demo_order ''PENDING'' 0]) = (Inr g, s') \<and>
    length (outbox s') = 1"
  using demo_place_run placeOrder_success [of demo_caller "UUID 7" None "demo_db [demo_order ''PENDING'' 0]"]
  by fastforce

definition announced_ok :: "order_db \<Rightarrow> bool" where
  "announced_ok s \<longleftrightarrow> order_ids_unique s \<and> distinct (published s) \<and>
     (\<forall>i \<in> set (published s). \<exists>ord \<in> set (orders s). o_ID ord = i \<and> o_OrderStatus ord \<noteq> ''PENDING'')"

lemma announced_quiet:
  assumes "announced_ok s" "orders_quiet s s'" "order_ids_unique s'"
  shows "announced_ok s'"
proof -
  have "\<exists>ord \<in> set (orders s'). o_ID ord = i \<and> o_OrderStatus ord \<noteq> ''PENDING''" if "i \<in> set (published s)" for i
  proof -
    obtain ord where ord: "ord \<in> set (orders s)" "o_ID ord = i" "o_OrderStatus ord \<noteq> ''PENDING''"
      using assms(1) \<open>i \<in> set (published s)\<close> unfolding announced_ok_def by blast
    have "orders_evolve (orders s) (orders s')" using assms(2) by (simp add: orders_quiet_def)
    from orders_evolve_find [OF this ord(1)] obtain ord' where
      "ord' \<in> set (orders s')" "order_moves\<^sup>*\<^sup>* ord ord'" by blast
    then show ?thesis using order_moves_ID order_moves_not_pending ord(2,3) by blast
  qed
  then show ?thesis using assms by (simp add: announced_ok_def orders_quiet_def)
qed

lemma announced_placed:
  assumes ok: "announced_ok s" "order_ids_unique s'"
    and f: "find (\<lambda>x. o_ID x = i) (orders s) = Some ord" and st: "o_OrderStatus ord = ''PENDING''"
    and os: "orders s' = map_first (\<lambda>x. o_ID x = i) (placed_at t) (orders s)"
    and out: "outbox s' = outbox s @ [OrderCreated dto]" "odto_ID dto = i"
  shows "announced_ok s'"
proof -
  have u: "distinct (map o_ID (orders s))"
    using ok(1) by (simp add: announced_ok_def order_ids_unique_def keys_unique_def)
  have pub: "published s' = published s @ [i]" using out by (simp add: published_def)
  have mem: "ord \<in> set (orders s)" "o_ID ord = i" using find_Some_in [OF f] by auto
  have fresh: "i \<notin> set (published s)"
    using ok(1) st mem u unfolding announced_ok_def by (metis eq_key_imp_eq_value distinct_map inj_onD)
  have set: "set (orders s') = placed_at t ` {x \<in> set (orders s). o_ID x = i} \<union> {x \<in> set (orders s). o_ID x \<noteq> i}"
    using u by (simp add: os map_first_eq_map_all set_map_all)
  have "\<exists>x \<in> set (orders s'). o_ID x = j \<and> o_OrderStatus x \<noteq> ''PENDING''" if "j \<in> set (published s')" for j
  proof (cases "j = i")
    case True
    then show ?thesis using mem by (intro bexI [of _ "placed_at t ord"]) (auto simp: set placed_at_def)
  next
    case False
    then show ?thesis using that ok(1) by (auto simp: pub announced_ok_def set)
  qed
  then show ?thesis using ok fresh by (simp add: announced_ok_def pub)
qed

lemma announced_step: "order_step D marshal s s' \<Longrightarrow> announced_ok s \<Longrightarrow> announced_ok s'"
proof -
  assume step: "order_step D marshal s s'" and ok: "announced_ok s"
  then have ids: "order_ids_unique s'"
    using order_step_ids by (auto simp: keeping_def announced_ok_def)
  from step show ?thesis
  proof (cases rule: order_step_cases)
    case quiet
    then show ?thesis by (rule announced_quiet [OF ok _ ids])
  next
    case (placed c i auth r)
    then show ?thesis
    proof (cases rule: PlaceOrder_run)
      case quiet
      then show ?thesis using announced_quiet [OF ok _ ids] by simp
    next
      case (published ord t dto)
      then show ?thesis
        using announced_placed [OF ok ids published(1,2,6,8)] toOrderDTO_ID find_Some_in [OF published(1)]
        by fastforce
    qed
  qed
qed

text \<open>
  C2. Over any sequence of requests and deliveries, with any calls failing, an order is announced
  at most once, and only when it exists and is no longer pending: the ids of the order-created
  events sent are distinct, and each is the id of a stored order that left \<open>PENDING\<close>.
\<close>

theorem orders_announced_once:
  assumes "(order_step D marshal)\<^sup>*\<^sup>* s s'" "order_ids_unique s" "outbox s = []"
  shows "distinct (published s') \<and>
    (\<forall>i \<in> set (published s'). \<exists>ord \<in> set (orders s'). o_ID ord = i \<and> o_OrderStatus ord \<noteq> ''PENDING'')"
proof -
  have "announced_ok s" using assms(2,3) by (simp add: announced_ok_def published_def)
  with assms(1) have "announced_ok s'"
    by (induction rule: rtranclp_induct) (auto intro: announced_step)
  then show ?thesis by (simp add: announced_ok_def)
qed

lemma orders_announced_once_witness:
  "\<forall>D marshal. \<exists>s'. (order_step D marshal)\<^sup>*\<^sup>* (demo_db [demo_order ''PENDING'' 0]) s' \<and> published s' = [UUID 7] \<and>
    distinct (published s')" (is "\<forall>D marshal. ?P D marshal")
proof (intro allI)
  fix D :: downstream and marshal :: "User \<Rightarrow> string"
  obtain g s' where run: "PlaceOrder demo_caller (UUID 7) None (demo_db [demo_order ''PENDING'' 0]) = (Inr g, s')"
      and out: "published s' = [UUID 7]"
    using demo_place_run by (auto simp: published_def demo_order_def placed_at_def toOrderDTO_def)
  have "(order_step D marshal)\<^sup>*\<^sup>* (demo_db [demo_order ''PENDING'' 0]) s'"
    using order_step.placing [OF run] by blast
  moreover from this have "distinct (published s')"
    using orders_announced_once by (fastforce simp: demo_defs order_ids_unique_def keys_unique_def)
  ultimately show "?P D marshal" using out by blast
qed

lemma order_step_evolves:
  assumes "order_step D marshal s s'"
  shows "orders_evolve (orders s) (orders s')"
  using assms
proof (cases rule: order_step_cases)
  case (placed c i auth r)
  then show ?thesis
  proof (cases rule: PlaceOrder_run)
    case (published ord t dto)
    then show ?thesis
      by (auto intro!: orders_evolve_map_first order_moves.place simp: placed_at_def)
  qed (simp add: orders_quiet_def)
qed (simp_all add: orders_quiet_def)

lemma orders_evolve_find_id:
  assumes "orders_evolve xs ys" "find (\<lambda>x. o_ID x = i) xs = Some ord"
  shows "\<exists>ord'. find (\<lambda>x. o_ID x = i) ys = Some ord' \<and> order_moves\<^sup>*\<^sup>* ord ord'"
proof -
  have "\<exists>ord'. find (\<lambda>x. o_ID x = i) (as @ bs) = Some ord' \<and> order_moves\<^sup>*\<^sup>* ord ord'"
    if "list_all2 order_moves\<^sup>*\<^sup>* xs as" for as bs
    using that assms(2) by (induction rule: list_all2_induct) (auto simp: order_moves_ID split: if_splits)
  then show ?thesis using assms(1) by (auto simp: orders_evolve_def)
qed

text \<open>
  C5. An order only ever moves forward. Whatever the service is asked and whatever fails, a stored
  order keeps its id, owner, items, amounts and creation instant; a rejected order never changes
  again; a placed order stays exactly as it was or becomes rejected, keeping its placing instant;
  and a status other than the initial one is \<open>PLACED\<close> or \<open>REJECTED\<close>.
\<close>

theorem orders_move_only_forward:
  assumes "(order_step D marshal)\<^sup>*\<^sup>* s s'" "find (\<lambda>x. o_ID x = i) (orders s) = Some ord"
  shows "\<exists>ord'. find (\<lambda>x. o_ID x = i) (orders s') = Some ord' \<and> order_content ord' = order_content ord \<and>
    (o_OrderStatus ord = ''REJECTED'' \<longrightarrow> ord' = ord) \<and>
    (o_OrderStatus ord = ''PLACED'' \<longrightarrow> ord' = ord \<or> ord' = ord\<lparr>o_OrderStatus := ''REJECTED''\<rparr>) \<and>
    (ord' = ord \<or> o_OrderStatus ord' \<in> {''PLACED'', ''REJECTED''})"
proof -
  have "orders_evolve (orders s) (orders s')"
    using assms(1) by (induction rule: rtranclp_induct)
      (auto intro: orders_evolve_refl orders_evolve_trans order_step_evolves)
  from orders_evolve_find_id [OF this assms(2)] show ?thesis
    using order_moves_content order_moves_rejected order_moves_placed order_moves_status by blast
qed

lemma orders_move_only_forward_witness:
  "\<forall>D marshal. \<exists>s'. (order_step D marshal)\<^sup>*\<^sup>* (demo_db [demo_order ''PENDING'' 0]) s' \<and>
    (\<exists>ord'. find (\<lambda>x. o_ID x = UUID 7) (orders s') = Some ord' \<and> o_OrderStatus ord' = ''PLACED'' \<and>
      order_content ord' = order_content (demo_order ''PENDING'' 0))" (is "\<forall>D marshal. ?P D marshal")
proof (intro allI)
  fix D :: downstream and marshal :: "User \<Rightarrow> string"
  obtain g s' where run: "PlaceOrder demo_caller (UUID 7) None (demo_db [demo_order ''PENDING'' 0]) = (Inr g, s')"
      and new: "orders s' = [placed_at (2 * 10 ^ 9) (demo_order ''PENDING'' 0)]"
    using demo_place_run by (auto simp: demo_db_def)
  have steps: "(order_step D marshal)\<^sup>*\<^sup>* (demo_db [demo_order ''PENDING'' 0]) s'"
    using order_step.placing [OF run] by blast
  show "?P D marshal"
    using orders_move_only_forward [OF steps, of "UUID 7" "demo_order ''PENDING'' 0"] steps new
    by (auto simp: demo_defs placed_at_def)
qed

text \<open>
  No collection of the order database ever holds two documents of one id, whatever is asked,
  delivered or lost.
\<close>

theorem order_ids_stay_unique:
  assumes "(order_step D marshal)\<^sup>*\<^sup>* s s'" "order_ids_unique s"
  shows "order_ids_unique s'"
  using assms by (induction rule: rtranclp_induct) (auto dest: order_step_ids simp: keeping_def)

lemma order_ids_stay_unique_witness:
  "\<forall>D marshal. \<exists>s'. order_step D marshal (demo_db [demo_order ''PENDING'' 0]) s' \<and> order_ids_unique s'" (is "\<forall>D marshal. ?P D marshal")
proof (intro allI)
  fix D :: downstream and marshal :: "User \<Rightarrow> string"
  obtain g s' where run: "PlaceOrder demo_caller (UUID 7) None (demo_db [demo_order ''PENDING'' 0]) = (Inr g, s')"
    using demo_place_run by auto
  then have "order_step D marshal (demo_db [demo_order ''PENDING'' 0]) s'" by (rule order_step.placing)
  then show "?P D marshal"
    using order_ids_stay_unique [of D marshal "demo_db [demo_order ''PENDING'' 0]" s']
    by (auto simp: demo_defs order_ids_unique_def keys_unique_def)
qed

text \<open>
  The pending-timeout state machine, on every branch, when the database answers: an unknown
  order is reported and nothing is written; an order older than one hour is rejected, whatever its
  status, and an error is returned; a pending order in time is placed at the instant read; any
  other status is an error and nothing is written.
\<close>

theorem setStatusPlaced_outcomes:
  assumes "faults s = []"
  shows "fst (setStatusPlaced i s) =
      (case find (\<lambda>x. o_ID x = i) (orders s) of
         None \<Rightarrow> Inl (OrderNotFound i)
       | Some ord \<Rightarrow>
           if o_CreatedAt ord + pendingTimeout < clock s (reads s) then Inl (WasRejected i)
           else if o_OrderStatus ord = ''PENDING'' then Inr ()
           else Inl (NotPending (o_OrderStatus ord))) \<and>
    orders (snd (setStatusPlaced i s)) =
      (case find (\<lambda>x. o_ID x = i) (orders s) of
         None \<Rightarrow> orders s
       | Some ord \<Rightarrow>
           if o_CreatedAt ord + pendingTimeout < clock s (reads s)
             then map_first (\<lambda>x. o_ID x = i) (\<lambda>x. x\<lparr>o_OrderStatus := ''REJECTED''\<rparr>) (orders s)
           else if o_OrderStatus ord = ''PENDING''
             then map_first (\<lambda>x. o_ID x = i)
               (\<lambda>x. x\<lparr>o_OrderStatus := ''PLACED'', o_PlacedAt := Some (bson_time (clock s (reads s)))\<rparr>) (orders s)
           else orders s)"
  using assms
  by (simp add: setStatusPlaced_quiet stale_def Let_def placed_at_def [abs_def] rejected_def [abs_def]
      split: option.split)

lemma setStatusPlaced_outcomes_witness:
  "fst (setStatusPlaced (UUID 7) (demo_db [demo_order ''PLACED'' 0])) = Inl (NotPending ''PLACED'')"
  using setStatusPlaced_outcomes [of "demo_db [demo_order ''PLACED'' 0]" "UUID 7"]
  by (simp add: demo_defs pendingTimeout_def)

text \<open>
  A repeated \<open>placeOrder\<close> revokes an order that was already placed: one hour after creation,
  the owner's second request turns the placed (and announced) order into a rejected one, with the
  message of an order pending for too long.
\<close>

theorem late_request_rejects_placed:
  assumes "faults s = []" "find (\<lambda>x. o_ID x = i) (orders s) = Some ord" "o_OrderStatus ord = ''PLACED''"
    and "o_CreatedAt ord + pendingTimeout < clock s (reads s)" "authorizeUser c (ouser_ID (o_User ord)) = Inr ()"
  shows "fst (PlaceOrder c i auth s) = Inl (WasRejected i) \<and>
    find (\<lambda>x. o_ID x = i) (orders (snd (PlaceOrder c i auth s))) = Some (ord\<lparr>o_OrderStatus := ''REJECTED''\<rparr>) \<and>
    outbox (snd (PlaceOrder c i auth s)) = outbox s"
proof -
  have p: "setStatusPlaced i s = (Inl (WasRejected i),
      s\<lparr>reads := Suc (reads s), orders := map_first (\<lambda>x. o_ID x = i) rejected (orders s)\<rparr>)"
    using assms by (simp add: setStatusPlaced_quiet stale_def Let_def)
  have "PlaceOrder c i auth s = (Inl (WasRejected i),
      s\<lparr>reads := Suc (reads s), orders := map_first (\<lambda>x. o_ID x = i) rejected (orders s)\<rparr>)"
    using assms(1,2,5) p
    by (simp add: PlaceOrder_def run_andThen run_attempt GetOrder_quiet lift_result_def run_ret)
  then show ?thesis
    using find_map_first_same [OF assms(2), of rejected] find_Some_in [OF assms(2)]
    by (simp add: rejected_def)
qed

lemma late_request_rejects_placed_witness:
  "fst (PlaceOrder demo_caller (UUID 7) None (demo_db [demo_order ''PLACED'' (- 3600 * 10 ^ 9)])) =
    Inl (WasRejected (UUID 7))"
  using late_request_rejects_placed [of "demo_db [demo_order ''PLACED'' (- 3600 * 10 ^ 9)]" "UUID 7"
      "demo_order ''PLACED'' (- 3600 * 10 ^ 9)" demo_caller None]
  by (simp add: demo_defs pendingTimeout_def authorizeUser_def FromContext_def)

subsection \<open>Creating\<close>

lemma attempt_eq_iff: "attempt m s = (Inr r, s') \<longleftrightarrow> m s = (r, s')"
  by (cases "m s") (auto simp: attempt_def)

lemma CreateOrder_sound:
  assumes "CreateOrder D marshal c input s = (Inr g, s')" "runtime_ok D"
  shows "\<exists>i t items nodes stock req found h entity es ids entities.
    authorizeUser c (coi_UserID input) = Inr () \<and> coi_UserID input \<in> ouser_ID ` set (users s) \<and>
    inputs_known (dedupeOrderItemInputs (coi_OrderItemInputs input)) s \<and>
    i \<notin> o_ID ` set (orders s) \<and> (\<exists>n. t = clock s n) \<and>
    orders s' = orders s @ [bson_order (newOrder input i t items)] \<and> outbox s' = outbox s \<and>
    g = toOrderModel (bson_order (newOrder input i t items)) \<and>
    ask_shoppingcart D (coi_UserID input) h = Reply [] (Data (entity # es)) \<and> sce_Shoppingcart entity = Some nodes \<and>
    ask_inventory D ids = Reply [] (Data entities) \<and> stock_of entities [] = Inr stock \<and>
    ask_discount D req = Reply [] (Data found) \<and> dr_UserID req = coi_UserID input \<and>
    sorted_wrt (<) (map (\<lambda>it. pv_ID (oi_ProductVariant it)) items) \<and>
    (\<forall>it \<in> set items.
       item_sound D (dedupeOrderItemInputs (coi_OrderItemInputs input)) (cart_of nodes) stock req (granted_of found) s t it)"
proof -
  let ?ins = "dedupeOrderItemInputs (coi_OrderItemInputs input)"
  obtain w u h s1 t s2 items s3 i s4 s5 stored where a: "authorizeUser c (coi_UserID input) = Inr w"
      and v: "validateOrderInput input ?ins s = (Inr u, s1)" and n: "(now :: time order_act) s1 = (Inr t, s2)"
      and items: "createInternalOrderItems D (coi_UserID input) ?ins h t s2 = (Inr items, s3)"
      and i: "(new_uuid :: uuid order_act) s3 = (Inr i, s4)"
      and ins: "InsertOrder (newOrder input i t items) s4 = (Inr stored, s5)"
      and r: "(ret (toOrderModel stored) :: GOrder order_act) s5 = (Inr g, s')"
    using assms(1) unfolding CreateOrder_def Let_def
    by (elim attempt_case_InrE andThen_InrE lift_result_InrE, hypsubst) (rule that, assumption+)
  have g: "g = toOrderModel stored" and s5: "s5 = s'" using r by (simp_all add: run_ret)
  have "reading s s1" "reading s1 s2" "reading s2 s3" "reading s3 s4"
    using guarD [OF read_validateOrderInput v] guarD [OF reading.guar_now n]
      guarD [OF read_createInternalOrderItems items] guarD [OF reading.guar_new_uuid i] by simp_all
  then have same: "io.more s2 = io.more s" "io.more s4 = io.more s" "outbox s4 = outbox s" "clock s1 = clock s"
    by (simp_all add: reading_def)
  obtain entity es nodes ids entities stock req found where it:
      "ask_discount D req = Reply [] (Data found)" "dr_UserID req = coi_UserID input"
      "ask_shoppingcart D (coi_UserID input) h = Reply [] (Data (entity # es))" "sce_Shoppingcart entity = Some nodes"
      "ask_inventory D ids = Reply [] (Data entities)" "stock_of entities [] = Inr stock"
      "sorted_wrt (<) (map (\<lambda>it. pv_ID (oi_ProductVariant it)) items)"
      "\<forall>it \<in> set items. item_sound D ?ins (cart_of nodes) stock req (granted_of found) s2 t it"
    by (rule createInternalOrderItems_sound [OF items assms(2)])
  have sound: "\<forall>it \<in> set items. item_sound D ?ins (cart_of nodes) stock req (granted_of found) s t it"
    using it(8) unfolding item_sound_def order_tables(4,5) [OF same(1)] .
  have t: "\<exists>n. t = clock s n" using n same(4) by (auto simp: run_now)
  have "i \<notin> o_ID ` set (orders s)" "orders s' = orders s @ [bson_order (newOrder input i t items)]"
      "outbox s' = outbox s" "g = toOrderModel (bson_order (newOrder input i t items))"
    using InsertOrder_Inr [OF ins [unfolded s5]] order_tables(1) [OF same(2)] same(3) g by (simp_all add: newOrder_def)
  moreover have "authorizeUser c (coi_UserID input) = Inr ()" using a by simp
  ultimately show ?thesis using t it(1-7) sound validateOrderInput_Inr [OF v] by blast
qed

text \<open>
  C4. A successful \<open>createOrder\<close> stores exactly one new order, pending, under an id no order had,
  for a known user the caller may act for. At least one requested item names a coupon (without any,
  the lookup of the coupons is refused and so is the order), and every coupon and shipment method
  asked for is known. The items are in strictly ascending order of their product variants, and each
  is sound: a locally known, visible variant at its current version with that version's current tax
  rate, the count of one of the requested items of the cart the shopping cart service answered (not
  above the stock the inventory answered), the shipment method asked for it, the discounts the
  discount service granted the variant when asked with its count and coupons, one of each id and in
  strictly ascending order, and the amount computed from them; the order's amount is their sum, and
  nothing is published. A requested item whose variant is unknown or hidden leaves no trace in the
  order.
\<close>

theorem createOrder_success:
  assumes "CreateOrder D marshal c input s = (Inr g, s')" "runtime_ok D"
  shows "\<exists>i t items nodes stock req found h entity es ids entities.
    authorizeUser c (coi_UserID input) = Inr () \<and> coi_UserID input \<in> ouser_ID ` set (users s) \<and>
    inputs_known (dedupeOrderItemInputs (coi_OrderItemInputs input)) s \<and>
    i \<notin> o_ID ` set (orders s) \<and> (\<exists>n. t = clock s n) \<and>
    orders s' = orders s @ [bson_order (newOrder input i t items)] \<and> outbox s' = outbox s \<and>
    g = toOrderModel (bson_order (newOrder input i t items)) \<and>
    ask_shoppingcart D (coi_UserID input) h = Reply [] (Data (entity # es)) \<and> sce_Shoppingcart entity = Some nodes \<and>
    ask_inventory D ids = Reply [] (Data entities) \<and> stock_of entities [] = Inr stock \<and>
    ask_discount D req = Reply [] (Data found) \<and> dr_UserID req = coi_UserID input \<and>
    sorted_wrt (<) (map (\<lambda>it. pv_ID (oi_ProductVariant it)) items) \<and>
    (\<forall>it \<in> set items.
       item_sound D (dedupeOrderItemInputs (coi_OrderItemInputs input)) (cart_of nodes) stock req (granted_of found) s t it)"
  by (rule CreateOrder_sound [OF assms])

text \<open>A cart of one item, whose variant costs 1000 and has a discount of a quarter for a coupon.\<close>

definition demo_variant :: ProductVariant where
  "demo_variant = \<lparr>pv_ID = UUID 20, pv_CurrentVersion = \<lparr>pvv_ID = UUID 21, pvv_Price = 1000, pvv_TaxRateID = UUID 22\<rparr>,
     pv_IsPubliclyVisible = BsonBool True\<rparr>"

definition demo_shop :: order_db where
  "demo_shop = (demo_db [])\<lparr>productVariants := [demo_variant], coupons := [\<lparr>ref_ID = UUID 50\<rparr>],
     taxRates := [\<lparr>tr_ID = UUID 22, tr_CurrentVersion = \<lparr>trv_ID = UUID 23, trv_Rate = Fin 1 (-2), trv_Version = 1\<rparr>\<rparr>]\<rparr>"

definition demo_downstream :: downstream where
  "demo_downstream = \<lparr>
     ask_shoppingcart = (\<lambda>u h. Reply [] (Data [\<lparr>sce_Shoppingcart =
       Some [\<lparr>cn_ID = UUID 30, cn_ProductVariantID = UUID 20, cn_Count = 2\<rparr>]\<rparr>])),
     ask_inventory = (\<lambda>ids. Reply [] (Data [\<lparr>ie_ID = Some (UUID 20), ie_InventoryCount = Some 5\<rparr>])),
     ask_discount = (\<lambda>r. Reply [] (Data [\<lparr>ad_ProductVariantID = UUID 20, ad_Discounts = [(UUID 40, Fin 3 (-2))]\<rparr>])),
     ask_shipment = (\<lambda>items. Reply [] (Data 7)),
     range_order = (\<lambda>n ks. ks), sort_Slice = sort_key od_ID, float_oob = (\<lambda>x. 0)\<rparr>"

definition demo_input :: CreateOrderInput where
  "demo_input = \<lparr>coi_UserID = UUID 1, coi_OrderItemInputs =
       [\<lparr>oii_ShoppingCartItemID = UUID 30, oii_ShipmentMethodID = UUID 4, oii_CouponIds = [UUID 50]\<rparr>],
     coi_ShipmentAddressID = UUID 2, coi_InvoiceAddressID = UUID 2, coi_PaymentInformationID = UUID 3,
     coi_VatNumber = None\<rparr>"

lemma demo_runtime: "runtime_ok demo_downstream"
  by (simp add: runtime_ok_def demo_downstream_def)

definition demo_created :: "(order_err + GOrder) \<times> order_db" where
  "demo_created = CreateOrder demo_downstream (\<lambda>u. ''h'') demo_caller demo_input demo_shop"

lemma demo_created_run:
  "(case demo_created of
      (Inr g, s') \<Rightarrow> map (\<lambda>it. uint (oi_CompensatableAmount it)) (concat (map o_InternalOrderItems (orders s'))) = [750]
    | _ \<Rightarrow> False)"
  by code_simp

text \<open>The same order without the coupon is refused.\<close>

lemma demo_without_coupon:
  "case CreateOrder demo_downstream (\<lambda>u. ''h'') demo_caller
      (demo_input\<lparr>coi_OrderItemInputs := map (oii_CouponIds_update (\<lambda>_. [])) (coi_OrderItemInputs demo_input)\<rparr>) demo_shop of
     (r, s') \<Rightarrow> r = Inl (NotPresentSystem ''Coupon'') \<and> orders s' = []"
  by code_simp

lemma createOrder_success_witness:
  "\<exists>g s'. demo_created = (Inr g, s') \<and> length (orders s') = 1 \<and> outbox s' = []"
proof -
  obtain g s' where run: "demo_created = (Inr g, s')"
    using demo_created_run by (auto split: prod.splits sum.splits)
  then show ?thesis
    using createOrder_success [of demo_downstream "\<lambda>u. ''h''" demo_caller demo_input demo_shop g s'] demo_runtime
    by (auto simp: demo_created_def demo_shop_def demo_db_def)
qed

text \<open>
  A discount never raises what is compensated: when the factors lie between 0 and 1, the
  compensatable amount of an item is at most the price of its variant and is the rounded-down
  product, in 64-bit floats, of the price and the factors in order. It does not depend on the
  count ordered, nor on what the machine does with out-of-range conversions.
\<close>

theorem compensatable_at_most_price:
  assumes "\<forall>d \<in> set ds. unit_factor (od_Discount d)"
  shows "unat (calculateCompensatableAmount D v ds) \<le> unat (pvv_Price v) \<and>
    (\<exists>q e. foldl (\<lambda>p d. f64_mul p (od_Discount d)) (f64_of_int (uint (pvv_Price v))) ds = Fin q e \<and>
      uint (calculateCompensatableAmount D v ds) = \<lfloor>fin_val q e\<rfloor>)"
  using assms by (rule compensatable_bound)

lemma compensatable_at_most_price_witness:
  "unat (calculateCompensatableAmount demo_downstream \<lparr>pvv_ID = UUID 21, pvv_Price = 1000, pvv_TaxRateID = UUID 22\<rparr>
     [\<lparr>od_ID = UUID 40, od_Discount = Fin 3 (-2)\<rparr>]) \<le> 1000"
proof -
  have "unit_factor (Fin 3 (- 2))" by code_simp
  then show ?thesis
    using compensatable_at_most_price [of "[\<lparr>od_ID = UUID 40, od_Discount = Fin 3 (-2)\<rparr>]" demo_downstream
        "\<lparr>pvv_ID = UUID 21, pvv_Price = 1000, pvv_TaxRateID = UUID 22\<rparr>"] by simp
qed

text \<open>
  \<open>dedupeOrderItemInputs\<close> is the set of inputs keyed by cart item: its ids are strictly
  ascending, and looking an id up in it gives the first input of that id, with its coupons
  deduplicated.
\<close>

theorem dedupeOrderItemInputs_set:
  "sorted_wrt (<) (map in_shoppingCartItemID (dedupeOrderItemInputs ins)) \<and>
   find (\<lambda>x. in_shoppingCartItemID x = k) (dedupeOrderItemInputs ins) =
     map_option (\<lambda>oi. \<lparr>in_shoppingCartItemID = oii_ShoppingCartItemID oi,
         in_shipmentMethodID = oii_ShipmentMethodID oi, in_couponIDs = dedupeUUIDs (oii_CouponIds oi)\<rparr>)
       (find (\<lambda>x. oii_ShoppingCartItemID x = k) ins) \<and>
   set (dedupeUUIDs ids) = set ids \<and> distinct (dedupeUUIDs ids)"
proof -
  define conv where "conv = (\<lambda>oi :: OrderItemInput. \<lparr>in_shoppingCartItemID = oii_ShoppingCartItemID oi,
      in_shipmentMethodID = oii_ShipmentMethodID oi, in_couponIDs = dedupeUUIDs (oii_CouponIds oi)\<rparr>)"
  let ?once = "map conv (first_seen oii_ShoppingCartItemID {} ins)"
  have key: "in_shoppingCartItemID (conv oi) = oii_ShoppingCartItemID oi" for oi by (simp add: conv_def)
  have out: "dedupeOrderItemInputs ins = sort_key in_shoppingCartItemID ?once"
    by (simp add: dedupeOrderItemInputs_def conv_def)
  have d: "distinct (map in_shoppingCartItemID ?once)"
    using distinct_first_seen [of oii_ShoppingCartItemID "{}" ins] by (simp add: key comp_def)
  then have "distinct (map in_shoppingCartItemID (dedupeOrderItemInputs ins))"
    unfolding out by (metis distinct_map distinct_sort inj_on_cong set_sort)
  then have "sorted_wrt (<) (map in_shoppingCartItemID (dedupeOrderItemInputs ins))"
    by (simp add: strict_sorted_iff out)
  moreover have "find (\<lambda>x. in_shoppingCartItemID x = k) (dedupeOrderItemInputs ins) =
      find (\<lambda>x. in_shoppingCartItemID x = k) ?once"
  proof (cases "find (\<lambda>x. in_shoppingCartItemID x = k) ?once")
    case None
    moreover from None have "find (\<lambda>x. in_shoppingCartItemID x = k) (dedupeOrderItemInputs ins) = None"
      by (simp add: out find_None_iff)
    ultimately show ?thesis by simp
  next
    case (Some x)
    then have "x \<in> set (dedupeOrderItemInputs ins)" "in_shoppingCartItemID x = k"
      using find_Some_in [OF Some] by (auto simp: out)
    then show ?thesis
      using find_key_eq [OF \<open>distinct (map in_shoppingCartItemID (dedupeOrderItemInputs ins))\<close>] Some by auto
  qed
  moreover have "find (\<lambda>x. in_shoppingCartItemID x = k) (map conv xs) =
      map_option conv (find (\<lambda>x. oii_ShoppingCartItemID x = k) xs)" for xs
    by (induction xs) (auto simp: key)
  ultimately show ?thesis
    by (simp add: find_first_seen conv_def dedupeUUIDs_def)
qed

end
