(* ===== verification/Order_Pages.thy ===== *)
theory Order_Pages
  imports Order_Graph
begin

text \<open>The lists the order service shows: in-memory pages and the orders of a user.\<close>

subsection \<open>Pages\<close>

text \<open>
  \<open>paginateInMemory\<close>, for arguments that passed \<open>checkPagination\<close>: the page is the window
  \<open>[skip, skip + first)\<close> of the items sorted by key in the asked direction, the total is their
  number, and more pages are announced exactly when elements lie beyond the window.
\<close>

theorem paginateInMemory_window:
  fixes items :: "'a list" and key :: "'a \<Rightarrow> uuid"
  assumes "checkPagination first skip = Inr ()" "int (length items) < 2 ^ 63"
    and "paginateInMemory items first skip ob key = (page, hasNext, cnt)"
    and "case skip of None \<Rightarrow> True | Some n \<Rightarrow> n < 2 ^ 63"
  shows "\<exists>sorted'. mset sorted' = mset items \<and>
    (if ob = None \<or> directionAscending (coi_Direction (the ob)) then sorted (map key sorted')
     else sorted (map key (rev sorted'))) \<and>
    page = (case first of None \<Rightarrow> id | Some n \<Rightarrow> take (nat n))
      (drop (case skip of None \<Rightarrow> 0 | Some n \<Rightarrow> nat n) sorted') \<and>
    cnt = int (length items) \<and>
    (hasNext \<longleftrightarrow> (case skip of None \<Rightarrow> 0 | Some n \<Rightarrow> nat n) + length page < length items)"
proof -
  let ?asc = "ob = None \<or> directionAscending (coi_Direction (the ob))"
  let ?k = "case skip of None \<Rightarrow> 0 | Some n \<Rightarrow> nat n"
  define srt where "srt = (if ?asc then sort_key key items
    else sort_key (\<lambda>x. - int (unat (uuid_val (key x)))) items)"
  have m: "mset srt = mset items" and l: "length srt = length items" by (simp_all add: srt_def)
  have order: "if ?asc then sorted (map key srt) else sorted (map key (rev srt))"
  proof (cases ?asc)
    case False
    have "srt = sort_key (\<lambda>x. - int (unat (uuid_val (key x)))) items"
      unfolding srt_def using False by (rule if_not_P)
    then have "sorted (map (\<lambda>x. - int (unat (uuid_val (key x)))) srt)" by (simp only: sorted_sort_key)
    then have "sorted_wrt (\<lambda>x y. key y \<le> key x) srt"
      by (simp add: sorted_wrt_map less_eq_uuid_def word_le_def)
    then have "sorted (map key (rev srt))" by (simp add: sorted_wrt_map sorted_wrt_rev)
    then show ?thesis by (subst if_not_P [OF False])
  qed (simp add: srt_def)
  have nn: "skip = Some n \<Longrightarrow> 0 \<le> n" "first = Some n \<Longrightarrow> 0 \<le> n" for n
    using assms(1) by (auto simp: checkPagination_def split: if_splits)
  have window: "drop (nat (if (case skip of None \<Rightarrow> 0 | Some n \<Rightarrow> n) > int (length srt) then int (length srt)
      else (case skip of None \<Rightarrow> 0 | Some n \<Rightarrow> n))) srt = drop ?k srt"
    using nn(1) by (cases skip) auto
  have pg: "page = (case first of None \<Rightarrow> id | Some n \<Rightarrow> take (nat n)) (drop ?k srt)"
    and tot: "cnt = int (length srt)"
    and more: "hasNext \<longleftrightarrow> cnt > i64 (int (length page) + (case skip of None \<Rightarrow> 0 | Some n \<Rightarrow> n))"
    using assms(3) window nn
    by (auto simp: paginateInMemory_def Let_def srt_def split: option.splits if_splits)
  have "int ?k + int (length page) < 2 ^ 63"
    using assms(2,4) nn l by (auto simp: pg split: option.splits)
  then have "i64 (int (length page) + (case skip of None \<Rightarrow> 0 | Some n \<Rightarrow> n)) = int (?k + length page)"
    using nn(1) by (subst i64_id) (auto split: option.splits)
  then have "hasNext \<longleftrightarrow> ?k + length page < length items" using more tot l by auto
  with m order pg tot l show ?thesis by auto
qed

lemma paginateInMemory_window_witness:
  "\<exists>page hasNext cnt. paginateInMemory [UUID 3, UUID 1, UUID 2] (Some 1) (Some 1) None id = (page, hasNext, cnt) \<and>
    length page = 1 \<and> hasNext \<and> cnt = 3"
proof -
  have run: "paginateInMemory [UUID 3, UUID 1, UUID 2] (Some 1) (Some 1) None id = ([UUID 2], True, 3)"
    by code_simp
  then show ?thesis
    using paginateInMemory_window [OF _ _ run] by (auto simp: checkPagination_def)
qed

text \<open>
  \<open>User.orders\<close> for a caller who may see them, when the database answers: all orders returned
  belong to that user, the total is their number, and the page is the window the arguments name of
  these orders sorted by the field and direction asked, except that \<open>first = 0\<close> (the driver's "no limit") returns every remaining order.
\<close>

theorem User_Orders_window:
  assumes "faults s = []" "authorizeUser c u = Inr ()" "checkPagination first skip = Inr ()"
    and "int (length (orders s)) < 2 ^ 62" "case skip of None \<Rightarrow> True | Some n \<Rightarrow> n < 2 ^ 62"
  shows "\<exists>sorted' page. mset sorted' = mset (filter (\<lambda>x. ouser_ID (o_User x) = u) (orders s)) \<and>
    sorted (map (\<lambda>x. orderDirectionInt (Option.bind ob ooi_Direction) *
      sort_value (orderOrderField (Option.bind ob ooi_Field)) x) sorted') \<and>
    page = (case first of None \<Rightarrow> id | Some n \<Rightarrow> if n = 0 then id else take (nat n))
      (drop (case skip of None \<Rightarrow> 0 | Some n \<Rightarrow> nat n) sorted') \<and>
    fst (User_Orders c u first skip ob s) =
      Inr (map toOrderModel page,
        (case skip of None \<Rightarrow> 0 | Some n \<Rightarrow> nat n) + length page < length sorted', int (length sorted'))"
proof -
  define field dir where "field = Option.bind ob ooi_Field" and "dir = Option.bind ob ooi_Direction"
  then have args: "field = (case ob of None \<Rightarrow> None | Some b \<Rightarrow> ooi_Field b)"
      "dir = (case ob of None \<Rightarrow> None | Some b \<Rightarrow> ooi_Direction b)"
    by (cases ob; simp)+
  define mine where "mine = filter (\<lambda>x. ouser_ID (o_User x) = u) (orders s)"
  define srt where "srt = sort_key (\<lambda>x. orderDirectionInt dir * sort_value (orderOrderField field) x) mine"
  let ?k = "case skip of None \<Rightarrow> 0 | Some n \<Rightarrow> nat n"
  define page where "page = (case first of None \<Rightarrow> id | Some n \<Rightarrow> if n = 0 then id else take (nat n)) (drop ?k srt)"
  have nn: "skip = Some n \<Longrightarrow> 0 \<le> n" "first = Some n \<Longrightarrow> 0 \<le> n" for n
    using assms(3) by (auto simp: checkPagination_def split: if_splits)
  have nodes: "(case first of None \<Rightarrow> (case skip of None \<Rightarrow> srt | Some n \<Rightarrow> drop (nat n) srt)
      | Some n \<Rightarrow> bson_limit n (case skip of None \<Rightarrow> srt | Some n \<Rightarrow> drop (nat n) srt)) = page"
    using nn by (auto simp: page_def bson_limit_def split: option.split)
  have "length page \<le> length mine"
    by (auto simp: page_def srt_def split: option.split)
  moreover have "length mine \<le> length (orders s)" by (simp add: mine_def)
  ultimately have "i64 ((case skip of None \<Rightarrow> 0 | Some n \<Rightarrow> n) + int (length page)) = int (?k + length page)"
    using assms(4,5) nn by (subst i64_id) (auto split: option.splits)
  moreover have "int k + int n < int m \<longleftrightarrow> k + n < m" for k n m by linarith
  ultimately have "fst (User_Orders c u first skip ob s) =
      Inr (map toOrderModel page, ?k + length page < length srt, int (length srt))"
    using assms(1-3) nodes [unfolded srt_def mine_def]
    by (simp add: User_Orders_def run_andThen lift_result_def run_simps run_attempt ListOrdersByUser_def Let_def
        args [symmetric] mine_def srt_def)
  moreover have "mset srt = mset mine" "sorted (map (\<lambda>x. orderDirectionInt dir * sort_value (orderOrderField field) x) srt)"
    by (simp_all add: srt_def)
  ultimately show ?thesis unfolding mine_def page_def field_def dir_def by blast
qed

text \<open>
  What a caller without the right sees: the reads of an order, of a user's orders and the
  placing of an order are refused, and nothing is stored or sent.
\<close>

theorem strangers_are_refused:
  assumes "faults s = []" "\<not> IsEmployeeOrAdmin c" "\<forall>w. c = Some w \<longrightarrow> user_ID w \<noteq> u"
  shows "\<exists>e. e \<in> {NoAuthHeader, AuthFailed (user_ID (the c))} \<and>
    User_Orders c u first skip ob s = (Inl e, s) \<and>
    (\<forall>ord. find (\<lambda>x. o_ID x = i) (orders s) = Some ord \<longrightarrow> ouser_ID (o_User ord) = u \<longrightarrow>
       Query_Order c i s = (Inl e, s) \<and> PlaceOrder c i auth s = (Inl e, s)) \<and>
    (\<forall>input. coi_UserID input = u \<longrightarrow> CreateOrder D marshal c input s = (Inl e, s))"
proof -
  obtain e where a: "authorizeUser c u = Inl e" and e: "e \<in> {NoAuthHeader, AuthFailed (user_ID (the c))}"
    using assms(2,3) by (cases c) (auto simp: authorizeUser_def FromContext_def)
  have g: "GetOrder i s = (Inr ord, s)" if "find (\<lambda>x. o_ID x = i) (orders s) = Some ord" for ord
    using assms(1) that by (simp add: GetOrder_def find_one_def run_simps)
  show ?thesis
    using a e g
    by (intro exI [of _ e])
      (auto simp: User_Orders_def Query_Order_def PlaceOrder_def CreateOrder_def run_andThen run_attempt
        lift_result_def run_simps)
qed

definition shop_of :: "Order list \<Rightarrow> order_db" where
  "shop_of ords = \<lparr>faults = [], outbox = [], fresh = (\<lambda>n. UUID (of_nat n)), minted = 0, clock = (\<lambda>n. 0), reads = 0,
     orders = ords, orderItems = [], users = [], productVariants = [], taxRates = [], coupons = [],
     shipmentMethods = [], orderCompensations = []\<rparr>"

definition order_of :: "uuid \<Rightarrow> uuid \<Rightarrow> Order" where
  "order_of i u = \<lparr>o_ID = i, o_User = \<lparr>ouser_ID = u, ouser_UserAddressIDs = []\<rparr>, o_CreatedAt = 0,
     o_OrderStatus = ''PENDING'', o_PlacedAt = None, o_RejectionReason = None, o_InternalOrderItems = [],
     o_ShipmentAddress = \<lparr>ref_ID = UUID 2\<rparr>, o_InvoiceAddress = \<lparr>ref_ID = UUID 2\<rparr>,
     o_CompensatableOrderAmount = 0, o_PaymentInformationID = UUID 3, o_VatNumber = None\<rparr>"

lemma User_Orders_window_witness:
  "\<exists>nodes. fst (User_Orders (Some \<lparr>user_ID = UUID 1, user_Roles = []\<rparr>) (UUID 1) (Some 0) None None
      (shop_of [order_of (UUID 7) (UUID 1), order_of (UUID 8) (UUID 2)])) = Inr (nodes, False, 1) \<and> length nodes = 1"
  using User_Orders_window [of "shop_of [order_of (UUID 7) (UUID 1), order_of (UUID 8) (UUID 2)]"
      "Some \<lparr>user_ID = UUID 1, user_Roles = []\<rparr>" "UUID 1" "Some 0" None None]
  by (auto simp: shop_of_def order_of_def authorizeUser_def FromContext_def checkPagination_def dest: mset_eq_length)

lemma strangers_are_refused_witness:
  "\<exists>e. User_Orders (Some \<lparr>user_ID = UUID 2, user_Roles = [''buyer'']\<rparr>) (UUID 1) None None None
      (shop_of [order_of (UUID 7) (UUID 1)]) = (Inl e, shop_of [order_of (UUID 7) (UUID 1)])"
proof -
  have "\<not> IsEmployeeOrAdmin (Some \<lparr>user_ID = UUID 2, user_Roles = [''buyer'']\<rparr>)"
    by (simp add: IsEmployeeOrAdmin_def RoleEmployee_def RoleAdmin_def)
  then show ?thesis
    using strangers_are_refused [of "shop_of [order_of (UUID 7) (UUID 1)]"
        "Some \<lparr>user_ID = UUID 2, user_Roles = [''buyer'']\<rparr>" "UUID 1" None None None]
    by (fastforce simp: shop_of_def)
qed

end
