(* ===== verification/Order_Compensation.thy ===== *)
theory Order_Compensation
  imports Order_Items Order_Events
begin

text \<open>
  The compensation saga of the order service and the read model's visibility flag: what a failed
  shipment delivery does on every branch, and what follows for redelivered and for later failures.
\<close>

subsection \<open>Compensating a failed shipment\<close>

definition owed :: "ShipmentFailedEventData \<Rightarrow> Order \<Rightarrow> u64" where
  "owed data ord = sum_list (map oi_CompensatableAmount
     (filter (\<lambda>it. oi_ID it \<in> set (elems (sfe_OrderItemIDs data))) (o_InternalOrderItems ord)))"

text \<open>A compensation on record that shares no item with the failed shipment.\<close>

definition unrelated :: "ShipmentFailedEventData \<Rightarrow> OrderCompensation \<Rightarrow> bool" where
  "unrelated data c \<longleftrightarrow> set (elems (oc_OrderItemIDs c)) \<inter> set (elems (sfe_OrderItemIDs data)) = {}"

definition compensation :: "ShipmentFailedEventData \<Rightarrow> Order \<Rightarrow> uuid \<Rightarrow> time \<Rightarrow> OrderCompensation" where
  "compensation data ord i t = \<lparr>oc_ID = i, oc_OrderID = sfe_OrderID data, oc_OrderItemIDs = sfe_OrderItemIDs data,
     oc_TriggeredAt = bson_time t, oc_AmountToCompensate = owed data ord\<rparr>"

lemma compensation_ID [simp]: "oc_ID (compensation data ord i t) = i"
  by (simp add: compensation_def)

lemma compensateOrder_quiet:
  assumes "faults s = []"
  shows "compensateOrder data s =
    (case find (\<lambda>x. o_ID x = sfe_OrderID data) (orders s) of
       None \<Rightarrow> (Inl (OrderNotFound (sfe_OrderID data)), s)
     | Some ord \<Rightarrow>
         if sfe_OrderItemIDs data = None \<or> list_ex (unrelated data) (orderCompensations s) then (Inl (NotVerified (sfe_OrderItemIDs data)), s)
         else
           let i = fresh s (minted s); t = clock s (reads s);
               s1 = s\<lparr>minted := Suc (minted s), reads := Suc (reads s)\<rparr>
           in if i \<in> oc_ID ` set (orderCompensations s) then (Inl InsertCompensationFailed, s1)
              else (Inr (), s1\<lparr>orderCompensations := orderCompensations s @ [compensation data ord i t],
                outbox := outbox s @ [OrderCompensationCreated \<lparr>ocd_ID = i, ocd_AmountToCompensate = owed data ord\<rparr>]\<rparr>))"
proof -
  have u: "unrelated data = (\<lambda>c. \<forall>i \<in> set (elems (oc_OrderItemIDs c)). i \<notin> set (elems (sfe_OrderItemIDs data)))"
    by (auto simp: unrelated_def fun_eq_iff)
  show ?thesis
    using assms
    by (cases "sfe_OrderItemIDs data") (simp_all add: compensateOrder_def ValidateObjectOrder_def GetOrder_def find_one_def
        find_all_def find_in_def insert_one_def CountUncompensatedProbe_def calculateAmountToCompensate_def
        InsertOrderCompensation_def PublishOrderCompensationCreated_def emit_def run_andThen run_attempt run_simps Let_def
        u owed_def compensation_def list_ex_iff filter_empty_conv image_iff split: option.split, blast)
qed

text \<open>
  C6. A shipment-failed delivery, on every branch, when the calls are answered: an unknown order is
  an error, and so are a delivery without a list of item ids (its probe is refused) and any
  compensation on record for other items; these errors change nothing. Otherwise one compensation
  is recorded under the fresh id, for the order and the items named, at the instant read, and one
  event announces it: both carry the sum of the compensatable amounts of the order's items named
  (each counted once, whatever the count ordered). No order changes.
\<close>

theorem compensateOrder_outcomes:
  assumes "faults s = []" "fresh s (minted s) \<notin> oc_ID ` set (orderCompensations s)"
  shows "case find (\<lambda>x. o_ID x = sfe_OrderID data) (orders s) of
      None \<Rightarrow> compensateOrder data s = (Inl (OrderNotFound (sfe_OrderID data)), s)
    | Some ord \<Rightarrow>
        if sfe_OrderItemIDs data = None \<or>
          (\<exists>c \<in> set (orderCompensations s). set (elems (oc_OrderItemIDs c)) \<inter> set (elems (sfe_OrderItemIDs data)) = {})
        then compensateOrder data s = (Inl (NotVerified (sfe_OrderItemIDs data)), s)
        else \<exists>s' amount. compensateOrder data s = (Inr (), s') \<and> orders s' = orders s \<and>
          amount = sum_list (map oi_CompensatableAmount
            (filter (\<lambda>it. oi_ID it \<in> set (elems (sfe_OrderItemIDs data))) (o_InternalOrderItems ord))) \<and>
          outbox s' = outbox s @ [OrderCompensationCreated \<lparr>ocd_ID = fresh s (minted s), ocd_AmountToCompensate = amount\<rparr>] \<and>
          orderCompensations s' = orderCompensations s @ [\<lparr>oc_ID = fresh s (minted s), oc_OrderID = sfe_OrderID data,
            oc_OrderItemIDs = sfe_OrderItemIDs data, oc_TriggeredAt = bson_time (clock s (reads s)),
            oc_AmountToCompensate = amount\<rparr>]"
  using assms
  by (auto simp: compensateOrder_quiet Let_def list_ex_iff unrelated_def [abs_def] compensation_def owed_def
      split: option.split)

text \<open>
  The probe against paying twice is the wrong way round. After a compensation for some items,
  a redelivery of the very same failure is compensated again, for the same amount, while a failure
  of any order that shares none of these items is refused from then on.
\<close>

theorem compensation_probe_inverted:
  assumes "faults s = []" "find (\<lambda>x. o_ID x = sfe_OrderID data) (orders s) = Some ord" "elems (sfe_OrderItemIDs data) \<noteq> []" "sfe_OrderItemIDs other \<noteq> None"
    and "orderCompensations s = []" "fresh s (Suc (minted s)) \<noteq> fresh s (minted s)"
    and "compensateOrder data s = (r, s1)" "compensateOrder data s1 = (r2, s2)"
    and "set (elems (sfe_OrderItemIDs other)) \<inter> set (elems (sfe_OrderItemIDs data)) = {}"
    and "find (\<lambda>x. o_ID x = sfe_OrderID other) (orders s) = Some ord2"
  shows "r = Inr () \<and> r2 = Inr () \<and>
    outbox s2 = outbox s @ [OrderCompensationCreated \<lparr>ocd_ID = fresh s (minted s), ocd_AmountToCompensate = owed data ord\<rparr>,
      OrderCompensationCreated \<lparr>ocd_ID = fresh s (Suc (minted s)), ocd_AmountToCompensate = owed data ord\<rparr>] \<and>
    compensateOrder other s1 = (Inl (NotVerified (sfe_OrderItemIDs other)), s1)"
proof -
  have s1: "r = Inr ()" "s1 = s\<lparr>minted := Suc (minted s), reads := Suc (reads s),
      orderCompensations := [compensation data ord (fresh s (minted s)) (clock s (reads s))],
      outbox := outbox s @ [OrderCompensationCreated \<lparr>ocd_ID = fresh s (minted s), ocd_AmountToCompensate = owed data ord\<rparr>]\<rparr>"
    using assms(1,2,3,5,7) by (cases "sfe_OrderItemIDs data"; simp add: compensateOrder_quiet Let_def)+
  have "\<not> unrelated data (compensation data ord i t)" "unrelated other (compensation data ord i t)" for i t
    using assms(3,9) by (auto simp: unrelated_def compensation_def)
  then show ?thesis
    using assms(1-4,6,8,10) s1 by (cases "sfe_OrderItemIDs data") (auto simp: compensateOrder_quiet Let_def)
qed

definition comp_item :: "uuid \<Rightarrow> u64 \<Rightarrow> OrderItem" where
  "comp_item i a = \<lparr>oi_ID = i, oi_CreatedAt = 0,
     oi_ProductVariant = \<lparr>pv_ID = UUID 20, pv_CurrentVersion = \<lparr>pvv_ID = UUID 21, pvv_Price = 0, pvv_TaxRateID = UUID 22\<rparr>,
       pv_IsPubliclyVisible = BsonBool True\<rparr>,
     oi_ProductVariantVersion = \<lparr>pvv_ID = UUID 21, pvv_Price = 0, pvv_TaxRateID = UUID 22\<rparr>,
     oi_TaxRateVersion = \<lparr>trv_ID = UUID 23, trv_Rate = Fin 0 0, trv_Version = 1\<rparr>,
     oi_ShoppingCartItem = \<lparr>ref_ID = UUID 30\<rparr>, oi_Count = 2, oi_CompensatableAmount = a,
     oi_ShipmentMethod = \<lparr>ref_ID = UUID 4\<rparr>, oi_InternalDiscounts = []\<rparr>"

definition comp_order :: "uuid \<Rightarrow> OrderItem list \<Rightarrow> Order" where
  "comp_order i items = \<lparr>o_ID = i, o_User = \<lparr>ouser_ID = UUID 1, ouser_UserAddressIDs = []\<rparr>, o_CreatedAt = 0,
     o_OrderStatus = ''PLACED'', o_PlacedAt = Some 0, o_RejectionReason = None, o_InternalOrderItems = items,
     o_ShipmentAddress = \<lparr>ref_ID = UUID 2\<rparr>, o_InvoiceAddress = \<lparr>ref_ID = UUID 2\<rparr>,
     o_CompensatableOrderAmount = 0, o_PaymentInformationID = UUID 3, o_VatNumber = None\<rparr>"

definition comp_db :: order_db where
  "comp_db = \<lparr>faults = [], outbox = [], fresh = (\<lambda>n. if n = 0 then UUID 100 else UUID 101), minted = 0,
     clock = (\<lambda>n. 0), reads = 0,
     orders = [comp_order (UUID 7) [comp_item (UUID 8) 30, comp_item (UUID 9) 12], comp_order (UUID 10) [comp_item (UUID 11) 5]],
     orderItems = [], users = [], productVariants = [], taxRates = [], coupons = [], shipmentMethods = [],
     orderCompensations = []\<rparr>"

definition comp_failure :: ShipmentFailedEventData where
  "comp_failure = \<lparr>sfe_OrderID = UUID 7, sfe_OrderItemIDs = Some [UUID 8]\<rparr>"

definition comp_other :: ShipmentFailedEventData where
  "comp_other = \<lparr>sfe_OrderID = UUID 10, sfe_OrderItemIDs = Some [UUID 11]\<rparr>"

lemma comp_find:
  "find (\<lambda>x. o_ID x = UUID 7) (orders comp_db) = Some (comp_order (UUID 7) [comp_item (UUID 8) 30, comp_item (UUID 9) 12])"
  "find (\<lambda>x. o_ID x = UUID 10) (orders comp_db) = Some (comp_order (UUID 10) [comp_item (UUID 11) 5])"
  by (simp_all add: comp_db_def comp_order_def)

lemma compensateOrder_outcomes_witness:
  "\<exists>s'. compensateOrder comp_failure comp_db = (Inr (), s') \<and> map oc_AmountToCompensate (orderCompensations s') = [30] \<and>
    outbox s' = [OrderCompensationCreated \<lparr>ocd_ID = UUID 100, ocd_AmountToCompensate = 30\<rparr>]"
  using compensateOrder_outcomes [of comp_db comp_failure] comp_find
  by (auto simp: comp_db_def comp_failure_def comp_order_def comp_item_def)

lemma compensation_probe_inverted_witness:
  "\<exists>s1 s2. compensateOrder comp_failure comp_db = (Inr (), s1) \<and> compensateOrder comp_failure s1 = (Inr (), s2) \<and>
    length (outbox s2) = 2 \<and> fst (compensateOrder comp_other s1) = Inl (NotVerified (Some [UUID 11]))"
proof -
  obtain r s1 r2 s2 where run: "compensateOrder comp_failure comp_db = (r, s1)" "compensateOrder comp_failure s1 = (r2, s2)"
    by (meson surj_pair)
  show ?thesis
    using compensation_probe_inverted [OF _ _ _ _ _ _ run, of "comp_order (UUID 7) [comp_item (UUID 8) 30, comp_item (UUID 9) 12]"
        comp_other "comp_order (UUID 10) [comp_item (UUID 11) 5]"] comp_find run
    by (simp add: comp_failure_def comp_other_def comp_db_def)
qed

subsection \<open>The visibility flag\<close>

text \<open>
  Once an update event of a product variant is processed, whatever visibility it states, no
  order can contain the variant any more: the flag is stored as a string, and the saga's lookup of
  visible variants reads only a boolean, so the variant is missing from it.
\<close>

theorem variant_update_hides:
  assumes "keys_unique productVariants pv_ID s" "decodeEnvelope dl = Inr env"
    and "handle TopicProductVariantUpdated onProductVariantUpdated dl s = (200, s')"
    and "queryProductVariantsByProductVariantIDs ids s' = (Inr pvs, s'')"
  shows "map_of pvs (upe_ID (env_Data env)) = None"
proof (rule ccontr)
  let ?i = "upe_ID (env_Data env)" and ?v = "BsonString (upe_IsPubliclyVisible (env_Data env))"
  assume "map_of pvs ?i \<noteq> None"
  then obtain pv where pv: "pv \<in> set (productVariants s')" "pv_ID pv = ?i" "IsVisible pv"
    using visible_variants_Inr [OF assms(4)] by auto
  have "SetProductVariantVisibility ?i ?v s = (Inr (), s')"
    using assms(2,3) by (auto simp: handle_def onProductVariantUpdated_def split: if_splits prod.splits sum.splits)
  then have "productVariants s' = map_first (\<lambda>p. pv_ID p = ?i) (\<lambda>p. p\<lparr>pv_IsPubliclyVisible := ?v\<rparr>) (productVariants s)"
    unfolding SetProductVariantVisibility_def by (cases rule: update_one_run) auto
  then have "productVariants s' = map_all (\<lambda>p. pv_ID p = ?i) (\<lambda>p. p\<lparr>pv_IsPubliclyVisible := ?v\<rparr>) (productVariants s)"
    using assms(1) by (simp add: keys_unique_def map_first_eq_map_all)
  then show False using pv by (auto simp: set_map_all IsVisible_def)
qed

definition hide_delivery :: "UpdateProductVariantEventData delivery" where
  "hide_delivery = \<lparr>dl_ContentType = ''application/json'', dl_Body = Decoded \<lparr>env_Topic = TopicProductVariantUpdated,
     env_Data = \<lparr>upe_ID = UUID 20, upe_IsPubliclyVisible = ''true''\<rparr>\<rparr>\<rparr>"

definition hide_db :: order_db where
  "hide_db = comp_db\<lparr>productVariants := [oi_ProductVariant (comp_item (UUID 8) 0)]\<rparr>"

lemma variant_update_hides_witness:
  "\<exists>s' pvs s''. handle TopicProductVariantUpdated onProductVariantUpdated hide_delivery hide_db = (200, s') \<and>
    queryProductVariantsByProductVariantIDs [UUID 20] s' = (Inr pvs, s'') \<and> map_of pvs (UUID 20) = None"
proof -
  have dec: "decodeEnvelope hide_delivery = Inr \<lparr>env_Topic = TopicProductVariantUpdated,
      env_Data = \<lparr>upe_ID = UUID 20, upe_IsPubliclyVisible = ''true''\<rparr>\<rparr>"
    by code_simp
  obtain s' where s': "handle TopicProductVariantUpdated onProductVariantUpdated hide_delivery hide_db = (200, s')" "faults s' = []"
    by (simp add: handle_def dec onProductVariantUpdated_def SetProductVariantVisibility_def update_one_def run_simps
        hide_db_def comp_db_def)
  obtain pvs s'' where "queryProductVariantsByProductVariantIDs [UUID 20] s' = (Inr pvs, s'')"
    using s'(2) by (simp add: queryProductVariantsByProductVariantIDs_def GetProductVariants_def find_all_def run_andThen
        run_attempt run_simps)
  moreover have "keys_unique productVariants pv_ID hide_db" by (simp add: hide_db_def keys_unique_def)
  ultimately show ?thesis using variant_update_hides [OF _ dec s'(1)] s'(1) by fastforce
qed

end
