(* ===== verification/Inventory_Store.thy ===== *)
theory Inventory_Store
  imports Collections Auth
begin

text \<open>
  \<open>inventory/store\<close>: one document per physical product item and the replica of known product
  variants. Ids are plain strings here; \<open>str\<close> is \<open>uuid.UUID.String\<close>.
\<close>

subsection \<open>Documents and state\<close>

definition StatusInStorage :: string where "StatusInStorage = ''IN_STORAGE''"
definition StatusReserved :: string where "StatusReserved = ''RESERVED''"
definition StatusInFulfillment :: string where "StatusInFulfillment = ''IN_FULFILLMENT''"
definition StatusShipped :: string where "StatusShipped = ''SHIPPED''"
definition StatusDelivered :: string where "StatusDelivered = ''DELIVERED''"
definition StatusReturned :: string where "StatusReturned = ''RETURNED''"
definition StatusLost :: string where "StatusLost = ''LOST''"

lemmas inventory_statuses = StatusInStorage_def StatusReserved_def StatusInFulfillment_def StatusShipped_def
  StatusDelivered_def StatusReturned_def StatusLost_def

record ProductItem =
  pi_ID :: string
  pi_ProductVariant :: string
  pi_InventoryStatus :: string
  pi_OrderID :: "string option"

record Filter =
  f_ProductVariant :: "string option"
  f_InventoryStatus :: "string option"

text \<open>The reservation events echo the order as received.\<close>

datatype inventory_event = ReservationSucceeded string | ReservationFailed string "string list"

record inventory_db = "inventory_event io" +
  productItems :: "ProductItem list"
  variantParts :: "string list"

datatype inventory_err =
    StoreError
  | NoSuchDocument
  | DuplicateItem
  | ErrNotEnoughItems
  | BeginFailed
  | CommitFailed
  | PublishError
  | BadPayload
  | Forbidden
  | VariantNotFound string
  | ItemNotFound string
  | NotEnoughItemsFor string
  | SkipNegative
  | FirstNotPositive

type_synonym 'a inventory_act = "(inventory_db, inventory_err, 'a) act"

subsection \<open>Queries\<close>

definition FindByID :: "string \<Rightarrow> ProductItem option inventory_act" where
  "FindByID i = or_none NoSuchDocument (find_one StoreError NoSuchDocument productItems (\<lambda>it. pi_ID it = i))"

text \<open>
  The node query asks for the keys \<open>status\<close> and \<open>createdAt\<close>, which no document has; the count
  query uses the fields' names.
\<close>

definition nodesFilter :: "Filter option \<Rightarrow> ProductItem \<Rightarrow> bool" where
  "nodesFilter f it =
     (case f of None \<Rightarrow> True | Some q \<Rightarrow> f_ProductVariant q = None \<and> f_InventoryStatus q = None)"

definition countFilter :: "Filter option \<Rightarrow> ProductItem \<Rightarrow> bool" where
  "countFilter f it =
     (case f of
        None \<Rightarrow> True
      | Some q \<Rightarrow>
          (case f_ProductVariant q of None \<Rightarrow> True | Some v \<Rightarrow> pi_ProductVariant it = v) \<and>
          (case f_InventoryStatus q of None \<Rightarrow> True | Some st \<Rightarrow> pi_InventoryStatus it = st))"

text \<open>Documents sorted by their string id; \<open>rank\<close> is the server's order of strings.\<close>

definition FindNodes ::
  "(string \<Rightarrow> nat) \<Rightarrow> Filter option \<Rightarrow> int \<Rightarrow> int \<Rightarrow> bool \<Rightarrow> ProductItem list inventory_act" where
  "FindNodes rank f skip first sortAsc = ext StoreError (gets (\<lambda>s.
     let found = filter (nodesFilter f) (productItems s);
         srt = sort_key (\<lambda>it. (if sortAsc then 1 else - 1) * int (rank (pi_ID it))) found
     in bson_limit first (drop (nat skip) srt)))"

definition Count :: "Filter option \<Rightarrow> int inventory_act" where
  "Count f = ext StoreError (gets (\<lambda>s. int (length (filter (countFilter f) (productItems s)))))"

definition VariantExists :: "string \<Rightarrow> bool inventory_act" where
  "VariantExists i = andThen (or_none NoSuchDocument (find_one StoreError NoSuchDocument variantParts (\<lambda>v. v = i)))
     (\<lambda>r. ret (r \<noteq> None))"

subsection \<open>Writes\<close>

definition CreateVariantPartial :: "string \<Rightarrow> unit inventory_act" where
  "CreateVariantPartial i =
     andThen (attempt (insert_one StoreError DuplicateItem variantParts variantParts_update id i)) (\<lambda>r.
       case r of Inl e \<Rightarrow> if e = DuplicateItem then ret () else fail e | Inr _ \<Rightarrow> ret ())"

fun new_items :: "(uuid \<Rightarrow> string) \<Rightarrow> string \<Rightarrow> nat \<Rightarrow> ProductItem list inventory_act" where
  "new_items str v 0 = ret []"
| "new_items str v (Suc n) =
     andThen new_uuid (\<lambda>i.
     andThen (new_items str v n) (\<lambda>items.
       ret (\<lparr>pi_ID = str i, pi_ProductVariant = v, pi_InventoryStatus = StatusInStorage, pi_OrderID = None\<rparr> # items)))"

definition CreateBatch :: "(uuid \<Rightarrow> string) \<Rightarrow> string \<Rightarrow> int \<Rightarrow> ProductItem list inventory_act" where
  "CreateBatch str productVariantID number =
     (if number \<le> 0 then ret []
      else andThen (new_items str productVariantID (nat number)) (\<lambda>items.
           andThen (transaction BeginFailed CommitFailed
               (insert_many StoreError DuplicateItem productItems productItems_update pi_ID items)) (\<lambda>_.
             ret items)))"

definition Update :: "string \<Rightarrow> string \<Rightarrow> string \<Rightarrow> ProductItem option inventory_act" where
  "Update i productVariantID inventoryStatus =
     or_none NoSuchDocument (find_one_and_update StoreError NoSuchDocument productItems productItems_update
       (\<lambda>it. pi_ID it = i)
       (\<lambda>it. it\<lparr>pi_ProductVariant := productVariantID, pi_InventoryStatus := inventoryStatus\<rparr>))"

definition Delete :: "string \<Rightarrow> ProductItem option inventory_act" where
  "Delete i = or_none NoSuchDocument
     (find_one_and_delete StoreError NoSuchDocument productItems productItems_update (\<lambda>it. pi_ID it = i))"

definition ReserveBatch :: "string \<Rightarrow> int \<Rightarrow> string \<Rightarrow> ProductItem list inventory_act" where
  "ReserveBatch productVariantID number orderID =
     andThen (transaction BeginFailed CommitFailed
       (andThen (ext StoreError (gets (\<lambda>s. bson_limit number
            (filter (\<lambda>it. pi_ProductVariant it = productVariantID \<and> pi_InventoryStatus it = StatusInStorage)
              (productItems s))))) (\<lambda>toReserve.
          if int (length toReserve) < number then fail ErrNotEnoughItems
          else update_many StoreError productItems_update (\<lambda>it. pi_ID it \<in> set (map pi_ID toReserve))
            (\<lambda>it. it\<lparr>pi_InventoryStatus := StatusReserved, pi_OrderID := Some orderID\<rparr>))))
       (\<lambda>_. ret [])"

definition UpdateOrderStatus :: "string \<Rightarrow> string \<Rightarrow> unit inventory_act" where
  "UpdateOrderStatus orderID st =
     update_many StoreError productItems_update (\<lambda>it. pi_OrderID it = Some orderID)
       (\<lambda>it. it\<lparr>pi_InventoryStatus := st\<rparr>)"

definition ReleaseBatch :: "string \<Rightarrow> ProductItem list inventory_act" where
  "ReleaseBatch orderID =
     andThen (find_all StoreError productItems (\<lambda>it. pi_OrderID it = Some orderID)) (\<lambda>items.
       if items = [] then ret []
       else
         andThen (update_many StoreError productItems_update (\<lambda>it. pi_ID it \<in> set (map pi_ID items))
             (\<lambda>it. it\<lparr>pi_InventoryStatus := StatusInStorage, pi_OrderID := None\<rparr>)) (\<lambda>_.
           find_all StoreError productItems (\<lambda>it. pi_ID it \<in> set (map pi_ID items))))"

lemma inventory_tables:
  fixes s t :: inventory_db
  assumes "io.more s = io.more t"
  shows "productItems s = productItems t" "variantParts s = variantParts t"
  using assms by (cases s; cases t; simp)+

interpretation items_coll: collection "productItems :: inventory_db \<Rightarrow> _" productItems_update pi_ID
  by (unfold_locales, simp, erule inventory_tables)

interpretation variants_coll: collection "variantParts :: inventory_db \<Rightarrow> _" variantParts_update id
  by (unfold_locales, simp, erule inventory_tables)

end
