(* ===== verification/Inventory.thy ===== *)
theory Inventory
  imports Inventory_Store
begin

text \<open>
  \<open>inventory/events\<close> and \<open>inventory/graph\<close>: the reservation saga and the other event handlers, and
  the GraphQL resolvers. The handlers reach the store through the Go interface \<open>Inventory\<close>; the
  locale \<open>reservation_store\<close> states what they may rely on, and its interpretation shows that the
  store keeps it.
\<close>

subsection \<open>Event handlers\<close>

record orderItem =
  ei_ProductVariantID :: string
  ei_Count :: int

record orderCreated =
  oc_Order :: string
  oc_OrderItems :: "orderItem list"

definition TopicReservationSucceeded :: string where
  "TopicReservationSucceeded = ''inventory/product-item/reservation-succeeded''"
definition TopicReservationFailed :: string where
  "TopicReservationFailed = ''inventory/product-item/reservation-failed''"
definition shipmentDelivered :: string where "shipmentDelivered = ''DELIVERED''"
definition shipmentFailed :: string where "shipmentFailed = ''FAILED''"

definition PublishReservationSucceeded ::
  "'e \<Rightarrow> string \<Rightarrow> ((inventory_event, 'x) io_scheme, 'e, unit) act" where
  "PublishReservationSucceeded e order = andThen (attempt (emit e (ReservationSucceeded order)) ) (\<lambda>_. ret ())"

definition PublishReservationFailed ::
  "'e \<Rightarrow> string \<Rightarrow> string list \<Rightarrow> ((inventory_event, 'x) io_scheme, 'e, unit) act" where
  "PublishReservationFailed e order failedIDs =
     andThen (attempt (emit e (ReservationFailed order failedIDs))) (\<lambda>_. ret ())"

fun reserve_items ::
  "(string \<Rightarrow> int \<Rightarrow> string \<Rightarrow> ('s, 'e, 'r) act) \<Rightarrow> string \<Rightarrow> orderItem list \<Rightarrow> ('s, 'e, string list) act" where
  "reserve_items reserve ordID [] = ret []"
| "reserve_items reserve ordID (it # its) =
     andThen (attempt (reserve (ei_ProductVariantID it) (ei_Count it) ordID)) (\<lambda>r.
     andThen (reserve_items reserve ordID its) (\<lambda>failed.
       ret (case r of Inl _ \<Rightarrow> ei_ProductVariantID it # failed | Inr _ \<Rightarrow> failed)))"

definition OrderCreatedHandler ::
  "'e \<Rightarrow> (string \<Rightarrow> int \<Rightarrow> string \<Rightarrow> ((inventory_event, 'x) io_scheme, 'e, 'r) act) \<Rightarrow>
     (string \<Rightarrow> ((inventory_event, 'x) io_scheme, 'e, 'r) act) \<Rightarrow> orderCreated payload \<Rightarrow>
     ((inventory_event, 'x) io_scheme, 'e, unit) act" where
  "OrderCreatedHandler e reserve release data =
     (case payload_parsed data of
        None \<Rightarrow> ret ()
      | Some order \<Rightarrow>
          andThen (reserve_items reserve (oc_Order order) (oc_OrderItems order)) (\<lambda>failed.
            if failed \<noteq> [] then
              andThen (PublishReservationFailed e (payload_raw data) failed) (\<lambda>_.
              andThen (attempt (release (oc_Order order))) (\<lambda>_. ret ()))
            else PublishReservationSucceeded e (payload_raw data)))"

text \<open>The other handlers, on the store itself.\<close>

definition ProductVariantCreated :: "string payload \<Rightarrow> unit inventory_act" where
  "ProductVariantCreated data =
     (case payload_parsed data of None \<Rightarrow> fail BadPayload | Some i \<Rightarrow> CreateVariantPartial i)"

definition PaymentEnabled :: "string payload \<Rightarrow> unit inventory_act" where
  "PaymentEnabled data =
     (case payload_parsed data of None \<Rightarrow> fail BadPayload | Some i \<Rightarrow> UpdateOrderStatus i StatusInFulfillment)"

definition PaymentFailed :: "string payload \<Rightarrow> unit inventory_act" where
  "PaymentFailed data =
     (case payload_parsed data of None \<Rightarrow> fail BadPayload | Some i \<Rightarrow> andThen (ReleaseBatch i) (\<lambda>_. ret ()))"

definition DiscountValidationFailed :: "string payload \<Rightarrow> unit inventory_act" where
  "DiscountValidationFailed data =
     (case payload_parsed data of None \<Rightarrow> fail BadPayload | Some i \<Rightarrow> andThen (ReleaseBatch i) (\<lambda>_. ret ()))"

record shipmentEvent =
  sev_OrderID :: string
  sev_Status :: string

definition ShipmentCreated :: "shipmentEvent payload \<Rightarrow> unit inventory_act" where
  "ShipmentCreated data =
     (case payload_parsed data of
        None \<Rightarrow> fail BadPayload
      | Some ev \<Rightarrow>
          if sev_OrderID ev = [] then ret () else UpdateOrderStatus (sev_OrderID ev) StatusShipped)"

definition ShipmentStatusUpdated :: "shipmentEvent payload \<Rightarrow> unit inventory_act" where
  "ShipmentStatusUpdated data =
     (case payload_parsed data of
        None \<Rightarrow> fail BadPayload
      | Some ev \<Rightarrow>
          if sev_OrderID ev = [] then ret ()
          else if sev_Status ev = shipmentDelivered then UpdateOrderStatus (sev_OrderID ev) StatusDelivered
          else if sev_Status ev = shipmentFailed then UpdateOrderStatus (sev_OrderID ev) StatusLost
          else ret ())"

definition OrderCreated :: "orderCreated payload \<Rightarrow> unit inventory_act" where
  "OrderCreated data = OrderCreatedHandler PublishError ReserveBatch ReleaseBatch data"

subsection \<open>What the saga relies on\<close>

text \<open>
  \<open>held s o v\<close>: the ids of the items of variant \<open>v\<close> that carry order \<open>o\<close>; \<open>settled\<close>: the store's
  invariant. Reserving and releasing send nothing, keep the invariant and leave other orders'
  items alone; a reservation of a positive number that succeeds adds that many items of the
  variant and touches no other variant; a release that succeeds leaves the order without items.
\<close>

locale reservation_store =
  fixes held :: "(inventory_event, 'x) io_scheme \<Rightarrow> string \<Rightarrow> string \<Rightarrow> string set"
    and settled :: "(inventory_event, 'x) io_scheme \<Rightarrow> bool"
    and reserve :: "string \<Rightarrow> int \<Rightarrow> string \<Rightarrow> ((inventory_event, 'x) io_scheme, 'e, 'r) act"
    and release :: "string \<Rightarrow> ((inventory_event, 'x) io_scheme, 'e, 'r) act"
  assumes tables: "io.more s = io.more t \<Longrightarrow> held s = held t \<and> settled s = settled t"
    and reserve_mute: "guar mute (reserve v n o')" and release_mute: "guar mute (release o')"
    and reserve_settled: "settled s \<Longrightarrow> settled (snd (reserve v n o' s))"
    and release_settled: "settled s \<Longrightarrow> settled (snd (release o' s))"
    and reserve_other: "settled s \<Longrightarrow> o2 \<noteq> o' \<Longrightarrow> held (snd (reserve v n o' s)) o2 = held s o2"
    and release_other: "settled s \<Longrightarrow> o2 \<noteq> o' \<Longrightarrow> held (snd (release o' s)) o2 = held s o2"
    and reserve_variant: "settled s \<Longrightarrow> v2 \<noteq> v \<Longrightarrow> held (snd (reserve v n o' s)) o' v2 = held s o' v2"
    and reserve_count: "settled s \<Longrightarrow> reserve v n o' s = (Inr r, s') \<Longrightarrow> 0 < n \<Longrightarrow>
      int (card (held s' o' v)) = int (card (held s o' v)) + n"
    and release_frees: "settled s \<Longrightarrow> release o' s = (Inr r, s') \<Longrightarrow> held s' o' v = {}"
begin

lemma held_io [simp]:
  "held (s\<lparr>faults := fs\<rparr>) = held s" "held (s\<lparr>outbox := evs\<rparr>) = held s"
  "settled (s\<lparr>faults := fs\<rparr>) = settled s" "settled (s\<lparr>outbox := evs\<rparr>) = settled s"
  using tables [of "s\<lparr>faults := fs\<rparr>" s] tables [of "s\<lparr>outbox := evs\<rparr>" s] by simp_all

lemma reserve_items_kept:
  assumes "reserve_items reserve o' its s = (r, s')" "settled s"
  shows "settled s' \<and> outbox s' = outbox s \<and> (\<forall>o2. o2 \<noteq> o' \<longrightarrow> held s' o2 = held s o2) \<and> (\<exists>failed. r = Inr failed)"
  using assms
proof (induction its arbitrary: s r s')
  case (Cons it its)
  obtain r1 s1 where one: "reserve (ei_ProductVariantID it) (ei_Count it) o' s = (r1, s1)" by fastforce
  obtain r2 where rest: "reserve_items reserve o' its s1 = (r2, s')" and r: "\<exists>f. r2 = Inr f \<longrightarrow> (\<exists>f. r = Inr f)"
    using Cons.prems(1) one by (auto simp: run_andThen run_attempt run_ret split: prod.splits sum.splits)
  have "settled s1" "outbox s1 = outbox s" "\<forall>o2. o2 \<noteq> o' \<longrightarrow> held s1 o2 = held s o2"
    using one Cons.prems(2) reserve_settled [of s] reserve_other [of s] guarD [OF reserve_mute one]
    by (auto simp: mute_def) (metis snd_conv)+
  moreover obtain f where "r2 = Inr f" using Cons.IH [OF rest \<open>settled s1\<close>] by blast
  moreover have "\<exists>f. r = Inr f"
    using Cons.prems(1) one rest \<open>r2 = Inr f\<close> by (auto simp: run_andThen run_attempt run_ret)
  ultimately show ?case using Cons.IH [OF rest \<open>settled s1\<close>] by auto
qed (auto simp: run_ret)

lemma reserve_items_all:
  assumes "reserve_items reserve o' its s = (Inr [], s')" "settled s" "\<forall>it \<in> set its. 0 < ei_Count it"
  shows "int (card (held s' o' v)) = int (card (held s o' v)) +
    sum_list (map ei_Count (filter (\<lambda>it. ei_ProductVariantID it = v) its))"
  using assms
proof (induction its arbitrary: s)
  case (Cons it its)
  obtain x s1 where one: "reserve (ei_ProductVariantID it) (ei_Count it) o' s = (Inr x, s1)"
      and rest: "reserve_items reserve o' its s1 = (Inr [], s')"
    using Cons.prems(1) by (auto simp: run_ret run_attempt elim!: andThen_InrE split: sum.splits) (metis prod.collapse)
  have "settled s1" using reserve_settled [OF Cons.prems(2)] one by (metis snd_conv)
  moreover have "held s1 o' v = held s o' v" if "v \<noteq> ei_ProductVariantID it"
    using reserve_variant [OF Cons.prems(2) that] one by (metis snd_conv)
  ultimately show ?case
    using Cons.IH [OF rest] Cons.prems reserve_count [OF Cons.prems(2) one] by auto
qed (simp add: run_ret)

end

context reservation_store
begin

lemma publish_run:
  assumes "andThen (attempt (emit e ev)) (\<lambda>_. ret ()) s = (r, s')"
  shows "r = Inr () \<and> held s' = held s \<and> settled s' = settled s \<and>
    outbox s' \<in> {outbox s, outbox s @ [ev]}"
proof -
  obtain re s1 where e: "emit e ev s = (re, s1)" by fastforce
  then have s': "s' = s1" "r = Inr ()" using assms by (auto simp: run_andThen run_attempt run_ret)
  from e show ?thesis
    by (cases rule: emit_run) (auto simp: s')
qed

text \<open>The saga, whatever fails: it is acknowledged, and it announces what it did.\<close>

lemma saga_outcome:
  assumes run: "OrderCreatedHandler e reserve release data s = (r, s')"
    and order: "payload_parsed data = Some order" and ok: "settled s" and pos: "\<forall>it \<in> set (oc_OrderItems order). 0 < ei_Count it"
  shows "r = Inr () \<and> settled s' \<and> (\<forall>o2. o2 \<noteq> oc_Order order \<longrightarrow> held s' o2 = held s o2) \<and>
    ((outbox s' \<in> {outbox s, outbox s @ [ReservationSucceeded (payload_raw data)]} \<and>
        (\<forall>v. int (card (held s' (oc_Order order) v)) = int (card (held s (oc_Order order) v)) +
           sum_list (map ei_Count (filter (\<lambda>it. ei_ProductVariantID it = v) (oc_OrderItems order))))) \<or>
     (\<exists>failed s1 rp s2 rr. failed \<noteq> [] \<and> reserve_items reserve (oc_Order order) (oc_OrderItems order) s = (Inr failed, s1) \<and>
        PublishReservationFailed e (payload_raw data) failed s1 = (rp, s2) \<and> release (oc_Order order) s2 = (rr, s') \<and>
        outbox s' \<in> {outbox s, outbox s @ [ReservationFailed (payload_raw data) failed]} \<and>
        ((\<exists>e2. rr = Inl e2) \<or> (\<forall>v. held s' (oc_Order order) v = {}))))"
proof -
  let ?o = "oc_Order order"
  obtain rf s1 where items: "reserve_items reserve ?o (oc_OrderItems order) s = (rf, s1)" by fastforce
  note kept = reserve_items_kept [OF items ok]
  then obtain failed where rf: "rf = Inr failed" by blast
  show ?thesis
  proof (cases "failed = []")
    case True
    then have "PublishReservationSucceeded e (payload_raw data) s1 = (r, s')"
      using run order items rf by (simp add: OrderCreatedHandler_def run_andThen)
    from publish_run [OF this [unfolded PublishReservationSucceeded_def]] show ?thesis
      using kept reserve_items_all [OF _ ok pos] items rf True by auto
  next
    case False
    obtain r2 s2 where pub: "PublishReservationFailed e (payload_raw data) failed s1 = (r2, s2)" by fastforce
    note p = publish_run [OF pub [unfolded PublishReservationFailed_def]]
    obtain r3 s3 where rel: "release ?o s2 = (r3, s3)" by fastforce
    have s': "s' = s3" "r = Inr ()"
      using run order items rf False pub p rel
      by (auto simp: OrderCreatedHandler_def run_andThen run_attempt run_ret)
    have ok2: "settled s2" using kept p by simp
    have "settled s3" "outbox s3 = outbox s2" "\<forall>o2. o2 \<noteq> ?o \<longrightarrow> held s3 o2 = held s2 o2"
      using release_settled [OF ok2] release_other [OF ok2] guarD [OF release_mute rel] rel
      by (auto simp: mute_def) (metis snd_conv)+
    moreover have "(\<exists>e2. r3 = Inl e2) \<or> (\<forall>v. held s3 ?o v = {})"
      using release_frees [OF ok2] rel by (cases r3) auto
    ultimately have "outbox s' \<in> {outbox s, outbox s @ [ReservationFailed (payload_raw data) failed]} \<and>
        ((\<exists>e2. r3 = Inl e2) \<or> (\<forall>v. held s' ?o v = {}))" "r = Inr ()" "settled s'"
        "\<forall>o2. o2 \<noteq> ?o \<longrightarrow> held s' o2 = held s o2"
      using kept p s' by auto
    then show ?thesis using False items rf pub rel s'(1) by blast
  qed
qed

end

subsection \<open>The store keeps the contract\<close>

definition held_items :: "inventory_db \<Rightarrow> string \<Rightarrow> string \<Rightarrow> string set" where
  "held_items s o' v = pi_ID ` {it \<in> set (productItems s). pi_OrderID it = Some o' \<and> pi_ProductVariant it = v}"

text \<open>Ids are unique and nothing in storage carries an order.\<close>

definition stock_ok :: "inventory_db \<Rightarrow> bool" where
  "stock_ok s \<longleftrightarrow> distinct (map pi_ID (productItems s)) \<and>
     (\<forall>it \<in> set (productItems s). pi_InventoryStatus it = StatusInStorage \<longrightarrow> pi_OrderID it = None)"

definition in_stock :: "string \<Rightarrow> ProductItem list \<Rightarrow> ProductItem list" where
  "in_stock v = filter (\<lambda>it. pi_ProductVariant it = v \<and> pi_InventoryStatus it = StatusInStorage)"

definition mark_reserved :: "string \<Rightarrow> ProductItem \<Rightarrow> ProductItem" where
  "mark_reserved o' it = it\<lparr>pi_InventoryStatus := StatusReserved, pi_OrderID := Some o'\<rparr>"

definition mark_released :: "ProductItem \<Rightarrow> ProductItem" where
  "mark_released it = it\<lparr>pi_InventoryStatus := StatusInStorage, pi_OrderID := None\<rparr>"

lemma ReserveBatch_run:
  assumes "ReserveBatch v n o' s = (r, s')"
  obtains (kept) e where "r = Inl e" "productItems s' = productItems s"
  | (reserved) ids where "r = Inr [] \<or> r = Inl CommitFailed"
      "ids = map pi_ID (bson_limit n (in_stock v (productItems s)))" "n \<le> int (length ids)"
      "productItems s' = map_all (\<lambda>it. pi_ID it \<in> set ids) (mark_reserved o') (productItems s)"
proof -
  define body where "body = andThen (ext StoreError (gets (\<lambda>s :: inventory_db. bson_limit n (in_stock v (productItems s)))))
    (\<lambda>found. if int (length found) < n then fail ErrNotEnoughItems
       else update_many StoreError productItems_update (\<lambda>it. pi_ID it \<in> set (map pi_ID found)) (mark_reserved o'))"
  have eq: "ReserveBatch v n o' = andThen (transaction BeginFailed CommitFailed body) (\<lambda>_. ret [])"
    unfolding ReserveBatch_def body_def in_stock_def mark_reserved_def [abs_def] ..
  obtain rt st where t: "transaction BeginFailed CommitFailed body s = (rt, st)" by fastforce
  have r: "r = (case rt of Inl e \<Rightarrow> Inl e | Inr _ \<Rightarrow> Inr [])" "s' = st"
    using assms t by (auto simp: eq run_andThen run_ret split: sum.splits)
  from t show thesis
  proof (cases rule: transaction_run)
    case (kept e)
    then show ?thesis using r that(1) inventory_tables(1) [OF kept(2)] by auto
  next
    case (ran x fs s2)
    obtain found s3 where f: "ext StoreError (gets (\<lambda>s. bson_limit n (in_stock v (productItems s)))) (s\<lparr>faults := fs\<rparr>) = (Inr found, s3)"
        and u: "\<not> int (length found) < n" "update_many StoreError productItems_update
          (\<lambda>it. pi_ID it \<in> set (map pi_ID found)) (mark_reserved o') s3 = (Inr x, s2)"
      using ran(1) unfolding body_def by (elim andThen_InrE) (simp add: run_fail split: if_splits)
    have "found = bson_limit n (in_stock v (productItems s))" "productItems s3 = productItems s"
      using ext_gets_run [OF f] by auto
    moreover from u(2) have "productItems s2 = map_all (\<lambda>it. pi_ID it \<in> set (map pi_ID found)) (mark_reserved o') (productItems s3)"
      by (cases rule: update_many_run) auto
    ultimately show ?thesis
      using r ran(2,3) u(1) inventory_tables(1) [OF ran(2)] that(2) by auto
  qed
qed

lemma ReleaseBatch_run:
  assumes "ReleaseBatch o' s = (r, s')"
  obtains (kept) e where "r = Inl e" "productItems s' = productItems s"
  | (released) "productItems s' = map_all (\<lambda>it. pi_ID it \<in> pi_ID ` {x \<in> set (productItems s). pi_OrderID x = Some o'})
      mark_released (productItems s)"
proof -
  let ?P = "\<lambda>it. pi_OrderID it = Some o'"
  obtain rf s1 where f: "find_all StoreError productItems ?P s = (rf, s1)" by fastforce
  have reads: "io.more s2 = io.more s1" if "find_all StoreError productItems Q s1 = (x, s2)" for Q x s1 s2
    using guarD [OF reading.guar_find_all that] by (simp add: reading_def)
  have s1: "productItems s1 = productItems s" using inventory_tables(1) [OF reads [OF f]] .
  show thesis
  proof (cases rf)
    case (Inl e)
    then show ?thesis using assms f s1 kept by (auto simp: ReleaseBatch_def run_andThen)
  next
    case (Inr found)
    then have fd: "found = filter ?P (productItems s)" using find_all_run [of StoreError productItems ?P s found s1] f by simp
    let ?ids = "\<lambda>it. pi_ID it \<in> set (map pi_ID found)"
    show ?thesis
    proof (cases "found = []")
      case True
      then have "map_all (\<lambda>it. pi_ID it \<in> pi_ID ` {x \<in> set (productItems s). ?P x}) mark_released (productItems s) = productItems s"
        using fd by (intro map_all_none) (auto simp: filter_empty_conv eq_commute [of "[]"])
      then show ?thesis using assms f Inr True s1 released by (simp add: ReleaseBatch_def run_andThen run_ret)
    next
      case False
      have ids: "set (map pi_ID found) = pi_ID ` {x \<in> set (productItems s). ?P x}" using fd by auto
      obtain ru s2 where u: "update_many StoreError productItems_update ?ids mark_released s1 = (ru, s2)" by fastforce
      have s': "productItems s' = productItems s2 \<and> (\<exists>e. ru = Inl e \<longrightarrow> r = Inl e)"
        using assms f Inr False u inventory_tables(1) [OF reads]
        by (cases ru) (auto simp: ReleaseBatch_def run_andThen mark_released_def [abs_def])
      have rl: "r = Inl e" if "ru = Inl e" for e
        using assms f Inr False u that by (auto simp: ReleaseBatch_def run_andThen mark_released_def [abs_def])
      from u show ?thesis
        by (cases rule: update_many_run) (use s' rl s1 ids kept released in auto)
    qed
  qed
qed

lemma length_bson_limit: "0 < n \<Longrightarrow> n \<le> int (length (bson_limit n xs)) \<Longrightarrow> int (length (bson_limit n xs)) = n"
  by (simp add: bson_limit_def)

lemma set_bson_limit: "set (bson_limit n xs) \<subseteq> set xs"
  by (auto simp: bson_limit_def dest: in_set_takeD)

lemma distinct_bson_limit: "distinct (map key xs) \<Longrightarrow> distinct (map key (bson_limit n xs))"
  by (simp add: bson_limit_def take_map [symmetric])

lemma marked_IDs [simp]: "pi_ID (mark_reserved o' it) = pi_ID it" "pi_ID (mark_released it) = pi_ID it"
  by (simp_all add: mark_reserved_def mark_released_def)

text \<open>The ids reserved are those of distinct items of the variant that were in storage.\<close>

lemma reserved_items:
  assumes ok: "stock_ok s" and ids: "ids = map pi_ID (bson_limit n (in_stock v (productItems s)))"
  shows "distinct ids" and "it \<in> set (productItems s) \<Longrightarrow> pi_ID it \<in> set ids \<Longrightarrow>
    pi_ProductVariant it = v \<and> pi_InventoryStatus it = StatusInStorage \<and> pi_OrderID it = None"
proof -
  have d: "distinct (map pi_ID (productItems s))" using ok by (simp add: stock_ok_def)
  show "distinct ids"
    unfolding ids in_stock_def by (intro distinct_bson_limit distinct_map_filter d)
  assume it: "it \<in> set (productItems s)" "pi_ID it \<in> set ids"
  then obtain it2 where "it2 \<in> set (in_stock v (productItems s))" "pi_ID it2 = pi_ID it"
    using set_bson_limit [THEN subsetD] by (fastforce simp: ids)
  moreover from this have "it2 = it" using d it(1) by (auto simp: in_stock_def distinct_map inj_on_def)
  ultimately show "pi_ProductVariant it = v \<and> pi_InventoryStatus it = StatusInStorage \<and> pi_OrderID it = None"
    using ok it(1) by (auto simp: in_stock_def stock_ok_def)
qed

lemma held_map_all:
  assumes "\<And>d. pi_ID (f d) = pi_ID d \<and> pi_ProductVariant (f d) = pi_ProductVariant d"
    and "productItems s' = map_all P f (productItems s)"
  shows "held_items s' o2 v = pi_ID ` {it \<in> set (productItems s). pi_ProductVariant it = v \<and>
    pi_OrderID (if P it then f it else it) = Some o2}"
  unfolding held_items_def assms(2) set_map_all using assms(1)
  by (auto simp: image_iff split: if_splits) (metis+)?

text \<open>What a written reservation changes of who holds what.\<close>

lemma held_after_reserve:
  assumes ok: "stock_ok s" and ids: "ids = map pi_ID (bson_limit n (in_stock v (productItems s)))"
    and wrote: "productItems s' = map_all (\<lambda>it. pi_ID it \<in> set ids) (mark_reserved o') (productItems s)"
  shows "o2 \<noteq> o' \<or> v2 \<noteq> v \<Longrightarrow> held_items s' o2 v2 = held_items s o2 v2"
    and "held_items s' o' v = held_items s o' v \<union> set ids" and "held_items s o' v \<inter> set ids = {}"
proof -
  note it = reserved_items(2) [OF ok ids]
  have h: "held_items s' o2 v2 = pi_ID ` {it \<in> set (productItems s). pi_ProductVariant it = v2 \<and>
      pi_OrderID (if pi_ID it \<in> set ids then mark_reserved o' it else it) = Some o2}" for o2 v2
    by (rule held_map_all [OF _ wrote]) (simp add: mark_reserved_def)
  show "held_items s' o2 v2 = held_items s o2 v2" if "o2 \<noteq> o' \<or> v2 \<noteq> v"
    unfolding h unfolding held_items_def using it that by (intro image_cong Collect_cong refl) (auto simp: mark_reserved_def)
  have free: "pi_ID x \<notin> set ids" if "x \<in> set (productItems s)" "pi_OrderID x = Some o'" for x
    using it [OF that(1)] that(2) by auto
  then show "held_items s o' v \<inter> set ids = {}" by (auto simp: held_items_def)
  have sub: "set ids \<subseteq> pi_ID ` set (productItems s)"
    using set_bson_limit [of n "in_stock v (productItems s)"] by (auto simp: ids in_stock_def)
  show "held_items s' o' v = held_items s o' v \<union> set ids"
  proof (intro set_eqI iffI)
    fix i assume "i \<in> held_items s' o' v"
    then show "i \<in> held_items s o' v \<union> set ids" by (auto simp: h held_items_def [of s] split: if_splits)
  next
    fix i assume "i \<in> held_items s o' v \<union> set ids"
    then obtain x where x: "x \<in> set (productItems s)" "pi_ID x = i"
        and "i \<in> set ids \<or> pi_ProductVariant x = v \<and> pi_OrderID x = Some o'"
      using sub by (auto simp: held_items_def)
    then show "i \<in> held_items s' o' v"
      using it [OF x(1)] by (cases "i \<in> set ids") (auto simp: h mark_reserved_def intro!: image_eqI [of _ _ x])
  qed
qed

lemma stock_ok_reserve:
  assumes "stock_ok s" "productItems s' = map_all P (mark_reserved o') (productItems s)"
  shows "stock_ok s'"
proof -
  have "map pi_ID (productItems s') = map pi_ID (productItems s)"
    by (simp add: assms(2) map_map_all)
  moreover have "StatusReserved \<noteq> StatusInStorage" by (simp add: inventory_statuses)
  ultimately show ?thesis using assms by (auto simp: stock_ok_def set_map_all mark_reserved_def)
qed

lemma reserve_held:
  assumes ok: "stock_ok s" and run: "ReserveBatch v n o' s = (r, s')"
  shows "stock_ok s' \<and> (o2 \<noteq> o' \<longrightarrow> held_items s' o2 = held_items s o2) \<and>
    (v2 \<noteq> v \<longrightarrow> held_items s' o' v2 = held_items s o' v2) \<and>
    (r = Inr x \<longrightarrow> 0 < n \<longrightarrow> int (card (held_items s' o' v)) = int (card (held_items s o' v)) + n)"
  using run
proof (cases rule: ReserveBatch_run)
  case kept
  then show ?thesis using ok by (auto simp: held_items_def [abs_def] stock_ok_def)
next
  case (reserved ids)
  note h = held_after_reserve [OF ok reserved(2,4)]
  have "finite (held_items s o' v)" by (simp add: held_items_def)
  then have "card (held_items s' o' v) = card (held_items s o' v) + length ids"
    using reserved_items(1) [OF ok reserved(2)] by (simp add: h(2) card_Un_disjoint [OF _ _ h(3)] distinct_card)
  moreover have "0 < n \<Longrightarrow> int (length ids) = n"
    using reserved(2,3) length_bson_limit [of n] by simp
  moreover have "held_items s' o2 = held_items s o2" if "o2 \<noteq> o'"
    using h(1) that by (simp add: fun_eq_iff)
  ultimately show ?thesis using h(1) stock_ok_reserve [OF ok reserved(4)] by simp
qed

lemma release_held:
  assumes ok: "stock_ok s" and run: "ReleaseBatch o' s = (r, s')"
  shows "stock_ok s' \<and> (o2 \<noteq> o' \<longrightarrow> held_items s' o2 = held_items s o2)"
  using run
proof (cases rule: ReleaseBatch_run)
  case kept
  then show ?thesis using ok by (auto simp: held_items_def [abs_def] stock_ok_def)
next
  case released
  define Ids where "Ids = pi_ID ` {x \<in> set (productItems s). pi_OrderID x = Some o'}"
  let ?P = "\<lambda>it. pi_ID it \<in> Ids"
  have d: "distinct (map pi_ID (productItems s))" using ok by (simp add: stock_ok_def)
  note released = released [folded Ids_def]
  have P: "?P it \<longleftrightarrow> pi_OrderID it = Some o'" if "it \<in> set (productItems s)" for it
    using d that by (auto simp: Ids_def distinct_map inj_on_def)
  have h: "held_items s' o2 v = pi_ID ` {it \<in> set (productItems s). pi_ProductVariant it = v \<and>
      pi_OrderID (if ?P it then mark_released it else it) = Some o2}" for o2 v
    by (rule held_map_all [OF _ released]) (simp add: mark_released_def)
  have "held_items s' o2 v = held_items s o2 v" if "o2 \<noteq> o'" for v
    unfolding h unfolding held_items_def using P that
    by (intro image_cong Collect_cong refl) (auto simp: mark_released_def split: if_splits)
  moreover have "map pi_ID (productItems s') = map pi_ID (productItems s)"
    by (simp add: released map_map_all)
  ultimately show ?thesis
    using ok by (auto simp: fun_eq_iff stock_ok_def released set_map_all mark_released_def)
qed

lemma release_frees_items:
  assumes ok: "stock_ok s" and run: "ReleaseBatch o' s = (Inr xs, s')"
  shows "held_items s' o' v = {}"
  using run
proof (cases rule: ReleaseBatch_run)
  case released
  show ?thesis
    unfolding held_map_all [OF _ released, of _ v, simplified mark_released_def, simplified]
    by (auto simp: held_items_def released set_map_all mark_released_def)
qed simp

lemma mute_store:
  "guar mute (ReserveBatch v n o')" "guar mute (ReleaseBatch o')"
  unfolding ReserveBatch_def ReleaseBatch_def
  by (intro guar_intros mute.guar_update_many; simp add: mute_def)+

interpretation saga: reservation_store held_items stock_ok ReserveBatch ReleaseBatch
proof
  fix s t :: inventory_db
  assume same: "io.more s = io.more t"
  show "held_items s = held_items t \<and> stock_ok s = stock_ok t"
    by (simp add: held_items_def [abs_def] stock_ok_def inventory_tables(1) [OF same])
next
  fix s :: inventory_db and v v2 o' o2 :: string and n :: int and r s'
  show "guar mute (ReserveBatch v n o')" and "guar mute (ReleaseBatch o')"
    by (rule mute_store)+
  assume ok: "stock_ok s"
  note reserve = reserve_held [OF ok surjective_pairing] and release = release_held [OF ok surjective_pairing]
  show "stock_ok (snd (ReserveBatch v n o' s))" using reserve by blast
  show "stock_ok (snd (ReleaseBatch o' s))" using release by blast
  show "held_items (snd (ReserveBatch v n o' s)) o2 = held_items s o2" if "o2 \<noteq> o'" using reserve that by blast
  show "held_items (snd (ReleaseBatch o' s)) o2 = held_items s o2" if "o2 \<noteq> o'" using release that by blast
  show "held_items (snd (ReserveBatch v n o' s)) o' v2 = held_items s o' v2" if "v2 \<noteq> v"
    using reserve that by blast
  show "int (card (held_items s' o' v)) = int (card (held_items s o' v)) + n"
    if "ReserveBatch v n o' s = (Inr r, s')" "0 < n"
    using reserve_held [OF ok that(1)] that(2) by blast
  show "held_items s' o' v = {}" if "ReleaseBatch o' s = (Inr r, s')"
    using release_frees_items [OF ok that] .
qed

end
