(* ===== verification/Inventory_Graph.thy ===== *)
theory Inventory_Graph
  imports Inventory Go_Text
begin

text \<open>
  \<open>inventory/graph\<close>: the scalar, the resolvers with their checks, and the properties of the
  inventory service.
\<close>

subsection \<open>Models and checks\<close>

record GProductItem =
  gpi_ID :: string
  gpi_InventoryStatus :: string
  gpi_ProductVariantID :: string
  gpi_OrderID :: "string option"

definition toProductItem :: "ProductItem \<Rightarrow> GProductItem" where
  "toProductItem it = \<lparr>gpi_ID = pi_ID it, gpi_InventoryStatus = pi_InventoryStatus it,
     gpi_ProductVariantID = pi_ProductVariant it, gpi_OrderID = pi_OrderID it\<rparr>"

definition toProductItems :: "ProductItem list \<Rightarrow> GProductItem list" where
  "toProductItems items = map toProductItem items"

definition storeFilter :: "Filter option \<Rightarrow> Filter option" where
  "storeFilter f = (case f of None \<Rightarrow> None
     | Some q \<Rightarrow> Some \<lparr>f_ProductVariant = f_ProductVariant q, f_InventoryStatus = f_InventoryStatus q\<rparr>)"

datatype OrderDirection = OrderDirectionAsc | OrderDirectionDesc

definition orderAscending :: "OrderDirection option option \<Rightarrow> bool" where
  "orderAscending o' = (case o' of None \<Rightarrow> True | Some None \<Rightarrow> True | Some (Some d) \<Rightarrow> d \<noteq> OrderDirectionDesc)"

text \<open>The \<open>UUID\<close> scalar: hexadecimal groups of 8-4-4-4-12, passed through unchanged.\<close>

definition uuidRegex :: "string \<Rightarrow> bool" where
  "uuidRegex s = hex_groups [8, 4, 4, 4, 12] s"

datatype scalar = ScalarString string | ScalarOther

fun UnmarshalUUID :: "scalar \<Rightarrow> string + string" where
  "UnmarshalUUID ScalarOther = Inl ''UUID must be a string.''"
| "UnmarshalUUID (ScalarString s) = (if uuidRegex s then Inr s else Inl ''invalid uuid'')"

definition MarshalUUID :: "string \<Rightarrow> string + string" where
  "MarshalUUID u = (if uuidRegex u then Inr u else Inl ''invalid uuid'')"

definition requireEmployeeOrAdmin :: "ctx \<Rightarrow> unit inventory_act" where
  "requireEmployeeOrAdmin c =
     (if HasRole (FromContext c) RoleEmployee \<or> HasRole (FromContext c) RoleAdmin then ret () else fail Forbidden)"

definition requireAdmin :: "ctx \<Rightarrow> unit inventory_act" where
  "requireAdmin c = (if HasRole (FromContext c) RoleAdmin then ret () else fail Forbidden)"

definition defaultSkip :: int where "defaultSkip = 0"

definition defaultFirst :: int where "defaultFirst = 2147483647"

definition paginationArgs :: "int option \<Rightarrow> int option \<Rightarrow> (int \<times> int) inventory_act" where
  "paginationArgs skip first =
     (let s = (case skip of None \<Rightarrow> defaultSkip | Some n \<Rightarrow> n);
          f = (case first of None \<Rightarrow> defaultFirst | Some n \<Rightarrow> n)
      in if s < 0 then fail SkipNegative else if f < 1 then fail FirstNotPositive else ret (s, f))"

record ProductItemConnection =
  pic_Nodes :: "GProductItem list"
  pic_TotalCount :: int
  pic_HasNextPage :: bool

text \<open>\<open>selected\<close> is the selection the query made on the connection.\<close>

definition buildConnection ::
  "(string \<Rightarrow> nat) \<Rightarrow> string list \<Rightarrow> Filter option \<Rightarrow> int \<Rightarrow> int \<Rightarrow> bool \<Rightarrow> ProductItemConnection inventory_act" where
  "buildConnection rank selected f skip first sortAsc =
     andThen (if ''nodes'' \<in> set selected then andThen (FindNodes rank f skip first sortAsc) (\<lambda>items. ret (toProductItems items))
              else ret []) (\<lambda>nodes.
     if ''totalCount'' \<in> set selected \<or> ''hasNextPage'' \<in> set selected then
       andThen (Count f) (\<lambda>n.
         ret \<lparr>pic_Nodes = nodes, pic_TotalCount = n, pic_HasNextPage = (i64 (skip + first) < n)\<rparr>)
     else ret \<lparr>pic_Nodes = nodes, pic_TotalCount = 0, pic_HasNextPage = False\<rparr>)"

subsection \<open>Resolvers\<close>

definition variant_known :: "string \<Rightarrow> unit inventory_act" where
  "variant_known i = andThen (VariantExists i) (\<lambda>exists. if exists then ret () else fail (VariantNotFound i))"

definition CreateProductItemBatch ::
  "(uuid \<Rightarrow> string) \<Rightarrow> ctx \<Rightarrow> string \<Rightarrow> int \<Rightarrow> GProductItem list inventory_act" where
  "CreateProductItemBatch str c productVariantID number =
     andThen (requireEmployeeOrAdmin c) (\<lambda>_.
     andThen (variant_known productVariantID) (\<lambda>_.
     andThen (CreateBatch str productVariantID number) (\<lambda>items. ret (toProductItems items))))"

definition UpdateProductItem :: "ctx \<Rightarrow> string \<Rightarrow> string \<Rightarrow> string \<Rightarrow> GProductItem inventory_act" where
  "UpdateProductItem c i productVariantID inventoryStatus =
     andThen (requireEmployeeOrAdmin c) (\<lambda>_.
     andThen (variant_known productVariantID) (\<lambda>_.
     andThen (Update i productVariantID inventoryStatus) (\<lambda>r.
       case r of None \<Rightarrow> fail (ItemNotFound i) | Some it \<Rightarrow> ret (toProductItem it))))"

definition DeleteProductItem :: "ctx \<Rightarrow> string \<Rightarrow> GProductItem option inventory_act" where
  "DeleteProductItem c i =
     andThen (requireAdmin c) (\<lambda>_.
     andThen (Delete i) (\<lambda>r. ret (map_option toProductItem r)))"

definition ReserveProductItemBatch :: "ctx \<Rightarrow> string \<Rightarrow> int \<Rightarrow> string \<Rightarrow> GProductItem list inventory_act" where
  "ReserveProductItemBatch c productVariantID number orderID =
     andThen (requireEmployeeOrAdmin c) (\<lambda>_.
     andThen (attempt (ReserveBatch productVariantID number orderID)) (\<lambda>r.
       case r of
         Inl e \<Rightarrow> fail (if e = ErrNotEnoughItems then NotEnoughItemsFor productVariantID else e)
       | Inr items \<Rightarrow> ret (toProductItems items)))"

definition ProductVariant_ProductItems ::
  "(string \<Rightarrow> nat) \<Rightarrow> string list \<Rightarrow> ctx \<Rightarrow> string \<Rightarrow> int option \<Rightarrow> int option \<Rightarrow> OrderDirection option option \<Rightarrow>
     ProductItemConnection inventory_act" where
  "ProductVariant_ProductItems rank selected c objID skip first orderBy =
     andThen (requireEmployeeOrAdmin c) (\<lambda>_.
     andThen (paginationArgs skip first) (\<lambda>(s, f).
       buildConnection rank selected (Some \<lparr>f_ProductVariant = Some objID, f_InventoryStatus = None\<rparr>) s f
         (orderAscending orderBy)))"

definition InventoryCount :: "string \<Rightarrow> int inventory_act" where
  "InventoryCount objID =
     Count (Some \<lparr>f_ProductVariant = Some objID, f_InventoryStatus = Some StatusInStorage\<rparr>)"

definition Query_ProductItems ::
  "(string \<Rightarrow> nat) \<Rightarrow> string list \<Rightarrow> ctx \<Rightarrow> int option \<Rightarrow> int option \<Rightarrow> OrderDirection option option \<Rightarrow> Filter option \<Rightarrow>
     ProductItemConnection inventory_act" where
  "Query_ProductItems rank selected c skip first orderBy f =
     andThen (requireEmployeeOrAdmin c) (\<lambda>_.
     andThen (paginationArgs skip first) (\<lambda>(s, n).
       buildConnection rank selected (storeFilter f) s n (orderAscending orderBy)))"

definition Query_ProductItem :: "ctx \<Rightarrow> string \<Rightarrow> GProductItem inventory_act" where
  "Query_ProductItem c i =
     andThen (requireEmployeeOrAdmin c) (\<lambda>_.
     andThen (FindByID i) (\<lambda>r.
       case r of None \<Rightarrow> fail (ItemNotFound i) | Some it \<Rightarrow> ret (toProductItem it)))"

definition FindProductItemByID :: "string \<Rightarrow> GProductItem inventory_act" where
  "FindProductItemByID i =
     andThen (FindByID i) (\<lambda>r.
       case r of None \<Rightarrow> fail (ItemNotFound i) | Some it \<Rightarrow> ret (toProductItem it))"

definition FindProductVariantByID :: "string \<Rightarrow> string" where
  "FindProductVariantByID i = i"

subsection \<open>Properties\<close>

definition stock_db :: "ProductItem list \<Rightarrow> inventory_db" where
  "stock_db items = \<lparr>faults = [], outbox = [], fresh = (\<lambda>n. UUID (of_nat n)), minted = 0, clock = (\<lambda>n. 0), reads = 0,
     productItems = items, variantParts = [''v'']\<rparr>"

definition unit_of :: "string \<Rightarrow> ProductItem" where
  "unit_of i = \<lparr>pi_ID = i, pi_ProductVariant = ''v'', pi_InventoryStatus = ''IN_STORAGE'', pi_OrderID = None\<rparr>"

text \<open>
  C3. The reservation saga of an order-created delivery of positive counts, whatever calls fail, on
  a store whose item ids are unique and whose items in storage belong to no order: the delivery is
  acknowledged, that invariant is kept and all other orders' items are untouched. Either nothing
  is announced but success, and then each variant's held items grew by exactly the counts ordered;
  or some reservation failed, failure with the variants that failed is what is announced, the
  items are released after the announcement, and the order is left without items unless that
  release, run on the state the announcement left, returned an error.
\<close>

theorem orderCreated_all_or_nothing:
  assumes "OrderCreated data s = (r, s')" "payload_parsed data = Some order" "stock_ok s"
    and "\<forall>it \<in> set (oc_OrderItems order). 0 < ei_Count it"
  shows "r = Inr () \<and> stock_ok s' \<and> (\<forall>o2. o2 \<noteq> oc_Order order \<longrightarrow> held_items s' o2 = held_items s o2) \<and>
    ((outbox s' \<in> {outbox s, outbox s @ [ReservationSucceeded (payload_raw data)]} \<and>
        (\<forall>v. int (card (held_items s' (oc_Order order) v)) = int (card (held_items s (oc_Order order) v)) +
           sum_list (map ei_Count (filter (\<lambda>it. ei_ProductVariantID it = v) (oc_OrderItems order))))) \<or>
     (\<exists>failed s1 rp s2 rr. failed \<noteq> [] \<and>
        reserve_items ReserveBatch (oc_Order order) (oc_OrderItems order) s = (Inr failed, s1) \<and>
        PublishReservationFailed PublishError (payload_raw data) failed s1 = (rp, s2) \<and>
        ReleaseBatch (oc_Order order) s2 = (rr, s') \<and>
        outbox s' \<in> {outbox s, outbox s @ [ReservationFailed (payload_raw data) failed]} \<and>
        ((\<exists>e2. rr = Inl e2) \<or> (\<forall>v. held_items s' (oc_Order order) v = {}))))"
  using assms unfolding OrderCreated_def by (rule saga.saga_outcome)

text \<open>One item of a variant is reserved, then three more are asked for where one is left.\<close>

definition short_order :: "orderCreated payload" where
  "short_order = \<lparr>payload_raw = ''o'', payload_parsed = Some \<lparr>oc_Order = ''o'', oc_OrderItems =
     [\<lparr>ei_ProductVariantID = ''v'', ei_Count = 1\<rparr>, \<lparr>ei_ProductVariantID = ''v'', ei_Count = 3\<rparr>]\<rparr>\<rparr>"

lemma short_order_run:
  "case OrderCreated short_order (stock_db [unit_of ''a'', unit_of ''b'']) of
     (r, s') \<Rightarrow> outbox s' = [ReservationFailed ''o'' [''v'']] \<and> productItems s' = [unit_of ''a'', unit_of ''b'']"
  by code_simp

lemma orderCreated_all_or_nothing_witness:
  "\<exists>r s'. OrderCreated short_order (stock_db [unit_of ''a'', unit_of ''b'']) = (r, s') \<and> r = Inr () \<and> stock_ok s' \<and>
     outbox s' = [ReservationFailed ''o'' [''v'']] \<and> held_items s' ''o'' ''v'' = {}"
proof -
  obtain r s' where run: "OrderCreated short_order (stock_db [unit_of ''a'', unit_of ''b'']) = (r, s')" by fastforce
  have "stock_ok (stock_db [unit_of ''a'', unit_of ''b''])" by (simp add: stock_ok_def stock_db_def unit_of_def)
  then show ?thesis
    using orderCreated_all_or_nothing [OF run, of "the (payload_parsed short_order)"] short_order_run run
    by (auto simp: short_order_def stock_db_def held_items_def unit_of_def)
qed

lemma ReserveBatch_quiet:
  assumes "faults s = []"
  shows "ReserveBatch v n o' s =
    (let found = bson_limit n (in_stock v (productItems s)) in
     if int (length found) < n then (Inl ErrNotEnoughItems, s)
     else (Inr [], s\<lparr>productItems := map_all (\<lambda>it. pi_ID it \<in> set (map pi_ID found)) (mark_reserved o') (productItems s)\<rparr>))"
  using assms
  by (auto simp: ReserveBatch_def transaction_def run_andThen run_simps in_stock_def Let_def update_many_def restore_def
      mark_reserved_def [abs_def] split: sum.splits)

text \<open>What a reservation leaves in storage.\<close>

lemma in_stock_reserved:
  assumes ok: "stock_ok s" and ids: "ids = map pi_ID (bson_limit n (in_stock v (productItems s)))"
  shows "in_stock v2 (map_all (\<lambda>it. pi_ID it \<in> set ids) (mark_reserved o') (productItems s)) =
    filter (\<lambda>it. pi_ID it \<notin> set ids) (in_stock v2 (productItems s))"
proof -
  have "StatusReserved \<noteq> StatusInStorage" by (simp add: inventory_statuses)
  then have "in_stock v2 (map_all (\<lambda>it. pi_ID it \<in> X) (mark_reserved o') xs) = filter (\<lambda>it. pi_ID it \<notin> X) (in_stock v2 xs)"
    for X xs by (induction xs) (auto simp: in_stock_def mark_reserved_def)
  then show ?thesis .
qed

lemma left_in_stock:
  assumes ok: "stock_ok s" and ids: "ids = map pi_ID (bson_limit n (in_stock v (productItems s)))"
  shows "length (filter (\<lambda>it. pi_ID it \<notin> set ids) (in_stock v (productItems s))) + length ids =
    length (in_stock v (productItems s))"
proof -
  let ?st = "in_stock v (productItems s)"
  have d: "distinct (map pi_ID ?st)"
    using ok unfolding stock_ok_def in_stock_def by (blast intro: distinct_map_filter)
  have sub: "set ids \<subseteq> pi_ID ` set ?st" using set_bson_limit by (fastforce simp: ids)
  have "set (map pi_ID (filter (\<lambda>it. pi_ID it \<in> set ids) ?st)) = set ids" using sub by auto
  moreover have "distinct (map pi_ID (filter (\<lambda>it. pi_ID it \<in> set ids) ?st))" using d by (rule distinct_map_filter)
  ultimately have "length (filter (\<lambda>it. pi_ID it \<in> set ids) ?st) = length ids"
    using reserved_items(1) [OF ok ids] by (metis distinct_card length_map)
  then show ?thesis
    using sum_length_filter_compl [of "\<lambda>it. pi_ID it \<in> set ids" ?st] by simp
qed

text \<open>
  C7. Reserving a positive number of items, when the database answers: with fewer in storage it is
  refused and nothing changes; otherwise exactly that many leave the storage of the variant, none
  of any other variant, and the count shown to customers drops by that number. The items reserved
  are not returned.
\<close>

theorem reserveBatch_exact:
  assumes "faults s = []" "stock_ok s" "0 < n"
  shows "(int (length (in_stock v (productItems s))) < n \<longrightarrow> ReserveBatch v n o' s = (Inl ErrNotEnoughItems, s)) \<and>
    (n \<le> int (length (in_stock v (productItems s))) \<longrightarrow>
      (\<exists>s'. ReserveBatch v n o' s = (Inr [], s') \<and> stock_ok s' \<and>
         fst (InventoryCount v s') = Inr (int (length (in_stock v (productItems s))) - n) \<and>
         fst (InventoryCount v s) = Inr (int (length (in_stock v (productItems s)))) \<and>
         (\<forall>v2. v2 \<noteq> v \<longrightarrow> in_stock v2 (productItems s') = in_stock v2 (productItems s))))"
proof -
  define ids where "ids = map pi_ID (bson_limit n (in_stock v (productItems s)))"
  define s' where "s' = s\<lparr>productItems := map_all (\<lambda>it. pi_ID it \<in> set ids) (mark_reserved o') (productItems s)\<rparr>"
  have run: "ReserveBatch v n o' s = (if int (length ids) < n then (Inl ErrNotEnoughItems, s) else (Inr [], s'))"
    using assms(1) by (simp add: ReserveBatch_quiet Let_def ids_def s'_def)
  have len: "int (length ids) = min (int (length (in_stock v (productItems s)))) n"
    using assms(3) by (simp add: ids_def bson_limit_def)
  have cnt: "fst (InventoryCount v t) = Inr (int (length (in_stock v (productItems t))))" if "faults t = []" for t
    using that by (simp add: InventoryCount_def Count_def run_simps countFilter_def [abs_def] in_stock_def)
  have "length (in_stock v (productItems s')) + length ids = length (in_stock v (productItems s))"
    using left_in_stock [OF assms(2) ids_def] by (simp add: s'_def in_stock_reserved [OF assms(2) ids_def])
  moreover have "in_stock v2 (productItems s') = in_stock v2 (productItems s)" if "v2 \<noteq> v" for v2
  proof -
    have "pi_ID it \<notin> set ids" if "it \<in> set (in_stock v2 (productItems s))" for it
      using reserved_items(2) [OF assms(2) ids_def, of it] that \<open>v2 \<noteq> v\<close> by (auto simp: in_stock_def)
    then show ?thesis by (simp add: s'_def in_stock_reserved [OF assms(2) ids_def])
  qed
  moreover have "stock_ok s'" by (rule stock_ok_reserve [OF assms(2)]) (simp add: s'_def)
  ultimately show ?thesis
    using run len cnt [of s] cnt [of s'] assms(1) by (auto simp: s'_def)
qed

lemma reserveBatch_exact_witness:
  "\<exists>s'. ReserveBatch ''v'' 1 ''o'' (stock_db [unit_of ''a'', unit_of ''b'']) = (Inr [], s') \<and>
    fst (InventoryCount ''v'' s') = Inr 1"
  using reserveBatch_exact [of "stock_db [unit_of ''a'', unit_of ''b'']" 1 "''v''" "''o''"]
  by (auto simp: stock_ok_def stock_db_def unit_of_def in_stock_def inventory_statuses)

text \<open>
  A reservation of zero items takes the whole storage: the driver reads the limit 0 as none,
  so an employee's \<open>reserveProductItemBatch\<close> with number 0 succeeds and leaves no item of the
  variant in storage.
\<close>

theorem reserving_zero_takes_all:
  assumes "faults s = []" "stock_ok s" "IsEmployeeOrAdmin c"
  shows "\<exists>s'. ReserveProductItemBatch c v 0 o' s = (Inr [], s') \<and> in_stock v (productItems s') = [] \<and>
    card (held_items s' o' v) = card (held_items s o' v) + length (in_stock v (productItems s))"
proof -
  define ids where "ids = map pi_ID (bson_limit 0 (in_stock v (productItems s)))"
  define s' where "s' = s\<lparr>productItems := map_all (\<lambda>it. pi_ID it \<in> set ids) (mark_reserved o') (productItems s)\<rparr>"
  have "ReserveBatch v 0 o' s = (Inr [], s')"
    using assms(1) by (simp add: ReserveBatch_quiet Let_def ids_def s'_def)
  then have "ReserveProductItemBatch c v 0 o' s = (Inr [], s')"
    using assms(3) by (auto simp: ReserveProductItemBatch_def requireEmployeeOrAdmin_def IsEmployeeOrAdmin_def
      FromContext_def run_andThen run_attempt run_simps toProductItems_def)
  moreover have len: "length ids = length (in_stock v (productItems s))" by (simp add: ids_def bson_limit_def)
  moreover have "in_stock v (productItems s') = []"
    using left_in_stock [OF assms(2) ids_def] len by (simp add: s'_def in_stock_reserved [OF assms(2) ids_def])
  moreover have "card (held_items s' o' v) = card (held_items s o' v) + length ids"
  proof -
    note h = held_after_reserve(2,3) [OF assms(2) ids_def, of s' o']
    have "finite (held_items s o' v)" by (simp add: held_items_def)
    then show ?thesis
      using h reserved_items(1) [OF assms(2) ids_def] by (simp add: s'_def card_Un_disjoint distinct_card)
  qed
  ultimately show ?thesis by auto
qed

lemma reserving_zero_takes_all_witness:
  "\<exists>s'. ReserveProductItemBatch (Some \<lparr>user_ID = UUID 1, user_Roles = [''employee'']\<rparr>) ''v'' 0 ''o''
      (stock_db [unit_of ''a'', unit_of ''b'']) = (Inr [], s') \<and> in_stock ''v'' (productItems s') = []"
  using reserving_zero_takes_all [of "stock_db [unit_of ''a'', unit_of ''b'']"
      "Some \<lparr>user_ID = UUID 1, user_Roles = [''employee'']\<rparr>" "''v''" "''o''"]
  by (auto simp: stock_ok_def stock_db_def unit_of_def IsEmployeeOrAdmin_def RoleEmployee_def)

end
