(* ===== verification/Payment_Store.thy ===== *)
theory Payment_Store
  imports Collections Auth
begin

text \<open>
  \<open>payment/store\<close>: payments, payment informations and the open orders the saga keeps between its
  events. Ids are strings; \<open>rank\<close> is the database server's order of strings.
\<close>

subsection \<open>Documents\<close>

record PaymentDoc =
  pay_ID :: string
  pay_TotalAmount :: int
  pay_Status :: string
  pay_PaymentInformation :: string
  pay_PayedAt :: "time option"
  pay_NumberOfRetries :: int
  pay_CreatedAt :: time
  pay_UpdatedAt :: time

record PaymentInformationDoc =
  inf_ID :: string
  inf_PaymentMethod :: string
  inf_PublicMethodDetails :: "(string \<times> string) list"
  inf_SecretMethodDetails :: "(string \<times> string) list"
  inf_User :: string

record openOrderStore =
  oo_PaymentID :: string
  oo_Order :: string

text \<open>What leaves the service: the two saga events and the requests to the payment simulation.\<close>

datatype payment_event =
    PaymentEnabledEvent string
  | PaymentFailedEvent string
  | RegisterRequest string int string
  | RetryRequest string string

record payment_db = "payment_event io" +
  payments :: "PaymentDoc list"
  paymentInformation :: "PaymentInformationDoc list"
  openOrders :: "openOrderStore list"

datatype payment_err =
    DbError
  | NoDocuments
  | DuplicateId
  | PaymentNotFound string
  | InformationNotFound string
  | ReferenceNotFound
  | OpenOrderNotFound string
  | MethodNotImplemented
  | PublishFailed
  | SendFailed
  | PayAuth auth_err
  | NotAuthorizedToDelete string
  | ForeignPayments
  | ForeignInformations
  | InvalidCardNumber
  | InvalidExpiration
  | SkipTooSmall
  | FirstTooSmall

type_synonym 'a payment_act = "(payment_db, payment_err, 'a) act"

record 'a Connection =
  con_Nodes :: "'a list"
  con_TotalCount :: int
  con_HasNextPage :: bool

definition not_found :: "payment_err \<Rightarrow> payment_err \<Rightarrow> payment_err" where
  "not_found e' e = (if e = NoDocuments then e' else e)"

definition hasNextPage :: "int option \<Rightarrow> int option \<Rightarrow> int \<Rightarrow> bool" where
  "hasNextPage first skip cnt =
     (case first of
        None \<Rightarrow> False
      | Some f \<Rightarrow> i64 ((case skip of None \<Rightarrow> 0 | Some n \<Rightarrow> n) + f) < cnt)"

definition paged :: "int option \<Rightarrow> int option \<Rightarrow> 'a list \<Rightarrow> 'a list" where
  "paged first skip xs =
     (let ys = (case skip of None \<Rightarrow> xs | Some n \<Rightarrow> drop (nat n) xs)
      in case first of None \<Rightarrow> ys | Some f \<Rightarrow> bson_limit f ys)"

subsection \<open>Payment informations\<close>

record PaymentInformationFilterArgs =
  pif_UserScalar :: "string option"
  pif_UserSubID :: "string option"
  pif_PaymentMethod :: "string option"

text \<open>A scalar never equals the stored subdocument \<open>{id: user}\<close>.\<close>

definition filterDoc :: "PaymentInformationFilterArgs \<Rightarrow> PaymentInformationDoc \<Rightarrow> bool" where
  "filterDoc f d \<longleftrightarrow>
     (case pif_UserScalar f of
        Some _ \<Rightarrow> False
      | None \<Rightarrow> (case pif_UserSubID f of Some u \<Rightarrow> inf_User d = u | None \<Rightarrow> True)) \<and>
     (case pif_PaymentMethod f of Some m \<Rightarrow> inf_PaymentMethod d = m | None \<Rightarrow> True)"

definition GetPaymentInformation :: "string \<Rightarrow> PaymentInformationDoc payment_act" where
  "GetPaymentInformation i = map_err (not_found (InformationNotFound i))
     (find_one DbError NoDocuments paymentInformation (\<lambda>d. inf_ID d = i))"

definition findPaymentInformations ::
  "(string \<Rightarrow> nat) \<Rightarrow> PaymentInformationFilterArgs \<Rightarrow> int option \<Rightarrow> int option \<Rightarrow> int \<Rightarrow>
     PaymentInformationDoc list payment_act" where
  "findPaymentInformations rank f first skip dir = ext DbError (gets (\<lambda>s.
     paged first skip (sort_key (\<lambda>d. dir * int (rank (inf_ID d))) (filter (filterDoc f) (paymentInformation s)))))"

definition countPaymentInformations :: "PaymentInformationFilterArgs \<Rightarrow> int payment_act" where
  "countPaymentInformations f = ext DbError (gets (\<lambda>s. int (length (filter (filterDoc f) (paymentInformation s)))))"

definition ListPaymentInformations ::
  "(string \<Rightarrow> nat) \<Rightarrow> PaymentInformationFilterArgs \<Rightarrow> int option \<Rightarrow> int option \<Rightarrow> int \<Rightarrow>
     PaymentInformationDoc Connection payment_act" where
  "ListPaymentInformations rank f first skip dir =
     andThen (findPaymentInformations rank f first skip dir) (\<lambda>nodes.
     andThen (countPaymentInformations f) (\<lambda>total.
       ret \<lparr>con_Nodes = nodes, con_TotalCount = total, con_HasNextPage = hasNextPage first skip total\<rparr>))"

definition CreatePaymentInformation :: "PaymentInformationDoc \<Rightarrow> PaymentInformationDoc payment_act" where
  "CreatePaymentInformation d =
     andThen (insert_one DbError DuplicateId paymentInformation paymentInformation_update inf_ID d) (\<lambda>_. ret d)"

definition Store_DeletePaymentInformation :: "string \<Rightarrow> PaymentInformationDoc payment_act" where
  "Store_DeletePaymentInformation i = map_err (not_found (InformationNotFound i))
     (find_one_and_delete DbError NoDocuments paymentInformation paymentInformation_update (\<lambda>d. inf_ID d = i))"

subsection \<open>Payments\<close>

record PaymentFilterArgs =
  pf_Status :: "string option"
  pf_PaymentInformationID :: "string option"
  pf_PaymentMethod :: "string option"
  pf_From :: "time option"
  pf_To :: "time option"

definition GetPayment :: "string \<Rightarrow> PaymentDoc payment_act" where
  "GetPayment i = map_err (not_found (PaymentNotFound i)) (find_one DbError NoDocuments payments (\<lambda>d. pay_ID d = i))"

text \<open>\<open>None\<close> in the list is the BSON null, which no stored reference equals.\<close>

definition buildAllowedFilterIDs ::
  "(string \<Rightarrow> nat) \<Rightarrow> string option \<Rightarrow> string option \<Rightarrow> string option list payment_act" where
  "buildAllowedFilterIDs rank infoID meth =
     (case meth of
        None \<Rightarrow> ret [infoID]
      | Some m \<Rightarrow>
          andThen (findPaymentInformations rank
              \<lparr>pif_UserScalar = None, pif_UserSubID = None, pif_PaymentMethod = Some m\<rparr> None None 1) (\<lambda>infos.
            case infoID of
              None \<Rightarrow> ret (map (\<lambda>d. Some (inf_ID d)) infos)
            | Some i \<Rightarrow> if i \<in> set (map inf_ID infos) then ret [Some i] else ret []))"

definition buildPaymentQuery ::
  "(string \<Rightarrow> nat) \<Rightarrow> PaymentFilterArgs option \<Rightarrow> (PaymentDoc \<Rightarrow> bool) payment_act" where
  "buildPaymentQuery rank f =
     (case f of
        None \<Rightarrow> ret (\<lambda>d. True)
      | Some q \<Rightarrow>
          andThen (if pf_PaymentInformationID q \<noteq> None \<or> pf_PaymentMethod q \<noteq> None
              then andThen (buildAllowedFilterIDs rank (pf_PaymentInformationID q) (pf_PaymentMethod q)) (\<lambda>ids.
                ret (\<lambda>d. Some (pay_PaymentInformation d) \<in> set ids))
              else ret (\<lambda>d. True)) (\<lambda>allowed.
            ret (\<lambda>d. (case pf_Status q of None \<Rightarrow> True | Some st \<Rightarrow> pay_Status d = st) \<and> allowed d \<and>
              (case pf_From q of None \<Rightarrow> True | Some t \<Rightarrow> bson_time t \<le> pay_CreatedAt d) \<and>
              (case pf_To q of None \<Rightarrow> True | Some t \<Rightarrow> pay_CreatedAt d \<le> bson_time t))))"

definition findPayments ::
  "(string \<Rightarrow> nat) \<Rightarrow> PaymentFilterArgs option \<Rightarrow> int option \<Rightarrow> int option \<Rightarrow> int \<Rightarrow> PaymentDoc list payment_act" where
  "findPayments rank f first skip dir =
     andThen (buildPaymentQuery rank f) (\<lambda>q.
       ext DbError (gets (\<lambda>s. paged first skip (sort_key (\<lambda>d. dir * int (rank (pay_ID d))) (filter q (payments s))))))"

definition countPayments :: "(string \<Rightarrow> nat) \<Rightarrow> PaymentFilterArgs option \<Rightarrow> int payment_act" where
  "countPayments rank f =
     andThen (buildPaymentQuery rank f) (\<lambda>q. ext DbError (gets (\<lambda>s. int (length (filter q (payments s))))))"

definition ListPayments ::
  "(string \<Rightarrow> nat) \<Rightarrow> PaymentFilterArgs option \<Rightarrow> int option \<Rightarrow> int option \<Rightarrow> int \<Rightarrow> PaymentDoc Connection payment_act" where
  "ListPayments rank f first skip dir =
     andThen (findPayments rank f first skip dir) (\<lambda>nodes.
     andThen (countPayments rank f) (\<lambda>total.
       ret \<lparr>con_Nodes = nodes, con_TotalCount = total, con_HasNextPage = hasNextPage first skip total\<rparr>))"

definition FindPaymentsByStatusMethod ::
  "(string \<Rightarrow> nat) \<Rightarrow> string \<Rightarrow> string \<Rightarrow> time \<Rightarrow> PaymentDoc list payment_act" where
  "FindPaymentsByStatusMethod rank st meth to =
     findPayments rank (Some \<lparr>pf_Status = Some st, pf_PaymentInformationID = None, pf_PaymentMethod = Some meth,
       pf_From = None, pf_To = Some to\<rparr>) None None 1"

definition CreatePayment :: "string \<Rightarrow> string \<Rightarrow> int \<Rightarrow> unit payment_act" where
  "CreatePayment orderID infoID totalAmount =
     andThen now (\<lambda>t. insert_one DbError DuplicateId payments payments_update pay_ID
       \<lparr>pay_ID = orderID, pay_TotalAmount = totalAmount, pay_Status = ''OPEN'', pay_PaymentInformation = infoID,
        pay_PayedAt = None, pay_NumberOfRetries = 0, pay_CreatedAt = bson_time t, pay_UpdatedAt = bson_time t\<rparr>)"

definition set_status :: "string \<Rightarrow> time \<Rightarrow> PaymentDoc \<Rightarrow> PaymentDoc" where
  "set_status st t d = d\<lparr>pay_Status := st, pay_UpdatedAt := bson_time t,
     pay_PayedAt := (if st = ''SUCCEEDED'' then Some (bson_time t) else pay_PayedAt d)\<rparr>"

definition Store_UpdatePaymentStatus :: "string \<Rightarrow> string \<Rightarrow> PaymentDoc payment_act" where
  "Store_UpdatePaymentStatus i st =
     andThen now (\<lambda>t. map_err (not_found (PaymentNotFound i))
       (find_one_and_update DbError NoDocuments payments payments_update (\<lambda>d. pay_ID d = i) (set_status st t)))"

definition Store_DeletePayment :: "string \<Rightarrow> PaymentDoc payment_act" where
  "Store_DeletePayment i = map_err (not_found (PaymentNotFound i))
     (find_one_and_delete DbError NoDocuments payments payments_update (\<lambda>d. pay_ID d = i))"

subsection \<open>Open orders\<close>

definition CreateOpenOrder :: "string \<Rightarrow> string \<Rightarrow> unit payment_act" where
  "CreateOpenOrder i order = insert_anon DbError openOrders_update \<lparr>oo_PaymentID = i, oo_Order = order\<rparr>"

definition FindOpenOrder :: "string \<Rightarrow> string payment_act" where
  "FindOpenOrder i = map_err (not_found (OpenOrderNotFound i))
     (andThen (find_one DbError NoDocuments openOrders (\<lambda>d. oo_PaymentID d = i)) (\<lambda>d. ret (oo_Order d)))"

definition DeleteOpenOrder :: "string \<Rightarrow> unit payment_act" where
  "DeleteOpenOrder i =
     andThen (or_none NoDocuments (find_one_and_delete DbError NoDocuments openOrders openOrders_update
       (\<lambda>d. oo_PaymentID d = i))) (\<lambda>_. ret ())"

lemma payment_tables:
  fixes s t :: payment_db
  assumes "io.more s = io.more t"
  shows "payments s = payments t" "paymentInformation s = paymentInformation t" "openOrders s = openOrders t"
  using assms by (cases s; cases t; simp)+

interpretation payments_coll: collection "payments :: payment_db \<Rightarrow> _" payments_update pay_ID
  by (unfold_locales, simp, erule payment_tables)

interpretation informations_coll: collection "paymentInformation :: payment_db \<Rightarrow> _" paymentInformation_update inf_ID
  by (unfold_locales, simp, erule payment_tables)

lemmas payment_store_defs = GetPaymentInformation_def findPaymentInformations_def countPaymentInformations_def
  ListPaymentInformations_def CreatePaymentInformation_def Store_DeletePaymentInformation_def GetPayment_def
  buildAllowedFilterIDs_def buildPaymentQuery_def findPayments_def countPayments_def ListPayments_def
  FindPaymentsByStatusMethod_def CreatePayment_def Store_UpdatePaymentStatus_def Store_DeletePayment_def
  CreateOpenOrder_def FindOpenOrder_def DeleteOpenOrder_def

end
