(* ===== verification/Payment.thy ===== *)
theory Payment
  imports Payment_Store
begin

text \<open>
  \<open>payment/service\<close>, \<open>payment/handlers.go\<close>: the payment saga, its per-method state machines, the
  overdue schedulers, the simulation connector and the HTTP callback. A background goroutine is run
  to its end as one action. \<open>simURL\<close> is the connector's base URL.
\<close>

definition statusOpen :: string where "statusOpen = ''OPEN''"
definition statusPending :: string where "statusPending = ''PENDING''"
definition statusSucceeded :: string where "statusSucceeded = ''SUCCEEDED''"
definition statusFailed :: string where "statusFailed = ''FAILED''"
definition methodCreditCard :: string where "methodCreditCard = ''CREDIT_CARD''"
definition methodPrepayment :: string where "methodPrepayment = ''PREPAYMENT''"
definition methodInvoice :: string where "methodInvoice = ''INVOICE''"

lemmas payment_constants = statusOpen_def statusPending_def statusSucceeded_def statusFailed_def
  methodCreditCard_def methodPrepayment_def methodInvoice_def

record orderHeader =
  oh_ID :: string
  oh_PaymentInformationID :: string
  oh_CompensatableOrderAmount :: int

subsection \<open>Simulation connector\<close>

definition send :: "string \<Rightarrow> payment_event \<Rightarrow> unit payment_act" where
  "send baseURL req =
     (if baseURL = [] then ret () else andThen (attempt (emit SendFailed req)) (\<lambda>_. ret ()))"

definition Register :: "string \<Rightarrow> string \<Rightarrow> int \<Rightarrow> string \<Rightarrow> unit payment_act" where
  "Register simURL paymentID amount paymentType = send simURL (RegisterRequest paymentID amount paymentType)"

definition Retry :: "string \<Rightarrow> string \<Rightarrow> string \<Rightarrow> unit payment_act" where
  "Retry simURL paymentID paymentType = send simURL (RetryRequest paymentID paymentType)"

subsection \<open>Saga events\<close>

definition PublishPaymentEnabled :: "string \<Rightarrow> unit payment_act" where
  "PublishPaymentEnabled order = emit PublishFailed (PaymentEnabledEvent order)"

definition PublishPaymentFailed :: "string \<Rightarrow> unit payment_act" where
  "PublishPaymentFailed order = emit PublishFailed (PaymentFailedEvent order)"

definition publishEnabledForPayment :: "string \<Rightarrow> unit payment_act" where
  "publishEnabledForPayment paymentID =
     andThen (attempt (FindOpenOrder paymentID)) (\<lambda>r.
       case r of
         Inl _ \<Rightarrow> ret ()
       | Inr order \<Rightarrow> andThen (attempt (PublishPaymentEnabled order)) (\<lambda>_. ret ()))"

definition publishFailedForPayment :: "string \<Rightarrow> unit payment_act" where
  "publishFailedForPayment paymentID =
     andThen (attempt (FindOpenOrder paymentID)) (\<lambda>r.
       case r of
         Inl _ \<Rightarrow> ret ()
       | Inr order \<Rightarrow> andThen (attempt (PublishPaymentFailed order)) (\<lambda>_. ret ()))"

subsection \<open>Starting a payment\<close>

definition startProcessor :: "string \<Rightarrow> string \<Rightarrow> string \<Rightarrow> int \<Rightarrow> unit payment_act" where
  "startProcessor simURL meth i amount =
     (if meth = methodCreditCard then
        andThen (publishEnabledForPayment i) (\<lambda>_.
        andThen (Register simURL i amount ''credit-card'') (\<lambda>_.
        andThen (Store_UpdatePaymentStatus i statusPending) (\<lambda>_. ret ())))
      else if meth = methodPrepayment then
        andThen (Register simURL i amount ''prepayment'') (\<lambda>_.
        andThen (Store_UpdatePaymentStatus i statusPending) (\<lambda>_. ret ()))
      else if meth = methodInvoice then
        andThen (publishEnabledForPayment i) (\<lambda>_.
        andThen (Register simURL i amount ''invoice'') (\<lambda>_.
        andThen (Store_UpdatePaymentStatus i statusPending) (\<lambda>_. ret ())))
      else fail MethodNotImplemented)"

definition startPaymentProcess :: "string \<Rightarrow> orderHeader \<Rightarrow> string \<Rightarrow> unit payment_act" where
  "startPaymentProcess simURL hdr order =
     andThen (GetPaymentInformation (oh_PaymentInformationID hdr)) (\<lambda>info.
     andThen (CreatePayment (oh_ID hdr) (inf_ID info) (oh_CompensatableOrderAmount hdr)) (\<lambda>_.
     andThen (CreateOpenOrder (oh_ID hdr) order) (\<lambda>_.
       startProcessor simURL (inf_PaymentMethod info) (oh_ID hdr) (oh_CompensatableOrderAmount hdr))))"

definition StartPaymentProcess :: "string \<Rightarrow> orderHeader payload \<Rightarrow> unit payment_act" where
  "StartPaymentProcess simURL order =
     (case payload_parsed order of
        None \<Rightarrow> ret ()
      | Some hdr \<Rightarrow>
          andThen (attempt (startPaymentProcess simURL hdr (payload_raw order))) (\<lambda>r.
            case r of
              Inr _ \<Rightarrow> ret ()
            | Inl _ \<Rightarrow>
                andThen (attempt (DeleteOpenOrder (oh_ID hdr))) (\<lambda>_.
                andThen (attempt (PublishPaymentFailed (payload_raw order))) (\<lambda>_. ret ()))))"

subsection \<open>The simulation's callback\<close>

definition updateCreditCard :: "string \<Rightarrow> string \<Rightarrow> string \<Rightarrow> unit payment_act" where
  "updateCreditCard simURL paymentID st =
     (if st \<noteq> statusFailed then andThen (Store_UpdatePaymentStatus paymentID st) (\<lambda>_. ret ())
      else
        andThen (GetPayment paymentID) (\<lambda>payment.
          if pay_NumberOfRetries payment \<ge> 3 then
            andThen (publishFailedForPayment paymentID) (\<lambda>_.
            andThen (Store_UpdatePaymentStatus paymentID st) (\<lambda>_. ret ()))
          else andThen (Retry simURL paymentID ''credit-card'') (\<lambda>_. ret ())))"

definition updatePrepayment :: "string \<Rightarrow> string \<Rightarrow> unit payment_act" where
  "updatePrepayment paymentID st =
     (if st \<noteq> statusSucceeded then andThen (Store_UpdatePaymentStatus paymentID st) (\<lambda>_. ret ())
      else andThen (publishEnabledForPayment paymentID) (\<lambda>_. ret ()))"

definition updateInvoice :: "string \<Rightarrow> string \<Rightarrow> unit payment_act" where
  "updateInvoice paymentID st = andThen (Store_UpdatePaymentStatus paymentID st) (\<lambda>_. ret ())"

definition UpdatePaymentStatus :: "string \<Rightarrow> string \<Rightarrow> string \<Rightarrow> unit payment_act" where
  "UpdatePaymentStatus simURL paymentID st =
     andThen (GetPayment paymentID) (\<lambda>payment.
     andThen (map_err (\<lambda>_. ReferenceNotFound) (GetPaymentInformation (pay_PaymentInformation payment))) (\<lambda>info.
       if inf_PaymentMethod info = methodCreditCard then updateCreditCard simURL paymentID st
       else if inf_PaymentMethod info = methodPrepayment then updatePrepayment paymentID st
       else if inf_PaymentMethod info = methodInvoice then updateInvoice paymentID st
       else fail MethodNotImplemented))"

subsection \<open>Default payment informations\<close>

definition AddDefaultPaymentInformations :: "(uuid \<Rightarrow> string) \<Rightarrow> string \<Rightarrow> unit payment_act" where
  "AddDefaultPaymentInformations str userID =
     each (\<lambda>meth. andThen new_uuid (\<lambda>i.
         andThen (attempt (CreatePaymentInformation \<lparr>inf_ID = str i, inf_PaymentMethod = meth,
           inf_PublicMethodDetails = [], inf_SecretMethodDetails = [], inf_User = userID\<rparr>)) (\<lambda>_. ret ())))
       [methodPrepayment, methodInvoice]"

subsection \<open>Schedulers\<close>

definition invoiceOverdueDays :: int where "invoiceOverdueDays = 30"

definition prepaymentOverdueDays :: int where "prepaymentOverdueDays = 7"

text \<open>\<open>AddDate(0, 0, -x)\<close> in the container's UTC.\<close>

definition xDaysBackFromNow :: "int \<Rightarrow> time payment_act" where
  "xDaysBackFromNow x = andThen now (\<lambda>t. ret (t - x * 86400 * 10 ^ 9))"

definition checkOpenPayments :: "(string \<Rightarrow> nat) \<Rightarrow> string \<Rightarrow> int \<Rightarrow> unit payment_act" where
  "checkOpenPayments rank meth days =
     andThen (xDaysBackFromNow days) (\<lambda>to.
     andThen (attempt (FindPaymentsByStatusMethod rank statusPending meth to)) (\<lambda>r.
       case r of
         Inl _ \<Rightarrow> ret ()
       | Inr openPayments \<Rightarrow>
           each (\<lambda>payment.
               andThen (attempt (Store_UpdatePaymentStatus (pay_ID payment) statusFailed)) (\<lambda>_.
                 publishFailedForPayment (pay_ID payment))) openPayments))"

subsection \<open>Routes\<close>

definition handleOrderValidationSucceeded ::
  "string \<Rightarrow> orderHeader payload option payload \<Rightarrow> unit payment_act" where
  "handleOrderValidationSucceeded simURL data =
     (case payload_parsed data of
        None \<Rightarrow> ret ()
      | Some None \<Rightarrow> ret ()
      | Some (Some order) \<Rightarrow> if payload_raw order = [] then ret () else StartPaymentProcess simURL order)"

definition handleUserCreated :: "(uuid \<Rightarrow> string) \<Rightarrow> string payload \<Rightarrow> unit payment_act" where
  "handleUserCreated str data =
     (case payload_parsed data of None \<Rightarrow> ret () | Some u \<Rightarrow> AddDefaultPaymentInformations str u)"

record updateStatusRequest =
  usr_PaymentID :: string
  usr_Status :: string

definition validPaymentStatuses :: "string list" where
  "validPaymentStatuses = [''OPEN'', ''PENDING'', ''SUCCEEDED'', ''FAILED'', ''INKASSO'']"

definition updatePaymentStatusHandler ::
  "string \<Rightarrow> updateStatusRequest payload \<Rightarrow> payment_db \<Rightarrow> int \<times> payment_db" where
  "updatePaymentStatusHandler simURL body s =
     (case payload_parsed body of
        None \<Rightarrow> (400, s)
      | Some req \<Rightarrow>
          if usr_PaymentID req = [] \<or> usr_Status req \<notin> set validPaymentStatuses then (400, s)
          else (case UpdatePaymentStatus simURL (usr_PaymentID req) (usr_Status req) s of
                  (Inl _, s') \<Rightarrow> (404, s')
                | (Inr _, s') \<Rightarrow> (200, s')))"

end
