(* ===== verification/Payment_Graph.thy ===== *)
theory Payment_Graph
  imports Payment Go_Float
begin

text \<open>
  \<open>payment/graph\<close>: input validation of credit cards, models, and the resolvers. \<open>str\<close> and
  \<open>parse\<close> are \<open>uuid.UUID.String\<close> and \<open>uuid.Parse\<close>. Card numbers are strings of single-byte
  characters.
\<close>

subsection \<open>Credit cards\<close>

definition is_digit :: "char \<Rightarrow> bool" where
  "is_digit c = (let n = of_char c :: nat in 48 \<le> n \<and> n \<le> 57)"

definition digit_val :: "char \<Rightarrow> int" where
  "digit_val c = int (of_char c) - 48"

text \<open>A digit is starred when the four characters after it are digits.\<close>

fun maskCardNumber :: "string \<Rightarrow> string" where
  "maskCardNumber [] = []"
| "maskCardNumber (r # rs) =
     (if is_digit r \<and> 4 \<le> length rs \<and> list_all is_digit (take 4 rs) then CHR ''*'' else r) # maskCardNumber rs"

text \<open>
  The provider patterns, on a string of digits: the number formed by its first digits, and the
  lengths the pattern allows.
\<close>

definition lead :: "nat \<Rightarrow> string \<Rightarrow> int" where
  "lead k s = (if length s < k then - 1 else foldl (\<lambda>n c. 10 * n + digit_val c) 0 (take k s))"

definition creditCardProvider :: "string \<Rightarrow> bool" where
  "creditCardProvider s =
     (let n = length s in
        lead 1 s = 4 \<and> (n = 13 \<or> 16 \<le> n \<and> n \<le> 19) \<or>
        n = 16 \<and> (51 \<le> lead 2 s \<and> lead 2 s \<le> 55 \<or> 2221 \<le> lead 4 s \<and> lead 4 s \<le> 2720) \<or>
        n = 15 \<and> (lead 2 s = 34 \<or> lead 2 s = 37) \<or>
        n = 14 \<and> (300 \<le> lead 3 s \<and> lead 3 s \<le> 305 \<or> lead 2 s = 36 \<or> lead 2 s = 38) \<or>
        16 \<le> n \<and> n \<le> 19 \<and> (lead 4 s = 6011 \<or> lead 2 s = 65) \<or>
        n = 15 \<and> (lead 4 s = 2131 \<or> lead 4 s = 1800) \<or> n = 16 \<and> lead 2 s = 35 \<or>
        n = 16 \<and> (lead 2 s = 62 \<or> lead 2 s = 67) \<or> 16 \<le> n \<and> n \<le> 19 \<and> lead 2 s = 81 \<or>
        2 \<le> n \<and> n \<le> 19 \<and> lead 2 s \<in> {50, 56, 57, 58, 59} \<or> 1 \<le> n \<and> n \<le> 18 \<and> lead 1 s = 6)"

text \<open>The loop runs from the last digit to the first.\<close>

fun luhn_sum :: "bool \<Rightarrow> string \<Rightarrow> int" where
  "luhn_sum double [] = 0"
| "luhn_sum double (c # cs) =
     (let d = digit_val c; d2 = (if double then (if 2 * d > 9 then 2 * d - 9 else 2 * d) else d)
      in d2 + luhn_sum (\<not> double) cs)"

definition luhnValid :: "string \<Rightarrow> bool" where
  "luhnValid digits = (luhn_sum False (rev digits) mod 10 = 0)"

definition isCreditCardValid :: "string \<Rightarrow> bool" where
  "isCreditCardValid cardNumber =
     (let sanitized = filter (\<lambda>c. c \<noteq> CHR '' '' \<and> c \<noteq> CHR ''-'') cardNumber
      in sanitized \<noteq> [] \<and> list_all is_digit sanitized \<and> creditCardProvider sanitized \<and> luhnValid sanitized)"

text \<open>A leading integer; \<open>None\<close> is the failed parse (NaN), also when \<open>strconv.Atoi\<close> overflows.\<close>

definition parseBase10 :: "string \<Rightarrow> int option" where
  "parseBase10 s0 =
     (let s = dropWhile (\<lambda>c. c = CHR '' '' \<or> of_char c = (9 :: nat)) s0;
          neg = (s \<noteq> [] \<and> hd s = CHR ''-'');
          body = (if s \<noteq> [] \<and> (hd s = CHR ''+'' \<or> hd s = CHR ''-'') then tl s else s);
          ds = takeWhile is_digit body;
          n = foldl (\<lambda>n c. 10 * n + digit_val c) 0 ds
      in if ds = [] \<or> n \<ge> 2 ^ 63 then None else Some (if neg then - n else n))"

text \<open>Year and month of an instant in UTC (days since 1970-01-01 to the proleptic Gregorian calendar).\<close>

definition year_month :: "time \<Rightarrow> int \<times> int" where
  "year_month t =
     (let z = t div (86400 * 10 ^ 9) + 719468;
          era = z div 146097; doe = z mod 146097;
          yoe = (doe - doe div 1460 + doe div 36524 - doe div 146096) div 365;
          doy = doe - (365 * yoe + yoe div 4 - yoe div 100);
          mp = (5 * doy + 2) div 153;
          m = (if mp < 10 then mp + 3 else mp - 9)
      in (yoe + era * 400 + (if m \<le> 2 then 1 else 0), m))"

definition jsExpirationLogic :: "time \<Rightarrow> int option \<Rightarrow> int option \<Rightarrow> bool" where
  "jsExpirationLogic t month year =
     (let (y, currentMonth) = year_month t; currentYear = y mod 100;
          adjusted = map_option (\<lambda>yr. if yr > 2000 then yr - 2000 else yr) year
      in if (case adjusted of Some a \<Rightarrow> a < currentYear \<or> a > currentYear + 20 | None \<Rightarrow> False) then False
         else if (case (adjusted, month) of (Some a, Some m) \<Rightarrow> a = currentYear \<and> m < currentMonth | _ \<Rightarrow> False) then False
         else if (case month of Some m \<Rightarrow> m < 1 \<or> m > 12 | None \<Rightarrow> False) then False
         else True)"

definition isExpirationDateValid :: "time \<Rightarrow> string \<Rightarrow> bool" where
  "isExpirationDateValid t value' =
     (let a = takeWhile (\<lambda>c. c \<noteq> CHR ''/'') value'; b = dropWhile (\<lambda>c. c \<noteq> CHR ''/'') value'
      in if b = [] then jsExpirationLogic t (parseBase10 a) None
         else jsExpirationLogic t (parseBase10 a) (parseBase10 (tl b)))"

subsection \<open>Models\<close>

record GPayment =
  gp_ID :: uuid
  gp_TotalAmount :: f64
  gp_Status :: string
  gp_NumberOfRetries :: f64
  gp_PaymentInformationID :: string
  gp_PayedAt :: "time option"

record GPaymentInformation =
  gi_ID :: uuid
  gi_PaymentMethod :: string
  gi_PublicMethodDetails :: "(string \<times> string) list"
  gi_UserID :: uuid

definition validatePagination :: "int option \<Rightarrow> int option \<Rightarrow> unit payment_act" where
  "validatePagination skip first =
     (if skip \<noteq> None \<and> the skip < 0 then fail SkipTooSmall
      else if first \<noteq> None \<and> the first < 1 then fail FirstTooSmall
      else ret ())"

definition parseUUID :: "(string \<Rightarrow> uuid option) \<Rightarrow> string \<Rightarrow> uuid" where
  "parseUUID parse s = (case parse s of None \<Rightarrow> UUID 0 | Some u \<Rightarrow> u)"

definition toPayment :: "(string \<Rightarrow> uuid option) \<Rightarrow> PaymentDoc \<Rightarrow> GPayment" where
  "toPayment parse d = \<lparr>gp_ID = parseUUID parse (pay_ID d), gp_TotalAmount = f64_of_int (pay_TotalAmount d),
     gp_Status = pay_Status d, gp_NumberOfRetries = f64_of_int (pay_NumberOfRetries d),
     gp_PaymentInformationID = pay_PaymentInformation d, gp_PayedAt = pay_PayedAt d\<rparr>"

definition toPaymentInformation :: "(string \<Rightarrow> uuid option) \<Rightarrow> PaymentInformationDoc \<Rightarrow> GPaymentInformation" where
  "toPaymentInformation parse d = \<lparr>gi_ID = parseUUID parse (inf_ID d), gi_PaymentMethod = inf_PaymentMethod d,
     gi_PublicMethodDetails = inf_PublicMethodDetails d, gi_UserID = parseUUID parse (inf_User d)\<rparr>"

definition toPaymentConnection :: "(string \<Rightarrow> uuid option) \<Rightarrow> PaymentDoc Connection \<Rightarrow> GPayment Connection" where
  "toPaymentConnection parse c = \<lparr>con_Nodes = map (toPayment parse) (con_Nodes c),
     con_TotalCount = con_TotalCount c, con_HasNextPage = con_HasNextPage c\<rparr>"

definition toPaymentInformationConnection ::
  "(string \<Rightarrow> uuid option) \<Rightarrow> PaymentInformationDoc Connection \<Rightarrow> GPaymentInformation Connection" where
  "toPaymentInformationConnection parse c = \<lparr>con_Nodes = map (toPaymentInformation parse) (con_Nodes c),
     con_TotalCount = con_TotalCount c, con_HasNextPage = con_HasNextPage c\<rparr>"

datatype pay_direction = PayAsc | PayDesc

definition sortDirection :: "pay_direction option \<Rightarrow> int" where
  "sortDirection d = (if d = Some PayDesc then - 1 else 1)"

text \<open>The only sort field is \<open>_id\<close>, so an order is its direction.\<close>

definition paymentSortField :: "pay_direction option option \<Rightarrow> int" where
  "paymentSortField o' = (case o' of None \<Rightarrow> 1 | Some d \<Rightarrow> sortDirection d)"

definition paymentInformationSortField :: "pay_direction option option \<Rightarrow> int" where
  "paymentInformationSortField o' = (case o' of None \<Rightarrow> 1 | Some d \<Rightarrow> sortDirection d)"

definition paymentFilterArgs :: "PaymentFilterArgs option \<Rightarrow> PaymentFilterArgs option" where
  "paymentFilterArgs f = (case f of None \<Rightarrow> None | Some q \<Rightarrow> Some \<lparr>pf_Status = pf_Status q,
     pf_PaymentInformationID = pf_PaymentInformationID q, pf_PaymentMethod = pf_PaymentMethod q,
     pf_From = pf_From q, pf_To = pf_To q\<rparr>)"

subsection \<open>Resolvers\<close>

definition require_role :: "ctx \<Rightarrow> string list \<Rightarrow> User payment_act" where
  "require_role c roles = (case RequireRole c roles of Inl e \<Rightarrow> fail (PayAuth e) | Inr u \<Rightarrow> ret u)"

record CreateCreditCardInformationInput =
  cci_CardHolder :: string
  cci_CardNumber :: string
  cci_ExpirationDate :: string

definition CreateCreditCardPaymentInformation ::
  "(uuid \<Rightarrow> string) \<Rightarrow> (string \<Rightarrow> uuid option) \<Rightarrow> ctx \<Rightarrow> CreateCreditCardInformationInput \<Rightarrow> GPaymentInformation payment_act" where
  "CreateCreditCardPaymentInformation str parse c input =
     andThen (require_role c [RoleBuyer]) (\<lambda>user.
     if \<not> isCreditCardValid (cci_CardNumber input) then fail InvalidCardNumber
     else andThen now (\<lambda>t.
     if \<not> isExpirationDateValid t (cci_ExpirationDate input) then fail InvalidExpiration
     else andThen new_uuid (\<lambda>i.
     andThen (CreatePaymentInformation \<lparr>inf_ID = str i, inf_PaymentMethod = methodCreditCard,
         inf_PublicMethodDetails = [(''cardHolder'', cci_CardHolder input),
           (''cardNumber'', maskCardNumber (cci_CardNumber input)), (''expirationDate'', cci_ExpirationDate input)],
         inf_SecretMethodDetails = [(''cardHolder'', cci_CardHolder input),
           (''cardNumber'', cci_CardNumber input), (''expirationDate'', cci_ExpirationDate input)],
         inf_User = str (user_ID user)\<rparr>) (\<lambda>created.
       ret (toPaymentInformation parse created)))))"

definition DeletePaymentInformation ::
  "(uuid \<Rightarrow> string) \<Rightarrow> (string \<Rightarrow> uuid option) \<Rightarrow> ctx \<Rightarrow> uuid \<Rightarrow> GPaymentInformation payment_act" where
  "DeletePaymentInformation str parse c i =
     andThen (require_role c [RoleAdmin, RoleEmployee, RoleBuyer]) (\<lambda>user.
     andThen (GetPaymentInformation (str i)) (\<lambda>_.
     if \<not> IsEmployeeOrAdmin (Some user) then fail (NotAuthorizedToDelete (str i))
     else andThen (Store_DeletePaymentInformation (str i)) (\<lambda>deleted. ret (toPaymentInformation parse deleted))))"

definition DeletePayment :: "(uuid \<Rightarrow> string) \<Rightarrow> (string \<Rightarrow> uuid option) \<Rightarrow> ctx \<Rightarrow> uuid \<Rightarrow> GPayment payment_act" where
  "DeletePayment str parse c i =
     andThen (require_role c [RoleAdmin]) (\<lambda>_.
     andThen (Store_DeletePayment (str i)) (\<lambda>deleted. ret (toPayment parse deleted)))"

definition Payment_PaymentInformation :: "(string \<Rightarrow> uuid option) \<Rightarrow> GPayment \<Rightarrow> GPaymentInformation payment_act" where
  "Payment_PaymentInformation parse obj =
     andThen (GetPaymentInformation (gp_PaymentInformationID obj)) (\<lambda>d. ret (toPaymentInformation parse d))"

definition PaymentInformation_Payments ::
  "(string \<Rightarrow> nat) \<Rightarrow> (uuid \<Rightarrow> string) \<Rightarrow> (string \<Rightarrow> uuid option) \<Rightarrow> ctx \<Rightarrow> GPaymentInformation \<Rightarrow> int option \<Rightarrow> int option \<Rightarrow>
     pay_direction option option \<Rightarrow> PaymentFilterArgs option \<Rightarrow> GPayment Connection payment_act" where
  "PaymentInformation_Payments rank str parse c obj skip first orderBy f =
     andThen (require_role c [RoleBuyer, RoleAdmin, RoleEmployee]) (\<lambda>user.
     if \<not> IsEmployeeOrAdmin (Some user) \<and> user_ID user \<noteq> gi_UserID obj then fail ForeignPayments
     else andThen (validatePagination skip first) (\<lambda>_.
       let base = (case paymentFilterArgs f of
             None \<Rightarrow> \<lparr>pf_Status = None, pf_PaymentInformationID = None, pf_PaymentMethod = None, pf_From = None, pf_To = None\<rparr>
           | Some q \<Rightarrow> q)
       in andThen (ListPayments rank (Some (base\<lparr>pf_PaymentInformationID := Some (str (gi_ID obj))\<rparr>)) first skip
            (paymentSortField orderBy)) (\<lambda>con. ret (toPaymentConnection parse con))))"

definition Query_PaymentInformations ::
  "(string \<Rightarrow> nat) \<Rightarrow> (uuid \<Rightarrow> string) \<Rightarrow> (string \<Rightarrow> uuid option) \<Rightarrow> ctx \<Rightarrow> int option \<Rightarrow> int option \<Rightarrow>
     pay_direction option option \<Rightarrow> (uuid option \<times> string option) option \<Rightarrow> GPaymentInformation Connection payment_act" where
  "Query_PaymentInformations rank str parse c skip first orderBy f =
     andThen (require_role c [RoleAdmin, RoleEmployee]) (\<lambda>_.
     andThen (validatePagination skip first) (\<lambda>_.
     andThen (ListPaymentInformations rank
         (case f of
            None \<Rightarrow> \<lparr>pif_UserScalar = None, pif_UserSubID = None, pif_PaymentMethod = None\<rparr>
          | Some (u, m) \<Rightarrow> \<lparr>pif_UserScalar = map_option str u, pif_UserSubID = None, pif_PaymentMethod = m\<rparr>)
         first skip (paymentInformationSortField orderBy)) (\<lambda>con.
       ret (toPaymentInformationConnection parse con))))"

definition Query_Payments ::
  "(string \<Rightarrow> nat) \<Rightarrow> (string \<Rightarrow> uuid option) \<Rightarrow> ctx \<Rightarrow> int option \<Rightarrow> int option \<Rightarrow> pay_direction option option \<Rightarrow>
     PaymentFilterArgs option \<Rightarrow> GPayment Connection payment_act" where
  "Query_Payments rank parse c skip first orderBy f =
     andThen (require_role c [RoleAdmin, RoleEmployee]) (\<lambda>_.
     andThen (validatePagination skip first) (\<lambda>_.
     andThen (ListPayments rank (paymentFilterArgs f) first skip (paymentSortField orderBy)) (\<lambda>con.
       ret (toPaymentConnection parse con))))"

definition User_PaymentInformations ::
  "(string \<Rightarrow> nat) \<Rightarrow> (uuid \<Rightarrow> string) \<Rightarrow> (string \<Rightarrow> uuid option) \<Rightarrow> ctx \<Rightarrow> uuid \<Rightarrow> int option \<Rightarrow> int option \<Rightarrow>
     pay_direction option option \<Rightarrow> string option \<Rightarrow> GPaymentInformation Connection payment_act" where
  "User_PaymentInformations rank str parse c objID skip first orderBy meth =
     andThen (require_role c [RoleBuyer, RoleAdmin, RoleEmployee]) (\<lambda>user.
     if \<not> IsEmployeeOrAdmin (Some user) \<and> user_ID user \<noteq> objID then fail ForeignInformations
     else andThen (validatePagination skip first) (\<lambda>_.
     andThen (ListPaymentInformations rank
         \<lparr>pif_UserScalar = None, pif_UserSubID = Some (str objID), pif_PaymentMethod = meth\<rparr>
         first skip (paymentInformationSortField orderBy)) (\<lambda>con.
       ret (toPaymentInformationConnection parse con))))"

definition FindPaymentByID :: "(uuid \<Rightarrow> string) \<Rightarrow> (string \<Rightarrow> uuid option) \<Rightarrow> uuid \<Rightarrow> GPayment payment_act" where
  "FindPaymentByID str parse i = andThen (GetPayment (str i)) (\<lambda>d. ret (toPayment parse d))"

definition FindPaymentInformationByID ::
  "(uuid \<Rightarrow> string) \<Rightarrow> (string \<Rightarrow> uuid option) \<Rightarrow> uuid \<Rightarrow> GPaymentInformation payment_act" where
  "FindPaymentInformationByID str parse i =
     andThen (GetPaymentInformation (str i)) (\<lambda>d. ret (toPaymentInformation parse d))"

end
