(* ===== verification/Payment_Cards.thy ===== *)
theory Payment_Cards
  imports Payment_Graph
begin

text \<open>
  What the credit-card checks of \<open>payment/graph/validation.go\<close> are good for: the errors the
  checksum finds, and the digits the mask hides.
\<close>

subsection \<open>The checksum\<close>

definition luhn_digit :: "bool \<Rightarrow> char \<Rightarrow> int" where
  "luhn_digit double c =
     (if double then (if 2 * digit_val c > 9 then 2 * digit_val c - 9 else 2 * digit_val c) else digit_val c)"

lemma luhn_sum_Cons [simp]: "luhn_sum double (c # cs) = luhn_digit double c + luhn_sum (\<not> double) cs"
  by (simp add: luhn_digit_def Let_def)

lemmas [simp del] = luhn_sum.simps(2)

lemma luhn_sum_append: "luhn_sum b (xs @ ys) = luhn_sum b xs + luhn_sum (b \<noteq> odd (length xs)) ys"
proof (induction xs arbitrary: b)
  case (Cons c xs)
  then show ?case by (cases b) (simp_all add: Cons.IH)
qed simp

lemma digit_range: "is_digit c \<Longrightarrow> 0 \<le> digit_val c \<and> digit_val c \<le> 9"
  by (simp add: is_digit_def digit_val_def Let_def)

lemma digit_val_inj: "digit_val c = digit_val c' \<longleftrightarrow> c = c'"
  by (simp add: digit_val_def)

text \<open>Doubling permutes the ten digits.\<close>

lemma luhn_digit_inj:
  assumes "is_digit c" "is_digit c'" "(luhn_digit b c - luhn_digit b c') mod 10 = 0"
  shows "c = c'"
proof -
  have "digit_val c = digit_val c'"
    using assms(3) digit_range [OF assms(1)] digit_range [OF assms(2)]
    by (auto simp: luhn_digit_def split: if_splits; presburger)
  then show ?thesis by (simp add: digit_val_inj)
qed

lemma luhn_digit_swap:
  assumes "is_digit c" "is_digit c'"
    and "(luhn_digit b c + luhn_digit (\<not> b) c' - luhn_digit b c' - luhn_digit (\<not> b) c) mod 10 = 0"
  shows "c = c' \<or> {digit_val c, digit_val c'} = {0, 9}"
proof -
  define gap where "gap = (\<lambda>c. luhn_digit True c - luhn_digit False c)"
  have gap: "gap c = (if digit_val c \<le> 4 then digit_val c else digit_val c - 9)" for c
    by (simp add: gap_def luhn_digit_def)
  have "(gap c - gap c') mod 10 = 0 \<or> (gap c' - gap c) mod 10 = 0"
    using assms(3) by (cases b) (simp_all add: gap_def algebra_simps)
  moreover have "\<bar>gap c - gap c'\<bar> < 10"
    using digit_range [OF assms(1)] digit_range [OF assms(2)] by (auto simp: gap abs_if)
  ultimately have "gap c = gap c'" by presburger
  then have "digit_val c = digit_val c' \<or> digit_val c = 0 \<and> digit_val c' = 9 \<or> digit_val c = 9 \<and> digit_val c' = 0"
    using digit_range [OF assms(1)] digit_range [OF assms(2)] by (auto simp: gap split: if_splits)
  then show ?thesis by (auto simp: digit_val_inj)
qed

text \<open>
  C11. The checksum finds every single mistyped digit of an accepted number, and every swap of two
  neighbouring digits but that of a 0 and a 9.
\<close>

theorem luhn_detects_errors:
  assumes "luhnValid (xs @ a # b # ys)" "is_digit a" "is_digit b" "is_digit x"
  shows "(x \<noteq> a \<longrightarrow> \<not> luhnValid (xs @ x # b # ys)) \<and> (x \<noteq> b \<longrightarrow> \<not> luhnValid (xs @ a # x # ys)) \<and>
    (a \<noteq> b \<longrightarrow> {a, b} \<noteq> {CHR ''0'', CHR ''9''} \<longrightarrow> \<not> luhnValid (xs @ b # a # ys))"
proof -
  define n where "n = odd (length ys)"
  define rest where "rest = luhn_sum False (rev ys) + luhn_sum n (rev xs)"
  have v: "luhnValid (xs @ u # w # ys) \<longleftrightarrow> (rest + (luhn_digit (\<not> n) u + luhn_digit n w)) mod 10 = 0" for u w
    by (simp add: luhnValid_def luhn_sum_append rest_def n_def algebra_simps)
  have d: "A mod 10 = 0 \<Longrightarrow> B mod 10 = 0 \<Longrightarrow> (A - B) mod 10 = 0" for A B :: int
    by presburger
  note valid = assms(1) [unfolded v]
  have 1: "x = a" if "luhnValid (xs @ x # b # ys)"
    using luhn_digit_inj [OF assms(4,2), of "\<not> n"] d [OF that [unfolded v] valid] by (simp add: algebra_simps)
  have 2: "x = b" if "luhnValid (xs @ a # x # ys)"
    using luhn_digit_inj [OF assms(4,3), of n] d [OF that [unfolded v] valid] by (simp add: algebra_simps)
  have 3: "a = b \<or> {digit_val a, digit_val b} = {0, 9}" if "luhnValid (xs @ b # a # ys)"
    using luhn_digit_swap [OF assms(2,3), of "\<not> n"] d [OF valid that [unfolded v]] by (simp add: algebra_simps)
  have "digit_val (CHR ''0'') = 0" "digit_val (CHR ''9'') = 9" by code_simp+
  then have "{digit_val a, digit_val b} = {0, 9} \<longleftrightarrow> {a, b} = {CHR ''0'', CHR ''9''}"
    unfolding doubleton_eq_iff by (metis digit_val_inj)
  then show ?thesis using 1 2 3 by blast
qed

lemma luhn_detects_errors_witness:
  "luhnValid ''4111111111111111'' \<and> \<not> luhnValid ''4211111111111111'' \<and> \<not> luhnValid ''1411111111111111''"
proof -
  have "luhnValid ([] @ CHR ''4'' # CHR ''1'' # ''11111111111111'')" by code_simp
  from luhn_detects_errors [OF this, of "CHR ''2''"] this show ?thesis
    by (simp add: is_digit_def doubleton_eq_iff)
qed

subsection \<open>The mask\<close>

text \<open>Five digits in a row.\<close>

fun digit_run :: "string \<Rightarrow> bool" where
  "digit_run [] \<longleftrightarrow> False"
| "digit_run (c # s) \<longleftrightarrow> 4 \<le> length s \<and> list_all is_digit (c # take 4 s) \<or> digit_run s"

lemma mask_no_run: "\<not> digit_run s \<Longrightarrow> maskCardNumber s = s"
  by (induction s) auto

text \<open>
  What the mask keeps: of a number written as digits only, exactly the last four; but a number
  without five digits in a row, such as one written in groups of four, is kept as it is.
\<close>

theorem maskCardNumber_keeps:
  "(list_all is_digit s \<longrightarrow> maskCardNumber s = replicate (length s - 4) (CHR ''*'') @ drop (length s - 4) s) \<and>
   (\<not> digit_run s \<longrightarrow> maskCardNumber s = s)"
proof -
  have "maskCardNumber s = replicate (length s - 4) (CHR ''*'') @ drop (length s - 4) s" if "list_all is_digit s"
    using that
  proof (induction s)
    case (Cons c s)
    show ?case
    proof (cases "4 \<le> length s")
      case True
      then have "length (c # s) - 4 = Suc (length s - 4)" by simp
      then show ?thesis using Cons True by (auto simp: list_all_iff dest: in_set_takeD)
    qed (use Cons in auto)
  qed simp
  then show ?thesis using mask_no_run by blast
qed

lemma maskCardNumber_keeps_witness:
  "maskCardNumber ''4111111111111111'' = ''************1111'' \<and> maskCardNumber ''4111 1111'' = ''4111 1111''"
proof -
  have 1: "list_all is_digit ''4111111111111111''" by code_simp
  have "maskCardNumber ''4111111111111111'' = ''************1111''"
    using maskCardNumber_keeps [of "''4111111111111111''"] 1 by (simp add: numeral_eq_Suc)
  moreover have "maskCardNumber ''4111 1111'' = ''4111 1111''" by code_simp
  ultimately show ?thesis by simp
qed

text \<open>
  A card number written in groups is stored in clear: whenever a buyer's credit card is
  accepted and its number, as typed, has no five digits in a row, the public details answered to
  every query hold the whole number.
\<close>

theorem grouped_number_is_public:
  assumes "CreateCreditCardPaymentInformation str parse c input s = (Inr g, s')" "\<not> digit_run (cci_CardNumber input)"
  shows "isCreditCardValid (cci_CardNumber input) \<and> (''cardNumber'', cci_CardNumber input) \<in> set (gi_PublicMethodDetails g) \<and>
    (\<exists>d \<in> set (paymentInformation s'). inf_PublicMethodDetails d = gi_PublicMethodDetails g)"
proof -
  obtain user s1 t s2 i s3 d s4 where u: "require_role c [RoleBuyer] s = (Inr user, s1)"
      and valid: "isCreditCardValid (cci_CardNumber input)" and t: "(now :: time payment_act) s1 = (Inr t, s2)"
      and i: "(new_uuid :: uuid payment_act) s2 = (Inr i, s3)"
      and ins: "CreatePaymentInformation \<lparr>inf_ID = str i, inf_PaymentMethod = methodCreditCard,
         inf_PublicMethodDetails = [(''cardHolder'', cci_CardHolder input),
           (''cardNumber'', maskCardNumber (cci_CardNumber input)), (''expirationDate'', cci_ExpirationDate input)],
         inf_SecretMethodDetails = [(''cardHolder'', cci_CardHolder input),
           (''cardNumber'', cci_CardNumber input), (''expirationDate'', cci_ExpirationDate input)],
         inf_User = str (user_ID user)\<rparr> s3 = (Inr d, s4)"
      and g: "(ret (toPaymentInformation parse d) :: GPaymentInformation payment_act) s4 = (Inr g, s')"
    using assms(1) unfolding CreateCreditCardPaymentInformation_def
    by (auto elim!: andThen_InrE simp: run_simps split: if_splits)
  from ins have d: "d \<in> set (paymentInformation s4)"
      "inf_PublicMethodDetails d = [(''cardHolder'', cci_CardHolder input),
         (''cardNumber'', maskCardNumber (cci_CardNumber input)), (''expirationDate'', cci_ExpirationDate input)]"
    unfolding CreatePaymentInformation_def by (auto elim!: andThen_InrE dest!: insert_one_Inr simp: run_simps)
  then show ?thesis
    using valid g mask_no_run [OF assms(2)] by (auto simp: run_simps toPaymentInformation_def)
qed

text \<open>A database with given payments, informations and open orders, whose clock stands in November 2023.\<close>

definition pay_db :: "PaymentDoc list \<Rightarrow> PaymentInformationDoc list \<Rightarrow> openOrderStore list \<Rightarrow> payment_db" where
  "pay_db ps infos os = \<lparr>faults = [], outbox = [], fresh = (\<lambda>n. UUID (of_nat n)), minted = 0,
     clock = (\<lambda>n. 1700000000 * 10 ^ 9), reads = 0, payments = ps, paymentInformation = infos, openOrders = os\<rparr>"

definition card_input :: CreateCreditCardInformationInput where
  "card_input = \<lparr>cci_CardHolder = ''A'', cci_CardNumber = ''4111 1111 1111 1111'', cci_ExpirationDate = ''12/30''\<rparr>"

lemma card_accepted: "isCreditCardValid (cci_CardNumber card_input)" "\<not> digit_run (cci_CardNumber card_input)"
    "isExpirationDateValid (1700000000 * 10 ^ 9) (cci_ExpirationDate card_input)"
    "RequireRole (Some \<lparr>user_ID = UUID 1, user_Roles = [''buyer'']\<rparr>) [RoleBuyer] = Inr \<lparr>user_ID = UUID 1, user_Roles = [''buyer'']\<rparr>"
  by code_simp+

lemma grouped_number_is_public_witness:
  "\<exists>g s'. CreateCreditCardPaymentInformation (\<lambda>u. ''u'') (\<lambda>s. None) (Some \<lparr>user_ID = UUID 1, user_Roles = [''buyer'']\<rparr>)
      card_input (pay_db [] [] []) = (Inr g, s') \<and> (''cardNumber'', ''4111 1111 1111 1111'') \<in> set (gi_PublicMethodDetails g)"
proof -
  obtain g s' where run: "CreateCreditCardPaymentInformation (\<lambda>u. ''u'') (\<lambda>s. None)
      (Some \<lparr>user_ID = UUID 1, user_Roles = [''buyer'']\<rparr>) card_input (pay_db [] [] []) = (Inr g, s')"
    using card_accepted by (simp add: CreateCreditCardPaymentInformation_def require_role_def run_andThen run_simps
        CreatePaymentInformation_def insert_one_def pay_db_def)
  from grouped_number_is_public [OF run card_accepted(2)] run show ?thesis by (auto simp: card_input_def)
qed

end
