(* ===== verification/Payment_Claims.thy ===== *)
theory Payment_Claims
  imports Payment_Cards
begin

text \<open>
  The properties of the payment service. The first part evaluates the store and the events when
  every call is answered; then come the saga (a started, a redelivered, a paid and an overdue
  payment), the retry rule over all runs of the service, and the credit-card numbers.
\<close>

subsection \<open>Answered calls\<close>

lemma read_quiet:
  assumes "faults s = []"
  shows "GetPaymentInformation i s =
      (case find (\<lambda>d. inf_ID d = i) (paymentInformation s) of None \<Rightarrow> (Inl (InformationNotFound i), s) | Some d \<Rightarrow> (Inr d, s))"
    and "GetPayment i s =
      (case find (\<lambda>d. pay_ID d = i) (payments s) of None \<Rightarrow> (Inl (PaymentNotFound i), s) | Some d \<Rightarrow> (Inr d, s))"
    and "FindOpenOrder i s =
      (case find (\<lambda>d. oo_PaymentID d = i) (openOrders s) of
         None \<Rightarrow> (Inl (OpenOrderNotFound i), s) | Some d \<Rightarrow> (Inr (oo_Order d), s))"
  using assms
  by (simp_all add: GetPaymentInformation_def GetPayment_def FindOpenOrder_def find_one_def run_andThen run_map_err
      run_simps not_found_def split: option.split)

lemma write_quiet:
  assumes "faults s = []"
  shows "CreateOpenOrder i ord s = (Inr (), s\<lparr>openOrders := openOrders s @ [\<lparr>oo_PaymentID = i, oo_Order = ord\<rparr>]\<rparr>)"
    and "DeleteOpenOrder i s = (Inr (), s\<lparr>openOrders := remove_first (\<lambda>d. oo_PaymentID d = i) (openOrders s)\<rparr>)"
    and "Store_UpdatePaymentStatus i st s =
      (let s1 = s\<lparr>reads := Suc (reads s)\<rparr> in
       case find (\<lambda>d. pay_ID d = i) (payments s) of
         None \<Rightarrow> (Inl (PaymentNotFound i), s1)
       | Some d \<Rightarrow> (Inr (set_status st (clock s (reads s)) d),
           s1\<lparr>payments := map_first (\<lambda>d. pay_ID d = i) (set_status st (clock s (reads s))) (payments s)\<rparr>))"
proof -
  have none: "find P xs = None \<Longrightarrow> remove_first P xs = xs" for P and xs :: "'a list"
    by (induction xs) (auto split: if_splits)
  show "DeleteOpenOrder i s = (Inr (), s\<lparr>openOrders := remove_first (\<lambda>d. oo_PaymentID d = i) (openOrders s)\<rparr>)"
    using assms none [of "\<lambda>d. oo_PaymentID d = i" "openOrders s"]
    by (auto simp: DeleteOpenOrder_def or_none_def find_one_and_delete_def run_andThen run_simps split: option.split)
qed (use assms in \<open>simp_all add: CreateOpenOrder_def insert_anon_def Store_UpdatePaymentStatus_def
      find_one_and_update_def run_andThen run_map_err run_simps not_found_def Let_def split: option.split\<close>)

lemma CreatePayment_quiet:
  assumes "faults s = []"
  shows "CreatePayment i info amount s =
    (let s1 = s\<lparr>reads := Suc (reads s)\<rparr>; t = bson_time (clock s (reads s)) in
     if i \<in> pay_ID ` set (payments s) then (Inl DuplicateId, s1)
     else (Inr (), s1\<lparr>payments := payments s @ [\<lparr>pay_ID = i, pay_TotalAmount = amount, pay_Status = ''OPEN'',
       pay_PaymentInformation = info, pay_PayedAt = None, pay_NumberOfRetries = 0, pay_CreatedAt = t, pay_UpdatedAt = t\<rparr>]\<rparr>))"
  using assms by (simp add: CreatePayment_def insert_one_def run_andThen run_simps Let_def)

lemma send_quiet:
  assumes "faults s = []"
  shows "send url req s = (Inr (), if url = [] then s else s\<lparr>outbox := outbox s @ [req]\<rparr>)"
    and "PublishPaymentEnabled ord s = (Inr (), s\<lparr>outbox := outbox s @ [PaymentEnabledEvent ord]\<rparr>)"
    and "PublishPaymentFailed ord s = (Inr (), s\<lparr>outbox := outbox s @ [PaymentFailedEvent ord]\<rparr>)"
    and "publishEnabledForPayment i s =
      (Inr (), case find (\<lambda>d. oo_PaymentID d = i) (openOrders s) of
         None \<Rightarrow> s | Some d \<Rightarrow> s\<lparr>outbox := outbox s @ [PaymentEnabledEvent (oo_Order d)]\<rparr>)"
    and "publishFailedForPayment i s =
      (Inr (), case find (\<lambda>d. oo_PaymentID d = i) (openOrders s) of
         None \<Rightarrow> s | Some d \<Rightarrow> s\<lparr>outbox := outbox s @ [PaymentFailedEvent (oo_Order d)]\<rparr>)"
  using assms
  by (simp_all add: send_def PublishPaymentEnabled_def PublishPaymentFailed_def publishEnabledForPayment_def
      publishFailedForPayment_def read_quiet run_andThen run_attempt run_simps split: option.split)

lemmas payment_quiet = read_quiet write_quiet CreatePayment_quiet send_quiet

lemma no_match:
  "k \<notin> key ` set xs \<Longrightarrow> find (\<lambda>d. key d = k) xs = None"
  "k \<notin> key ` set xs \<Longrightarrow> remove_first (\<lambda>d. key d = k) xs = xs"
  "k \<notin> key ` set xs \<Longrightarrow> map_first (\<lambda>d. key d = k) f xs = xs"
  by (induction xs) auto

lemma last_match:
  assumes "k \<notin> key ` set xs" "key x = k"
  shows "find (\<lambda>d. key d = k) (xs @ [x]) = Some x"
    and "remove_first (\<lambda>d. key d = k) (xs @ [x]) = xs"
    and "map_first (\<lambda>d. key d = k) f (xs @ [x]) = xs @ [f x]"
  using assms by (induction xs) auto

subsection \<open>The saga\<close>

text \<open>A payment as the saga starts it, in the status it has at the instants of its writes.\<close>

definition started :: "orderHeader \<Rightarrow> string \<Rightarrow> string \<Rightarrow> time \<Rightarrow> time \<Rightarrow> PaymentDoc" where
  "started hdr info st t1 t2 = \<lparr>pay_ID = oh_ID hdr, pay_TotalAmount = oh_CompensatableOrderAmount hdr, pay_Status = st,
     pay_PaymentInformation = info, pay_PayedAt = None, pay_NumberOfRetries = 0,
     pay_CreatedAt = bson_time t1, pay_UpdatedAt = bson_time t2\<rparr>"

definition wire_type :: "string \<Rightarrow> string" where
  "wire_type meth = (if meth = ''CREDIT_CARD'' then ''credit-card'' else if meth = ''PREPAYMENT'' then ''prepayment'' else ''invoice'')"

lemma start_run:
  assumes "faults s = []" "payload_parsed order = Some hdr" "url \<noteq> []"
    and "oh_ID hdr \<notin> pay_ID ` set (payments s)" "oh_ID hdr \<notin> oo_PaymentID ` set (openOrders s)"
    and "find (\<lambda>d. inf_ID d = oh_PaymentInformationID hdr) (paymentInformation s) = Some info"
    and "inf_PaymentMethod info \<in> {''CREDIT_CARD'', ''PREPAYMENT'', ''INVOICE''}"
  shows "StartPaymentProcess url order s = (Inr (), s\<lparr>reads := Suc (Suc (reads s)),
      payments := payments s @ [started hdr (inf_ID info) ''PENDING'' (clock s (reads s)) (clock s (Suc (reads s)))],
      openOrders := openOrders s @ [\<lparr>oo_PaymentID = oh_ID hdr, oo_Order = payload_raw order\<rparr>],
      outbox := outbox s @
        (if inf_PaymentMethod info = ''PREPAYMENT'' then [] else [PaymentEnabledEvent (payload_raw order)]) @
        [RegisterRequest (oh_ID hdr) (oh_CompensatableOrderAmount hdr) (wire_type (inf_PaymentMethod info))]\<rparr>)"
  using assms last_match(1,3) [OF assms(4)] last_match(1) [OF assms(5)]
  by (auto simp: StartPaymentProcess_def startPaymentProcess_def startProcessor_def run_andThen run_attempt run_simps
      payment_quiet Let_def payment_constants Register_def started_def set_status_def wire_type_def)

text \<open>
  C8. A validated order whose id has no payment yet, when every call is answered. Unknown payment
  information: nothing is stored and the failure is announced. A known method: a pending payment
  over the order's amount and its open order are stored, the payment is registered with the
  simulation, and, except for a prepayment, the order is announced as enabled right away.
\<close>

theorem startPayment_outcomes:
  assumes "faults s = []" "payload_parsed order = Some hdr" "url \<noteq> []"
    and "oh_ID hdr \<notin> pay_ID ` set (payments s)" "oh_ID hdr \<notin> oo_PaymentID ` set (openOrders s)"
  shows "case find (\<lambda>d. inf_ID d = oh_PaymentInformationID hdr) (paymentInformation s) of
      None \<Rightarrow> StartPaymentProcess url order s = (Inr (), s\<lparr>outbox := outbox s @ [PaymentFailedEvent (payload_raw order)]\<rparr>)
    | Some info \<Rightarrow> inf_PaymentMethod info \<in> {''CREDIT_CARD'', ''PREPAYMENT'', ''INVOICE''} \<longrightarrow>
        (\<exists>s'. StartPaymentProcess url order s = (Inr (), s') \<and>
          payments s' = payments s @ [started hdr (inf_ID info) ''PENDING'' (clock s (reads s)) (clock s (Suc (reads s)))] \<and>
          openOrders s' = openOrders s @ [\<lparr>oo_PaymentID = oh_ID hdr, oo_Order = payload_raw order\<rparr>] \<and>
          outbox s' = outbox s @
            (if inf_PaymentMethod info = ''PREPAYMENT'' then [] else [PaymentEnabledEvent (payload_raw order)]) @
            [RegisterRequest (oh_ID hdr) (oh_CompensatableOrderAmount hdr) (wire_type (inf_PaymentMethod info))])"
proof (cases "find (\<lambda>d. inf_ID d = oh_PaymentInformationID hdr) (paymentInformation s)")
  case None
  then show ?thesis
    using assms no_match(2) [OF assms(5)]
    by (simp add: StartPaymentProcess_def startPaymentProcess_def run_andThen run_attempt run_simps payment_quiet)
next
  case (Some info)
  then show ?thesis using assms by (simp add: start_run)
qed

lemma start_known:
  assumes "faults s = []" "payload_parsed order = Some hdr" "oh_ID hdr \<in> pay_ID ` set (payments s)"
    and "find (\<lambda>d. inf_ID d = oh_PaymentInformationID hdr) (paymentInformation s) = Some info"
  shows "StartPaymentProcess url order s = (Inr (), s\<lparr>reads := Suc (reads s),
      openOrders := remove_first (\<lambda>d. oo_PaymentID d = oh_ID hdr) (openOrders s),
      outbox := outbox s @ [PaymentFailedEvent (payload_raw order)]\<rparr>)"
  using assms
  by (simp add: StartPaymentProcess_def startPaymentProcess_def run_andThen run_attempt run_simps payment_quiet Let_def)

text \<open>
  Dapr delivers at least once, and a second delivery of the same validated order turns the
  saga against itself: the payment stays pending and can still be paid, but its open order is
  deleted and the order is announced as failed, after it was announced as enabled (except for a
  prepayment). When the prepayment is then paid, nothing is announced at all.
\<close>

theorem redelivered_order_fails:
  assumes "faults s = []" "payload_parsed order = Some hdr" "url \<noteq> []"
    and "oh_ID hdr \<notin> pay_ID ` set (payments s)" "oh_ID hdr \<notin> oo_PaymentID ` set (openOrders s)"
    and "find (\<lambda>d. inf_ID d = oh_PaymentInformationID hdr) (paymentInformation s) = Some info"
    and "inf_PaymentMethod info \<in> {''CREDIT_CARD'', ''PREPAYMENT'', ''INVOICE''}"
    and "StartPaymentProcess url order s = (r1, s1)" "StartPaymentProcess url order s1 = (r2, s2)"
  shows "payments s2 = payments s @ [started hdr (inf_ID info) ''PENDING'' (clock s (reads s)) (clock s (Suc (reads s)))] \<and>
    openOrders s2 = openOrders s \<and>
    outbox s2 = outbox s @
      (if inf_PaymentMethod info = ''PREPAYMENT'' then [] else [PaymentEnabledEvent (payload_raw order)]) @
      [RegisterRequest (oh_ID hdr) (oh_CompensatableOrderAmount hdr) (wire_type (inf_PaymentMethod info)),
       PaymentFailedEvent (payload_raw order)] \<and>
    outbox (snd (UpdatePaymentStatus url (oh_ID hdr) ''SUCCEEDED'' s2)) = outbox s2"
proof -
  define p where "p = started hdr (inf_ID info) ''PENDING'' (clock s (reads s)) (clock s (Suc (reads s)))"
  have p: "pay_ID p = oh_ID hdr" "pay_PaymentInformation p = inf_ID info" by (simp_all add: p_def started_def)
  note s1 = start_run [OF assms(1-7), folded p_def, unfolded assms(8), simplified]
  have "StartPaymentProcess url order s1 = (Inr (), s1\<lparr>reads := Suc (reads s1),
      openOrders := remove_first (\<lambda>d. oo_PaymentID d = oh_ID hdr) (openOrders s1),
      outbox := outbox s1 @ [PaymentFailedEvent (payload_raw order)]\<rparr>)"
    using assms(1,2,6) s1 p by (intro start_known) auto
  then have s2: "s2 = s1\<lparr>reads := Suc (reads s1), openOrders := openOrders s,
      outbox := outbox s1 @ [PaymentFailedEvent (payload_raw order)]\<rparr>"
    using assms(9) s1 last_match(2) [OF assms(5), of "\<lparr>oo_PaymentID = oh_ID hdr, oo_Order = payload_raw order\<rparr>"] by simp
  have same: "find (\<lambda>d. inf_ID d = inf_ID info) (paymentInformation s) = Some info"
    using find_Some_in [OF assms(6)] assms(6) by simp
  have "outbox (snd (UpdatePaymentStatus url (oh_ID hdr) ''SUCCEEDED'' s2)) = outbox s2"
    using assms(1,7) s1 s2 p same last_match(1) [OF assms(4) p(1)] no_match(1) [OF assms(5)]
    by (auto simp: UpdatePaymentStatus_def updateCreditCard_def updatePrepayment_def updateInvoice_def payment_constants
        run_andThen run_map_err run_simps payment_quiet Let_def)
  then show ?thesis using s1 s2 p_def by simp
qed

subsection \<open>Overdue payments\<close>

definition overdue :: "string \<Rightarrow> time \<Rightarrow> payment_db \<Rightarrow> PaymentDoc \<Rightarrow> bool" where
  "overdue meth to s d \<longleftrightarrow> pay_Status d = ''PENDING'' \<and> pay_CreatedAt d \<le> bson_time to \<and>
     (\<exists>info \<in> set (paymentInformation s). inf_PaymentMethod info = meth \<and> inf_ID info = pay_PaymentInformation d)"

definition open_order :: "payment_db \<Rightarrow> string \<Rightarrow> string option" where
  "open_order s i = map_option oo_Order (find (\<lambda>d. oo_PaymentID d = i) (openOrders s))"

text \<open>A payment up to the instant of its last update.\<close>

definition undated :: "PaymentDoc \<Rightarrow> PaymentDoc" where
  "undated d = d\<lparr>pay_UpdatedAt := 0\<rparr>"

lemma undated_eq: "undated x = undated y \<Longrightarrow> pay_ID x = pay_ID y \<and> pay_Status x = pay_Status y"
  by (cases x; cases y) (simp add: undated_def)

lemma FindPayments_quiet:
  assumes "faults s = []"
  shows "FindPaymentsByStatusMethod rank ''PENDING'' meth to s =
    (Inr (sort_key (\<lambda>d. int (rank (pay_ID d))) (filter (overdue meth to s) (payments s))), s)"
proof -
  have "(\<lambda>d. pay_Status d = ''PENDING'' \<and> Some (pay_PaymentInformation d) \<in> (\<lambda>d. Some (inf_ID d)) `
      set (filter (filterDoc \<lparr>pif_UserScalar = None, pif_UserSubID = None, pif_PaymentMethod = Some meth\<rparr>) (paymentInformation s)) \<and>
      pay_CreatedAt d \<le> bson_time to) = overdue meth to s"
    by (auto simp: fun_eq_iff overdue_def filterDoc_def image_iff)
  then show ?thesis
    using assms
    by (simp add: FindPaymentsByStatusMethod_def findPayments_def buildPaymentQuery_def buildAllowedFilterIDs_def
        findPaymentInformations_def run_andThen run_simps paged_def)
qed

definition fail_overdue :: "PaymentDoc \<Rightarrow> unit payment_act" where
  "fail_overdue payment =
     andThen (attempt (Store_UpdatePaymentStatus (pay_ID payment) statusFailed)) (\<lambda>_.
       publishFailedForPayment (pay_ID payment))"

lemma fail_overdue_run:
  assumes "faults s = []" "distinct (map pay_ID (payments s))"
  shows "\<exists>s'. fail_overdue d s = (Inr (), s') \<and> faults s' = [] \<and> openOrders s' = openOrders s \<and>
    map pay_ID (payments s') = map pay_ID (payments s) \<and>
    outbox s' = outbox s @ map PaymentFailedEvent (List.map_filter (open_order s) [pay_ID d]) \<and>
    map undated (payments s') = map (\<lambda>x. undated (if pay_ID x = pay_ID d then x\<lparr>pay_Status := ''FAILED''\<rparr> else x)) (payments s)"
proof -
  define new where "new = map_first (\<lambda>x. pay_ID x = pay_ID d) (set_status ''FAILED'' (clock s (reads s))) (payments s)"
  have new: "new = map_all (\<lambda>x. pay_ID x = pay_ID d) (set_status ''FAILED'' (clock s (reads s))) (payments s)"
    unfolding new_def by (rule map_first_eq_map_all [OF assms(2)])
  have "map pay_ID new = map pay_ID (payments s)"
    unfolding new_def by (rule map_map_first) (simp add: set_status_def)
  moreover have "map undated new = map (\<lambda>x. undated (if pay_ID x = pay_ID d then x\<lparr>pay_Status := ''FAILED''\<rparr> else x)) (payments s)"
    unfolding new by (auto simp: map_all_def undated_def set_status_def)
  moreover have "fail_overdue d s = (Inr (), (s\<lparr>reads := Suc (reads s), payments := new\<rparr>)\<lparr>outbox :=
      outbox s @ map PaymentFailedEvent (List.map_filter (open_order s) [pay_ID d])\<rparr>)"
    using assms(1) map_first_none [of "\<lambda>x. pay_ID x = pay_ID d" "payments s"]
    by (auto simp: fail_overdue_def run_andThen run_attempt payment_quiet Let_def payment_constants new_def
        open_order_def List.map_filter_def split: option.split)
  ultimately show ?thesis using assms(1) by auto
qed

lemma fail_all_run:
  assumes "faults s = []" "distinct (map pay_ID (payments s))"
  shows "\<exists>s'. each fail_overdue ps s = (Inr (), s') \<and> faults s' = [] \<and> openOrders s' = openOrders s \<and>
    outbox s' = outbox s @ map PaymentFailedEvent (List.map_filter (open_order s) (map pay_ID ps)) \<and>
    map undated (payments s') =
      map (\<lambda>x. undated (if pay_ID x \<in> pay_ID ` set ps then x\<lparr>pay_Status := ''FAILED''\<rparr> else x)) (payments s)"
  using assms
proof (induction ps arbitrary: s)
  case (Cons d ps)
  obtain s1 where one: "fail_overdue d s = (Inr (), s1)" "faults s1 = []" "openOrders s1 = openOrders s"
      "map pay_ID (payments s1) = map pay_ID (payments s)"
      "outbox s1 = outbox s @ map PaymentFailedEvent (List.map_filter (open_order s) [pay_ID d])"
      "map undated (payments s1) = map (\<lambda>x. undated (if pay_ID x = pay_ID d then x\<lparr>pay_Status := ''FAILED''\<rparr> else x)) (payments s)"
    using fail_overdue_run [OF Cons.prems] by metis
  have same: "open_order s1 = open_order s" by (rule ext) (simp add: open_order_def one(3))
  obtain s2 where two: "each fail_overdue ps s1 = (Inr (), s2)" "faults s2 = []" "openOrders s2 = openOrders s"
      "outbox s2 = outbox s1 @ map PaymentFailedEvent (List.map_filter (open_order s) (map pay_ID ps))"
      "map undated (payments s2) =
        map (\<lambda>x. undated (if pay_ID x \<in> pay_ID ` set ps then x\<lparr>pay_Status := ''FAILED''\<rparr> else x)) (payments s1)"
    using Cons.IH [of s1] one Cons.prems same by metis
  define mark where "mark = (\<lambda>X y. if pay_ID y \<in> X then y\<lparr>pay_Status := ''FAILED'', pay_UpdatedAt := 0\<rparr> else undated y)"
  have mark: "undated (if pay_ID x \<in> X then x\<lparr>pay_Status := ''FAILED''\<rparr> else x) = mark X (undated x)" for x X
    by (simp add: mark_def undated_def)
  have "map undated (payments s2) = map (mark (pay_ID ` set ps)) (map undated (payments s1))"
    using two(5) by (simp add: mark)
  also have "\<dots> = map (mark (pay_ID ` set ps)) (map (\<lambda>x. mark {pay_ID d} (undated x)) (payments s))"
    using one(6) mark [of _ "{pay_ID d}"] by simp
  also have "\<dots> = map (\<lambda>x. mark (pay_ID ` set (d # ps)) (undated x)) (payments s)"
    by (auto simp: mark_def undated_def)
  finally have "map undated (payments s2) =
      map (\<lambda>x. undated (if pay_ID x \<in> pay_ID ` set (d # ps) then x\<lparr>pay_Status := ''FAILED''\<rparr> else x)) (payments s)"
    unfolding mark .
  moreover have "outbox s2 = outbox s @ map PaymentFailedEvent (List.map_filter (open_order s) (map pay_ID (d # ps)))"
    using one(5) two(4) by (simp add: List.map_filter_def)
  ultimately show ?case using one(1) two(1-3) by (auto simp: run_andThen)
qed (simp add: run_simps List.map_filter_def)

text \<open>
  C10. The daily check of the overdue payments of a method, when every call is answered: exactly
  the pending payments of that method created at least the given days ago become failed (nothing
  else of any payment changes but the instant of the update), and for each of them with an open
  order, in the order of their ids, that order is announced as failed.
\<close>

theorem checkOpenPayments_exact:
  assumes "faults s = []" "keys_unique payments pay_ID s" "to = clock s (reads s) - days * 86400 * 10 ^ 9"
  shows "\<exists>s'. checkOpenPayments rank meth days s = (Inr (), s') \<and> openOrders s' = openOrders s \<and>
    map undated (payments s') =
      map (\<lambda>d. undated (if overdue meth to s d then d\<lparr>pay_Status := ''FAILED''\<rparr> else d)) (payments s) \<and>
    outbox s' = outbox s @ map PaymentFailedEvent (List.map_filter (\<lambda>d. open_order s (pay_ID d))
      (sort_key (\<lambda>d. int (rank (pay_ID d))) (filter (overdue meth to s) (payments s))))"
proof -
  let ?ps = "sort_key (\<lambda>d. int (rank (pay_ID d))) (filter (overdue meth to s) (payments s))"
  let ?s1 = "s\<lparr>reads := Suc (reads s)\<rparr>"
  have d: "distinct (map pay_ID (payments s))" using assms(2) by (simp add: keys_unique_def)
  have same: "overdue meth to ?s1 = overdue meth to s" "open_order ?s1 = open_order s"
    by (auto simp: fun_eq_iff overdue_def open_order_def)
  have run: "checkOpenPayments rank meth days s = each fail_overdue ?ps ?s1"
    using assms(1,3) FindPayments_quiet [of ?s1 rank meth to] same(1)
    by (simp add: checkOpenPayments_def xDaysBackFromNow_def run_andThen run_attempt run_simps statusPending_def
        fail_overdue_def [abs_def])
  have mem: "pay_ID x \<in> pay_ID ` set ?ps \<longleftrightarrow> overdue meth to s x" if "x \<in> set (payments s)" for x
    using d that by (auto simp: distinct_map inj_on_def)
  obtain s' where s': "each fail_overdue ?ps ?s1 = (Inr (), s')" "openOrders s' = openOrders s"
      "outbox s' = outbox s @ map PaymentFailedEvent (List.map_filter (open_order s) (map pay_ID ?ps))"
      "map undated (payments s') =
        map (\<lambda>x. undated (if pay_ID x \<in> pay_ID ` set ?ps then x\<lparr>pay_Status := ''FAILED''\<rparr> else x)) (payments s)"
    using fail_all_run [of ?s1 ?ps] assms(1) d same(2) by auto
  have "List.map_filter (open_order s) (map pay_ID xs) = List.map_filter (\<lambda>d. open_order s (pay_ID d)) xs" for xs :: "PaymentDoc list"
    by (induction xs) (simp_all add: List.map_filter_def)
  then show ?thesis using run s' mem by (auto cong: map_cong)
qed

text \<open>
  A prepayment that the customer paid in time is announced as enabled but stays pending, so
  the check seven days after its creation marks it as failed and announces the very same order as
  failed.
\<close>

theorem paid_prepayment_fails:
  assumes "faults s = []" "keys_unique payments pay_ID s"
    and "find (\<lambda>d. pay_ID d = i) (payments s) = Some d" "pay_Status d = ''PENDING''"
    and "find (\<lambda>x. inf_ID x = pay_PaymentInformation d) (paymentInformation s) = Some info"
    and "inf_PaymentMethod info = ''PREPAYMENT''" "open_order s i = Some ord"
    and "UpdatePaymentStatus url i ''SUCCEEDED'' s = (r, s1)"
    and "checkOpenPayments rank ''PREPAYMENT'' prepaymentOverdueDays s1 = (r2, s2)"
    and "pay_CreatedAt d \<le> bson_time (clock s (reads s) - 7 * 86400 * 10 ^ 9)"
  shows "payments s1 = payments s \<and> outbox s1 = outbox s @ [PaymentEnabledEvent ord] \<and>
    (\<exists>d' \<in> set (payments s2). pay_ID d' = i \<and> pay_Status d' = ''FAILED'') \<and>
    (\<exists>evs. outbox s2 = outbox s1 @ evs \<and> PaymentFailedEvent ord \<in> set evs)"
proof -
  obtain od where od: "find (\<lambda>x. oo_PaymentID x = i) (openOrders s) = Some od" "oo_Order od = ord"
    using assms(7) by (auto simp: open_order_def)
  have s1: "s1 = s\<lparr>outbox := outbox s @ [PaymentEnabledEvent ord]\<rparr>"
    using assms(1,3,5,6,8) od
    by (auto simp: UpdatePaymentStatus_def updatePrepayment_def payment_constants run_andThen run_map_err run_simps
        payment_quiet)
  let ?to = "clock s (reads s) - 7 * 86400 * 10 ^ 9"
  have d: "d \<in> set (payments s)" "pay_ID d = i" using find_Some_in [OF assms(3)] by auto
  have due: "overdue ''PREPAYMENT'' ?to s1 d"
    using assms(4,6,10) find_Some_in [OF assms(5)] by (auto simp: overdue_def s1)
  obtain s' where s': "checkOpenPayments rank ''PREPAYMENT'' 7 s1 = (Inr (), s')"
      "map undated (payments s') = map (\<lambda>d. undated (if overdue ''PREPAYMENT'' ?to s1 d
        then d\<lparr>pay_Status := ''FAILED''\<rparr> else d)) (payments s)"
      "outbox s' = outbox s1 @ map PaymentFailedEvent (List.map_filter (\<lambda>d. open_order s1 (pay_ID d))
        (sort_key (\<lambda>d. int (rank (pay_ID d))) (filter (overdue ''PREPAYMENT'' ?to s1) (payments s))))"
    using checkOpenPayments_exact [of s1 ?to 7 rank "''PREPAYMENT''"] assms(1,2) by (auto simp: s1 keys_unique_def)
  have s2: "s' = s2" using s'(1) assms(9) by (simp add: prepaymentOverdueDays_def)
  have "open_order s1 (pay_ID d) = Some ord" using assms(7) d by (simp add: s1 open_order_def)
  then have "ord \<in> set (List.map_filter (\<lambda>d. open_order s1 (pay_ID d))
      (sort_key (\<lambda>d. int (rank (pay_ID d))) (filter (overdue ''PREPAYMENT'' ?to s1) (payments s))))"
    unfolding List.map_filter_def using due d by (intro image_set [THEN equalityD1, THEN subsetD] image_eqI [of _ _ d]) auto
  then have "\<exists>evs. outbox s2 = outbox s1 @ evs \<and> PaymentFailedEvent ord \<in> set evs"
    unfolding s'(3) [unfolded s2] by auto
  moreover have "undated (d\<lparr>pay_Status := ''FAILED''\<rparr>) \<in> set (map undated (payments s2))"
    unfolding s'(2) [unfolded s2] set_map using due d(1) by (intro image_eqI [of _ _ d]) simp_all
  then obtain d' where d': "d' \<in> set (payments s2)" "undated (d\<lparr>pay_Status := ''FAILED''\<rparr>) = undated d'"
    unfolding set_map by (rule imageE)
  then have "pay_ID d' = i" "pay_Status d' = ''FAILED''"
    using undated_eq [OF d'(2)] d(2) by simp_all
  then have "\<exists>d' \<in> set (payments s2). pay_ID d' = i \<and> pay_Status d' = ''FAILED''" using d' by blast
  ultimately show ?thesis by (simp add: s1)
qed

subsection \<open>All runs of the service\<close>

text \<open>
  One step is one delivery, callback, request or scheduled check, run to its end, or the outside
  world choosing the outcomes of the calls to come.
\<close>

inductive payment_step ::
  "(string \<Rightarrow> nat) \<Rightarrow> (uuid \<Rightarrow> string) \<Rightarrow> (string \<Rightarrow> uuid option) \<Rightarrow> string \<Rightarrow> payment_db \<Rightarrow> payment_db \<Rightarrow> bool"
  for rank str parse url where
  script: "payment_step rank str parse url s (s\<lparr>faults := fs\<rparr>)"
| validated: "handleOrderValidationSucceeded url data s = (r, s') \<Longrightarrow> payment_step rank str parse url s s'"
| user_created: "handleUserCreated str u s = (r, s') \<Longrightarrow> payment_step rank str parse url s s'"
| callback: "updatePaymentStatusHandler url body s = (code, s') \<Longrightarrow> payment_step rank str parse url s s'"
| check: "checkOpenPayments rank meth days s = (r, s') \<Longrightarrow> payment_step rank str parse url s s'"
| create_card: "CreateCreditCardPaymentInformation str parse c input s = (ri, s') \<Longrightarrow> payment_step rank str parse url s s'"
| delete_info: "DeletePaymentInformation str parse c i s = (ri, s') \<Longrightarrow> payment_step rank str parse url s s'"
| delete_payment: "DeletePayment str parse c i s = (rp, s') \<Longrightarrow> payment_step rank str parse url s s'"
| info_of: "Payment_PaymentInformation parse p s = (ri, s') \<Longrightarrow> payment_step rank str parse url s s'"
| payments_of: "PaymentInformation_Payments rank str parse c inf' sk n ob f s = (rps, s') \<Longrightarrow> payment_step rank str parse url s s'"
| list_infos: "Query_PaymentInformations rank str parse c sk n ob fi s = (ris, s') \<Longrightarrow> payment_step rank str parse url s s'"
| list_payments: "Query_Payments rank parse c sk n ob f s = (rps, s') \<Longrightarrow> payment_step rank str parse url s s'"
| infos_of: "User_PaymentInformations rank str parse c i sk n ob m s = (ris, s') \<Longrightarrow> payment_step rank str parse url s s'"
| entity_payment: "FindPaymentByID str parse i s = (rp, s') \<Longrightarrow> payment_step rank str parse url s s'"
| entity_info: "FindPaymentInformationByID str parse i s = (ri, s') \<Longrightarrow> payment_step rank str parse url s s'"

definition payments_ok :: "payment_db \<Rightarrow> bool" where
  "payments_ok s \<longleftrightarrow> keys_unique payments pay_ID s \<and> keys_unique paymentInformation inf_ID s \<and>
     (\<forall>d \<in> set (payments s). pay_NumberOfRetries d = 0 \<and> (pay_Status d = ''SUCCEEDED'' \<longrightarrow> pay_PayedAt d \<noteq> None))"

interpretation payments_inv: table_invariant payments_ok
proof
  fix s t :: payment_db
  assume same: "io.more s = io.more t"
  show "payments_ok s = payments_ok t"
    by (simp add: payments_ok_def keys_unique_def payment_tables [OF same])
qed

lemma set_status_ok:
  assumes "payments_ok s"
  shows "payments_ok (payments_update (map_first P (set_status st t)) s)"
proof -
  have "map pay_ID (map_first P (set_status st t) (payments s)) = map pay_ID (payments s)"
    by (rule map_map_first) (simp add: set_status_def)
  moreover have "set (map_first P (set_status st t) (payments s)) \<subseteq> set (payments s) \<union> set_status st t ` set (payments s)"
    using set_map_first_subset [of P "set_status st t" "payments s"] by auto
  ultimately show ?thesis
    using assms by (force simp: payments_ok_def keys_unique_def set_status_def)
qed

lemma remove_ok:
  "payments_ok s \<Longrightarrow> payments_ok (payments_update (remove_first P) s)"
  "payments_ok s \<Longrightarrow> payments_ok (paymentInformation_update (remove_first Q) s)"
  using set_remove_first_subset [of P "payments s"]
  by (auto simp: payments_ok_def keys_unique_def distinct_remove_first)

lemma payments_store [guar_intros]:
  "guar (keeping payments_ok) (GetPaymentInformation i)" "guar (keeping payments_ok) (GetPayment p)"
  "guar (keeping payments_ok) (FindOpenOrder p)" "guar (keeping payments_ok) (DeleteOpenOrder p)"
  "guar (keeping payments_ok) (CreateOpenOrder p ord)" "guar (keeping payments_ok) (CreatePayment p ref amount)"
  "guar (keeping payments_ok) (Store_UpdatePaymentStatus p st)" "guar (keeping payments_ok) (Store_DeletePayment p)"
  "guar (keeping payments_ok) (Store_DeletePaymentInformation i)" "guar (keeping payments_ok) (CreatePaymentInformation d)"
  unfolding GetPaymentInformation_def GetPayment_def FindOpenOrder_def DeleteOpenOrder_def CreateOpenOrder_def
    CreatePayment_def Store_UpdatePaymentStatus_def Store_DeletePayment_def Store_DeletePaymentInformation_def
    CreatePaymentInformation_def
  by (intro guar_intros payments_inv.guar_insert_anon payments_inv.guar_keeping_insert_one
      payments_inv.guar_find_one_and_update payments_inv.guar_find_one_and_delete;
      auto simp: keeping_def set_status_ok remove_ok;
      auto simp: payments_ok_def keys_unique_def)+

lemma payments_lists [guar_intros]:
  "guar (keeping payments_ok) (findPaymentInformations rank f n sk dir)"
  "guar (keeping payments_ok) (countPaymentInformations f)"
  "guar (keeping payments_ok) (buildPaymentQuery rank q)"
  unfolding findPaymentInformations_def countPaymentInformations_def buildPaymentQuery_def buildAllowedFilterIDs_def
  by (intro guar_intros)+

lemma payments_service [guar_intros]:
  "guar (keeping payments_ok) (send url req)" "guar (keeping payments_ok) (publishEnabledForPayment i)"
  "guar (keeping payments_ok) (publishFailedForPayment i)" "guar (keeping payments_ok) (PublishPaymentFailed ord)"
  unfolding send_def publishEnabledForPayment_def publishFailedForPayment_def PublishPaymentEnabled_def
    PublishPaymentFailed_def
  by (intro guar_intros)+

lemma payments_requests:
  "guar (keeping payments_ok) (handleOrderValidationSucceeded url data)"
  "guar (keeping payments_ok) (handleUserCreated str u)" "guar (keeping payments_ok) (UpdatePaymentStatus url i st)"
  "guar (keeping payments_ok) (checkOpenPayments rank meth days)"
  "guar (keeping payments_ok) (CreateCreditCardPaymentInformation str parse c input)"
  "guar (keeping payments_ok) (DeletePaymentInformation str parse c j)"
  "guar (keeping payments_ok) (DeletePayment str parse c j)"
  "guar (keeping payments_ok) (Payment_PaymentInformation parse p)"
  "guar (keeping payments_ok) (PaymentInformation_Payments rank str parse c inf' sk n ob f)"
  "guar (keeping payments_ok) (Query_PaymentInformations rank str parse c sk n ob fi)"
  "guar (keeping payments_ok) (Query_Payments rank parse c sk n ob f)"
  "guar (keeping payments_ok) (User_PaymentInformations rank str parse c j sk n ob m)"
  "guar (keeping payments_ok) (FindPaymentByID str parse j)"
  "guar (keeping payments_ok) (FindPaymentInformationByID str parse j)"
  unfolding handleOrderValidationSucceeded_def StartPaymentProcess_def startPaymentProcess_def startProcessor_def
    Register_def Retry_def handleUserCreated_def AddDefaultPaymentInformations_def UpdatePaymentStatus_def
    updateCreditCard_def updatePrepayment_def updateInvoice_def checkOpenPayments_def xDaysBackFromNow_def
    FindPaymentsByStatusMethod_def findPayments_def CreateCreditCardPaymentInformation_def
    DeletePaymentInformation_def DeletePayment_def Payment_PaymentInformation_def PaymentInformation_Payments_def
    Query_PaymentInformations_def Query_Payments_def User_PaymentInformations_def FindPaymentByID_def
    FindPaymentInformationByID_def require_role_def validatePagination_def ListPayments_def countPayments_def
    ListPaymentInformations_def Let_def
  by (intro guar_intros)+

lemma payment_step_ok:
  assumes "payment_step rank str parse url s s'"
  shows "keeping payments_ok s s'"
  using assms
proof cases
  case (script fs)
  then show ?thesis using payments_inv.R_faults by simp
next
  case (callback body code)
  then show ?thesis
    using payments_inv.R_refl guarD [OF payments_requests(3)]
    by (auto simp: updatePaymentStatusHandler_def split: option.splits if_splits prod.splits sum.splits)
qed (erule guarD [OF payments_requests(1)] guarD [OF payments_requests(2)] guarD [OF payments_requests(4)]
    guarD [OF payments_requests(5)] guarD [OF payments_requests(6)] guarD [OF payments_requests(7)]
    guarD [OF payments_requests(8)] guarD [OF payments_requests(9)] guarD [OF payments_requests(10)]
    guarD [OF payments_requests(11)] guarD [OF payments_requests(12)] guarD [OF payments_requests(13)]
    guarD [OF payments_requests(14)])+

lemma payment_steps_ok: "(payment_step rank str parse url)\<^sup>*\<^sup>* s s' \<Longrightarrow> payments_ok s \<Longrightarrow> payments_ok s'"
  by (induction rule: rtranclp_induct) (auto dest: payment_step_ok simp: keeping_def)

text \<open>
  In every reachable state, whatever was asked, delivered or lost: ids of payments and of
  payment informations are unique, a payment that succeeded has its instant of payment, and the
  retry counter of every payment is still zero.
\<close>

theorem payments_stay_sound:
  assumes "(payment_step rank str parse url)\<^sup>*\<^sup>* s s'" "payments_ok s"
  shows "keys_unique payments pay_ID s' \<and> keys_unique paymentInformation inf_ID s' \<and>
    (\<forall>d \<in> set (payments s'). pay_NumberOfRetries d = 0 \<and> (pay_Status d = ''SUCCEEDED'' \<longrightarrow> pay_PayedAt d \<noteq> None))"
  using payment_steps_ok [OF assms] by (simp add: payments_ok_def)

lemma reads_only:
  "guar reading (GetPayment i)" "guar reading (GetPaymentInformation j)"
  "guar reading (map_err g (GetPaymentInformation j))"
  unfolding GetPayment_def GetPaymentInformation_def by (intro guar_intros)+

lemma GetPayment_run:
  "GetPayment i s = (Inr d, s') \<Longrightarrow> find (\<lambda>x. pay_ID x = i) (payments s) = Some d"
  unfolding GetPayment_def by (erule map_err_InrE) (drule find_one_run, simp, simp)

lemma GetPaymentInformation_run:
  "GetPaymentInformation i s = (Inr d, s') \<Longrightarrow> find (\<lambda>x. inf_ID x = i) (paymentInformation s) = Some d"
  unfolding GetPaymentInformation_def by (erule map_err_InrE) (drule find_one_run, simp, simp)

lemma Retry_run:
  "Retry url i ty s = (r, s') \<Longrightarrow> io.more s' = io.more s \<and> outbox s' \<in> {outbox s, outbox s @ [RetryRequest i ty]}"
  unfolding Retry_def send_def attempt_def
  by (cases "emit SendFailed (RetryRequest i ty) s")
    (auto simp: run_andThen run_simps split: if_splits elim!: emit_run)

text \<open>
  C9. A credit-card payment the simulation reports as failed is never recorded or announced as
  failed: in every reachable state and whatever fails, the callback leaves all payments, payment
  informations and open orders as they are and sends at most one more retry request.
\<close>

theorem card_failure_never_recorded:
  assumes "(payment_step rank str parse url)\<^sup>*\<^sup>* s0 s" "payments_ok s0"
    and "find (\<lambda>d. pay_ID d = i) (payments s) = Some d"
    and "find (\<lambda>x. inf_ID x = pay_PaymentInformation d) (paymentInformation s) = Some info"
    and "inf_PaymentMethod info = ''CREDIT_CARD''" "UpdatePaymentStatus url i ''FAILED'' s = (r, s')"
  shows "payments s' = payments s \<and> paymentInformation s' = paymentInformation s \<and> openOrders s' = openOrders s \<and>
    outbox s' \<in> {outbox s, outbox s @ [RetryRequest i ''credit-card'']}"
proof -
  have zero: "pay_NumberOfRetries d = 0"
    using payment_steps_ok [OF assms(1,2)] find_Some_in [OF assms(3)] by (simp add: payments_ok_def)
  have "io.more s' = io.more s \<and> outbox s' \<in> {outbox s, outbox s @ [RetryRequest i ''credit-card'']}"
  proof -
    obtain r1 s1 where g1: "GetPayment i s = (r1, s1)" by fastforce
    have m1: "io.more s1 = io.more s" "outbox s1 = outbox s"
      using guarD [OF reads_only(1) g1] by (auto simp: reading_def)
    show ?thesis
    proof (cases r1)
      case (Inl e)
      then show ?thesis using assms(6) g1 m1 by (simp add: UpdatePaymentStatus_def run_andThen)
    next
      case (Inr d1)
      then have d1: "d1 = d" using GetPayment_run g1 assms(3) by fastforce
      obtain r2 s2 where g2: "map_err (\<lambda>_. ReferenceNotFound) (GetPaymentInformation (pay_PaymentInformation d)) s1 = (r2, s2)"
        by fastforce
      have m2: "io.more s2 = io.more s" "outbox s2 = outbox s"
        using guarD [OF reads_only(3) g2] m1 by (auto simp: reading_def)
      have "r2 = Inr i2 \<Longrightarrow> i2 = info" for i2
        using g2 GetPaymentInformation_run [of _ s1] assms(4) payment_tables(2) [OF m1(1)]
        by (auto elim!: map_err_InrE)
      then have step: "r2 = Inr info \<and> updateCreditCard url i ''FAILED'' s2 = (r, s') \<or> s' = s2"
        using assms(5,6) g1 g2 Inr d1
        by (cases r2) (auto simp: UpdatePaymentStatus_def run_andThen methodCreditCard_def)
      obtain r3 s3 where g3: "GetPayment i s2 = (r3, s3)" by fastforce
      have m3: "io.more s3 = io.more s" "outbox s3 = outbox s"
        using guarD [OF reads_only(1) g3] m2 by (auto simp: reading_def)
      have r3: "r3 = Inr d3 \<Longrightarrow> pay_NumberOfRetries d3 = 0" for d3
        using GetPayment_run g3 assms(3) payment_tables(1) [OF m2(1)] zero by fastforce
      show ?thesis
      proof (cases "s' = s2")
        case False
        then have "s' = s3 \<or> (\<exists>rr. Retry url i ''credit-card'' s3 = (rr, s'))"
          using step r3 g3 by (cases r3)
            (auto simp: updateCreditCard_def statusFailed_def run_andThen run_simps split: prod.splits sum.splits)
        then show ?thesis using m3 by (auto dest!: Retry_run)
      qed (use m2 in simp)
    qed
  qed
  then show ?thesis using payment_tables by blast
qed

subsection \<open>Concrete runs\<close>

definition pay_info :: "string \<Rightarrow> PaymentInformationDoc" where
  "pay_info meth = \<lparr>inf_ID = ''i'', inf_PaymentMethod = meth, inf_PublicMethodDetails = [], inf_SecretMethodDetails = [],
     inf_User = ''u''\<rparr>"

definition pay_header :: orderHeader where
  "pay_header = \<lparr>oh_ID = ''o'', oh_PaymentInformationID = ''i'', oh_CompensatableOrderAmount = 700\<rparr>"

definition pay_order :: "orderHeader payload" where
  "pay_order = \<lparr>payload_raw = ''order'', payload_parsed = Some pay_header\<rparr>"

definition pay_doc :: "time \<Rightarrow> PaymentDoc" where
  "pay_doc t = started pay_header ''i'' ''PENDING'' t t"

lemmas pay_demo_defs = pay_db_def pay_info_def pay_header_def pay_order_def pay_doc_def started_def

lemma startPayment_outcomes_witness:
  "\<exists>s'. StartPaymentProcess ''sim'' pay_order (pay_db [] [pay_info ''PREPAYMENT''] []) = (Inr (), s') \<and>
    outbox s' = [RegisterRequest ''o'' 700 ''prepayment''] \<and> length (payments s') = 1"
  using startPayment_outcomes [of "pay_db [] [pay_info ''PREPAYMENT''] []" pay_order pay_header "''sim''"]
  by (auto simp: pay_demo_defs wire_type_def)

lemma redelivered_order_fails_witness:
  "outbox (snd (StartPaymentProcess ''sim'' pay_order (snd (StartPaymentProcess ''sim'' pay_order
      (pay_db [] [pay_info ''CREDIT_CARD''] []))))) =
    [PaymentEnabledEvent ''order'', RegisterRequest ''o'' 700 ''credit-card'', PaymentFailedEvent ''order'']"
  using redelivered_order_fails [OF _ _ _ _ _ _ _ prod.collapse [symmetric] prod.collapse [symmetric],
      of "pay_db [] [pay_info ''CREDIT_CARD''] []" pay_order pay_header "''sim''" "pay_info ''CREDIT_CARD''"]
  by (simp add: pay_demo_defs wire_type_def)

lemma checkOpenPayments_exact_witness:
  "\<exists>s'. checkOpenPayments (\<lambda>i. 0) ''INVOICE'' invoiceOverdueDays
      (pay_db [pay_doc 0] [pay_info ''INVOICE''] [\<lparr>oo_PaymentID = ''o'', oo_Order = ''order''\<rparr>]) = (Inr (), s') \<and>
    outbox s' = [PaymentFailedEvent ''order'']"
  using checkOpenPayments_exact [of "pay_db [pay_doc 0] [pay_info ''INVOICE''] [\<lparr>oo_PaymentID = ''o'', oo_Order = ''order''\<rparr>]"
      "1700000000 * 10 ^ 9 - 30 * 86400 * 10 ^ 9" invoiceOverdueDays "\<lambda>i. 0" "''INVOICE''"]
  by (auto simp: pay_demo_defs invoiceOverdueDays_def keys_unique_def overdue_def bson_time_def open_order_def
      List.map_filter_def)

lemma paid_prepayment_fails_witness:
  "\<exists>s1 s2. UpdatePaymentStatus ''sim'' ''o'' ''SUCCEEDED''
      (pay_db [pay_doc 0] [pay_info ''PREPAYMENT''] [\<lparr>oo_PaymentID = ''o'', oo_Order = ''order''\<rparr>]) = (Inr (), s1) \<and>
    checkOpenPayments (\<lambda>i. 0) ''PREPAYMENT'' prepaymentOverdueDays s1 = (Inr (), s2) \<and>
    outbox s1 = [PaymentEnabledEvent ''order''] \<and> PaymentFailedEvent ''order'' \<in> set (outbox s2)"
proof -
  let ?s = "pay_db [pay_doc 0] [pay_info ''PREPAYMENT''] [\<lparr>oo_PaymentID = ''o'', oo_Order = ''order''\<rparr>]"
  obtain s1 where run1: "UpdatePaymentStatus ''sim'' ''o'' ''SUCCEEDED'' ?s = (Inr (), s1)" "s1 = ?s\<lparr>outbox := [PaymentEnabledEvent ''order'']\<rparr>"
    by (simp add: UpdatePaymentStatus_def updatePrepayment_def payment_constants run_andThen run_map_err run_simps
        payment_quiet pay_demo_defs)
  obtain s2 where run2: "checkOpenPayments (\<lambda>i. 0) ''PREPAYMENT'' prepaymentOverdueDays s1 = (Inr (), s2)"
    using checkOpenPayments_exact [of s1 _ prepaymentOverdueDays "\<lambda>i. 0" "''PREPAYMENT''"] run1(2)
    by (auto simp: pay_db_def keys_unique_def)
  have "\<exists>evs. outbox s2 = outbox s1 @ evs \<and> PaymentFailedEvent ''order'' \<in> set evs"
    using paid_prepayment_fails [OF _ _ _ _ _ _ _ run1(1) run2, of "pay_doc 0" "pay_info ''PREPAYMENT''" "''order''"]
    by (auto simp: pay_demo_defs keys_unique_def open_order_def bson_time_def)
  then show ?thesis using run1 run2 by (auto simp: pay_db_def)
qed


lemma pay_demo_ok: "payments_ok (pay_db [pay_doc 0] [pay_info meth] os)"
  by (simp add: payments_ok_def keys_unique_def pay_demo_defs)

lemma payments_stay_sound_witness:
  "\<exists>s'. payment_step (\<lambda>i. 0) (\<lambda>u. ''x'') (\<lambda>t. None) ''sim'' (pay_db [pay_doc 0] [pay_info ''INVOICE''] []) s' \<and>
    (\<forall>d \<in> set (payments s'). pay_NumberOfRetries d = 0)"
proof -
  let ?s = "pay_db [pay_doc 0] [pay_info ''INVOICE''] []"
  obtain r s' where "checkOpenPayments (\<lambda>i. 0) ''INVOICE'' 30 ?s = (r, s')" by fastforce
  then have step: "payment_step (\<lambda>i. 0) (\<lambda>u. ''x'') (\<lambda>t. None) ''sim'' ?s s'" by (rule payment_step.check)
  then have "(payment_step (\<lambda>i. 0) (\<lambda>u. ''x'') (\<lambda>t. None) ''sim'')\<^sup>*\<^sup>* ?s s'" by blast
  from payments_stay_sound [OF this pay_demo_ok] step show ?thesis by blast
qed

lemma card_failure_never_recorded_witness:
  "payments (snd (UpdatePaymentStatus ''sim'' ''o'' ''FAILED'' (pay_db [pay_doc 0] [pay_info ''CREDIT_CARD''] []))) = [pay_doc 0]"
proof -
  let ?s = "pay_db [pay_doc 0] [pay_info ''CREDIT_CARD''] []"
  have "payments (snd (UpdatePaymentStatus ''sim'' ''o'' ''FAILED'' ?s)) = payments ?s"
    using card_failure_never_recorded [OF rtranclp.rtrancl_refl pay_demo_ok _ _ _ prod.collapse [symmetric],
        of "''o''" "''CREDIT_CARD''" "[]" "pay_doc 0" "pay_info ''CREDIT_CARD''" "''sim''"]
    by (simp add: pay_demo_defs)
  then show ?thesis by (simp add: pay_db_def)
qed

end
