(* ===== verification/Postgres.thy ===== *)
theory Postgres
  imports Collections
begin

text \<open>
  What the services on Postgres share: column types that refuse a value, inserts checked against
  the constraints of a table, and the page queries (\<open>COUNT\<close>, \<open>ORDER BY \<dots> OFFSET \<dots> LIMIT\<close>,
  \<open>EXISTS\<close>) that each service's \<open>pagination.go\<close> repeats. A query sees the tables through the
  function \<open>rows\<close>, which stands for its \<open>FROM\<close> and \<open>WHERE\<close>; the order columns with their shared
  direction are the key \<open>key\<close>, ending in the primary key, so that no two rows tie.
\<close>

subsection \<open>Column types\<close>

definition int4 :: "int \<Rightarrow> bool" where
  "int4 n \<longleftrightarrow> - (2 ^ 31) \<le> n \<and> n < 2 ^ 31"

definition int4_opt :: "int option \<Rightarrow> bool" where
  "int4_opt x \<longleftrightarrow> (case x of None \<Rightarrow> True | Some n \<Rightarrow> int4 n)"

definition int8 :: "int \<Rightarrow> bool" where
  "int8 n \<longleftrightarrow> - (2 ^ 63) \<le> n \<and> n < 2 ^ 63"

definition varchar :: "string \<Rightarrow> bool" where
  "varchar s \<longleftrightarrow> length s \<le> 255"

text \<open>Timestamps keep microseconds.\<close>

definition pg_time :: "time \<Rightarrow> time" where
  "pg_time t = t - t mod 1000"

subsection \<open>Inserts\<close>

text \<open>An insert whose row violates a constraint is a database error.\<close>

definition pg_insert ::
  "'e \<Rightarrow> (('ev, 'x) io_scheme \<Rightarrow> bool) \<Rightarrow> (('ev, 'x) io_scheme \<Rightarrow> ('ev, 'x) io_scheme) \<Rightarrow>
     (('ev, 'x) io_scheme, 'e, unit) act" where
  "pg_insert e ok put = ext e (\<lambda>s. if ok s then (Inr (), put s) else (Inl e, s))"

text \<open>An insert with the generated id returned.\<close>

definition pg_generated ::
  "'e \<Rightarrow> (uuid \<Rightarrow> ('ev, 'x) io_scheme \<Rightarrow> bool) \<Rightarrow> (uuid \<Rightarrow> ('ev, 'x) io_scheme \<Rightarrow> ('ev, 'x) io_scheme) \<Rightarrow>
     (('ev, 'x) io_scheme, 'e, uuid) act" where
  "pg_generated e ok put = ext e (\<lambda>s.
     let i = fresh s (minted s); s1 = s\<lparr>minted := Suc (minted s)\<rparr>
     in if ok i s1 then (Inr i, put i s1) else (Inl e, s1))"

lemma pg_insert_Inr:
  assumes "pg_insert e ok put s = (Inr (), s')"
  shows "\<exists>fs. ok (s\<lparr>faults := fs\<rparr>) \<and> s' = put (s\<lparr>faults := fs\<rparr>)"
  using assms unfolding pg_insert_def
  by (cases rule: ext_cases [of e "\<lambda>s. if ok s then (Inr (), put s) else (Inl e, s)" s]) (auto split: if_splits)

lemma pg_generated_Inr:
  assumes "pg_generated e ok put s = (Inr i, s')"
  shows "\<exists>fs. i = fresh s (minted s) \<and> ok i (s\<lparr>faults := fs, minted := Suc (minted s)\<rparr>) \<and>
    s' = put i (s\<lparr>faults := fs, minted := Suc (minted s)\<rparr>)"
  using assms unfolding pg_generated_def
  by (cases rule: ext_cases [of e "\<lambda>s. let i = fresh s (minted s); s1 = s\<lparr>minted := Suc (minted s)\<rparr>
        in if ok i s1 then (Inr i, put i s1) else (Inl e, s1)" s])
    (auto simp: Let_def split: if_splits)

text \<open>What an insert needs of the relation it is to keep.\<close>

context effect_rel
begin

lemma guar_pg_insert: "(\<And>s. ok s \<Longrightarrow> R s (put s)) \<Longrightarrow> guar R (pg_insert e ok put)"
  unfolding pg_insert_def by (intro guar_ext guarI) (simp add: R_refl)

lemma guar_pg_generated:
  "(\<And>i s. ok i s \<Longrightarrow> R s (put i s)) \<Longrightarrow> guar R (pg_generated e ok put)"
  unfolding pg_generated_def Let_def
  by (intro guar_ext guarI) (auto intro: R_minted R_trans [OF R_minted])

end

subsection \<open>Pages\<close>

record 'a PgConnection =
  con_Nodes :: "'a list"
  con_TotalCount :: int
  con_HasNextPage :: bool

text \<open>Postgres refuses a negative \<open>OFFSET\<close> or \<open>LIMIT\<close>.\<close>

definition totalCount :: "'e \<Rightarrow> (('ev, 'x) io_scheme \<Rightarrow> 'a list) \<Rightarrow> (('ev, 'x) io_scheme, 'e, int) act" where
  "totalCount e rows = ext e (gets (\<lambda>s. int (length (rows s))))"

definition nodesSQL ::
  "'e \<Rightarrow> (('ev, 'x) io_scheme \<Rightarrow> 'a list) \<Rightarrow> ('a \<Rightarrow> 'k :: linorder) \<Rightarrow> bool \<Rightarrow> int option \<Rightarrow> int option \<Rightarrow>
     (('ev, 'x) io_scheme, 'e, 'a list) act" where
  "nodesSQL e rows key asc first skip = ext e (\<lambda>s.
     let sorted' = sort_key key (rows s);
         dir = (if asc then sorted' else rev sorted');
         k = (case skip of None \<Rightarrow> 0 | Some n \<Rightarrow> n)
     in if k < 0 \<or> (case first of None \<Rightarrow> False | Some n \<Rightarrow> n < 0) then (Inl e, s)
        else (Inr ((case first of None \<Rightarrow> id | Some n \<Rightarrow> take (nat n)) (drop (nat k) dir)), s))"

definition pgHasNextPage ::
  "'e \<Rightarrow> (('ev, 'x) io_scheme \<Rightarrow> 'a list) \<Rightarrow> int option \<Rightarrow> int option \<Rightarrow> (('ev, 'x) io_scheme, 'e, bool) act" where
  "pgHasNextPage e rows first skip =
     (case first of
        None \<Rightarrow> ret False
      | Some n \<Rightarrow> ext e (\<lambda>s.
          let offset = i64 (n + (case skip of None \<Rightarrow> 0 | Some k \<Rightarrow> k))
          in if offset < 0 then (Inl e, s) else (Inr (offset < int (length (rows s))), s)))"

definition pgList ::
  "'e \<Rightarrow> (('ev, 'x) io_scheme \<Rightarrow> 'a list) \<Rightarrow> ('a \<Rightarrow> 'k :: linorder) \<Rightarrow> int option \<Rightarrow> int option \<Rightarrow> bool \<Rightarrow>
     (('ev, 'x) io_scheme, 'e, 'a PgConnection) act" where
  "pgList e rows key first skip asc =
     andThen (totalCount e rows) (\<lambda>total.
     andThen (nodesSQL e rows key asc first skip) (\<lambda>nodes.
     andThen (pgHasNextPage e rows first skip) (\<lambda>next'.
       ret \<lparr>con_Nodes = nodes, con_TotalCount = total, con_HasNextPage = next'\<rparr>)))"

text \<open>Pages only read.\<close>

context effect_rel
begin

lemma guar_pgList [guar_intros]: "guar R (pgList e rows key first skip asc)"
  unfolding pgList_def totalCount_def nodesSQL_def pgHasNextPage_def Let_def
  by (intro guar_intros guarI) (auto simp: R_refl)

end

text \<open>A page mapped to the GraphQL connection, and the direction of an order.\<close>

definition map_connection :: "('a \<Rightarrow> 'b) \<Rightarrow> 'a PgConnection \<Rightarrow> 'b PgConnection" where
  "map_connection f c = \<lparr>con_Nodes = map f (con_Nodes c), con_TotalCount = con_TotalCount c,
     con_HasNextPage = con_HasNextPage c\<rparr>"

datatype OrderDirectionD = DirAsc | DirDesc

end
