(* ===== verification/Shipment_Store.thy ===== *)
theory Shipment_Store
  imports Postgres Auth Go_Float
begin

text \<open>
  \<open>shipment/store\<close>: the Postgres tables of the shipment service as lists of rows in scan order
  (for \<open>addressentity\<close> also the order of its serial column), with the constraints of the
  migration: primary keys, foreign keys, 32-bit integers and 255-character strings. An id the
  database generates is a fresh id of the script.
\<close>

subsection \<open>Rows\<close>

record ShipmentMethod =
  sm_ID :: uuid
  sm_Name :: string
  sm_Description :: string
  sm_ExternalReference :: string
  sm_BaseFees :: int
  sm_FeesPerItem :: int
  sm_FeesPerKg :: int
  sm_ArchivedAt :: "time option"

record Shipment =
  sh_ID :: uuid
  sh_Status :: string
  sh_ShipmentMethodID :: uuid
  sh_ShipmentAddressID :: uuid
  sh_OrderID :: "uuid option"
  sh_ReturnID :: "uuid option"

record OrderItemRow =
  it_ID :: uuid
  it_SentWithID :: uuid
  it_ProductVariantVersionID :: uuid
  it_Quantity :: int

record AddressRow =
  ad_ID :: uuid
  ad_UserID :: "uuid option"
  ad_Street1 :: string
  ad_Street2 :: string
  ad_City :: string
  ad_PostalCode :: string
  ad_Country :: string
  ad_CompanyName :: "string option"

record PvvRow =
  wv_ID :: uuid
  wv_Weight :: f64

datatype shipment_err =
    ShDbError
  | QuantityNotPositive
  | VersionsInvalid
  | MethodsInvalid
  | NoMethodsAvailable
  | NoVendorAddress
  | AddressMissing
  | AddressNotFound uuid
  | MethodNotFound uuid
  | ShipmentNotFound uuid
  | NoShipmentForReturn uuid
  | OrderXorReturn
  | NoOrderItems
  | ShPublishFailed
  | ProviderFailed
  | BadEvent
  | UnknownVariable string
  | NotAnInteger
  | ShUnauthorized
  | ShNotEmployee uuid

text \<open>What leaves the service: the events and the POSTs to the external provider.\<close>

record ShipmentCreatedDTO =
  scd_ID :: uuid
  scd_OrderID :: "uuid option"
  scd_ReturnID :: "uuid option"
  scd_Status :: string
  scd_OrderItemIDs :: "uuid list"
  scd_ShipmentMethodID :: uuid
  scd_ShipmentAddressID :: uuid

record ShipmentCreationFailedDTO =
  sfd_OrderID :: "uuid option"
  sfd_ReturnID :: "uuid option"
  sfd_OrderItemIDs :: "uuid list"
  sfd_ShipmentMethodID :: uuid
  sfd_ShipmentAddressID :: uuid
  sfd_Reason :: shipment_err

record ShipmentStatusUpdatedDTO =
  ssu_ID :: uuid
  ssu_OrderItemIDs :: "uuid list"
  ssu_OrderID :: "uuid option"
  ssu_ReturnID :: "uuid option"
  ssu_Status :: string

record ShipmentDefinition =
  def_ShipmentID :: uuid
  def_Ref :: string
  def_Quantity :: int
  def_Weight :: f64
  def_Address :: AddressRow

datatype shipment_event =
    ShipmentMethodCreated ShipmentMethod
  | ShipmentMethodArchived uuid
  | ShipmentCreated ShipmentCreatedDTO
  | ShipmentCreationFailed ShipmentCreationFailedDTO
  | ShipmentStatusUpdated ShipmentStatusUpdatedDTO
  | ProviderPost ShipmentDefinition

text \<open>\<open>ecs.Config\<close> is part of the service's state.\<close>

record shipment_db = "shipment_event io" +
  methodRows :: "ShipmentMethod list"
  shipmentRows :: "Shipment list"
  itemRows :: "OrderItemRow list"
  addressRows :: "AddressRow list"
  versionRows :: "PvvRow list"
  linkRows :: "(uuid \<times> uuid) list"
  ecs_ProviderRetries :: int
  ecs_ProviderRetryDelay :: int

type_synonym 'a shipment_act = "(shipment_db, shipment_err, 'a) act"

abbreviation insert_row ::
  "(shipment_db \<Rightarrow> bool) \<Rightarrow> (shipment_db \<Rightarrow> shipment_db) \<Rightarrow> unit shipment_act" where
  "insert_row \<equiv> pg_insert ShDbError"

abbreviation insert_generated ::
  "(uuid \<Rightarrow> shipment_db \<Rightarrow> bool) \<Rightarrow> (uuid \<Rightarrow> shipment_db \<Rightarrow> shipment_db) \<Rightarrow> uuid shipment_act" where
  "insert_generated \<equiv> pg_generated ShDbError"

abbreviation shList ::
  "(shipment_db \<Rightarrow> 'a list) \<Rightarrow> ('a \<Rightarrow> uuid) \<Rightarrow> int option \<Rightarrow> int option \<Rightarrow> bool \<Rightarrow> 'a PgConnection shipment_act" where
  "shList \<equiv> pgList ShDbError"

subsection \<open>Shipment methods\<close>

definition GetShipmentMethod :: "uuid \<Rightarrow> ShipmentMethod shipment_act" where
  "GetShipmentMethod i = find_one ShDbError (MethodNotFound i) methodRows (\<lambda>m. sm_ID m = i)"

definition FindShipmentMethodsByIDs :: "uuid list \<Rightarrow> ShipmentMethod list shipment_act" where
  "FindShipmentMethodsByIDs ids =
     (if ids = [] then ret [] else find_all ShDbError methodRows (\<lambda>m. sm_ID m \<in> set ids))"

definition FindAllShipmentMethods :: "ShipmentMethod list shipment_act" where
  "FindAllShipmentMethods = find_all ShDbError methodRows (\<lambda>m. True)"

definition ListShipmentMethods ::
  "int option \<Rightarrow> int option \<Rightarrow> bool \<Rightarrow> bool option \<Rightarrow> ShipmentMethod PgConnection shipment_act" where
  "ListShipmentMethods first skip asc isArchived =
     shList (\<lambda>s. filter (\<lambda>m. case isArchived of None \<Rightarrow> True | Some b \<Rightarrow> (sm_ArchivedAt m \<noteq> None) = b) (methodRows s))
       sm_ID first skip asc"

definition CreateShipmentMethodRow ::
  "string \<Rightarrow> string \<Rightarrow> string \<Rightarrow> int \<Rightarrow> int \<Rightarrow> int \<Rightarrow> ShipmentMethod shipment_act" where
  "CreateShipmentMethodRow name description externalReference baseFees feesPerItem feesPerKg =
     (let row = (\<lambda>i. \<lparr>sm_ID = i, sm_Name = name, sm_Description = description, sm_ExternalReference = externalReference,
            sm_BaseFees = baseFees, sm_FeesPerItem = feesPerItem, sm_FeesPerKg = feesPerKg, sm_ArchivedAt = None\<rparr>)
      in andThen (insert_generated
             (\<lambda>i s. varchar name \<and> varchar description \<and> varchar externalReference \<and> int4 baseFees \<and>
                int4 feesPerItem \<and> int4 feesPerKg \<and> i \<notin> sm_ID ` set (methodRows s))
             (\<lambda>i. methodRows_update (\<lambda>rows. rows @ [row i])))
           (\<lambda>i. ret (row i)))"

definition ArchiveShipmentMethodRow :: "uuid \<Rightarrow> time \<Rightarrow> ShipmentMethod shipment_act" where
  "ArchiveShipmentMethodRow i t = find_one_and_update ShDbError (MethodNotFound i) methodRows methodRows_update
     (\<lambda>m. sm_ID m = i) (\<lambda>m. m\<lparr>sm_ArchivedAt := Some (pg_time t)\<rparr>)"

subsection \<open>Shipments\<close>

definition GetShipment :: "uuid \<Rightarrow> Shipment shipment_act" where
  "GetShipment i = find_one ShDbError (ShipmentNotFound i) shipmentRows (\<lambda>x. sh_ID x = i)"

definition FindShipmentByReturnID :: "uuid \<Rightarrow> Shipment shipment_act" where
  "FindShipmentByReturnID i = find_one ShDbError (NoShipmentForReturn i) shipmentRows (\<lambda>x. sh_ReturnID x = Some i)"

definition ListShipmentsForOrder ::
  "uuid \<Rightarrow> int option \<Rightarrow> int option \<Rightarrow> bool \<Rightarrow> string option \<Rightarrow> Shipment PgConnection shipment_act" where
  "ListShipmentsForOrder order first skip asc st =
     shList (\<lambda>s. filter (\<lambda>x. sh_OrderID x = Some order \<and> (case st of None \<Rightarrow> True | Some n \<Rightarrow> sh_Status x = n)) (shipmentRows s))
       sh_ID first skip asc"

definition CreateShipmentRow ::
  "string \<Rightarrow> uuid \<Rightarrow> uuid \<Rightarrow> uuid option \<Rightarrow> uuid option \<Rightarrow> uuid shipment_act" where
  "CreateShipmentRow st meth address order return' = insert_generated
     (\<lambda>i s. varchar st \<and> i \<notin> sh_ID ` set (shipmentRows s) \<and> meth \<in> sm_ID ` set (methodRows s) \<and>
        address \<in> ad_ID ` set (addressRows s))
     (\<lambda>i. shipmentRows_update (\<lambda>rows. rows @ [\<lparr>sh_ID = i, sh_Status = st, sh_ShipmentMethodID = meth,
        sh_ShipmentAddressID = address, sh_OrderID = order, sh_ReturnID = return'\<rparr>]))"

definition UpdateShipmentStatusRow :: "uuid \<Rightarrow> string \<Rightarrow> Shipment shipment_act" where
  "UpdateShipmentStatusRow i st = find_one_and_update ShDbError (ShipmentNotFound i) shipmentRows shipmentRows_update
     (\<lambda>x. sh_ID x = i) (\<lambda>x. x\<lparr>sh_Status := st\<rparr>)"

subsection \<open>Order items and their shipments\<close>

definition GetOrderItemRow :: "uuid \<Rightarrow> OrderItemRow option shipment_act" where
  "GetOrderItemRow i = ext ShDbError (gets (\<lambda>s. find (\<lambda>x. it_ID x = i) (itemRows s)))"

definition FindOrderItemsByIDs :: "uuid list \<Rightarrow> OrderItemRow list shipment_act" where
  "FindOrderItemsByIDs ids =
     (if ids = [] then ret [] else find_all ShDbError itemRows (\<lambda>x. it_ID x \<in> set ids))"

text \<open>\<open>ON CONFLICT DO NOTHING\<close>\<close>

definition CreateOrderItem :: "uuid \<Rightarrow> uuid \<Rightarrow> uuid \<Rightarrow> int \<Rightarrow> unit shipment_act" where
  "CreateOrderItem i sentWith version quantity = insert_row
     (\<lambda>s. int4 quantity \<and> (i \<in> it_ID ` set (itemRows s) \<or> sentWith \<in> sh_ID ` set (shipmentRows s)))
     (\<lambda>s. if i \<in> it_ID ` set (itemRows s) then s
        else s\<lparr>itemRows := itemRows s @ [\<lparr>it_ID = i, it_SentWithID = sentWith,
          it_ProductVariantVersionID = version, it_Quantity = quantity\<rparr>]\<rparr>)"

definition CreateShipmentToOrderItem :: "uuid \<Rightarrow> uuid \<Rightarrow> unit shipment_act" where
  "CreateShipmentToOrderItem shipment item = insert_row
     (\<lambda>s. shipment \<in> sh_ID ` set (shipmentRows s) \<and> item \<in> it_ID ` set (itemRows s))
     (linkRows_update (\<lambda>ls. ls @ [(shipment, item)]))"

definition FindOrderItemIDsByShipmentID :: "uuid \<Rightarrow> uuid list shipment_act" where
  "FindOrderItemIDsByShipmentID i = ext ShDbError (gets (\<lambda>s. map snd (filter (\<lambda>l. fst l = i) (linkRows s))))"

definition ListSentItems ::
  "uuid \<Rightarrow> int option \<Rightarrow> int option \<Rightarrow> bool \<Rightarrow> OrderItemRow PgConnection shipment_act" where
  "ListSentItems shipment first skip asc =
     shList (\<lambda>s. concat (map (\<lambda>it. map (\<lambda>l. it) (filter (\<lambda>l. l = (shipment, it_ID it)) (linkRows s))) (itemRows s)))
       it_ID first skip asc"

subsection \<open>Addresses and product variant versions\<close>

definition GetAddress :: "uuid \<Rightarrow> AddressRow shipment_act" where
  "GetAddress i = find_one ShDbError (AddressNotFound i) addressRows (\<lambda>x. ad_ID x = i)"

definition AddressExists :: "uuid \<Rightarrow> bool shipment_act" where
  "AddressExists i = ext ShDbError (gets (\<lambda>s. i \<in> ad_ID ` set (addressRows s)))"

definition FindCurrentVendorAddress :: "AddressRow option shipment_act" where
  "FindCurrentVendorAddress = ext ShDbError (gets (\<lambda>s. find (\<lambda>x. ad_UserID x = None) (rev (addressRows s))))"

definition CreateAddress :: "AddressRow \<Rightarrow> unit shipment_act" where
  "CreateAddress a = insert_row
     (\<lambda>s. ad_ID a \<notin> ad_ID ` set (addressRows s) \<and> list_all varchar
        [ad_Street1 a, ad_Street2 a, ad_City a, ad_PostalCode a, ad_Country a] \<and>
        (case ad_CompanyName a of None \<Rightarrow> True | Some n \<Rightarrow> varchar n))
     (addressRows_update (\<lambda>rows. rows @ [a]))"

definition FindProductVariantVersionsByIDs :: "uuid list \<Rightarrow> PvvRow list shipment_act" where
  "FindProductVariantVersionsByIDs ids =
     (if ids = [] then ret [] else find_all ShDbError versionRows (\<lambda>p. wv_ID p \<in> set ids))"

definition CreateProductVariantVersion :: "uuid \<Rightarrow> f64 \<Rightarrow> unit shipment_act" where
  "CreateProductVariantVersion i weight =
     insert_one ShDbError ShDbError versionRows versionRows_update wv_ID \<lparr>wv_ID = i, wv_Weight = weight\<rparr>"

end
