(* ===== verification/Shipment.thy ===== *)
theory Shipment
  imports Shipment_Store
begin

text \<open>
  \<open>shipment/service\<close>, \<open>shipment/provider\<close>, \<open>shipment/ecs\<close> and \<open>shipment/handlers\<close>: fees,
  the create-shipment saga with the provider's retry loop, the status callback and the event
  handlers. \<open>oob\<close> is what the machine yields for an out-of-range float conversion. A request's
  context is never cancelled.
\<close>

subsection \<open>Fees\<close>

record ItemWithQuantity =
  iq_ProductVariantVersionID :: uuid
  iq_Quantity :: int

record ItemWithQuantityAndMethod = ItemWithQuantity +
  iq_ShipmentMethodID :: uuid

definition CalculateFees :: "(f64 \<Rightarrow> int) \<Rightarrow> ShipmentMethod \<Rightarrow> int \<Rightarrow> f64 \<Rightarrow> int" where
  "CalculateFees oob m quantity weight =
     i64 (i64 (sm_BaseFees m + i64 (quantity * sm_FeesPerItem m)) +
       f64_to_int oob (f64_mul weight (f64_of_int (sm_FeesPerKg m))))"

text \<open>The map of the weights; a later row of an id overwrites an earlier one.\<close>

definition weightByID :: "PvvRow list \<Rightarrow> uuid \<Rightarrow> f64 option" where
  "weightByID pvvs = map_of (map (\<lambda>p. (wv_ID p, wv_Weight p)) (rev pvvs))"

definition add_weight :: "(uuid \<Rightarrow> f64 option) \<Rightarrow> f64 \<Rightarrow> ItemWithQuantity \<Rightarrow> f64" where
  "add_weight weights w it =
     f64_add w (f64_mul (the (weights (iq_ProductVariantVersionID it))) (f64_of_int (iq_Quantity it)))"

definition CalculateQuantityAndWeight :: "ItemWithQuantity list \<Rightarrow> (int \<times> f64) shipment_act" where
  "CalculateQuantityAndWeight items =
     (if list_ex (\<lambda>it. iq_Quantity it \<le> 0) items then fail QuantityNotPositive
      else andThen (FindProductVariantVersionsByIDs (map iq_ProductVariantVersionID items)) (\<lambda>pvvs.
        let weights = weightByID pvvs
        in if list_ex (\<lambda>it. weights (iq_ProductVariantVersionID it) = None) items then fail VersionsInvalid
           else ret (foldl (\<lambda>q it. i64 (q + iq_Quantity it)) 0 items, foldl (add_weight weights) (Fin 0 0) items)))"

definition groupOf :: "ItemWithQuantityAndMethod list \<Rightarrow> uuid \<Rightarrow> ItemWithQuantity list" where
  "groupOf items m = map (\<lambda>it. \<lparr>iq_ProductVariantVersionID = iq_ProductVariantVersionID it, iq_Quantity = iq_Quantity it\<rparr>)
     (filter (\<lambda>it. iq_ShipmentMethodID it = m) items)"

fun sumFees ::
  "(f64 \<Rightarrow> int) \<Rightarrow> (uuid \<Rightarrow> ShipmentMethod option) \<Rightarrow> ItemWithQuantityAndMethod list \<Rightarrow> int \<Rightarrow> uuid list \<Rightarrow> int shipment_act" where
  "sumFees oob methodByID items acc [] = ret acc"
| "sumFees oob methodByID items acc (m # ms) =
     andThen (CalculateQuantityAndWeight (groupOf items m)) (\<lambda>(quantity, weight).
       sumFees oob methodByID items (i64 (acc + CalculateFees oob (the (methodByID m)) quantity weight)) ms)"

definition CalculateShipmentFees :: "(f64 \<Rightarrow> int) \<Rightarrow> ItemWithQuantityAndMethod list \<Rightarrow> int shipment_act" where
  "CalculateShipmentFees oob items =
     (let methodIDs = first_seen id {} (map iq_ShipmentMethodID items)
      in andThen (FindShipmentMethodsByIDs methodIDs) (\<lambda>methods.
        let methodByID = map_of (map (\<lambda>m. (sm_ID m, m)) (rev methods))
        in if list_ex (\<lambda>i. methodByID i = None) methodIDs then fail MethodsInvalid
           else sumFees oob methodByID items 0 methodIDs))"

fun cheapest :: "(ShipmentMethod \<Rightarrow> int) \<Rightarrow> ShipmentMethod \<Rightarrow> ShipmentMethod list \<Rightarrow> ShipmentMethod" where
  "cheapest fee best [] = best"
| "cheapest fee best (m # ms) = cheapest fee (if fee m < fee best then m else best) ms"

definition FindLeastExpensiveShipmentMethod :: "(f64 \<Rightarrow> int) \<Rightarrow> OrderItemRow list \<Rightarrow> ShipmentMethod shipment_act" where
  "FindLeastExpensiveShipmentMethod oob items =
     andThen FindAllShipmentMethods (\<lambda>methods.
       case methods of
         [] \<Rightarrow> fail NoMethodsAvailable
       | m # ms \<Rightarrow>
           andThen (CalculateQuantityAndWeight
             (map (\<lambda>it. \<lparr>iq_ProductVariantVersionID = it_ProductVariantVersionID it, iq_Quantity = it_Quantity it\<rparr>) items))
             (\<lambda>(quantity, weight). ret (cheapest (\<lambda>x. CalculateFees oob x quantity weight) m ms)))"

subsection \<open>The external provider\<close>

definition post :: "ShipmentDefinition \<Rightarrow> unit shipment_act" where
  "post d = emit ProviderFailed (ProviderPost d)"

text \<open>The guarded attempts, then the last one, whose error propagates.\<close>

fun attempts :: "nat \<Rightarrow> ShipmentDefinition \<Rightarrow> unit shipment_act" where
  "attempts 0 d = post d"
| "attempts (Suc n) d = andThen (attempt (post d)) (\<lambda>r. case r of Inr _ \<Rightarrow> ret () | Inl _ \<Rightarrow> attempts n d)"

definition Send :: "ShipmentDefinition \<Rightarrow> unit shipment_act" where
  "Send d = andThen (gets ecs_ProviderRetries) (\<lambda>retries. attempts (nat retries) d)"

subsection \<open>Experiment configuration\<close>

datatype json_value = JsonNumber f64 | JsonOther

definition toInt :: "(f64 \<Rightarrow> int) \<Rightarrow> json_value \<Rightarrow> shipment_err + int" where
  "toInt oob v = (case v of JsonNumber x \<Rightarrow> Inr (f64_to_int oob x) | JsonOther \<Rightarrow> Inl NotAnInteger)"

text \<open>The variables in the order the runtime ranges over the decoded map.\<close>

definition SetVariables :: "(f64 \<Rightarrow> int) \<Rightarrow> (string \<times> json_value) list \<Rightarrow> unit shipment_act" where
  "SetVariables oob vars =
     each (\<lambda>(name, v).
       if name = ''providerRetries'' then
         (case toInt oob v of Inl e \<Rightarrow> fail e | Inr n \<Rightarrow> modify (\<lambda>s. s\<lparr>ecs_ProviderRetries := n\<rparr>))
       else if name = ''providerRetryDelay'' then
         (case toInt oob v of Inl e \<Rightarrow> fail e | Inr n \<Rightarrow> modify (\<lambda>s. s\<lparr>ecs_ProviderRetryDelay := n\<rparr>))
       else fail (UnknownVariable name)) vars"

subsection \<open>Creating shipments\<close>

definition statusPENDING :: string where "statusPENDING = ''PENDING''"

record OrderItemInputS =
  si_ID :: uuid
  si_ProductVariantVersionID :: uuid
  si_Quantity :: int

record createShipmentInput =
  csi_OrderID :: "uuid option"
  csi_ReturnID :: "uuid option"
  csi_ShipmentMethodID :: uuid
  csi_AddressID :: uuid
  csi_OrderItems :: "OrderItemInputS list"

definition validate :: "createShipmentInput \<Rightarrow> shipment_err + unit" where
  "validate inp =
     (if (csi_OrderID inp \<noteq> None) = (csi_ReturnID inp \<noteq> None) then Inl OrderXorReturn
      else if csi_OrderItems inp = [] then Inl NoOrderItems else Inr ())"

definition sendToProvider :: "createShipmentInput \<Rightarrow> uuid \<Rightarrow> ShipmentMethod \<Rightarrow> unit shipment_act" where
  "sendToProvider inp shipmentID meth =
     andThen (CalculateQuantityAndWeight
       (map (\<lambda>it. \<lparr>iq_ProductVariantVersionID = si_ProductVariantVersionID it, iq_Quantity = si_Quantity it\<rparr>) (csi_OrderItems inp)))
       (\<lambda>(quantity, weight).
     andThen (GetAddress (csi_AddressID inp)) (\<lambda>address.
       Send \<lparr>def_ShipmentID = shipmentID, def_Ref = sm_ExternalReference meth, def_Quantity = quantity,
         def_Weight = weight, def_Address = address\<rparr>))"

definition tryCreateShipment ::
  "createShipmentInput \<Rightarrow> (OrderItemInputS list \<Rightarrow> uuid \<Rightarrow> unit shipment_act) \<Rightarrow> unit shipment_act" where
  "tryCreateShipment inp init =
     andThen (AddressExists (csi_AddressID inp)) (\<lambda>exists.
     if \<not> exists then fail AddressMissing
     else andThen (GetShipmentMethod (csi_ShipmentMethodID inp)) (\<lambda>meth.
     andThen (CreateShipmentRow statusPENDING (csi_ShipmentMethodID inp) (csi_AddressID inp) (csi_OrderID inp) (csi_ReturnID inp))
       (\<lambda>shipmentID.
     andThen (init (csi_OrderItems inp) shipmentID) (\<lambda>_.
     andThen (each (\<lambda>it. CreateShipmentToOrderItem shipmentID (si_ID it)) (csi_OrderItems inp)) (\<lambda>_.
     andThen (sendToProvider inp shipmentID meth) (\<lambda>_.
       emit ShPublishFailed (ShipmentCreated \<lparr>scd_ID = shipmentID, scd_OrderID = csi_OrderID inp,
         scd_ReturnID = csi_ReturnID inp, scd_Status = statusPENDING, scd_OrderItemIDs = map si_ID (csi_OrderItems inp),
         scd_ShipmentMethodID = csi_ShipmentMethodID inp, scd_ShipmentAddressID = csi_AddressID inp\<rparr>)))))))"

definition creationFailed :: "createShipmentInput \<Rightarrow> shipment_err \<Rightarrow> shipment_event" where
  "creationFailed inp e = ShipmentCreationFailed \<lparr>sfd_OrderID = csi_OrderID inp, sfd_ReturnID = csi_ReturnID inp,
     sfd_OrderItemIDs = map si_ID (csi_OrderItems inp), sfd_ShipmentMethodID = csi_ShipmentMethodID inp,
     sfd_ShipmentAddressID = csi_AddressID inp, sfd_Reason = e\<rparr>"

definition createShipment ::
  "createShipmentInput \<Rightarrow> (OrderItemInputS list \<Rightarrow> uuid \<Rightarrow> unit shipment_act) \<Rightarrow> unit shipment_act" where
  "createShipment inp init =
     (case validate inp of
        Inl e \<Rightarrow> fail e
      | Inr _ \<Rightarrow>
          andThen (attempt (tryCreateShipment inp init)) (\<lambda>r.
            case r of Inr _ \<Rightarrow> ret () | Inl e \<Rightarrow> emit ShPublishFailed (creationFailed inp e)))"

definition upsertOrderItems :: "OrderItemInputS list \<Rightarrow> uuid \<Rightarrow> unit shipment_act" where
  "upsertOrderItems items shipmentID =
     each (\<lambda>it. CreateOrderItem (si_ID it) shipmentID (si_ProductVariantVersionID it) (si_Quantity it)) items"

definition noopInitOrderItems :: "OrderItemInputS list \<Rightarrow> uuid \<Rightarrow> unit shipment_act" where
  "noopInitOrderItems items shipmentID = ret ()"

record OrderItemFromEvent =
  oie_ID :: uuid
  oie_ProductVariantVersionID :: uuid
  oie_Count :: int
  oie_ShipmentMethodID :: uuid

record OrderInputS =
  ois_ID :: uuid
  ois_ShipmentAddressID :: uuid
  ois_OrderItems :: "OrderItemFromEvent list"

definition groupInput :: "OrderInputS \<Rightarrow> uuid \<Rightarrow> createShipmentInput" where
  "groupInput order m = \<lparr>csi_OrderID = Some (ois_ID order), csi_ReturnID = None, csi_ShipmentMethodID = m,
     csi_AddressID = ois_ShipmentAddressID order, csi_OrderItems =
       map (\<lambda>it. \<lparr>si_ID = oie_ID it, si_ProductVariantVersionID = oie_ProductVariantVersionID it, si_Quantity = oie_Count it\<rparr>)
         (filter (\<lambda>it. oie_ShipmentMethodID it = m) (ois_OrderItems order))\<rparr>"

definition CreateShipmentForOrder :: "OrderInputS \<Rightarrow> unit shipment_act" where
  "CreateShipmentForOrder order =
     each (\<lambda>m. createShipment (groupInput order m) upsertOrderItems)
       (first_seen id {} (map oie_ShipmentMethodID (ois_OrderItems order)))"

record ReturnInputS =
  ris_ID :: uuid
  ris_OrderItemIDs :: "uuid list"

definition CreateShipmentForReturn :: "(f64 \<Rightarrow> int) \<Rightarrow> ReturnInputS \<Rightarrow> unit shipment_act" where
  "CreateShipmentForReturn oob r =
     andThen FindCurrentVendorAddress (\<lambda>v.
       case v of
         None \<Rightarrow> fail NoVendorAddress
       | Some vendorAddress \<Rightarrow>
           andThen (FindOrderItemsByIDs (ris_OrderItemIDs r)) (\<lambda>orderItems.
           andThen (FindLeastExpensiveShipmentMethod oob orderItems) (\<lambda>meth.
             createShipment \<lparr>csi_OrderID = None, csi_ReturnID = Some (ris_ID r), csi_ShipmentMethodID = sm_ID meth,
               csi_AddressID = ad_ID vendorAddress, csi_OrderItems =
                 map (\<lambda>it. \<lparr>si_ID = it_ID it, si_ProductVariantVersionID = it_ProductVariantVersionID it,
                   si_Quantity = it_Quantity it\<rparr>) orderItems\<rparr> noopInitOrderItems)))"

definition UpdateShipmentStatus :: "uuid \<Rightarrow> string \<Rightarrow> unit shipment_act" where
  "UpdateShipmentStatus shipmentID st =
     andThen (UpdateShipmentStatusRow shipmentID st) (\<lambda>shipment.
     andThen (FindOrderItemIDsByShipmentID shipmentID) (\<lambda>orderItemIDs.
       emit ShPublishFailed (ShipmentStatusUpdated \<lparr>ssu_ID = shipmentID, ssu_OrderItemIDs = orderItemIDs,
         ssu_OrderID = sh_OrderID shipment, ssu_ReturnID = sh_ReturnID shipment, ssu_Status = sh_Status shipment\<rparr>)))"

subsection \<open>Handlers\<close>

text \<open>A handler's payload is \<open>None\<close> when it does not decode; its error is answered with 500.\<close>

definition decoded :: "'p option \<Rightarrow> ('p \<Rightarrow> unit shipment_act) \<Rightarrow> unit shipment_act" where
  "decoded data f = (case data of None \<Rightarrow> fail BadEvent | Some x \<Rightarrow> f x)"

definition OnUserAddressCreated :: "(AddressRow \<times> uuid) option \<Rightarrow> unit shipment_act" where
  "OnUserAddressCreated data = decoded data (\<lambda>(a, user). CreateAddress (a\<lparr>ad_UserID := Some user\<rparr>))"

definition OnVendorAddressCreated :: "AddressRow option \<Rightarrow> unit shipment_act" where
  "OnVendorAddressCreated data = decoded data (\<lambda>a. CreateAddress (a\<lparr>ad_UserID := None\<rparr>))"

definition OnProductVariantVersionCreated :: "PvvRow option \<Rightarrow> unit shipment_act" where
  "OnProductVariantVersionCreated data = decoded data (\<lambda>p. CreateProductVariantVersion (wv_ID p) (wv_Weight p))"

definition OnPaymentEnabled :: "OrderInputS option \<Rightarrow> unit shipment_act" where
  "OnPaymentEnabled data = decoded data CreateShipmentForOrder"

definition OnReturnCreated :: "(f64 \<Rightarrow> int) \<Rightarrow> ReturnInputS option \<Rightarrow> unit shipment_act" where
  "OnReturnCreated oob data = decoded data (CreateShipmentForReturn oob)"

definition validShipmentStatuses :: "string list" where
  "validShipmentStatuses = [''PENDING'', ''IN_PROGRESS'', ''DELIVERED'', ''FAILED'']"

definition updateShipmentStatus :: "uuid option \<Rightarrow> string option \<Rightarrow> shipment_db \<Rightarrow> int \<times> shipment_db" where
  "updateShipmentStatus pathID body s =
     (case (pathID, body) of
        (Some i, Some st) \<Rightarrow>
          if st \<notin> set validShipmentStatuses then (500, s)
          else (case UpdateShipmentStatus i st s of (Inl _, s') \<Rightarrow> (500, s') | (Inr _, s') \<Rightarrow> (200, s'))
      | _ \<Rightarrow> (400, s))"

definition setVariables :: "(f64 \<Rightarrow> int) \<Rightarrow> (string \<times> json_value) list option \<Rightarrow> shipment_db \<Rightarrow> int \<times> shipment_db" where
  "setVariables oob body s =
     (case body of
        None \<Rightarrow> (400, s)
      | Some vars \<Rightarrow> (case SetVariables oob vars s of (Inl _, s') \<Rightarrow> (500, s') | (Inr _, s') \<Rightarrow> (200, s')))"

end
