(* ===== verification/Shipment_Graph.thy ===== *)
theory Shipment_Graph
  imports Shipment
begin

text \<open>\<open>shipment/graph\<close>: role checks, models, resolvers and entities of the shipment service.\<close>

definition checkIsEmployee :: "ctx \<Rightarrow> unit shipment_act" where
  "checkIsEmployee c =
     (case FromContext c of
        None \<Rightarrow> fail ShUnauthorized
      | Some u \<Rightarrow> if IsEmployeeOrAdmin (Some u) then ret () else fail (ShNotEmployee (user_ID u)))"

subsection \<open>Models\<close>

record GShipmentMethod =
  gsm_ID :: uuid
  gsm_Name :: string
  gsm_Description :: string
  gsm_BaseFees :: int
  gsm_FeesPerItem :: int
  gsm_FeesPerKg :: int
  gsm_ArchivedAt :: "time option"
  gsm_IsArchived :: bool
  gsm_ExternalRef :: string

record GShipment =
  gsh_ID :: uuid
  gsh_Status :: string
  gsh_ShipmentMethodID :: uuid
  gsh_ShipmentAddressID :: uuid
  gsh_OrderID :: "uuid option"
  gsh_ReturnID :: "uuid option"

record GSentItem =
  gst_ID :: uuid
  gst_SentWithID :: "uuid option"

datatype GAddress = VendorAddress uuid | UserAddress uuid

definition toShipmentMethod :: "ShipmentMethod \<Rightarrow> GShipmentMethod" where
  "toShipmentMethod m = \<lparr>gsm_ID = sm_ID m, gsm_Name = sm_Name m, gsm_Description = sm_Description m,
     gsm_BaseFees = sm_BaseFees m, gsm_FeesPerItem = sm_FeesPerItem m, gsm_FeesPerKg = sm_FeesPerKg m,
     gsm_ArchivedAt = sm_ArchivedAt m, gsm_IsArchived = (sm_ArchivedAt m \<noteq> None), gsm_ExternalRef = sm_ExternalReference m\<rparr>"

definition toShipment :: "Shipment \<Rightarrow> GShipment" where
  "toShipment x = \<lparr>gsh_ID = sh_ID x, gsh_Status = sh_Status x, gsh_ShipmentMethodID = sh_ShipmentMethodID x,
     gsh_ShipmentAddressID = sh_ShipmentAddressID x, gsh_OrderID = sh_OrderID x, gsh_ReturnID = sh_ReturnID x\<rparr>"

definition toOrderItem :: "OrderItemRow \<Rightarrow> GSentItem" where
  "toOrderItem it = \<lparr>gst_ID = it_ID it, gst_SentWithID = Some (it_SentWithID it)\<rparr>"

definition toAddress :: "AddressRow \<Rightarrow> GAddress" where
  "toAddress a = (if ad_UserID a = None then VendorAddress (ad_ID a) else UserAddress (ad_ID a))"

definition toShipmentMethodConnection :: "ShipmentMethod PgConnection \<Rightarrow> GShipmentMethod PgConnection" where
  "toShipmentMethodConnection c = \<lparr>con_Nodes = map toShipmentMethod (con_Nodes c), con_TotalCount = con_TotalCount c,
     con_HasNextPage = con_HasNextPage c\<rparr>"

definition toShipmentConnection :: "Shipment PgConnection \<Rightarrow> GShipment PgConnection" where
  "toShipmentConnection c = \<lparr>con_Nodes = map toShipment (con_Nodes c), con_TotalCount = con_TotalCount c,
     con_HasNextPage = con_HasNextPage c\<rparr>"

definition toOrderItemConnection :: "OrderItemRow PgConnection \<Rightarrow> GSentItem PgConnection" where
  "toOrderItemConnection c = \<lparr>con_Nodes = map toOrderItem (con_Nodes c), con_TotalCount = con_TotalCount c,
     con_HasNextPage = con_HasNextPage c\<rparr>"

datatype sh_direction = ShAsc | ShDesc

definition ascending :: "sh_direction option \<Rightarrow> bool" where
  "ascending d \<longleftrightarrow> d = None \<or> d \<noteq> Some ShDesc"

text \<open>Every order input sorts by the id; only its direction counts.\<close>

definition shipmentMethodOrder :: "sh_direction option option \<Rightarrow> bool" where
  "shipmentMethodOrder inp = (case inp of None \<Rightarrow> True | Some d \<Rightarrow> ascending d)"

definition shipmentOrder :: "sh_direction option option \<Rightarrow> bool" where
  "shipmentOrder inp = (case inp of None \<Rightarrow> True | Some d \<Rightarrow> ascending d)"

definition orderItemOrder :: "sh_direction option option \<Rightarrow> bool" where
  "orderItemOrder inp = (case inp of None \<Rightarrow> True | Some d \<Rightarrow> ascending d)"

subsection \<open>Mutations\<close>

definition ArchiveShipmentMethod :: "ctx \<Rightarrow> uuid \<Rightarrow> GShipmentMethod shipment_act" where
  "ArchiveShipmentMethod c i =
     andThen (checkIsEmployee c) (\<lambda>_.
     andThen now (\<lambda>t.
     andThen (ArchiveShipmentMethodRow i t) (\<lambda>m.
     andThen (emit ShPublishFailed (ShipmentMethodArchived (sm_ID m))) (\<lambda>_.
       ret (toShipmentMethod m)))))"

record CreateShipmentMethodInput =
  csm_Name :: string
  csm_Description :: string
  csm_ExternalReference :: string
  csm_BaseFees :: int
  csm_FeesPerItem :: int
  csm_FeesPerKg :: int

definition CreateShipmentMethod :: "ctx \<Rightarrow> CreateShipmentMethodInput \<Rightarrow> GShipmentMethod shipment_act" where
  "CreateShipmentMethod c inp =
     andThen (checkIsEmployee c) (\<lambda>_.
     andThen (CreateShipmentMethodRow (csm_Name inp) (csm_Description inp) (csm_ExternalReference inp)
         (csm_BaseFees inp) (csm_FeesPerItem inp) (csm_FeesPerKg inp)) (\<lambda>m.
     andThen (emit ShPublishFailed (ShipmentMethodCreated m)) (\<lambda>_.
       ret (toShipmentMethod m))))"

subsection \<open>Queries\<close>

definition Query_CalculateShipmentFees ::
  "(f64 \<Rightarrow> int) \<Rightarrow> ItemWithQuantityAndMethod list \<Rightarrow> int shipment_act" where
  "Query_CalculateShipmentFees oob items = CalculateShipmentFees oob items"

definition Query_ShipmentMethod :: "uuid \<Rightarrow> GShipmentMethod shipment_act" where
  "Query_ShipmentMethod i = andThen (GetShipmentMethod i) (\<lambda>m. ret (toShipmentMethod m))"

definition Query_ShipmentMethods ::
  "bool option option \<Rightarrow> int option \<Rightarrow> sh_direction option option \<Rightarrow> int option \<Rightarrow> GShipmentMethod PgConnection shipment_act" where
  "Query_ShipmentMethods f first ob skip =
     andThen (ListShipmentMethods first skip (shipmentMethodOrder ob) (Option.bind f id)) (\<lambda>con.
       ret (toShipmentMethodConnection con))"

definition Order_Shipments ::
  "uuid \<Rightarrow> string option option \<Rightarrow> int option \<Rightarrow> sh_direction option option \<Rightarrow> int option \<Rightarrow> GShipment PgConnection shipment_act" where
  "Order_Shipments obj f first ob skip =
     andThen (ListShipmentsForOrder obj first skip (shipmentOrder ob) (Option.bind f id)) (\<lambda>con.
       ret (toShipmentConnection con))"

definition OrderItem_SentWith :: "GSentItem \<Rightarrow> GShipment option shipment_act" where
  "OrderItem_SentWith obj =
     (case gst_SentWithID obj of
        None \<Rightarrow> ret None
      | Some i \<Rightarrow> andThen (GetShipment i) (\<lambda>x. ret (Some (toShipment x))))"

definition Return_Shipment :: "uuid \<Rightarrow> GShipment shipment_act" where
  "Return_Shipment obj = andThen (FindShipmentByReturnID obj) (\<lambda>x. ret (toShipment x))"

definition Shipment_Order :: "GShipment \<Rightarrow> uuid option" where
  "Shipment_Order obj = gsh_OrderID obj"

definition Shipment_Return :: "GShipment \<Rightarrow> uuid option" where
  "Shipment_Return obj = gsh_ReturnID obj"

definition Shipment_SentItems ::
  "GShipment \<Rightarrow> int option \<Rightarrow> sh_direction option option \<Rightarrow> int option \<Rightarrow> GSentItem PgConnection shipment_act" where
  "Shipment_SentItems obj first ob skip =
     andThen (ListSentItems (gsh_ID obj) first skip (orderItemOrder ob)) (\<lambda>con. ret (toOrderItemConnection con))"

definition Shipment_ShipmentAddress :: "GShipment \<Rightarrow> GAddress shipment_act" where
  "Shipment_ShipmentAddress obj = andThen (GetAddress (gsh_ShipmentAddressID obj)) (\<lambda>a. ret (toAddress a))"

definition Shipment_ShipmentMethod :: "GShipment \<Rightarrow> GShipmentMethod shipment_act" where
  "Shipment_ShipmentMethod obj = andThen (GetShipmentMethod (gsh_ShipmentMethodID obj)) (\<lambda>m. ret (toShipmentMethod m))"

definition ShipmentMethod_CalculateFees ::
  "(f64 \<Rightarrow> int) \<Rightarrow> GShipmentMethod \<Rightarrow> ItemWithQuantity list \<Rightarrow> int shipment_act" where
  "ShipmentMethod_CalculateFees oob obj items =
     andThen (CalculateQuantityAndWeight items) (\<lambda>(quantity, weight).
       ret (CalculateFees oob \<lparr>sm_ID = UUID 0, sm_Name = [], sm_Description = [], sm_ExternalReference = [],
         sm_BaseFees = gsm_BaseFees obj, sm_FeesPerItem = gsm_FeesPerItem obj, sm_FeesPerKg = gsm_FeesPerKg obj,
         sm_ArchivedAt = None\<rparr> quantity weight))"

definition ShipmentMethod_ExternalReference :: "ctx \<Rightarrow> GShipmentMethod \<Rightarrow> string shipment_act" where
  "ShipmentMethod_ExternalReference c obj = andThen (checkIsEmployee c) (\<lambda>_. ret (gsm_ExternalRef obj))"

subsection \<open>Entities\<close>

definition Entity_OrderItem :: "uuid \<Rightarrow> GSentItem shipment_act" where
  "Entity_OrderItem i =
     andThen (GetOrderItemRow i) (\<lambda>r.
       case r of None \<Rightarrow> ret \<lparr>gst_ID = i, gst_SentWithID = None\<rparr> | Some it \<Rightarrow> ret (toOrderItem it))"

definition Entity_Shipment :: "uuid \<Rightarrow> GShipment shipment_act" where
  "Entity_Shipment i = andThen (GetShipment i) (\<lambda>x. ret (toShipment x))"

definition Entity_ShipmentMethod :: "uuid \<Rightarrow> GShipmentMethod shipment_act" where
  "Entity_ShipmentMethod i = andThen (GetShipmentMethod i) (\<lambda>m. ret (toShipmentMethod m))"

end
