(* ===== verification/Shipment_Claims.thy ===== *)
theory Shipment_Claims
  imports Shipment_Graph
begin

text \<open>
  The properties of the shipment service: the provider's retry loop under any script of failures,
  the fees, the announcements of the create-shipment saga, and the shipments of an order.
\<close>

subsection \<open>The retry loop\<close>

text \<open>The outcome of the \<open>i\<close>-th call of a script; calls beyond the script are answered.\<close>

definition outcome :: "fault list \<Rightarrow> nat \<Rightarrow> fault" where
  "outcome fs i = (if i < length fs then fs ! i else Answered)"

lemma outcome_Nil [simp]: "outcome [] i = Answered"
  by (simp add: outcome_def)

lemma outcome_0 [simp]: "outcome (f # fs) 0 = f"
  by (simp add: outcome_def)

lemma outcome_Suc [simp]: "outcome (f # fs) (Suc i) = outcome fs i"
  by (simp add: outcome_def)

lemma emit_outcome:
  "emit e ev s = (if outcome (faults s) 0 = Answered then Inr () else Inl e,
     s\<lparr>faults := tl (faults s), outbox := outbox s @ (if outcome (faults s) 0 = Refused then [] else [ev])\<rparr>)"
  by (cases "faults s"; cases "hd (faults s)") (auto simp: emit_def ext_def modify_def)

lemma outcome_tl: "outcome (tl fs) i = outcome fs (Suc i)"
  by (cases fs) auto

text \<open>How many of the first \<open>n\<close> calls had their effect.\<close>

definition effective :: "fault list \<Rightarrow> nat \<Rightarrow> nat" where
  "effective fs n = length (filter (\<lambda>i. outcome fs i \<noteq> Refused) [0..<n])"

lemma effective_Suc: "effective fs (Suc n) = (if outcome fs 0 = Refused then 0 else 1) + effective (tl fs) n"
proof -
  have "[0..<Suc n] = 0 # map Suc [0..<n]" by (simp add: upt_conv_Cons map_Suc_upt del: upt_Suc)
  then show ?thesis by (simp add: effective_def outcome_tl filter_map comp_def del: upt_Suc)
qed

lemma attempts_run:
  "\<exists>k \<le> n. attempts n d s =
      (if outcome (faults s) k = Answered then Inr () else Inl ProviderFailed,
       s\<lparr>faults := drop (Suc k) (faults s),
         outbox := outbox s @ replicate (effective (faults s) (Suc k)) (ProviderPost d)\<rparr>) \<and>
     (\<forall>i < k. outcome (faults s) i \<noteq> Answered) \<and> (outcome (faults s) k \<noteq> Answered \<longrightarrow> k = n)"
proof (induction n arbitrary: s)
  case 0
  then show ?case
    by (auto simp: post_def emit_outcome effective_def drop_Suc)
next
  case (Suc n)
  let ?s1 = "s\<lparr>faults := tl (faults s), outbox := outbox s @ (if outcome (faults s) 0 = Refused then [] else [ProviderPost d])\<rparr>"
  show ?case
  proof (cases "outcome (faults s) 0 = Answered")
    case True
    then show ?thesis
      by (intro exI [of _ 0]) (simp add: run_andThen run_attempt post_def emit_outcome run_simps effective_def drop_Suc)
  next
    case False
    then have step: "attempts (Suc n) d s = attempts n d ?s1"
      by (simp add: run_andThen run_attempt post_def emit_outcome)
    obtain k where k: "k \<le> n" "attempts n d ?s1 =
        (if outcome (faults ?s1) k = Answered then Inr () else Inl ProviderFailed,
         ?s1\<lparr>faults := drop (Suc k) (faults ?s1),
           outbox := outbox ?s1 @ replicate (effective (faults ?s1) (Suc k)) (ProviderPost d)\<rparr>)"
      "\<forall>i < k. outcome (faults ?s1) i \<noteq> Answered" "outcome (faults ?s1) k \<noteq> Answered \<longrightarrow> k = n"
      using Suc.IH [of ?s1] by blast
    have "outcome (faults s) i \<noteq> Answered" if "i < Suc k" for i
      using that False k(3) by (cases i) (simp_all add: outcome_tl)
    moreover have "attempts (Suc n) d s =
        (if outcome (faults s) (Suc k) = Answered then Inr () else Inl ProviderFailed,
         s\<lparr>faults := drop (Suc (Suc k)) (faults s),
           outbox := outbox s @ replicate (effective (faults s) (Suc (Suc k))) (ProviderPost d)\<rparr>)"
      unfolding step k(2) effective_Suc [of "faults s" "Suc k"] by (simp add: outcome_tl drop_Suc)
    ultimately show ?thesis
      using k(1,4) by (intro exI [of _ "Suc k"]) (simp add: outcome_tl)
  qed
qed

text \<open>
  C12. The shipment reaches the external provider when one of the configured retries plus one
  attempts is answered, and only then does the call succeed. The loop stops at the first answered
  attempt, makes exactly that many attempts at most and leaves the tables alone; an attempt whose
  reply is lost has posted the shipment all the same, so the provider may see it several times.
\<close>

theorem send_attempts:
  assumes "Send d s = (r, s')" "n = nat (ecs_ProviderRetries s)"
  shows "\<exists>k \<le> n. (\<forall>i < k. outcome (faults s) i \<noteq> Answered) \<and>
    (r = Inr () \<longleftrightarrow> (\<exists>i \<le> n. outcome (faults s) i = Answered)) \<and> (r \<noteq> Inr () \<longrightarrow> r = Inl ProviderFailed \<and> k = n) \<and>
    outbox s' = outbox s @ replicate (effective (faults s) (Suc k)) (ProviderPost d) \<and>
    effective (faults s) (Suc k) \<le> Suc n \<and> faults s' = drop (Suc k) (faults s) \<and> io.more s' = io.more s"
proof -
  obtain k where k: "k \<le> n" "(r, s') =
      (if outcome (faults s) k = Answered then Inr () else Inl ProviderFailed,
       s\<lparr>faults := drop (Suc k) (faults s),
         outbox := outbox s @ replicate (effective (faults s) (Suc k)) (ProviderPost d)\<rparr>)"
      "\<forall>i < k. outcome (faults s) i \<noteq> Answered" "outcome (faults s) k \<noteq> Answered \<longrightarrow> k = n"
    using attempts_run [of n d s] assms by (auto simp: Send_def run_andThen run_gets)
  have "effective (faults s) (Suc k) \<le> Suc k"
    unfolding effective_def by (metis diff_zero length_filter_le length_upt)
  moreover have "(\<exists>i \<le> n. outcome (faults s) i = Answered) \<longleftrightarrow> outcome (faults s) k = Answered"
    using k(1,3,4) by (metis le_neq_implies_less)
  ultimately show ?thesis
    using k by (intro exI [of _ k]) (auto split: if_splits)
qed

subsection \<open>Fees\<close>

lemma i64_add: "i64 (i64 a + b) = i64 (a + b)"
proof -
  have "signed_take_bit 63 (signed_take_bit 63 a + b) =
      signed_take_bit 63 (signed_take_bit 63 (signed_take_bit 63 a) + signed_take_bit 63 b)"
    by (rule signed_take_bit_add [symmetric])
  also have "\<dots> = signed_take_bit 63 (signed_take_bit 63 a + signed_take_bit 63 b)" by simp
  also have "\<dots> = signed_take_bit 63 (a + b)" by (rule signed_take_bit_add)
  finally show ?thesis by (simp add: i64_def)
qed

text \<open>The quantity and weight of items over given versions, as a function.\<close>

definition pack :: "PvvRow list \<Rightarrow> ItemWithQuantity list \<Rightarrow> shipment_err + (int \<times> f64)" where
  "pack versions items =
     (if \<exists>it \<in> set items. iq_Quantity it \<le> 0 then Inl QuantityNotPositive
      else if \<exists>it \<in> set items. iq_ProductVariantVersionID it \<notin> wv_ID ` set versions then Inl VersionsInvalid
      else Inr (i64 (sum_list (map iq_Quantity items)), foldl (add_weight (weightByID versions)) (Fin 0 0) items))"

lemma weightByID_filter:
  "i \<in> X \<Longrightarrow> weightByID (filter (\<lambda>p. wv_ID p \<in> X) versions) i = weightByID versions i"
proof -
  assume "i \<in> X"
  then have "map_of (map (\<lambda>p. (wv_ID p, wv_Weight p)) (filter (\<lambda>p. wv_ID p \<in> X) vs)) i =
      map_of (map (\<lambda>p. (wv_ID p, wv_Weight p)) vs) i" for vs
    by (induction vs) auto
  then show ?thesis by (simp add: weightByID_def rev_filter)
qed

lemma weightByID_None: "weightByID versions i = None \<longleftrightarrow> i \<notin> wv_ID ` set versions"
  by (auto simp: weightByID_def map_of_eq_None_iff image_image)

lemma total_quantity: "foldl (\<lambda>q it. i64 (q + iq_Quantity it)) (i64 a) items = i64 (a + sum_list (map iq_Quantity items))"
  by (induction items arbitrary: a) (simp_all add: i64_add add.assoc)

lemma pack_filtered:
  assumes "set (map iq_ProductVariantVersionID items) \<subseteq> X"
  shows "pack (filter (\<lambda>p. wv_ID p \<in> X) versions) items = pack versions items"
proof -
  let ?vs = "filter (\<lambda>p. wv_ID p \<in> X) versions"
  have "foldl (add_weight (weightByID ?vs)) w items = foldl (add_weight (weightByID versions)) w items" for w
    using assms by (induction items arbitrary: w) (simp_all add: add_weight_def weightByID_filter)
  moreover have "iq_ProductVariantVersionID it \<in> wv_ID ` set ?vs \<longleftrightarrow> iq_ProductVariantVersionID it \<in> wv_ID ` set versions"
    if "it \<in> set items" for it using assms that by auto
  ultimately show ?thesis by (simp add: pack_def cong: bex_cong)
qed

lemma CalculateQuantityAndWeight_eq:
  "CalculateQuantityAndWeight items =
     (if \<exists>it \<in> set items. iq_Quantity it \<le> 0 then fail QuantityNotPositive
      else andThen (FindProductVariantVersionsByIDs (map iq_ProductVariantVersionID items)) (\<lambda>vs s. (pack vs items, s)))"
proof (cases "\<exists>it \<in> set items. iq_Quantity it \<le> 0")
  case True
  then show ?thesis by (simp add: CalculateQuantityAndWeight_def list_ex_iff)
next
  case False
  have "(let weights = weightByID vs
      in if list_ex (\<lambda>it. weights (iq_ProductVariantVersionID it) = None) items then fail VersionsInvalid
         else ret (foldl (\<lambda>q it. i64 (q + iq_Quantity it)) 0 items, foldl (add_weight weights) (Fin 0 0) items)) =
      (\<lambda>s :: shipment_db. (pack vs items, s))" for vs
    using False total_quantity [of 0 items]
    by (simp add: fun_eq_iff list_ex_iff weightByID_None pack_def run_simps i64_def)
  then show ?thesis unfolding CalculateQuantityAndWeight_def using False by (simp add: list_ex_iff)
qed

lemma quantity_weight_Inr:
  assumes "CalculateQuantityAndWeight items s = (Inr qw, s')"
  shows "pack (versionRows s) items = Inr qw \<and> io.more s' = io.more s"
proof -
  let ?ids = "map iq_ProductVariantVersionID items"
  obtain vs where v: "FindProductVariantVersionsByIDs ?ids s = (Inr vs, s')" and p: "pack vs items = Inr qw"
    using assms unfolding CalculateQuantityAndWeight_eq by (auto simp: run_fail elim!: andThen_InrE split: if_splits)
  show ?thesis
  proof (cases "items = []")
    case True
    then show ?thesis using v p by (auto simp: FindProductVariantVersionsByIDs_def run_simps pack_def)
  next
    case False
    then have "find_all ShDbError versionRows (\<lambda>p. wv_ID p \<in> set ?ids) s = (Inr vs, s')"
      using v by (simp add: FindProductVariantVersionsByIDs_def)
    then have "vs = filter (\<lambda>p. wv_ID p \<in> set ?ids) (versionRows s)" "io.more s' = io.more s"
      by (auto dest!: find_all_run)
    then show ?thesis using p pack_filtered [of items "set ?ids"] by simp
  qed
qed

lemma quantity_weight_quiet:
  assumes "faults s = []"
  shows "CalculateQuantityAndWeight items s = (pack (versionRows s) items, s)"
proof -
  let ?ids = "map iq_ProductVariantVersionID items"
  have "FindProductVariantVersionsByIDs ?ids s = (Inr (filter (\<lambda>p. wv_ID p \<in> set ?ids) (versionRows s)), s)"
    using assms by (cases items) (simp_all add: FindProductVariantVersionsByIDs_def find_all_def run_simps)
  then show ?thesis
    unfolding CalculateQuantityAndWeight_eq
    using pack_filtered [of items "set ?ids" "versionRows s"]
    by (cases "\<exists>it \<in> set items. iq_Quantity it \<le> 0") (simp_all add: run_andThen run_fail pack_def)
qed

lemma cheapest_split:
  "\<exists>pre post. m # ms = pre @ cheapest fee m ms # post \<and> (\<forall>x \<in> set pre. fee (cheapest fee m ms) < fee x) \<and>
     (\<forall>x \<in> set post. fee (cheapest fee m ms) \<le> fee x)"
proof (induction ms arbitrary: m)
  case (Cons n ms)
  show ?case
  proof (cases "fee n < fee m")
    case True
    then have c: "cheapest fee m (n # ms) = cheapest fee n ms" by simp
    obtain pre post b where b: "cheapest fee n ms = b" "n # ms = pre @ b # post"
        "\<forall>x \<in> set pre. fee b < fee x" "\<forall>x \<in> set post. fee b \<le> fee x"
      using Cons.IH [of n] by blast
    then have "fee b \<le> fee n" by (cases pre) auto
    then show ?thesis unfolding c b(1) using b(2-4) True by (intro exI [of _ "m # pre"] exI [of _ post]) auto
  next
    case False
    then have c: "cheapest fee m (n # ms) = cheapest fee m ms" by simp
    obtain pre post b where b: "cheapest fee m ms = b" "m # ms = pre @ b # post"
        "\<forall>x \<in> set pre. fee b < fee x" "\<forall>x \<in> set post. fee b \<le> fee x"
      using Cons.IH [of m] by blast
    show ?thesis
    proof (cases pre)
      case Nil
      then show ?thesis unfolding c b(1) using b(2-4) False
        by (intro exI [of _ "[]"] exI [of _ "n # post"]) auto
    next
      case (Cons y pre')
      then have "m = y" "ms = pre' @ b # post" "fee b < fee n" using b False by auto
      then show ?thesis unfolding c b(1) using b(3,4) Cons
        by (intro exI [of _ "m # n # pre'"] exI [of _ post]) auto
    qed
  qed
qed (auto intro: exI [of _ "[]"])

lemma cheapest_reference:
  "cheapest fee m ms = hd (filter (\<lambda>x. fee x = Min (fee ` set (m # ms))) (m # ms))"
proof -
  obtain pre post b where b: "cheapest fee m ms = b" "m # ms = pre @ b # post"
      "\<forall>x \<in> set pre. fee b < fee x" "\<forall>x \<in> set post. fee b \<le> fee x"
    using cheapest_split by blast
  have "Min (fee ` set (m # ms)) = fee b"
    unfolding b(2) using b(3,4) by (intro Min_eqI) auto
  moreover have "filter (\<lambda>x. fee x = fee b) pre = []" using b(3) by (auto simp: filter_empty_conv)
  ultimately show ?thesis unfolding b(1) b(2) by simp
qed

text \<open>
  C13. The method a return is shipped with, whatever else fails, is the reference choice: the first
  of all stored methods, archived ones included, whose fee for the items' whole quantity and weight
  is the minimum; and a choice is made only for known versions in positive quantities.
\<close>

theorem leastExpensive_is_first_minimum:
  assumes "FindLeastExpensiveShipmentMethod oob items s = (Inr b, s')"
  shows "\<exists>quantity weight. pack (versionRows s)
      (map (\<lambda>it. \<lparr>iq_ProductVariantVersionID = it_ProductVariantVersionID it, iq_Quantity = it_Quantity it\<rparr>) items) =
      Inr (quantity, weight) \<and>
    b = hd (filter (\<lambda>m. CalculateFees oob m quantity weight =
      Min ((\<lambda>m. CalculateFees oob m quantity weight) ` set (methodRows s))) (methodRows s)) \<and>
    b \<in> set (methodRows s) \<and> (\<forall>m \<in> set (methodRows s). CalculateFees oob b quantity weight \<le> CalculateFees oob m quantity weight)"
proof -
  let ?items = "map (\<lambda>it. \<lparr>iq_ProductVariantVersionID = it_ProductVariantVersionID it, iq_Quantity = it_Quantity it\<rparr>) items"
  obtain methods s1 where f: "FindAllShipmentMethods s = (Inr methods, s1)"
    using assms unfolding FindLeastExpensiveShipmentMethod_def by (rule andThen_InrE)
  then have ms: "methods = methodRows s" "io.more s1 = io.more s"
    unfolding FindAllShipmentMethods_def by (auto dest!: find_all_run)
  obtain m ms' where m: "methodRows s = m # ms'"
    using assms f ms by (cases "methodRows s") (auto simp: FindLeastExpensiveShipmentMethod_def run_andThen run_fail)
  obtain quantity weight s2 where q: "CalculateQuantityAndWeight ?items s1 = (Inr (quantity, weight), s2)"
      and b: "b = cheapest (\<lambda>x. CalculateFees oob x quantity weight) m ms'"
    using assms f ms m
    by (auto simp: FindLeastExpensiveShipmentMethod_def run_andThen [of FindAllShipmentMethods] run_simps elim!: andThen_InrE)
  let ?fee = "\<lambda>x. CalculateFees oob x quantity weight"
  have "versionRows s1 = versionRows s" using ms(2) by (cases s; cases s1) simp
  then have p: "pack (versionRows s) ?items = Inr (quantity, weight)" using quantity_weight_Inr [OF q] by simp
  obtain pre post where "methodRows s = pre @ b # post" "\<forall>x \<in> set pre. ?fee b < ?fee x" "\<forall>x \<in> set post. ?fee b \<le> ?fee x"
    using cheapest_split [of m ms' ?fee] by (metis b m)
  then have "b \<in> set (methodRows s)" "\<forall>x \<in> set (methodRows s). ?fee b \<le> ?fee x" by auto
  moreover have "b = hd (filter (\<lambda>x. ?fee x = Min (?fee ` set (methodRows s))) (methodRows s))"
    using cheapest_reference [of ?fee m ms'] by (simp only: b m)
  ultimately show ?thesis using p by blast
qed









subsection \<open>Announcements\<close>

text \<open>Runs that post to the provider at most, and never take a shipment or a link away.\<close>

definition unannounced :: "shipment_db \<Rightarrow> shipment_db \<Rightarrow> bool" where
  "unannounced s s' \<longleftrightarrow> (\<exists>evs. outbox s' = outbox s @ evs \<and> (\<forall>e \<in> set evs. \<exists>d. e = ProviderPost d)) \<and>
     set (shipmentRows s) \<subseteq> set (shipmentRows s') \<and> set (linkRows s) \<subseteq> set (linkRows s')"

interpretation unannounced: effect_rel unannounced
proof
  fix s t u :: shipment_db
  show "unannounced s t \<Longrightarrow> unannounced t u \<Longrightarrow> unannounced s u"
    unfolding unannounced_def by (elim conjE exE) (intro conjI exI, simp, auto)
qed (auto simp: unannounced_def)


lemma unannounced_insert_row: "(\<And>s. unannounced s (put s)) \<Longrightarrow> guar unannounced (insert_row ok put)"
  unfolding pg_insert_def by (intro unannounced.guar_ext guarI) (simp add: unannounced.R_refl)

lemma unannounced_insert_generated:
  "(\<And>i s. unannounced s (put i s)) \<Longrightarrow> guar unannounced (insert_generated ok put)"
  unfolding pg_generated_def Let_def
  by (intro unannounced.guar_ext guarI) (auto intro: unannounced.R_trans [OF unannounced.R_minted] unannounced.R_minted)

lemma unannounced_store [guar_intros]:
  "guar unannounced (AddressExists a)" "guar unannounced (GetAddress a)" "guar unannounced (GetShipmentMethod m)"
  "guar unannounced (FindProductVariantVersionsByIDs ids)" "guar unannounced (CreateShipmentRow st m a ord re)"
  "guar unannounced (CreateOrderItem i j v q)" "guar unannounced (CreateShipmentToOrderItem i j)"
  "guar unannounced (post d)"
  unfolding AddressExists_def GetAddress_def GetShipmentMethod_def FindProductVariantVersionsByIDs_def
    CreateShipmentRow_def CreateOrderItem_def CreateShipmentToOrderItem_def post_def
  by (intro guar_intros unannounced_insert_row unannounced_insert_generated unannounced.guar_emit; auto simp: unannounced_def)+

lemma unannounced_attempts [guar_intros]: "guar unannounced (attempts n d)"
  by (induction n) (auto intro!: guar_intros split: sum.split)

text \<open>\<open>tryCreateShipment\<close> up to the created event.\<close>

definition prepareShipment ::
  "createShipmentInput \<Rightarrow> (OrderItemInputS list \<Rightarrow> uuid \<Rightarrow> unit shipment_act) \<Rightarrow> uuid shipment_act" where
  "prepareShipment inp init =
     andThen (AddressExists (csi_AddressID inp)) (\<lambda>exists.
     if \<not> exists then fail AddressMissing
     else andThen (GetShipmentMethod (csi_ShipmentMethodID inp)) (\<lambda>meth.
     andThen (CreateShipmentRow statusPENDING (csi_ShipmentMethodID inp) (csi_AddressID inp) (csi_OrderID inp) (csi_ReturnID inp))
       (\<lambda>shipmentID.
     andThen (init (csi_OrderItems inp) shipmentID) (\<lambda>_.
     andThen (each (\<lambda>it. CreateShipmentToOrderItem shipmentID (si_ID it)) (csi_OrderItems inp)) (\<lambda>_.
     andThen (sendToProvider inp shipmentID meth) (\<lambda>_. ret shipmentID))))))"

definition created :: "createShipmentInput \<Rightarrow> uuid \<Rightarrow> shipment_event" where
  "created inp i = ShipmentCreated \<lparr>scd_ID = i, scd_OrderID = csi_OrderID inp, scd_ReturnID = csi_ReturnID inp,
     scd_Status = ''PENDING'', scd_OrderItemIDs = map si_ID (csi_OrderItems inp),
     scd_ShipmentMethodID = csi_ShipmentMethodID inp, scd_ShipmentAddressID = csi_AddressID inp\<rparr>"

definition shipment_row :: "createShipmentInput \<Rightarrow> uuid \<Rightarrow> Shipment" where
  "shipment_row inp i = \<lparr>sh_ID = i, sh_Status = ''PENDING'', sh_ShipmentMethodID = csi_ShipmentMethodID inp,
     sh_ShipmentAddressID = csi_AddressID inp, sh_OrderID = csi_OrderID inp, sh_ReturnID = csi_ReturnID inp\<rparr>"

lemma tryCreateShipment_prepare:
  "tryCreateShipment inp init = andThen (prepareShipment inp init) (\<lambda>i. emit ShPublishFailed (created inp i))"
  by (rule ext) (auto simp: tryCreateShipment_def prepareShipment_def andThen_def run_ret run_fail created_def
      statusPENDING_def split: prod.split sum.split)


lemma unannounced_quantity [guar_intros]: "guar unannounced (CalculateQuantityAndWeight items)"
  unfolding CalculateQuantityAndWeight_eq by (intro guar_intros) (simp_all add: guar_def unannounced.R_refl)












subsection \<open>The shipments of an order\<close>

text \<open>Every call is answered, what the order names is stored, and the next \<open>k\<close> generated ids are new.\<close>

definition shippable :: "nat \<Rightarrow> OrderInputS \<Rightarrow> shipment_db \<Rightarrow> bool" where
  "shippable k order s \<longleftrightarrow> faults s = [] \<and> ois_ShipmentAddressID order \<in> ad_ID ` set (addressRows s) \<and>
     (\<forall>it \<in> set (ois_OrderItems order). 0 < oie_Count it \<and> int4 (oie_Count it) \<and>
        oie_ShipmentMethodID it \<in> sm_ID ` set (methodRows s) \<and>
        oie_ProductVariantVersionID it \<in> wv_ID ` set (versionRows s)) \<and>
     distinct (map (fresh s) [minted s..<minted s + k]) \<and>
     fresh s ` {minted s..<minted s + k} \<inter> sh_ID ` set (shipmentRows s) = {}"

lemma next_ids: "[n..<n + Suc k] = n # [Suc n..<Suc n + k]"
  by (simp add: upt_conv_Cons del: upt_Suc)

lemma upsert_quiet:
  assumes "faults s = []" "i \<in> sh_ID ` set (shipmentRows s)" "\<forall>it \<in> set items. int4 (si_Quantity it)"
  shows "\<exists>rows. upsertOrderItems items i s = (Inr (), s\<lparr>itemRows := rows\<rparr>) \<and>
    it_ID ` set (itemRows s) \<union> si_ID ` set items \<subseteq> it_ID ` set rows"
  using assms
proof (induction items arbitrary: s)
  case Nil
  then show ?case by (intro exI [of _ "itemRows s"]) (simp add: upsertOrderItems_def run_simps)
next
  case (Cons it items)
  obtain rows1 where 1: "CreateOrderItem (si_ID it) i (si_ProductVariantVersionID it) (si_Quantity it) s =
      (Inr (), s\<lparr>itemRows := rows1\<rparr>)" "it_ID ` set (itemRows s) \<union> {si_ID it} \<subseteq> it_ID ` set rows1"
  proof (cases "si_ID it \<in> it_ID ` set (itemRows s)")
    case True
    then show ?thesis using that [of "itemRows s"] Cons.prems by (auto simp: CreateOrderItem_def pg_insert_def run_simps)
  next
    case False
    then show ?thesis
      using that [of "itemRows s @ [\<lparr>it_ID = si_ID it, it_SentWithID = i,
          it_ProductVariantVersionID = si_ProductVariantVersionID it, it_Quantity = si_Quantity it\<rparr>]"] Cons.prems
      by (auto simp: CreateOrderItem_def pg_insert_def run_simps)
  qed
  have prems: "faults (s\<lparr>itemRows := rows1\<rparr>) = []" "i \<in> sh_ID ` set (shipmentRows (s\<lparr>itemRows := rows1\<rparr>))"
      "\<forall>it \<in> set items. int4 (si_Quantity it)"
    using Cons.prems by simp_all
  obtain rows where 2: "upsertOrderItems items i (s\<lparr>itemRows := rows1\<rparr>) = (Inr (), s\<lparr>itemRows := rows1\<rparr>\<lparr>itemRows := rows\<rparr>)"
      "it_ID ` set rows1 \<union> si_ID ` set items \<subseteq> it_ID ` set rows"
    using Cons.IH [OF prems] by auto
  have "it_ID ` set (itemRows s) \<union> si_ID ` set (it # items) \<subseteq> it_ID ` set rows" using 1(2) 2(2) by auto
  then show ?case
    using 1(1) 2(1) by (intro exI [of _ rows]) (simp add: upsertOrderItems_def run_andThen)
qed

lemma links_quiet:
  assumes "faults s = []" "i \<in> sh_ID ` set (shipmentRows s)" "si_ID ` set items \<subseteq> it_ID ` set (itemRows s)"
  shows "each (\<lambda>it. CreateShipmentToOrderItem i (si_ID it)) items s =
    (Inr (), s\<lparr>linkRows := linkRows s @ map (\<lambda>it. (i, si_ID it)) items\<rparr>)"
  using assms
  by (induction items arbitrary: s) (auto simp: run_simps run_andThen CreateShipmentToOrderItem_def pg_insert_def)

lemma attempts_quiet:
  "faults s = [] \<Longrightarrow> attempts n d s = (Inr (), s\<lparr>outbox := outbox s @ [ProviderPost d]\<rparr>)"
  by (cases n) (simp_all add: post_def run_andThen run_attempt run_simps)

lemma group_items:
  "csi_OrderItems (groupInput order m) = map (\<lambda>it. \<lparr>si_ID = oie_ID it, si_ProductVariantVersionID = oie_ProductVariantVersionID it,
     si_Quantity = oie_Count it\<rparr>) (filter (\<lambda>it. oie_ShipmentMethodID it = m) (ois_OrderItems order))"
  by (simp add: groupInput_def)

lemma find_key_ex: "k \<in> key ` set xs \<Longrightarrow> \<exists>x. find (\<lambda>d. key d = k) xs = Some x"
  by (induction xs) auto

lemma group_shipment:
  assumes ok: "shippable (Suc k) order s" and m: "m \<in> set (map oie_ShipmentMethodID (ois_OrderItems order))"
  shows "\<exists>d s'. createShipment (groupInput order m) upsertOrderItems s = (Inr (), s') \<and> shippable k order s' \<and>
    shipmentRows s' = shipmentRows s @ [shipment_row (groupInput order m) (fresh s (minted s))] \<and>
    minted s' = Suc (minted s) \<and> fresh s' = fresh s \<and>
    outbox s' = outbox s @ [ProviderPost d, created (groupInput order m) (fresh s (minted s))]"
proof -
  let ?inp = "groupInput order m" and ?i = "fresh s (minted s)"
  let ?q = "map (\<lambda>it. \<lparr>iq_ProductVariantVersionID = si_ProductVariantVersionID it, iq_Quantity = si_Quantity it\<rparr>) (csi_OrderItems ?inp)"
  have inp: "csi_OrderID ?inp = Some (ois_ID order)" "csi_ReturnID ?inp = None" "csi_ShipmentMethodID ?inp = m"
      "csi_AddressID ?inp = ois_ShipmentAddressID order" by (simp_all add: groupInput_def)
  have q: "faults s = []" using ok by (simp add: shippable_def)
  have mem: "m \<in> sm_ID ` set (methodRows s)" "ois_ShipmentAddressID order \<in> ad_ID ` set (addressRows s)"
    using ok m unfolding shippable_def by auto
  obtain meth where meth: "find (\<lambda>x. sm_ID x = m) (methodRows s) = Some meth"
    using find_key_ex [OF mem(1)] by blast
  obtain a where a: "find (\<lambda>x. ad_ID x = ois_ShipmentAddressID order) (addressRows s) = Some a"
    using find_key_ex [OF mem(2)] by blast
  have ne: "csi_OrderItems ?inp \<noteq> []" using m by (auto simp: group_items filter_empty_conv)
  have int: "\<forall>it \<in> set (csi_OrderItems ?inp). int4 (si_Quantity it)"
    using ok by (auto simp: group_items shippable_def)
  have known: "\<forall>it \<in> set ?q. 0 < iq_Quantity it \<and> iq_ProductVariantVersionID it \<in> wv_ID ` set (versionRows s)"
    using ok by (auto simp: group_items shippable_def)
  then obtain quantity weight where p: "pack (versionRows s) ?q = Inr (quantity, weight)"
    unfolding pack_def by (fastforce split: if_splits)
  let ?s1 = "s\<lparr>minted := Suc (minted s), shipmentRows := shipmentRows s @ [shipment_row ?inp ?i]\<rparr>"
  have new: "?i \<notin> sh_ID ` set (shipmentRows s)"
  proof -
    have "fresh s ` {minted s..<minted s + Suc k} \<inter> sh_ID ` set (shipmentRows s) = {}"
      using ok unfolding shippable_def by blast
    moreover have "?i \<in> fresh s ` {minted s..<minted s + Suc k}" by simp
    ultimately show ?thesis by blast
  qed
  have row: "CreateShipmentRow statusPENDING m (ois_ShipmentAddressID order) (Some (ois_ID order)) None s = (Inr ?i, ?s1)"
    using q mem new
    by (simp add: CreateShipmentRow_def pg_generated_def run_simps varchar_def statusPENDING_def
        shipment_row_def inp Let_def)
  have i: "?i \<in> sh_ID ` set (shipmentRows ?s1)" by (simp add: shipment_row_def)
  obtain rows where up: "upsertOrderItems (csi_OrderItems ?inp) ?i ?s1 = (Inr (), ?s1\<lparr>itemRows := rows\<rparr>)"
      "si_ID ` set (csi_OrderItems ?inp) \<subseteq> it_ID ` set rows"
    using upsert_quiet [OF _ i int] q by auto
  let ?s2 = "?s1\<lparr>itemRows := rows, linkRows := linkRows s @ map (\<lambda>it. (?i, si_ID it)) (csi_OrderItems ?inp)\<rparr>"
  have links: "each (\<lambda>it. CreateShipmentToOrderItem ?i (si_ID it)) (csi_OrderItems ?inp) (?s1\<lparr>itemRows := rows\<rparr>) = (Inr (), ?s2)"
    using links_quiet [of "?s1\<lparr>itemRows := rows\<rparr>" ?i "csi_OrderItems ?inp"] q i up(2) by simp
  let ?d = "\<lparr>def_ShipmentID = ?i, def_Ref = sm_ExternalReference meth, def_Quantity = quantity, def_Weight = weight, def_Address = a\<rparr>"
  have send: "sendToProvider ?inp ?i meth ?s2 = (Inr (), ?s2\<lparr>outbox := outbox s @ [ProviderPost ?d]\<rparr>)"
    using q p a
    by (simp add: sendToProvider_def run_andThen quantity_weight_quiet GetAddress_def find_one_def inp run_simps
        Send_def attempts_quiet)
  let ?s3 = "?s2\<lparr>outbox := outbox s @ [ProviderPost ?d, created ?inp ?i]\<rparr>"
  have "prepareShipment ?inp upsertOrderItems s = (Inr ?i, ?s2\<lparr>outbox := outbox s @ [ProviderPost ?d]\<rparr>)"
    using q mem(2) meth row up(1) links send
    by (simp add: prepareShipment_def run_andThen AddressExists_def GetShipmentMethod_def find_one_def run_simps inp)
  then have "createShipment ?inp upsertOrderItems s = (Inr (), ?s3)"
    using q ne by (simp add: createShipment_def validate_def inp run_andThen run_attempt tryCreateShipment_prepare run_simps)
  moreover have "shippable k order ?s3"
  proof -
    have ran: "{minted s..<minted s + Suc k} = insert (minted s) {Suc (minted s)..<Suc (minted s) + k}" by auto
    have "distinct (map (fresh s) [Suc (minted s)..<Suc (minted s) + k])" "?i \<notin> fresh s ` {Suc (minted s)..<Suc (minted s) + k}"
        "fresh s ` {Suc (minted s)..<Suc (minted s) + k} \<inter> sh_ID ` set (shipmentRows s) = {}"
      using ok unfolding shippable_def next_ids ran by (simp_all del: upt_Suc)
    then show ?thesis using ok by (simp add: shippable_def shipment_row_def del: upt_Suc)
  qed
  ultimately show ?thesis by (intro exI [of _ ?d] exI [of _ ?s3]) simp
qed

definition order_methods :: "OrderInputS \<Rightarrow> uuid list" where
  "order_methods order = first_seen id {} (map oie_ShipmentMethodID (ois_OrderItems order))"

definition announced_shipments :: "shipment_db \<Rightarrow> shipment_event list" where
  "announced_shipments s = filter (\<lambda>e. \<forall>d. e \<noteq> ProviderPost d) (outbox s)"

lemma created_no_post [simp]: "created inp i \<noteq> ProviderPost d"
  by (simp add: created_def)

lemma groups_shipped:
  assumes "shippable (length ms + k) order s" "set ms \<subseteq> set (map oie_ShipmentMethodID (ois_OrderItems order))"
  shows "\<exists>s'. each (\<lambda>m. createShipment (groupInput order m) upsertOrderItems) ms s = (Inr (), s') \<and> shippable k order s' \<and>
    (let ids = map (fresh s) [minted s..<minted s + length ms] in
     shipmentRows s' = shipmentRows s @ map2 (\<lambda>m. shipment_row (groupInput order m)) ms ids \<and>
     announced_shipments s' = announced_shipments s @ map2 (\<lambda>m. created (groupInput order m)) ms ids)"
  using assms
proof (induction ms arbitrary: s)
  case Nil
  then show ?case by (simp add: run_simps)
next
  case (Cons m ms)
  obtain d s1 where 1: "createShipment (groupInput order m) upsertOrderItems s = (Inr (), s1)" "shippable (length ms + k) order s1"
      "shipmentRows s1 = shipmentRows s @ [shipment_row (groupInput order m) (fresh s (minted s))]"
      "minted s1 = Suc (minted s)" "fresh s1 = fresh s"
      "outbox s1 = outbox s @ [ProviderPost d, created (groupInput order m) (fresh s (minted s))]"
    using group_shipment [of "length ms + k" order s m] Cons.prems(1) Cons.prems(2) by auto
  obtain s2 where 2: "each (\<lambda>m. createShipment (groupInput order m) upsertOrderItems) ms s1 = (Inr (), s2)" "shippable k order s2"
      "shipmentRows s2 = shipmentRows s1 @ map2 (\<lambda>m. shipment_row (groupInput order m)) ms (map (fresh s) [Suc (minted s)..<Suc (minted s) + length ms])"
      "announced_shipments s2 = announced_shipments s1 @ map2 (\<lambda>m. created (groupInput order m)) ms (map (fresh s) [Suc (minted s)..<Suc (minted s) + length ms])"
    using Cons.IH [OF 1(2)] Cons.prems(2) 1(4,5) by (auto simp: Let_def)
  have ids: "[minted s..<minted s + length (m # ms)] = minted s # [Suc (minted s)..<Suc (minted s) + length ms]"
    by (simp add: upt_conv_Cons del: upt_Suc)
  show ?case
    using 1 2 unfolding Let_def ids by (intro exI [of _ s2]) (simp add: run_andThen announced_shipments_def del: upt_Suc)
qed

text \<open>
  C16. An order whose payment is enabled, when every call is answered: one pending shipment is
  stored and announced for each distinct shipment method, in the order the methods first occur,
  under fresh ids, and for exactly the order's items of that method. Nothing marks the order as
  shipped: a second delivery of the same event succeeds again and stores and announces every
  shipment a second time.
\<close>

theorem order_shipped_per_method:
  assumes "shippable (2 * length (order_methods order)) order s" "CreateShipmentForOrder order s = (r, s1)" "CreateShipmentForOrder order s1 = (r2, s2)"
  shows "r = Inr () \<and> (\<exists>ids. distinct ids \<and> length ids = length (order_methods order) \<and>
      shipmentRows s1 = shipmentRows s @ map2 (\<lambda>m. shipment_row (groupInput order m)) (order_methods order) ids \<and>
      announced_shipments s1 = announced_shipments s @ map2 (\<lambda>m. created (groupInput order m)) (order_methods order) ids) \<and>
    r2 = Inr () \<and> length (shipmentRows s2) = length (shipmentRows s) + 2 * length (order_methods order) \<and>
    length (announced_shipments s2) = length (announced_shipments s) + 2 * length (order_methods order)"
proof -
  have sub: "set (order_methods order) \<subseteq> set (map oie_ShipmentMethodID (ois_OrderItems order))"
    by (simp add: order_methods_def)
  have 1: "r = Inr ()" "shippable (length (order_methods order)) order s1"
      "let ids = map (fresh s) [minted s..<minted s + length (order_methods order)] in
       shipmentRows s1 = shipmentRows s @ map2 (\<lambda>m. shipment_row (groupInput order m)) (order_methods order) ids \<and>
       announced_shipments s1 = announced_shipments s @ map2 (\<lambda>m. created (groupInput order m)) (order_methods order) ids"
    using groups_shipped [of "order_methods order" "length (order_methods order)" order s, OF _ sub] assms(1) assms(2)
    unfolding CreateShipmentForOrder_def order_methods_def [symmetric] by (auto simp: mult_2)
  have 2: "r2 = Inr ()"
      "let ids = map (fresh s1) [minted s1..<minted s1 + length (order_methods order)] in
       shipmentRows s2 = shipmentRows s1 @ map2 (\<lambda>m. shipment_row (groupInput order m)) (order_methods order) ids \<and>
       announced_shipments s2 = announced_shipments s1 @ map2 (\<lambda>m. created (groupInput order m)) (order_methods order) ids"
    using groups_shipped [of "order_methods order" 0 order s1, OF _ sub] 1(2) assms(3)
    unfolding CreateShipmentForOrder_def order_methods_def [symmetric] by (auto simp: mult_2)
  have "distinct (map (fresh s) [minted s..<minted s + length (order_methods order)])"
    using assms(1) by (auto simp: shippable_def distinct_map intro: inj_on_subset)
  then show ?thesis
    using 1 2 unfolding Let_def
    by (intro conjI exI [of _ "map (fresh s) [minted s..<minted s + length (order_methods order)]"]) simp_all
qed

subsection \<open>Concrete runs\<close>

definition ship_db :: "fault list \<Rightarrow> shipment_db" where
  "ship_db fs = \<lparr>faults = fs, outbox = [], fresh = (\<lambda>n. UUID (of_nat n)), minted = 0, clock = (\<lambda>n. 0), reads = 0,
     methodRows = [\<lparr>sm_ID = UUID 1, sm_Name = ''m'', sm_Description = [], sm_ExternalReference = ''r'', sm_BaseFees = 500,
       sm_FeesPerItem = 10, sm_FeesPerKg = 3, sm_ArchivedAt = None\<rparr>,
      \<lparr>sm_ID = UUID 2, sm_Name = ''n'', sm_Description = [], sm_ExternalReference = ''r'', sm_BaseFees = 400,
       sm_FeesPerItem = 10, sm_FeesPerKg = 3, sm_ArchivedAt = Some 0\<rparr>],
     shipmentRows = [], itemRows = [], addressRows = [\<lparr>ad_ID = UUID 3, ad_UserID = None, ad_Street1 = [], ad_Street2 = [],
       ad_City = [], ad_PostalCode = [], ad_Country = [], ad_CompanyName = None\<rparr>],
     versionRows = [\<lparr>wv_ID = UUID 4, wv_Weight = Fin 5 (-1)\<rparr>], linkRows = [],
     ecs_ProviderRetries = 3, ecs_ProviderRetryDelay = 500\<rparr>"

definition parcel :: ShipmentDefinition where
  "parcel = \<lparr>def_ShipmentID = UUID 9, def_Ref = [], def_Quantity = 1, def_Weight = Fin 0 0, def_Address =
     \<lparr>ad_ID = UUID 3, ad_UserID = None, ad_Street1 = [], ad_Street2 = [], ad_City = [], ad_PostalCode = [], ad_Country = [],
      ad_CompanyName = None\<rparr>\<rparr>"

lemma send_attempts_witness:
  "fst (Send parcel (ship_db [Refused, ReplyLost])) = Inr () \<and>
    length (outbox (snd (Send parcel (ship_db [Refused, ReplyLost])))) \<le> 4"
proof -
  obtain k where "fst (Send parcel (ship_db [Refused, ReplyLost])) = Inr () \<longleftrightarrow>
      (\<exists>i \<le> nat 3. outcome [Refused, ReplyLost] i = Answered)"
    "outbox (snd (Send parcel (ship_db [Refused, ReplyLost]))) = replicate (effective [Refused, ReplyLost] (Suc k)) (ProviderPost parcel)"
    "effective [Refused, ReplyLost] (Suc k) \<le> Suc (nat 3)"
    using send_attempts [where d = parcel and s = "ship_db [Refused, ReplyLost]", OF prod.collapse [symmetric] refl]
    by (auto simp: ship_db_def)
  moreover have "\<exists>i \<le> nat 3. outcome [Refused, ReplyLost] i = Answered"
    by (rule exI [of _ 2]) (simp add: outcome_def)
  ultimately show ?thesis by simp
qed

definition ship_row :: OrderItemRow where
  "ship_row = \<lparr>it_ID = UUID 7, it_SentWithID = UUID 8, it_ProductVariantVersionID = UUID 4, it_Quantity = 2\<rparr>"

lemma leastExpensive_is_first_minimum_witness:
  "\<exists>b s'. FindLeastExpensiveShipmentMethod (\<lambda>x. 0) [ship_row] (ship_db []) = (Inr b, s') \<and> b \<in> set (methodRows (ship_db []))"
proof -
  have "pack (versionRows (ship_db [])) [\<lparr>iq_ProductVariantVersionID = UUID 4, iq_Quantity = 2\<rparr>] \<noteq> Inl e" for e
    by (simp add: pack_def ship_db_def)
  then obtain q where "pack (versionRows (ship_db [])) [\<lparr>iq_ProductVariantVersionID = UUID 4, iq_Quantity = 2\<rparr>] = Inr q"
    by (cases "pack (versionRows (ship_db [])) [\<lparr>iq_ProductVariantVersionID = UUID 4, iq_Quantity = 2\<rparr>]") auto
  then obtain b s' where run: "FindLeastExpensiveShipmentMethod (\<lambda>x. 0) [ship_row] (ship_db []) = (Inr b, s')"
    by (cases q) (simp add: FindLeastExpensiveShipmentMethod_def FindAllShipmentMethods_def find_all_def run_andThen
        run_simps quantity_weight_quiet ship_row_def ship_db_def)
  from leastExpensive_is_first_minimum [OF run] run show ?thesis by blast
qed



definition ship_order :: OrderInputS where
  "ship_order = \<lparr>ois_ID = UUID 6, ois_ShipmentAddressID = UUID 3, ois_OrderItems =
     [\<lparr>oie_ID = UUID 7, oie_ProductVariantVersionID = UUID 4, oie_Count = 2, oie_ShipmentMethodID = UUID 1\<rparr>,
      \<lparr>oie_ID = UUID 8, oie_ProductVariantVersionID = UUID 4, oie_Count = 1, oie_ShipmentMethodID = UUID 2\<rparr>]\<rparr>"



lemma order_shipped_per_method_witness:
  "shippable 4 ship_order (ship_db []) \<and> order_methods ship_order = [UUID 1, UUID 2] \<and>
    fst (CreateShipmentForOrder ship_order (ship_db [])) = Inr () \<and>
    length (shipmentRows (snd (CreateShipmentForOrder ship_order (snd (CreateShipmentForOrder ship_order (ship_db [])))))) = 4"
proof -
  have m: "order_methods ship_order = [UUID 1, UUID 2]" by (simp add: order_methods_def ship_order_def)
  have ok: "shippable 4 ship_order (ship_db [])"
  proof -
    have "[0..<4] = [0, 1, 2, 3 :: nat]" by code_simp
    then show ?thesis by (simp add: shippable_def ship_order_def ship_db_def int4_def)
  qed
  show ?thesis
    using order_shipped_per_method [OF _ prod.collapse [symmetric] prod.collapse [symmetric], of ship_order "ship_db []"] m ok
    by (simp add: ship_db_def)
qed

end
