(* ===== verification/Timestamps.thy ===== *)
theory Timestamps
  imports Go_Text
begin

text \<open>
  The instants the services print and read: the proleptic Gregorian calendar of Go's
  \<open>time\<close>, the layouts \<open>RFC3339Nano\<close> and \<open>DateOnly\<close>, the event timestamps of
  \<open>order/events/time.go\<close> (the same file in \<open>invoice/events\<close>) and the scalars of
  \<open>pkg/scalars\<close>. An instant is its nanoseconds since 1970 in UTC.
\<close>

subsection \<open>The calendar\<close>

definition leap :: "int \<Rightarrow> bool" where
  "leap y \<longleftrightarrow> 4 dvd y \<and> (\<not> 100 dvd y \<or> 400 dvd y)"

definition days_in :: "int \<Rightarrow> int \<Rightarrow> int" where
  "days_in y m = (if m = 2 then (if leap y then 29 else 28) else if m \<in> {4, 6, 9, 11} then 30 else 31)"

text \<open>Years that start in March: the leap day is the last of them.\<close>

definition march_days :: "int \<Rightarrow> int" where
  "march_days y = 365 * y + y div 4 - y div 100 + y div 400"

definition march_year :: "int \<Rightarrow> int \<times> int" where
  "march_year z =
     (let a = z div 146097; r = z mod 146097; b = min 3 (r div 36524); r = r - 36524 * b;
          c = r div 1461; r = r mod 1461; d = min 3 (r div 365)
      in (400 * a + 100 * b + 4 * c + d, r - 365 * d))"

definition civil_of_day :: "int \<Rightarrow> int \<times> int \<times> int" where
  "civil_of_day z =
     (let (y, doy) = march_year (z + 719468);
          mp = (5 * doy + 2) div 153;
          m = (if mp < 10 then mp + 3 else mp - 9)
      in (if m \<le> 2 then y + 1 else y, m, doy - (153 * mp + 2) div 5 + 1))"

definition day_of_civil :: "int \<Rightarrow> int \<Rightarrow> int \<Rightarrow> int" where
  "day_of_civil y m d =
     (let y' = (if m \<le> 2 then y - 1 else y); mp = (if m \<le> 2 then m + 9 else m - 3)
      in march_days y' + (153 * mp + 2) div 5 + d - 1 - 719468)"

lemma march_year:
  assumes "march_year z = (y, doy)"
  shows "march_days y + doy = z" "0 \<le> doy" "doy \<le> 365" "doy = 365 \<Longrightarrow> leap (y + 1)"
proof -
  define a r b where "a = z div 146097" and "r = z mod 146097" and "b = min 3 (r div 36524)"
  define r2 where "r2 = r - 36524 * b"
  define c r3 where "c = r2 div 1461" and "r3 = r2 mod 1461"
  define d where "d = min 3 (r3 div 365)"
  have y: "y = 400 * a + 100 * b + 4 * c + d" and doy: "doy = r3 - 365 * d"
    using assms by (simp_all add: march_year_def Let_def a_def r_def b_def r2_def c_def r3_def d_def)
  have r: "0 \<le> r" "r < 146097" "z = 146097 * a + r" by (simp_all add: r_def a_def)
  have b: "0 \<le> b" "b \<le> 3" "0 \<le> r2" "r2 \<le> 36524" "b < 3 \<Longrightarrow> r2 < 36524"
    using r(1,2) unfolding r2_def b_def by linarith+
  have c: "r2 = 1461 * c + r3" "0 \<le> r3" "r3 < 1461" "0 \<le> c" by (simp_all add: c_def r3_def b(3) pos_imp_zdiv_nonneg_iff)
  then have c2: "c \<le> 24" using b(4) by linarith
  have d: "0 \<le> d" "d \<le> 3" "0 \<le> doy" "doy \<le> 365" "d < 3 \<Longrightarrow> doy < 365"
    using c(2,3) unfolding doy d_def by linarith+
  have "y div 4 = 100 * a + 25 * b + c" "y div 100 = 4 * a + b" "y div 400 = a"
    using b(1,2) c(4) c2 d(1,2) unfolding y by linarith+
  then have "march_days y = 146097 * a + 36524 * b + 1461 * c + 365 * d"
    unfolding march_days_def y by simp
  then show "march_days y + doy = z"
    using r(3) c(1) r2_def doy by linarith
  show "0 \<le> doy" "doy \<le> 365" by (fact d)+
  show "leap (y + 1)" if "doy = 365"
  proof -
    have d3: "d = 3" using d that by linarith
    then have r3: "r3 = 1460" using that doy by simp
    have y1: "y + 1 = 400 * a + 100 * b + 4 * (c + 1)" using y d3 by simp
    then have "y + 1 = 4 * (100 * a + 25 * b + c + 1)" by simp
    then have "4 dvd y + 1" by (rule dvdI)
    moreover have "400 dvd y + 1" if hundred: "100 dvd y + 1"
    proof -
      obtain k where "y + 1 = 100 * k" using hundred unfolding dvd_def by blast
      then have "c + 1 = 25 * (k - 4 * a - b)" using y1 by simp
      then have "c = 24" using c(4) c2 by presburger
      moreover from this have "b = 3" using c(1) r3 b by linarith
      ultimately have "y + 1 = 400 * (a + 1)" using y1 by simp
      then show ?thesis by simp
    qed
    ultimately show ?thesis by (auto simp: leap_def)
  qed
qed

lemma civil_of_day:
  assumes "civil_of_day z = (y, m, d)"
  shows "day_of_civil y m d = z" "1 \<le> m" "m \<le> 12" "1 \<le> d" "d \<le> days_in y m"
proof -
  obtain y' doy where my: "march_year (z + 719468) = (y', doy)" by fastforce
  note march = march_year [OF my]
  define mp where "mp = (5 * doy + 2) div 153"
  have mp: "0 \<le> mp" "mp \<le> 11" using march(2,3) unfolding mp_def by linarith+
  have m: "m = (if mp < 10 then mp + 3 else mp - 9)" and y: "y = (if m \<le> 2 then y' + 1 else y')"
      and d: "d = doy - (153 * mp + 2) div 5 + 1"
    using assms by (simp_all add: civil_of_day_def my mp_def Let_def split: if_splits)
  show "1 \<le> m" "m \<le> 12" using mp by (auto simp: m)
  show "day_of_civil y m d = z"
    using march(1) mp by (auto simp: day_of_civil_def y m d Let_def)
  show "1 \<le> d" using march(2) unfolding d mp_def by linarith
  have cases: "mp \<in> {0, 1, 2, 3, 4, 5, 6, 7, 8, 9, 10, 11}" using mp by (auto; presburger)
  have doy: "5 * doy + 2 < 153 * (mp + 1)" unfolding mp_def by presburger
  have "d \<le> days_in y m" if "mp \<noteq> 11"
    using cases that doy unfolding d by (auto simp: days_in_def m)
  moreover have "d \<le> days_in y m" if "mp = 11"
    using march(3,4) that by (cases "doy = 365") (auto simp: days_in_def m y d)
  ultimately show "d \<le> days_in y m" by blast
qed

subsection \<open>Printing\<close>

text \<open>\<open>appendInt\<close>: at least \<open>w\<close> digits.\<close>

fun num_digits :: "nat \<Rightarrow> nat" where
  "num_digits n = (if n < 10 then 1 else Suc (num_digits (n div 10)))"

declare num_digits.simps [simp del]

definition padded :: "nat \<Rightarrow> int \<Rightarrow> string" where
  "padded w n = (let a = nat \<bar>n\<bar> in (if n < 0 then ''-'' else []) @ dec_digits (max w (num_digits a)) a)"

definition format_date :: "int \<Rightarrow> string" where
  "format_date z = (let (y, m, d) = civil_of_day z
     in padded 4 y @ ''-'' @ padded 2 m @ ''-'' @ padded 2 d)"

text \<open>The layout \<open>2006-01-02T15:04:05\<close>.\<close>

definition format_seconds :: "int \<Rightarrow> string" where
  "format_seconds secs = (let sod = secs mod 86400
     in format_date (secs div 86400) @ ''T'' @ padded 2 (sod div 3600) @ '':'' @
        padded 2 (sod mod 3600 div 60) @ '':'' @ padded 2 (sod mod 60))"

definition seconds_of :: "time \<Rightarrow> int" where
  "seconds_of t = t div 1000000000"

definition nanos_of :: "time \<Rightarrow> nat" where
  "nanos_of t = nat (t mod 1000000000)"

text \<open>The fewest of 0, 3, 6 or 9 digits that lose nothing.\<close>

definition formatAutoSi :: "time \<Rightarrow> string" where
  "formatAutoSi t =
     (let base = format_seconds (seconds_of t); ns = nanos_of t
      in if ns = 0 then base @ ''Z''
         else if ns mod 1000000 = 0 then base @ ''.'' @ dec_digits 3 (ns div 1000000) @ ''Z''
         else if ns mod 1000 = 0 then base @ ''.'' @ dec_digits 6 (ns div 1000) @ ''Z''
         else base @ ''.'' @ dec_digits 9 ns @ ''Z'')"

definition MarshalJSON :: "time \<Rightarrow> string" where
  "MarshalJSON t = CHR 0x22 # formatAutoSi t @ [CHR 0x22]"

text \<open>\<open>RFC3339Nano\<close> drops the trailing zeros of the fraction.\<close>

definition trim_zeros :: "string \<Rightarrow> string" where
  "trim_zeros s = rev (dropWhile (\<lambda>c. c = CHR ''0'') (rev s))"

definition MarshalDateTime :: "time \<Rightarrow> string" where
  "MarshalDateTime t = (let frac = trim_zeros (dec_digits 9 (nanos_of t))
     in format_seconds (seconds_of t) @ (if frac = [] then [] else ''.'' @ frac) @ ''Z'')"

text \<open>A \<open>Date\<close> is an instant of which only the day is printed.\<close>

definition MarshalDate :: "time \<Rightarrow> string" where
  "MarshalDate t = format_date (seconds_of t div 86400)"

subsection \<open>Parsing\<close>

fun lit :: "char \<Rightarrow> string \<Rightarrow> string option" where
  "lit c [] = None"
| "lit c (x # xs) = (if x = c then Some xs else None)"

fun get2 :: "string \<Rightarrow> (nat \<times> string) option" where
  "get2 (a # b # s) = (if digit a \<and> digit b then Some (10 * digit_nat a + digit_nat b, s) else None)"
| "get2 s = None"

text \<open>The hour may have one digit.\<close>

definition get_hour :: "string \<Rightarrow> (nat \<times> string) option" where
  "get_hour s = (case s of
     a # rest \<Rightarrow>
       if \<not> digit a then None
       else (case rest of
         b # s' \<Rightarrow> if digit b then Some (10 * digit_nat a + digit_nat b, s') else Some (digit_nat a, rest)
       | [] \<Rightarrow> Some (digit_nat a, []))
   | [] \<Rightarrow> None)"

definition get_year :: "string \<Rightarrow> (nat \<times> string) option" where
  "get_year s = (if length (take 4 s) = 4 \<and> list_all digit (take 4 s) then Some (dec_value (take 4 s), drop 4 s) else None)"

text \<open>A fraction after a point or comma, of which nine digits count.\<close>

definition get_fraction :: "string \<Rightarrow> nat \<times> string" where
  "get_fraction s = (case s of
     c # rest \<Rightarrow>
       (let ds = takeWhile digit rest
        in if (c = CHR ''.'' \<or> c = CHR '','') \<and> ds \<noteq> []
           then (dec_value (take 9 ds) * 10 ^ (9 - length (take 9 ds)), dropWhile digit rest)
           else (0, s))
   | [] \<Rightarrow> (0, s))"

text \<open>\<open>Z\<close> or a signed offset in seconds.\<close>

definition get_zone :: "string \<Rightarrow> (int \<times> string) option" where
  "get_zone s = (case s of
     c # rest \<Rightarrow>
       if c = CHR ''Z'' then Some (0, rest)
       else if c = CHR ''+'' \<or> c = CHR ''-'' then
         Option.bind (get2 rest) (\<lambda>(hr, s1).
         Option.bind (lit CHR '':'' s1) (\<lambda>s2.
         Option.bind (get2 s2) (\<lambda>(mm, s3).
           if 24 < hr \<or> 60 < mm then None
           else Some ((if c = CHR ''-'' then -1 else 1) * (int hr * 3600 + int mm * 60), s3))))
       else None
   | [] \<Rightarrow> None)"

definition parse_day :: "string \<Rightarrow> ((int \<times> int \<times> int) \<times> string) option" where
  "parse_day s =
     Option.bind (get_year s) (\<lambda>(y, s). Option.bind (lit CHR ''-'' s) (\<lambda>s.
     Option.bind (get2 s) (\<lambda>(m, s). Option.bind (lit CHR ''-'' s) (\<lambda>s.
     Option.bind (get2 s) (\<lambda>(d, s). Some ((int y, int m, int d), s))))))"

definition valid_day :: "int \<times> int \<times> int \<Rightarrow> bool" where
  "valid_day ymd = (case ymd of (y, m, d) \<Rightarrow> 1 \<le> m \<and> m \<le> 12 \<and> 1 \<le> d \<and> d \<le> days_in y m)"

definition parse_clock :: "string \<Rightarrow> ((nat \<times> nat \<times> nat) \<times> string) option" where
  "parse_clock s =
     Option.bind (get_hour s) (\<lambda>(h, s). Option.bind (lit CHR '':'' s) (\<lambda>s.
     Option.bind (get2 s) (\<lambda>(m, s). Option.bind (lit CHR '':'' s) (\<lambda>s.
     Option.bind (get2 s) (\<lambda>(sec, s).
       if h < 24 \<and> m < 60 \<and> sec < 60 then Some ((h, m, sec), s) else None)))))"

definition ParseRFC3339 :: "string \<Rightarrow> time option" where
  "ParseRFC3339 s =
     Option.bind (parse_day s) (\<lambda>(ymd, s). Option.bind (lit CHR ''T'' s) (\<lambda>s.
     Option.bind (parse_clock s) (\<lambda>((h, m, sec), s).
     let (ns, s) = get_fraction s
     in Option.bind (get_zone s) (\<lambda>(offset, s).
       if s = [] \<and> valid_day ymd
       then Some ((case ymd of (y, mo, d) \<Rightarrow> day_of_civil y mo d * 86400 + int h * 3600 + int m * 60 + int sec - offset) * 1000000000 + int ns)
       else None))))"

definition zero_time :: time where
  "zero_time = day_of_civil 1 1 1 * 86400 * 1000000000"

definition UnmarshalJSON :: "string \<Rightarrow> time option" where
  "UnmarshalJSON b =
     (let quote = (\<lambda>c. c = CHR 0x22); s = rev (dropWhile quote (rev (dropWhile quote b)))
      in if s = ''null'' \<or> s = [] then Some zero_time else ParseRFC3339 s)"

text \<open>A scalar that is not a string is \<open>None\<close>.\<close>

definition UnmarshalDateTime :: "string option \<Rightarrow> time option" where
  "UnmarshalDateTime v = Option.bind v ParseRFC3339"

definition UnmarshalDate :: "string option \<Rightarrow> time option" where
  "UnmarshalDate v = Option.bind v (\<lambda>s. Option.bind (parse_day s) (\<lambda>(ymd, s).
     if s = [] \<and> valid_day ymd then Some ((case ymd of (y, m, d) \<Rightarrow> day_of_civil y m d) * 86400 * 1000000000) else None))"

subsection \<open>Printing and parsing are inverse\<close>

lemma num_digits_le: "n < 10 ^ k \<Longrightarrow> 0 < k \<Longrightarrow> num_digits n \<le> k"
proof (induction n arbitrary: k rule: num_digits.induct)
  case (1 n)
  show ?case
  proof (cases "n < 10")
    case True
    then have "num_digits n = 1" by (simp add: num_digits.simps [of n])
    then show ?thesis using 1(3) by simp
  next
    case False
    obtain j where k: "k = Suc j" using 1(3) by (cases k) auto
    have "j \<noteq> 0" using False 1(2) k by (intro notI) simp
    then have j: "k = Suc j" "0 < j" using k by simp_all
    then have "n div 10 < 10 ^ j" using 1(2) by (simp add: less_mult_imp_div_less mult.commute)
    then have "num_digits (n div 10) \<le> j" using 1(1) [OF False] j(2) by blast
    then show ?thesis using j(1) False by (simp add: num_digits.simps [of n])
  qed
qed

lemma padded_dec: "0 \<le> n \<Longrightarrow> n < 10 ^ w \<Longrightarrow> 0 < w \<Longrightarrow> padded w n = dec_digits w (nat n)"
  using num_digits_le [of "nat n" w] by (simp add: padded_def Let_def max_absorb1 nat_less_iff)

lemma decimal [simp]:
  fixes k :: nat
  assumes "k < 10"
  shows "digit (char_of (48 + k))" "digit_nat (char_of (48 + k)) = k"
proof -
  have "(of_char (char_of (48 + k) :: char) :: nat) = 48 + k" using assms by simp
  then show "digit (char_of (48 + k))" "digit_nat (char_of (48 + k)) = k"
    using assms by (simp_all add: digit_def digit_nat_def)
qed

lemma padded_2:
  assumes "0 \<le> n" "n < 100"
  obtains a b :: nat where "padded 2 n = [char_of (48 + a), char_of (48 + b)]" "a < 10" "b < 10" "nat n = 10 * a + b"
proof
  have "nat n div 10 < 10" using assms by (simp add: less_mult_imp_div_less)
  then show "padded 2 n = [char_of (48 + nat n div 10), char_of (48 + nat n mod 10)]"
    using assms by (simp add: padded_dec numeral_2_eq_2)
  show "nat n div 10 < 10" by fact
qed simp_all

lemma get2_padded [simp]: "0 \<le> n \<Longrightarrow> n < 100 \<Longrightarrow> get2 (padded 2 n @ s) = Some (nat n, s)"
proof -
  assume "0 \<le> n" "n < 100"
  then obtain a b :: nat where "padded 2 n = [char_of (48 + a), char_of (48 + b)]" "a < 10" "b < 10" "nat n = 10 * a + b"
    by (rule padded_2)
  then show ?thesis by (simp add: decimal)
qed

lemma get_hour_padded [simp]: "0 \<le> n \<Longrightarrow> n < 100 \<Longrightarrow> get_hour (padded 2 n @ s) = Some (nat n, s)"
proof -
  assume "0 \<le> n" "n < 100"
  then obtain a b :: nat where "padded 2 n = [char_of (48 + a), char_of (48 + b)]" "a < 10" "b < 10" "nat n = 10 * a + b"
    by (rule padded_2)
  then show ?thesis by (simp add: decimal get_hour_def)
qed

lemma get_year_padded [simp]: "0 \<le> n \<Longrightarrow> n \<le> 9999 \<Longrightarrow> get_year (padded 4 n @ s) = Some (nat n, s)"
  by (simp add: get_year_def padded_dec nat_less_iff)

definition year_of :: "time \<Rightarrow> int" where
  "year_of t = fst (civil_of_day (seconds_of t div 86400))"

lemma parse_format_date:
  assumes "civil_of_day z = (y, m, d)" "0 \<le> y" "y \<le> 9999"
  shows "parse_day (format_date z @ s) = Some ((y, m, d), s)" "valid_day (y, m, d)"
proof -
  note c = civil_of_day [OF assms(1)]
  have "days_in y m \<le> 31" by (simp add: days_in_def)
  with c have "d < 100" by linarith
  with c assms show "parse_day (format_date z @ s) = Some ((y, m, d), s)"
    by (simp add: parse_day_def format_date_def)
  show "valid_day (y, m, d)" using c by (simp add: valid_day_def)
qed

lemma parse_format_seconds:
  assumes y: "civil_of_day (secs div 86400) = (y, m, d)" "0 \<le> y" "y \<le> 9999"
    and frac: "get_fraction r = (ns, ''Z'')"
  shows "ParseRFC3339 (format_seconds secs @ r) = Some (secs * 1000000000 + int ns)"
proof -
  define sod where "sod = secs mod 86400"
  have b: "0 \<le> sod" "sod < 86400" by (simp_all add: sod_def)
  have h: "0 \<le> sod div 3600" "sod div 3600 < 24" "0 \<le> sod mod 3600 div 60" "sod mod 3600 div 60 < 60"
      "0 \<le> sod mod 60" "sod mod 60 < 60" using b by (auto simp: div_less_iff_less_mult pos_imp_zdiv_nonneg_iff)
  have sum: "sod div 3600 * 3600 + sod mod 3600 div 60 * 60 + sod mod 60 = sod"
  proof -
    have "sod mod 3600 mod 60 = sod mod 60" by (rule mod_mod_cancel) simp
    then show ?thesis
      using div_mult_mod_eq [of sod 3600] div_mult_mod_eq [of "sod mod 3600" 60] by linarith
  qed
  have "parse_clock (padded 2 (sod div 3600) @ '':'' @ padded 2 (sod mod 3600 div 60) @ '':'' @ padded 2 (sod mod 60) @ r)
      = Some ((nat (sod div 3600), nat (sod mod 3600 div 60), nat (sod mod 60)), r)"
    using h by (simp add: parse_clock_def nat_less_iff)
  moreover have "day_of_civil y m d * 86400 + sod = secs"
    using civil_of_day(1) [OF y(1)] by (simp add: sod_def)
  ultimately show ?thesis
    unfolding ParseRFC3339_def format_seconds_def Let_def sod_def [symmetric] append_assoc
      parse_format_date(1) [OF y]
    using h sum frac parse_format_date(2) [OF y] by (simp add: get_zone_def)
qed

lemma takeWhile_digits: "list_all digit ds \<Longrightarrow> \<not> digit c \<Longrightarrow> takeWhile digit (ds @ c # s) = ds"
    and dropWhile_digits: "list_all digit ds \<Longrightarrow> \<not> digit c \<Longrightarrow> dropWhile digit (ds @ c # s) = c # s"
  by (induction ds) auto

lemma get_fraction_digits:
  assumes "list_all digit ds" "ds \<noteq> []" "length ds \<le> 9"
  shows "get_fraction (CHR ''.'' # ds @ ''Z'') = (dec_value ds * 10 ^ (9 - length ds), ''Z'')"
proof -
  have Z: "\<not> digit CHR ''Z''" by (simp add: digit_def)
  show ?thesis
    using assms by (simp add: get_fraction_def takeWhile_digits [OF _ Z] dropWhile_digits [OF _ Z])
qed

lemma list_all_takeWhile: "list_all P (takeWhile P xs)"
  by (induction xs) auto

lemma dec_value_snoc: "dec_value (ds @ [c]) = 10 * dec_value ds + digit_nat c"
  by (simp add: dec_value_def)

lemma dec_value_zeros: "dec_value (ds @ replicate k CHR ''0'') = dec_value ds * 10 ^ k"
proof (induction k)
  case (Suc k)
  have "dec_value (ds @ replicate (Suc k) CHR ''0'') = dec_value ((ds @ replicate k CHR ''0'') @ [CHR ''0''])"
    by (simp add: replicate_append_same)
  also have "\<dots> = 10 * (dec_value ds * 10 ^ k)" unfolding dec_value_snoc Suc by (simp add: digit_nat_def)
  finally show ?case by simp
qed simp

lemma trim_zeros_split: "\<exists>k. s = trim_zeros s @ replicate k CHR ''0''"
proof -
  let ?z = "\<lambda>c. c = CHR ''0''"
  have "takeWhile ?z (rev s) = replicate (length (takeWhile ?z (rev s))) CHR ''0''"
    by (rule replicate_eqI [symmetric, THEN sym]) (auto dest: set_takeWhileD)
  then have "rev s = replicate (length (takeWhile ?z (rev s))) CHR ''0'' @ dropWhile ?z (rev s)"
    by (metis takeWhile_dropWhile_id)
  then have "s = trim_zeros s @ rev (replicate (length (takeWhile ?z (rev s))) CHR ''0'')"
    unfolding trim_zeros_def by (metis rev_append rev_rev_ident)
  then show ?thesis by (metis rev_replicate)
qed

lemma nanos_less: "nanos_of t < 10 ^ 9"
  by (simp add: nanos_of_def nat_less_iff)

lemma time_split: "seconds_of t * 1000000000 + int (nanos_of t) = t"
  by (simp add: seconds_of_def nanos_of_def)

lemma fraction_auto:
  assumes "ns < 10 ^ 9" "k \<le> 9" "0 < k" "ns mod 10 ^ (9 - k) = 0"
  shows "get_fraction (''.'' @ dec_digits k (ns div 10 ^ (9 - k)) @ ''Z'') = (ns, ''Z'')"
proof -
  have "(10 :: nat) ^ 9 = 10 ^ k * 10 ^ (9 - k)" using assms(2) by (simp flip: power_add)
  then have "ns div 10 ^ (9 - k) < 10 ^ k" using assms(1) by (simp add: less_mult_imp_div_less)
  moreover have "ns div 10 ^ (9 - k) * 10 ^ (9 - k) = ns" using assms(4) by auto
  moreover have "dec_digits k (ns div 10 ^ (9 - k)) \<noteq> []"
    using assms(3) length_dec_digits [of k "ns div 10 ^ (9 - k)"] by (metis list.size(3) less_irrefl)
  ultimately show ?thesis
    using assms(2) get_fraction_digits [of "dec_digits k (ns div 10 ^ (9 - k))"] by simp
qed

lemma fraction_trimmed:
  assumes "ns < 10 ^ 9" "fd = trim_zeros (dec_digits 9 ns)"
  shows "get_fraction ((if fd = [] then [] else ''.'' @ fd) @ ''Z'') = (ns, ''Z'')"
proof -
  obtain k where k: "dec_digits 9 ns = fd @ replicate k CHR ''0''"
    using trim_zeros_split assms(2) by blast
  have len: "length fd + k = 9" using arg_cong [OF k, of length] by simp
  have digs: "list_all digit fd" using digits_dec_digits [of 9 ns] unfolding k by simp
  have "dec_value fd * 10 ^ k = ns"
    using dec_value_digits [of 9 ns] assms(1) unfolding k dec_value_zeros by simp
  moreover have "9 - length fd = k" using len by simp
  ultimately show ?thesis
  proof (cases "fd = []")
    case True
    then show ?thesis using \<open>dec_value fd * 10 ^ k = ns\<close> by (simp add: get_fraction_def dec_value_def)
  next
    case False
    then show ?thesis
      using get_fraction_digits [OF digs] len \<open>dec_value fd * 10 ^ k = ns\<close> \<open>9 - length fd = k\<close> by simp
  qed
qed

lemma unquote:
  assumes "s \<noteq> []" "hd s \<noteq> CHR 0x22" "last s \<noteq> CHR 0x22"
  shows "rev (dropWhile (\<lambda>c. c = CHR 0x22) (rev (dropWhile (\<lambda>c. c = CHR 0x22) (CHR 0x22 # s @ [CHR 0x22])))) = s"
proof -
  obtain a s' where "s = a # s'" "a \<noteq> CHR 0x22" using assms(1,2) by (cases s) auto
  then have "dropWhile (\<lambda>c. c = CHR 0x22) (CHR 0x22 # s @ [CHR 0x22]) = s @ [CHR 0x22]" by simp
  moreover obtain b u where "rev s = b # u" "b \<noteq> CHR 0x22"
    using assms(1,3) by (cases s rule: rev_cases) auto
  ultimately show ?thesis by (simp add: rev_swap)
qed

lemma formatAutoSi_fraction:
  "\<exists>r. formatAutoSi t = format_seconds (seconds_of t) @ r @ ''Z'' \<and> get_fraction (r @ ''Z'') = (nanos_of t, ''Z'')"
proof -
  let ?ns = "nanos_of t"
  note auto = fraction_auto [OF nanos_less [of t]]
  consider "?ns = 0" | "?ns \<noteq> 0" "?ns mod 1000000 = 0" | "?ns \<noteq> 0" "?ns mod 1000000 \<noteq> 0" "?ns mod 1000 = 0"
    | "?ns \<noteq> 0" "?ns mod 1000000 \<noteq> 0" "?ns mod 1000 \<noteq> 0" by blast
  then show ?thesis
  proof cases
    case 1
    then show ?thesis by (intro exI [of _ "[]"]) (simp add: formatAutoSi_def get_fraction_def)
  next
    case 2
    then show ?thesis using auto [of 3]
      by (intro exI [of _ "''.'' @ dec_digits 3 (?ns div 1000000)"]) (simp add: formatAutoSi_def)
  next
    case 3
    then show ?thesis using auto [of 6]
      by (intro exI [of _ "''.'' @ dec_digits 6 (?ns div 1000)"]) (simp add: formatAutoSi_def)
  next
    case 4
    then show ?thesis using auto [of 9]
      by (intro exI [of _ "''.'' @ dec_digits 9 ?ns"]) (simp add: formatAutoSi_def)
  qed
qed

lemma format_seconds_hd:
  assumes "civil_of_day (secs div 86400) = (y, m, d)" "0 \<le> y" "y \<le> 9999"
  shows "format_seconds secs \<noteq> []" "digit (hd (format_seconds secs))"
proof -
  obtain a ds where "dec_digits 4 (nat y) = a # ds" "digit a"
    using digits_dec_digits [of 4 "nat y"] length_dec_digits [of 4 "nat y"] by (cases "dec_digits 4 (nat y)") auto
  then show "format_seconds secs \<noteq> []" "digit (hd (format_seconds secs))"
    using assms by (simp_all add: format_seconds_def format_date_def padded_dec Let_def)
qed

lemma unquoted:
  assumes "s \<noteq> []" "digit (hd s)" "last s = CHR ''Z''"
  shows "UnmarshalJSON (CHR 0x22 # s @ [CHR 0x22]) = ParseRFC3339 s"
proof -
  have "hd s \<noteq> CHR 0x22" "s \<noteq> ''null''" "last s \<noteq> CHR 0x22" using assms(2,3) by (auto simp: digit_def)
  with assms(1) show ?thesis unfolding UnmarshalJSON_def Let_def unquote [OF assms(1) \<open>hd s \<noteq> CHR 0x22\<close> \<open>last s \<noteq> CHR 0x22\<close>] by simp
qed

text \<open>
  C17. Timestamps survive printing and parsing. Between the years 0 and 9999 an event timestamp
  and a \<open>DateTime\<close> scalar are read back as the same instant, to the nanosecond, and a
  \<open>Date\<close> scalar as the midnight that starts its day.
\<close>

theorem timestamps_round_trip:
  assumes "0 \<le> year_of t" "year_of t \<le> 9999"
  shows "UnmarshalJSON (MarshalJSON t) = Some t \<and> UnmarshalDateTime (Some (MarshalDateTime t)) = Some t \<and>
    UnmarshalDate (Some (MarshalDate t)) = Some (t - t mod (86400 * 1000000000))"
proof -
  obtain y m d where c: "civil_of_day (seconds_of t div 86400) = (y, m, d)" "0 \<le> y" "y \<le> 9999"
    using assms by (cases "civil_of_day (seconds_of t div 86400)") (auto simp: year_of_def)
  note parse = parse_format_seconds [OF c]
  have read: "ParseRFC3339 (format_seconds (seconds_of t) @ r) = Some t" if "get_fraction r = (nanos_of t, ''Z'')" for r
    using parse [OF that] by (simp add: time_split)
  obtain r where r: "formatAutoSi t = format_seconds (seconds_of t) @ r @ ''Z''" "get_fraction (r @ ''Z'') = (nanos_of t, ''Z'')"
    using formatAutoSi_fraction by blast
  then have json: "ParseRFC3339 (formatAutoSi t) = Some t" by (simp add: read)
  have first: "digit (hd (formatAutoSi t))" "formatAutoSi t \<noteq> []"
    using format_seconds_hd [OF c] r(1) by (simp_all add: hd_append)
  then have "UnmarshalJSON (MarshalJSON t) = ParseRFC3339 (formatAutoSi t)"
    unfolding MarshalJSON_def by (intro unquoted) (simp_all add: r(1))
  moreover have "ParseRFC3339 (MarshalDateTime t) = Some t"
    using read [OF fraction_trimmed [OF nanos_less refl]] by (simp add: MarshalDateTime_def Let_def)
  moreover have "UnmarshalDate (Some (MarshalDate t)) = Some (t - t mod (86400 * 1000000000))"
  proof -
    have "t - t mod (86400 * 1000000000) = seconds_of t div 86400 * 86400 * 1000000000"
      by (simp add: seconds_of_def minus_mod_eq_mult_div zdiv_zmult2_eq [symmetric] mult.commute)
    then show ?thesis
      using parse_format_date(1) [OF c, of "[]"] parse_format_date(2) [OF c] civil_of_day(1) [OF c(1)] by (simp add: UnmarshalDate_def MarshalDate_def)
  qed
  ultimately show ?thesis using json by (simp add: UnmarshalDateTime_def)
qed

lemma timestamps_round_trip_witness:
  "year_of 951782400000000100 = 2000 \<and> UnmarshalJSON (MarshalJSON 951782400000000100) = Some 951782400000000100"
proof -
  have "year_of 951782400000000100 = 2000"
    by (simp add: year_of_def seconds_of_def civil_of_day_def march_year_def Let_def)
  then show ?thesis using timestamps_round_trip [of 951782400000000100] by simp
qed

end
