(* ===== verification/Go_Json.thy ===== *)
theory Go_Json
  imports Go_Text
begin

text \<open>
  JSON values as \<open>encoding/json\<close> decodes them: a number keeps its literal, an object its members
  in order. A struct field takes, of the members whose name equals its own up to ASCII case, each
  in turn; a map takes the exact names.
\<close>

datatype json = JNull | JBool bool | JNum string | JStr string | JArr "json list" | JObj "(string \<times> json) list"

text \<open>The members that decode into the field \<open>name\<close>, in order.\<close>

definition members :: "string \<Rightarrow> (string \<times> json) list \<Rightarrow> json list" where
  "members name kvs = map snd (filter (\<lambda>kv. EqualFold (fst kv) name) kvs)"

text \<open>A \<open>*json.RawMessage\<close> field: \<open>null\<close> makes the pointer nil.\<close>

definition raw_field :: "string \<Rightarrow> (string \<times> json) list \<Rightarrow> json option" where
  "raw_field name kvs =
     (case members name kvs of [] \<Rightarrow> None | vs \<Rightarrow> (if last vs = JNull then None else Some (last vs)))"

text \<open>A \<open>string\<close> field: \<open>null\<close> changes nothing, another value than a string is an error.\<close>

definition string_field :: "string \<Rightarrow> (string \<times> json) list \<Rightarrow> string option" where
  "string_field name kvs =
     foldl (\<lambda>acc v. case v of JStr s \<Rightarrow> map_option (\<lambda>_. s) acc | JNull \<Rightarrow> acc | _ \<Rightarrow> None) (Some []) (members name kvs)"

text \<open>The members a struct decodes: an object's, none of \<open>null\<close>, an error otherwise.\<close>

fun struct_members :: "json \<Rightarrow> (string \<times> json) list option" where
  "struct_members (JObj kvs) = Some kvs"
| "struct_members JNull = Some []"
| "struct_members _ = None"

text \<open>\<open>json.Unmarshal\<close> into a \<open>float64\<close>: a number out of range is an error.\<close>

fun json_float :: "json \<Rightarrow> f64 option" where
  "json_float (JNum l) = ParseFloat l"
| "json_float JNull = Some (Fin 0 0)"
| "json_float _ = None"

text \<open>A map keeps the last member of each name.\<close>

definition json_map :: "(string \<times> json) list \<Rightarrow> (string, json) gomap" where
  "json_map kvs = gomap_of [] kvs"

end
