(* ===== verification/Sim_Config.thy ===== *)
theory Sim_Config
  imports Go_Json
begin

text \<open>
  \<open>simulation/config\<close>: the six variables that tune the simulation, the casts of JavaScript's
  \<open>Number\<close> and \<open>parseInt\<close>, and the resolution order override, environment, fallback.
  \<open>fmt\<close> is what \<open>strconv\<close> and \<open>fmt\<close> print for a float that is no small integer and for
  a composite value; no defined variable is ever printed.
\<close>

subsection \<open>Definitions of variables\<close>

text \<open>The dynamic values the configuration holds or is given.\<close>

datatype any = AFloat f64 | AInt int | ABool bool | AString string | AOther json

record VariableDefinition =
  vd_Type :: string
  vd_DefaultValue :: any

definition definedVariables :: "(string \<times> VariableDefinition) list" where
  "definedVariables =
    [(''PAYMENTS_PER_MINUTE'', \<lparr>vd_Type = ''integer'', vd_DefaultValue = AInt 1000000\<rparr>),
     (''SHIPMENTS_PER_MINUTE'', \<lparr>vd_Type = ''integer'', vd_DefaultValue = AInt 1000000\<rparr>),
     (''PAYMENT_PROCESSING_TIME'', \<lparr>vd_Type = ''integer'', vd_DefaultValue = AInt 5\<rparr>),
     (''SHIPMENT_PROCESSING_TIME'', \<lparr>vd_Type = ''integer'', vd_DefaultValue = AInt 5\<rparr>),
     (''PAYMENT_SUCCESS_RATE'', \<lparr>vd_Type = ''number'', vd_DefaultValue = AFloat (f64_of_ratio 95 100)\<rparr>),
     (''SHIPMENT_SUCCESS_RATE'', \<lparr>vd_Type = ''number'', vd_DefaultValue = AFloat (f64_of_ratio 95 100)\<rparr>)]"

definition DefinedVariables :: "(string \<times> VariableDefinition) list" where
  "DefinedVariables = definedVariables"

definition findDefinition :: "string \<Rightarrow> VariableDefinition option" where
  "findDefinition name = map_option snd (find (\<lambda>v. fst v = name) definedVariables)"

subsection \<open>Casts\<close>

text \<open>\<open>Number(v)\<close>\<close>

fun jsNumber :: "any \<Rightarrow> f64" where
  "jsNumber (AFloat x) = x"
| "jsNumber (AInt n) = f64_of_int n"
| "jsNumber (ABool b) = (if b then Fin 1 0 else Fin 0 0)"
| "jsNumber (AString s) =
     (let t = TrimSpace s
      in if t = [] then Fin 0 0 else (case ParseFloat t of None \<Rightarrow> NaN | Some x \<Rightarrow> x))"
| "jsNumber (AOther v) = NaN"

text \<open>\<open>math.Trunc\<close>\<close>

fun f64_floor0 :: "f64 \<Rightarrow> f64" where
  "f64_floor0 (Fin m e) = (if 0 \<le> e then Fin m e else Fin (sgn m * (\<bar>m\<bar> div 2 ^ nat (- e))) 0)"
| "f64_floor0 x = x"

definition parseIntPrefix :: "string \<Rightarrow> f64" where
  "parseIntPrefix s =
     (let t = TrimSpace s; (sg, body) = unsigned_part t; ds = takeWhile digit body
      in if t = [] \<or> ds = [] then NaN
         else (case ParseFloat ds of None \<Rightarrow> NaN | Some x \<Rightarrow> f64_mul (Fin sg 0) x))"

text \<open>\<open>parseInt(v, 10)\<close>\<close>

fun jsParseIntBase10 :: "any \<Rightarrow> f64" where
  "jsParseIntBase10 (AInt n) = f64_of_int n"
| "jsParseIntBase10 (AFloat (Fin m e)) = f64_floor0 (Fin m e)"
| "jsParseIntBase10 (AFloat x) = NaN"
| "jsParseIntBase10 (AString s) = parseIntPrefix s"
| "jsParseIntBase10 v = NaN"

fun nat_digits :: "nat \<Rightarrow> string" where
  "nat_digits n = (if n < 10 then [char_of (48 + n)] else nat_digits (n div 10) @ [char_of (48 + n mod 10)])"

declare nat_digits.simps [simp del]

definition int_digits :: "int \<Rightarrow> string" where
  "int_digits n = (if n < 0 then ''-'' else []) @ nat_digits (nat \<bar>n\<bar>)"

definition formatJSNumber :: "(any \<Rightarrow> string) \<Rightarrow> f64 \<Rightarrow> string" where
  "formatJSNumber fmt x =
     (case x of
        NaN \<Rightarrow> ''NaN''
      | PosInf \<Rightarrow> ''Infinity''
      | NegInf \<Rightarrow> ''-Infinity''
      | Fin m e \<Rightarrow>
          (case f64_trunc x of
             Some n \<Rightarrow>
               if \<not> f64_less x (f64_floor0 x) \<and> \<not> f64_less (f64_floor0 x) x \<and> \<bar>n\<bar> \<le> 2 ^ 53
               then int_digits n else fmt (AFloat x)
           | None \<Rightarrow> fmt (AFloat x)))"

fun jsStringOf :: "(any \<Rightarrow> string) \<Rightarrow> any \<Rightarrow> string" where
  "jsStringOf fmt (AString s) = s"
| "jsStringOf fmt (ABool b) = (if b then ''true'' else ''false'')"
| "jsStringOf fmt (AInt n) = int_digits n"
| "jsStringOf fmt (AFloat x) = formatJSNumber fmt x"
| "jsStringOf fmt (AOther v) = fmt (AOther v)"

text \<open>\<open>None\<close> is the unsupported type.\<close>

definition castValue :: "(any \<Rightarrow> string) \<Rightarrow> string \<Rightarrow> any \<Rightarrow> any option" where
  "castValue fmt schemaType v =
     (if schemaType = ''number'' then Some (AFloat (jsNumber v))
      else if schemaType = ''integer'' then Some (AFloat (jsParseIntBase10 v))
      else if schemaType = ''boolean'' then Some (ABool (jsStringOf fmt v = ''true''))
      else if schemaType = ''string'' then Some (AString (jsStringOf fmt v))
      else None)"

subsection \<open>The service\<close>

record ConfigService =
  configurations :: "string \<rightharpoonup> any"
  environ :: "string \<rightharpoonup> string"

text \<open>
  The variables in the order the runtime ranges over the map; the first unknown one ends the loop,
  those before it stay set.
\<close>

fun SetVariables_cfg :: "(any \<Rightarrow> string) \<Rightarrow> (string \<times> any) list \<Rightarrow> ConfigService \<Rightarrow> bool \<times> ConfigService" where
  "SetVariables_cfg fmt [] c = (True, c)"
| "SetVariables_cfg fmt ((key, v) # vars) c =
     (case findDefinition key of
        None \<Rightarrow> (False, c)
      | Some def \<Rightarrow>
          (case castValue fmt (vd_Type def) v of
             None \<Rightarrow> (False, c)
           | Some cast \<Rightarrow> SetVariables_cfg fmt vars (c\<lparr>configurations := (configurations c)(key \<mapsto> cast)\<rparr>)))"

text \<open>Seeding every variable with its default.\<close>

definition newConfig :: "(any \<Rightarrow> string) \<Rightarrow> (string \<rightharpoonup> string) \<Rightarrow> ConfigService" where
  "newConfig fmt env =
     snd (SetVariables_cfg fmt (map (\<lambda>v. (fst v, vd_DefaultValue (snd v))) definedVariables)
       \<lparr>configurations = Map.empty, environ = env\<rparr>)"

definition GetCurrentVariableValueNumber :: "ConfigService \<Rightarrow> string \<Rightarrow> f64 \<Rightarrow> f64" where
  "GetCurrentVariableValueNumber c name fallback =
     (case configurations c name of
        Some v \<Rightarrow> jsNumber v
      | None \<Rightarrow> (case environ c name of Some s \<Rightarrow> jsNumber (AString s) | None \<Rightarrow> fallback))"

definition GetCurrentVariableValueString :: "(any \<Rightarrow> string) \<Rightarrow> ConfigService \<Rightarrow> string \<Rightarrow> string \<Rightarrow> string" where
  "GetCurrentVariableValueString fmt c name fallback =
     (case configurations c name of
        Some v \<Rightarrow> jsStringOf fmt v
      | None \<Rightarrow> (case environ c name of Some s \<Rightarrow> s | None \<Rightarrow> fallback))"

end
