(* ===== verification/Sim_Queue.thy ===== *)
theory Sim_Queue
  imports Sim_Config
begin

text \<open>
  \<open>simulation/queue\<close>, \<open>simulation/store\<close> and \<open>simulation/connector\<close>: the processor
  between the two durable queues and the callbacks. The RabbitMQ broker is the environment: it
  keeps the messages that are ready and those delivered on the open connection but not
  acknowledged, and puts the latter back when that connection is closed. A connection is known by
  the generation of the consumers started on it. Every step of the relation \<open>sim_step\<close> is one
  critical section of \<open>Processor.mu\<close> or one action of the broker, a timer or a handler, so the
  relation has all their interleavings. \<open>oob\<close> is what the machine yields for an out-of-range
  conversion of a delay.
\<close>

subsection \<open>Repositories\<close>

record SimPayment =
  pay_ID :: string
  pay_PaymentType :: string
  pay_Blocked :: bool

record SimShipment =
  shp_ID :: string
  shp_Blocked :: bool

text \<open>Both repositories are the same code at two types; \<open>key\<close> and \<open>set_blocked\<close> are the fields.\<close>

definition FindByID_repo :: "('r \<Rightarrow> string) \<Rightarrow> string \<Rightarrow> 'r list \<Rightarrow> bool" where
  "FindByID_repo key i rs = list_ex (\<lambda>r. key r = i) rs"

fun Block :: "('r \<Rightarrow> string) \<Rightarrow> ('r \<Rightarrow> 'r) \<Rightarrow> string \<Rightarrow> 'r list \<Rightarrow> 'r list" where
  "Block key set_blocked i [] = []"
| "Block key set_blocked i (r # rs) =
     (if key r = i then set_blocked r # rs else r # Block key set_blocked i rs)"

text \<open>Read and delete: the first record of the id, if any, is taken out and its flag returned.\<close>

fun IsBlocked :: "('r \<Rightarrow> string) \<Rightarrow> ('r \<Rightarrow> bool) \<Rightarrow> string \<Rightarrow> 'r list \<Rightarrow> bool \<times> 'r list" where
  "IsBlocked key blocked i [] = (False, [])"
| "IsBlocked key blocked i (r # rs) =
     (if key r = i then (blocked r, rs)
      else let (b, rs') = IsBlocked key blocked i rs in (b, r # rs'))"

definition BlockPayment :: "string \<Rightarrow> SimPayment list \<Rightarrow> SimPayment list" where
  "BlockPayment = Block pay_ID (pay_Blocked_update (\<lambda>_. True))"

definition BlockShipment :: "string \<Rightarrow> SimShipment list \<Rightarrow> SimShipment list" where
  "BlockShipment = Block shp_ID (shp_Blocked_update (\<lambda>_. True))"

subsection \<open>The processor's state\<close>

definition PaymentsQueue :: string where "PaymentsQueue = ''payments-queue''"
definition ShipmentsQueue :: string where "ShipmentsQueue = ''shipments-queue''"

definition queues :: "string list" where
  "queues = [PaymentsQueue, ShipmentsQueue]"

text \<open>A body is what JSON makes of it; the data of an envelope may be absent.\<close>

type_synonym body = "json option"

record amqp_delivery =
  d_Gen :: nat
  d_Queue :: string
  d_Body :: body

record timer =
  t_Queue :: string
  t_Data :: "json option"
  t_Delay :: int

datatype callback =
    UpdatePayment string string
  | UpdateShipment string string

text \<open>Where the reset goroutine is: between ticks, or inside \<open>reconnect\<close>.\<close>

datatype reset_pc = Idle | MustReconnect | Closing "nat option" | Dialling | Starting

record sim =
  cfg :: ConfigService
  payments :: "SimPayment list"
  shipments :: "SimShipment list"
  messageCounts :: "string \<Rightarrow> f64"
  processingAllowed :: "string \<Rightarrow> bool"
  consumerGen :: nat
  channel :: "nat option"
  consumers :: "(nat \<times> string) set"
  inbox :: "amqp_delivery list"
  timers :: "timer list"
  callbacks :: "callback list"
  reset_at :: reset_pc
  live :: "nat option"
  ready :: "(string \<times> body) multiset"
  unacked :: "(string \<times> body) multiset"

subsection \<open>Tunables\<close>

definition getProcessingTime :: "string \<Rightarrow> sim \<Rightarrow> f64" where
  "getProcessingTime q s = GetCurrentVariableValueNumber (cfg s)
     (if q = PaymentsQueue then ''PAYMENT_PROCESSING_TIME'' else ''SHIPMENT_PROCESSING_TIME'') (Fin 5 0)"

definition getMaxPerMinute :: "string \<Rightarrow> sim \<Rightarrow> f64" where
  "getMaxPerMinute q s = GetCurrentVariableValueNumber (cfg s)
     (if q = PaymentsQueue then ''PAYMENTS_PER_MINUTE'' else ''SHIPMENTS_PER_MINUTE'') (Fin 1000000 0)"

definition getSuccessRate :: "string \<Rightarrow> sim \<Rightarrow> f64" where
  "getSuccessRate q s = GetCurrentVariableValueNumber (cfg s)
     (if q = PaymentsQueue then ''PAYMENT_SUCCESS_RATE'' else ''SHIPMENT_SUCCESS_RATE'') (f64_of_ratio 95 100)"

subsection \<open>Messages\<close>

text \<open>\<open>None\<close>: the envelope does not parse. Its pattern has to be a string.\<close>

definition parseData :: "body \<Rightarrow> json option option" where
  "parseData b =
     Option.bind b (\<lambda>j. Option.bind (struct_members j) (\<lambda>kvs.
       case string_field ''pattern'' kvs of
         None \<Rightarrow> None
       | Some _ \<Rightarrow> Some (case members ''data'' kvs of [] \<Rightarrow> None | vs \<Rightarrow> Some (last vs))))"

definition extractID :: "json option \<Rightarrow> string" where
  "extractID data =
     (case Option.bind data struct_members of
        None \<Rightarrow> []
      | Some kvs \<Rightarrow>
          (case (string_field ''paymentId'' kvs, string_field ''shipmentId'' kvs) of
             (Some p, Some sh) \<Rightarrow> if p \<noteq> [] then p else sh
           | _ \<Rightarrow> []))"

definition envelope :: "string \<Rightarrow> json \<Rightarrow> json" where
  "envelope pattern data = JObj [(''pattern'', JStr pattern), (''data'', data)]"

text \<open>Publishing needs a channel whose connection the broker still has.\<close>

definition Publish :: "string \<Rightarrow> json \<Rightarrow> sim \<Rightarrow> bool \<times> sim" where
  "Publish q data s =
     (if q \<notin> set queues then (False, s)
      else let pattern = (if q = PaymentsQueue then ''register-payment'' else ''register-shipment'')
        in if channel s = None \<or> channel s \<noteq> live s then (False, s)
           else (True, s\<lparr>ready := add_mset (q, Some (envelope pattern data)) (ready s)\<rparr>))"

subsection \<open>Consuming\<close>

text \<open>An acknowledgement on a connection that is gone fails; the error is only logged.\<close>

definition ack :: "amqp_delivery \<Rightarrow> sim \<Rightarrow> sim" where
  "ack d s = (if live s = Some (d_Gen d) then s\<lparr>unacked := unacked s - {#(d_Queue d, d_Body d)#}\<rparr> else s)"

definition isBlocked :: "string \<Rightarrow> json option \<Rightarrow> sim \<Rightarrow> bool \<times> sim" where
  "isBlocked q data s =
     (if q = PaymentsQueue then
        (let (b, rs) = IsBlocked pay_ID pay_Blocked (extractID data) (payments s) in (b, s\<lparr>payments := rs\<rparr>))
      else if q = ShipmentsQueue then
        (let (b, rs) = IsBlocked shp_ID shp_Blocked (extractID data) (shipments s) in (b, s\<lparr>shipments := rs\<rparr>))
      else (False, s))"

definition delay_ns :: "(f64 \<Rightarrow> int) \<Rightarrow> f64 \<Rightarrow> int" where
  "delay_ns oob delay =
     (if delay = NaN \<or> f64_ge (Fin 0 0) delay then 0 else f64_to_int oob (f64_mul delay (Fin 1000000000 0)))"

definition scheduleCallback :: "(f64 \<Rightarrow> int) \<Rightarrow> string \<Rightarrow> json option \<Rightarrow> f64 \<Rightarrow> sim \<Rightarrow> sim" where
  "scheduleCallback oob q data delay s =
     s\<lparr>timers := timers s @ [\<lparr>t_Queue = q, t_Data = data, t_Delay = delay_ns oob delay\<rparr>]\<rparr>"

definition consumeMessage :: "(f64 \<Rightarrow> int) \<Rightarrow> amqp_delivery \<Rightarrow> sim \<Rightarrow> sim" where
  "consumeMessage oob d s =
     (let q = d_Queue d; maxMessages = getMaxPerMinute q s; delay = getProcessingTime q s
      in if d_Gen d \<noteq> consumerGen s then s
         else if f64_ge (messageCounts s q) maxMessages
         then s\<lparr>processingAllowed := (processingAllowed s)(q := False)\<rparr>
         else (case parseData (d_Body d) of
                 None \<Rightarrow> ack d s
               | Some data \<Rightarrow>
                   let (blocked, s1) = isBlocked q data (ack d s)
                   in if blocked then s1
                      else scheduleCallback oob q data delay
                        (s1\<lparr>messageCounts := (messageCounts s1)(q := f64_add (messageCounts s1 q) (Fin 1 0))\<rparr>)))"

text \<open>The roll \<open>r\<close> is the next number of the processor's generator, in \<open>[0, 1)\<close>.\<close>

definition buildEventUpdate :: "string \<Rightarrow> string \<Rightarrow> f64 \<Rightarrow> sim \<Rightarrow> sim" where
  "buildEventUpdate q i r s =
     (let successful = f64_less r (getSuccessRate q s)
      in if q = PaymentsQueue then
           s\<lparr>callbacks := callbacks s @ [UpdatePayment i (if successful then ''SUCCEEDED'' else ''FAILED'')]\<rparr>
         else if q = ShipmentsQueue then
           s\<lparr>callbacks := callbacks s @ [UpdateShipment i (if successful then ''DELIVERED'' else ''FAILED'')]\<rparr>
         else s)"

text \<open>What a timer runs when it goes off.\<close>

definition fire :: "timer \<Rightarrow> f64 \<Rightarrow> sim \<Rightarrow> sim" where
  "fire t r s = (let i = extractID (t_Data t) in if i = [] then s else buildEventUpdate (t_Queue t) i r s)"

subsection \<open>The minute reset\<close>

fun reset_queues :: "string list \<Rightarrow> bool \<Rightarrow> sim \<Rightarrow> bool \<times> sim" where
  "reset_queues [] rc s = (rc, s)"
| "reset_queues (q # qs) rc s =
     reset_queues qs (rc \<or> \<not> processingAllowed s q \<and> f64_less (Fin 0 0) (getMaxPerMinute q s))
       (s\<lparr>messageCounts := (messageCounts s)(q := Fin 0 0), processingAllowed := (processingAllowed s)(q := True)\<rparr>)"

definition resetMessageCounts :: "sim \<Rightarrow> sim" where
  "resetMessageCounts s =
     (let (rc, s') = reset_queues queues False s in s'\<lparr>reset_at := (if rc then MustReconnect else Idle)\<rparr>)"

text \<open>The parts of \<open>reconnect\<close> and \<open>connect\<close> between which other goroutines run.\<close>

definition detach :: "sim \<Rightarrow> sim" where
  "detach s = s\<lparr>channel := None, reset_at := Closing (channel s)\<rparr>"

text \<open>The broker puts back what a closed connection had not acknowledged.\<close>

definition drop_connection :: "sim \<Rightarrow> sim" where
  "drop_connection s = s\<lparr>live := None, ready := ready s + unacked s, unacked := {#}\<rparr>"

definition close_old :: "nat option \<Rightarrow> sim \<Rightarrow> sim" where
  "close_old ch s = (if ch \<noteq> None \<and> ch = live s then drop_connection s else s)\<lparr>reset_at := Dialling\<rparr>"

definition connect :: "sim \<Rightarrow> sim" where
  "connect s = (let g = Suc (consumerGen s)
     in s\<lparr>consumerGen := g, channel := Some g, live := Some g, reset_at := Starting\<rparr>)"

definition connect_failed :: "sim \<Rightarrow> sim" where
  "connect_failed s = s\<lparr>reset_at := Idle\<rparr>"

text \<open>\<open>startConsumer\<close> for the queues \<open>ok\<close> whose consume call succeeds.\<close>

definition startConsumers :: "string list \<Rightarrow> sim \<Rightarrow> sim" where
  "startConsumers ok s = s\<lparr>consumers := consumers s \<union> Pair (consumerGen s) ` set ok, reset_at := Idle\<rparr>"

text \<open>The state \<open>Start\<close> leaves once the first connection is up.\<close>

definition started :: "ConfigService \<Rightarrow> sim" where
  "started c = \<lparr>cfg = c, payments = [], shipments = [], messageCounts = (\<lambda>q. Fin 0 0),
     processingAllowed = (\<lambda>q. q \<in> set queues), consumerGen = 1, channel = Some 1,
     consumers = Pair 1 ` set queues, inbox = [], timers = [], callbacks = [], reset_at = Idle,
     live = Some 1, ready = {#}, unacked = {#}\<rparr>"

end
