(* ===== verification/Sim_Runs.thy ===== *)
theory Sim_Runs
  imports Sim_Queue
begin

text \<open>
  The interleavings of the simulation: the step relation, its runs, what they conserve, and the
  properties of the processor.
\<close>

subsection \<open>Steps\<close>

text \<open>What a consumption comes to; the flag says whether a callback is scheduled.\<close>

datatype verdict = Skipped | Acked bool | AckLost bool

definition schedules :: "amqp_delivery \<Rightarrow> sim \<Rightarrow> bool" where
  "schedules d s = (case parseData (d_Body d) of None \<Rightarrow> False | Some data \<Rightarrow> \<not> fst (isBlocked (d_Queue d) data s))"

definition verdict_of :: "amqp_delivery \<Rightarrow> sim \<Rightarrow> verdict" where
  "verdict_of d s =
     (if d_Gen d \<noteq> consumerGen s \<or> f64_ge (messageCounts s (d_Queue d)) (getMaxPerMinute (d_Queue d) s) then Skipped
      else if live s = Some (d_Gen d) then Acked (schedules d s) else AckLost (schedules d s))"

datatype label =
    Published string body
  | Delivered amqp_delivery
  | Consumed amqp_delivery verdict
  | Dropped amqp_delivery
  | Fired timer
  | Tick
  | ResetStep
  | DialFailed
  | ConnectionLost
  | Handler
  | Configured

text \<open>The first delivery of a consumer is the next one it takes.\<close>

definition next_delivery :: "amqp_delivery \<Rightarrow> amqp_delivery list \<Rightarrow> bool" where
  "next_delivery d ds \<longleftrightarrow> find (\<lambda>x. d_Gen x = d_Gen d \<and> d_Queue x = d_Queue d) ds = Some d"

inductive sim_step :: "(f64 \<Rightarrow> int) \<Rightarrow> sim \<Rightarrow> label \<Rightarrow> sim \<Rightarrow> bool" for oob where
  publish: "Publish q data s = (True, s') \<Longrightarrow> ready s' = add_mset (q, b) (ready s) \<Longrightarrow>
     sim_step oob s (Published q b) s'"
| deliver: "live s = Some g \<Longrightarrow> (g, q) \<in> consumers s \<Longrightarrow> (q, b) \<in># ready s \<Longrightarrow>
     d = \<lparr>d_Gen = g, d_Queue = q, d_Body = b\<rparr> \<Longrightarrow>
     sim_step oob s (Delivered d)
       (s\<lparr>ready := ready s - {#(q, b)#}, unacked := add_mset (q, b) (unacked s), inbox := inbox s @ [d]\<rparr>)"
| consume: "next_delivery d (inbox s) \<Longrightarrow>
     sim_step oob s (Consumed d (verdict_of d s)) (consumeMessage oob d (s\<lparr>inbox := remove1 d (inbox s)\<rparr>))"
| drop: "d \<in> set (inbox s) \<Longrightarrow> live s \<noteq> Some (d_Gen d) \<Longrightarrow>
     sim_step oob s (Dropped d) (s\<lparr>inbox := remove1 d (inbox s)\<rparr>)"
| fire: "t \<in> set (timers s) \<Longrightarrow> sim_step oob s (Fired t) (fire t r (s\<lparr>timers := remove1 t (timers s)\<rparr>))"
| tick: "reset_at s = Idle \<Longrightarrow> sim_step oob s Tick (resetMessageCounts s)"
| detach: "reset_at s = MustReconnect \<Longrightarrow> sim_step oob s ResetStep (detach s)"
| close_old: "reset_at s = Closing ch \<Longrightarrow> sim_step oob s ResetStep (close_old ch s)"
| connect: "reset_at s = Dialling \<Longrightarrow> sim_step oob s ResetStep (connect s)"
| connect_failed: "reset_at s = Dialling \<Longrightarrow> sim_step oob s DialFailed (connect_failed s)"
| start: "reset_at s = Starting \<Longrightarrow> set ok \<subseteq> set queues \<Longrightarrow> sim_step oob s ResetStep (startConsumers ok s)"
| lost: "live s \<noteq> None \<Longrightarrow> sim_step oob s ConnectionLost (drop_connection s)"
| create_payment: "sim_step oob s Handler (s\<lparr>payments := payments s @ [p]\<rparr>)"
| create_shipment: "sim_step oob s Handler (s\<lparr>shipments := shipments s @ [h]\<rparr>)"
| block_payment: "sim_step oob s Handler (s\<lparr>payments := BlockPayment i (payments s)\<rparr>)"
| block_shipment: "sim_step oob s Handler (s\<lparr>shipments := BlockShipment i (shipments s)\<rparr>)"
| callback: "sim_step oob s Handler (s\<lparr>callbacks := callbacks s @ [cb]\<rparr>)"
| set_variables: "SetVariables_cfg fmt vars (cfg s) = (ok, c) \<Longrightarrow> sim_step oob s Configured (s\<lparr>cfg := c\<rparr>)"

inductive run :: "(f64 \<Rightarrow> int) \<Rightarrow> sim \<Rightarrow> label list \<Rightarrow> sim \<Rightarrow> bool" for oob where
  run_Nil: "run oob s [] s"
| run_snoc: "run oob s tr t \<Longrightarrow> sim_step oob t l u \<Longrightarrow> run oob s (tr @ [l]) u"

inductive_cases step_cases: "sim_step oob s l t"
inductive_cases run_snocE: "run oob s (tr @ [l]) u"
inductive_simps run_Nil_iff [simp]: "run oob s [] t"

lemma run_trans: "run oob s tr t \<Longrightarrow> run oob t tr' u \<Longrightarrow> run oob s (tr @ tr') u"
  by (rotate_tac, induction tr' u rule: run.induct) (auto intro: run.intros simp flip: append_assoc)

lemma run_one: "sim_step oob s l t \<Longrightarrow> run oob s [l] t"
  using run_snoc [OF run_Nil] by simp

subsection \<open>What runs conserve\<close>

lemma isBlocked_frame:
  assumes "isBlocked q data s = (b, s')"
  shows "\<exists>ps hs. s' = s\<lparr>payments := ps, shipments := hs\<rparr>"
proof -
  consider "q = PaymentsQueue" | "q \<noteq> PaymentsQueue" "q = ShipmentsQueue" | "q \<noteq> PaymentsQueue" "q \<noteq> ShipmentsQueue" by blast
  then show ?thesis
  proof cases
    case 1
    then show ?thesis using assms
      by (intro exI [of _ "snd (IsBlocked pay_ID pay_Blocked (extractID data) (payments s))"] exI [of _ "shipments s"])
        (simp add: isBlocked_def split: prod.splits)
  next
    case 2
    then show ?thesis using assms
      by (intro exI [of _ "payments s"] exI [of _ "snd (IsBlocked shp_ID shp_Blocked (extractID data) (shipments s))"])
        (simp add: isBlocked_def split: prod.splits)
  next
    case 3
    then show ?thesis using assms by (intro exI [of _ "payments s"] exI [of _ "shipments s"]) (simp add: isBlocked_def)
  qed
qed

lemma isBlocked_more:
  "fst (isBlocked q data (s\<lparr>inbox := ds, unacked := u\<rparr>)) = fst (isBlocked q data s)"
  "fst (isBlocked q data (s\<lparr>inbox := ds\<rparr>)) = fst (isBlocked q data s)"
  "fst (isBlocked q data (s\<lparr>unacked := u\<rparr>)) = fst (isBlocked q data s)"
  by (simp_all add: isBlocked_def split: prod.split)

text \<open>A consumption on the state without the delivery, by its verdict.\<close>

lemma consume_cases:
  assumes "s' = consumeMessage oob d (s\<lparr>inbox := ds\<rparr>)"
  obtains (skipped) "verdict_of d s = Skipped" "s' = s\<lparr>inbox := ds, processingAllowed :=
      (if d_Gen d = consumerGen s then (processingAllowed s)(d_Queue d := False) else processingAllowed s)\<rparr>"
  | (ran) b ps hs mc ts where "verdict_of d s = (if live s = Some (d_Gen d) then Acked b else AckLost b)"
      "d_Gen d = consumerGen s"
      "s' = s\<lparr>inbox := ds, unacked := unacked s - (if live s = Some (d_Gen d) then {#(d_Queue d, d_Body d)#} else {#}),
         payments := ps, shipments := hs, messageCounts := mc, timers := timers s @ ts\<rparr>"
      "b \<longrightarrow> (\<exists>data t. parseData (d_Body d) = Some data \<and> ts = [t] \<and> t_Queue t = d_Queue d \<and> t_Data t = data)"
      "\<not> b \<longrightarrow> ts = []"
proof (cases "d_Gen d \<noteq> consumerGen s \<or> f64_ge (messageCounts s (d_Queue d)) (getMaxPerMinute (d_Queue d) s)")
  case True
  have "s' = s\<lparr>inbox := ds, processingAllowed :=
      (if d_Gen d = consumerGen s then (processingAllowed s)(d_Queue d := False) else processingAllowed s)\<rparr>"
    using True by (cases "d_Gen d = consumerGen s") (simp_all add: assms consumeMessage_def Let_def getMaxPerMinute_def)
  then show ?thesis using True skipped by (auto simp: verdict_of_def)
next
  case False
  then have v: "verdict_of d s = (if live s = Some (d_Gen d) then Acked (schedules d s) else AckLost (schedules d s))"
    and g: "d_Gen d = consumerGen s" by (auto simp: verdict_of_def)
  let ?a = "ack d (s\<lparr>inbox := ds\<rparr>)"
  have a: "?a = s\<lparr>inbox := ds, unacked := unacked s - (if live s = Some (d_Gen d) then {#(d_Queue d, d_Body d)#} else {#})\<rparr>"
    by (simp add: ack_def)
  show ?thesis
  proof (cases "parseData (d_Body d)")
    case None
    then have "s' = ?a" using False assms by (simp add: consumeMessage_def Let_def getMaxPerMinute_def)
    then show ?thesis
      using ran [OF v g, where ps = "payments s" and hs = "shipments s" and mc = "messageCounts s" and ts = "[]"] None
      by (simp add: a schedules_def)
  next
    case (Some data)
    obtain b s1 where b: "isBlocked (d_Queue d) data ?a = (b, s1)" by fastforce
    obtain ps hs where s1: "s1 = ?a\<lparr>payments := ps, shipments := hs\<rparr>" using isBlocked_frame [OF b] by blast
    have sch: "schedules d s = (\<not> b)"
      using b Some by (simp add: schedules_def a) (metis isBlocked_more(1) fst_conv)
    show ?thesis
    proof (cases b)
      case True
      then have "s' = s1" using False assms Some b by (simp add: consumeMessage_def Let_def getMaxPerMinute_def)
      then show ?thesis
        using ran [OF v g, where ps = ps and hs = hs and mc = "messageCounts s" and ts = "[]"] sch True by (simp add: s1 a)
    next
      case nb: False
      then have "\<exists>mc t. s' = s1\<lparr>messageCounts := mc, timers := timers s1 @ [t]\<rparr> \<and> t_Queue t = d_Queue d \<and> t_Data t = data"
        using False assms Some b
        by (simp add: consumeMessage_def Let_def getMaxPerMinute_def scheduleCallback_def) (metis timer.select_convs(1,2))
      then obtain mc t where "s' = s1\<lparr>messageCounts := mc, timers := timers s1 @ [t]\<rparr>" "t_Queue t = d_Queue d" "t_Data t = data"
        by blast
      then show ?thesis
        using ran [OF v g, where ps = ps and hs = hs and mc = mc and ts = "[t]"] sch nb Some by (simp add: s1 a)
    qed
  qed
qed

text \<open>The deliveries still to be consumed on the open connection.\<close>

definition item :: "amqp_delivery \<Rightarrow> string \<times> body" where
  "item d = (d_Queue d, d_Body d)"

definition pending :: "nat option \<Rightarrow> amqp_delivery list \<Rightarrow> (string \<times> body) multiset" where
  "pending g ds = image_mset item (mset (filter (\<lambda>d. g = Some (d_Gen d)) ds))"

text \<open>
  The connection the broker has open is the newest one, the channel in use is its channel except
  while it is being replaced, and what is to be consumed on it is not acknowledged.
\<close>

fun linked :: "reset_pc \<Rightarrow> nat option \<Rightarrow> nat option \<Rightarrow> bool" where
  "linked (Closing c) ch g = (c = g)"
| "linked Dialling ch g = False"
| "linked pc ch g = (ch = g)"

definition conn_ok :: "sim \<Rightarrow> bool" where
  "conn_ok s \<longleftrightarrow>
     (live s \<noteq> None \<longrightarrow> live s = Some (consumerGen s) \<and> linked (reset_at s) (channel s) (live s)) \<and>
     (live s = None \<longrightarrow> unacked s = {#}) \<and> (\<forall>d \<in> set (inbox s). d_Gen d \<le> consumerGen s) \<and>
     pending (live s) (inbox s) \<subseteq># unacked s"

lemma pending_None [simp]: "pending None ds = {#}"
  by (simp add: pending_def)

lemma pending_snoc [simp]:
  "pending g (ds @ [d]) = pending g ds + (if g = Some (d_Gen d) then {#item d#} else {#})"
  by (simp add: pending_def)

lemma pending_remove1:
  "d \<in> set ds \<Longrightarrow> pending g (remove1 d ds) = pending g ds - (if g = Some (d_Gen d) then {#item d#} else {#})"
  by (simp add: pending_def filter_remove1 image_mset_Diff)

lemma pending_remove1_subset: "pending g (remove1 d ds) \<subseteq># pending g ds"
  by (cases "d \<in> set ds") (simp_all add: pending_remove1 remove1_idem)

lemma pending_new: "\<forall>d \<in> set ds. d_Gen d \<le> g \<Longrightarrow> pending (Some (Suc g)) ds = {#}"
  by (auto simp: pending_def filter_empty_conv)

lemma pending_in: "d \<in> set ds \<Longrightarrow> g = Some (d_Gen d) \<Longrightarrow> item d \<in># pending g ds"
  by (force simp: pending_def)

lemma next_delivery_in: "next_delivery d ds \<Longrightarrow> d \<in> set ds"
  by (auto simp: next_delivery_def find_Some_iff)

lemma fire_frame: "\<exists>cbs. fire t r s = s\<lparr>callbacks := cbs\<rparr>"
proof -
  have "\<exists>cbs. s = s\<lparr>callbacks := cbs\<rparr>" by (rule exI [of _ "callbacks s"]) simp
  then show ?thesis by (auto simp: fire_def buildEventUpdate_def Let_def)
qed

lemma reset_frame: "\<exists>mc al pc. resetMessageCounts s = s\<lparr>messageCounts := mc, processingAllowed := al, reset_at := pc\<rparr> \<and> pc \<in> {Idle, MustReconnect}"
proof -
  obtain rc s' where r: "reset_queues queues False s = (rc, s')" by fastforce
  then have "\<exists>mc al. s' = s\<lparr>messageCounts := mc, processingAllowed := al\<rparr>"
    by (auto simp: queues_def)
  then obtain mc al where "s' = s\<lparr>messageCounts := mc, processingAllowed := al\<rparr>" by blast
  then show ?thesis using r
    by (intro exI [of _ mc] exI [of _ al] exI [of _ "if rc then MustReconnect else Idle"]) (simp add: resetMessageCounts_def)
qed

lemma publish_frame:
  "Publish q data s = (True, s') \<Longrightarrow>
    \<exists>b. s' = s\<lparr>ready := add_mset (q, b) (ready s)\<rparr> \<and> channel s = live s \<and> live s \<noteq> None \<and> q \<in> set queues"
  by (cases "live s") (auto simp: Publish_def Let_def split: if_splits)

lemma started_ok: "conn_ok (started c)"
  by (simp add: conn_ok_def started_def pending_def)

lemma conn_ok_step:
  assumes "sim_step oob s l t" "conn_ok s"
  shows "conn_ok t"
  using assms(1)
proof cases
  case (publish q data b)
  then show ?thesis using assms(2) publish_frame [OF publish(2)] by (auto simp: conn_ok_def)
next
  case (deliver g q b d)
  then show ?thesis using assms(2) by (auto simp: conn_ok_def item_def)
next
  case (consume d)
  note dIn = next_delivery_in [OF consume(3)]
  from consume(2) show ?thesis
  proof (cases rule: consume_cases)
    case skipped
    then show ?thesis
      using assms(2) pending_remove1_subset [of "live s" d "inbox s"]
      by (auto simp: conn_ok_def intro: subset_mset.order_trans dest: notin_set_remove1)
  next
    case (ran b ps hs mc ts)
    have sub: "pending (live s) (inbox s) \<subseteq># unacked s" using assms(2) by (simp add: conn_ok_def)
    have "pending (live s) (remove1 d (inbox s)) \<subseteq># unacked s - (if live s = Some (d_Gen d) then {#(d_Queue d, d_Body d)#} else {#})"
      using sub unfolding pending_remove1 [OF dIn] item_def by (auto simp: subseteq_mset_def intro: diff_le_mono)
    then show ?thesis
      using assms(2) unfolding ran(3)
      by (auto simp: conn_ok_def dest: notin_set_remove1)
  qed
next
  case (drop d)
  then show ?thesis
    using assms(2) pending_remove1_subset [of "live s" d "inbox s"]
    by (auto simp: conn_ok_def intro: subset_mset.order_trans dest: notin_set_remove1)
next
  case (fire tm r)
  then show ?thesis using assms(2) fire_frame [of tm r "s\<lparr>timers := remove1 tm (timers s)\<rparr>"] by (auto simp: conn_ok_def)
next
  case tick
  then show ?thesis using assms(2) reset_frame [of s] by (auto simp: conn_ok_def)
next
  case (close_old ch)
  then show ?thesis using assms(2) by (auto simp: conn_ok_def close_old_def drop_connection_def)
next
  case connect
  then show ?thesis using assms(2) by (auto simp: conn_ok_def connect_def Let_def pending_new le_SucI)
next
  case (start ok)
  then show ?thesis using assms(2) by (auto simp: conn_ok_def startConsumers_def)
qed (use assms(2) in \<open>auto simp: conn_ok_def detach_def connect_failed_def drop_connection_def\<close>)

lemma conn_ok_run: "run oob (started c) tr s \<Longrightarrow> conn_ok s"
  by (induction "started c" tr s rule: run.induct) (auto intro: started_ok conn_ok_step)

subsection \<open>Counting\<close>

definition tally :: "(label \<Rightarrow> bool) \<Rightarrow> label list \<Rightarrow> nat" where
  "tally P tr = length (filter P tr)"

definition published :: "(string \<times> body \<Rightarrow> bool) \<Rightarrow> label \<Rightarrow> bool" where
  "published P l = (case l of Published q b \<Rightarrow> P (q, b) | _ \<Rightarrow> False)"

definition acked :: "(string \<times> body \<Rightarrow> bool) \<Rightarrow> label \<Rightarrow> bool" where
  "acked P l = (case l of Consumed d (Acked _) \<Rightarrow> P (item d) | _ \<Rightarrow> False)"

definition ack_lost :: "(string \<times> body \<Rightarrow> bool) \<Rightarrow> label \<Rightarrow> bool" where
  "ack_lost P l = (case l of Consumed d (AckLost _) \<Rightarrow> P (item d) | _ \<Rightarrow> False)"

definition scheduled :: "(string \<times> body \<Rightarrow> bool) \<Rightarrow> label \<Rightarrow> bool" where
  "scheduled P l = (case l of Consumed d (Acked True) \<Rightarrow> P (item d) | Consumed d (AckLost True) \<Rightarrow> P (item d) | _ \<Rightarrow> False)"

definition fired :: "string \<Rightarrow> json option \<Rightarrow> label \<Rightarrow> bool" where
  "fired q data l = (case l of Fired t \<Rightarrow> t_Queue t = q \<and> t_Data t = data | _ \<Rightarrow> False)"

text \<open>The registrations that carry the given data.\<close>

definition carries :: "string \<Rightarrow> json option \<Rightarrow> string \<times> body \<Rightarrow> bool" where
  "carries q data x \<longleftrightarrow> fst x = q \<and> parseData (snd x) = Some data"

definition waiting :: "string \<Rightarrow> json option \<Rightarrow> timer list \<Rightarrow> nat" where
  "waiting q data ts = length (filter (\<lambda>t. t_Queue t = q \<and> t_Data t = data) ts)"

lemma tally_simps [simp]: "tally P [] = 0" "tally P (tr @ [l]) = tally P tr + (if P l then 1 else 0)"
  by (simp_all add: tally_def)

lemma scheduled_le: "tally (scheduled P) tr \<le> tally (acked P) tr + tally (ack_lost P) tr"
proof (induction tr rule: rev_induct)
  case (snoc l tr)
  have "scheduled P l \<Longrightarrow> acked P l \<or> ack_lost P l"
    by (auto simp: scheduled_def acked_def ack_lost_def split: label.splits verdict.splits bool.splits)
  with snoc show ?case by auto
qed simp

lemma messages_step:
  assumes "sim_step oob s l t" "conn_ok s"
  shows "size (filter_mset P (ready t)) + size (filter_mset P (unacked t)) + (if acked P l then 1 else 0) =
    size (filter_mset P (ready s)) + size (filter_mset P (unacked s)) + (if published P l then 1 else 0)"
  using assms(1)
proof cases
  case (publish q data b)
  then show ?thesis using publish_frame [OF publish(2)] by (auto simp: published_def acked_def)
next
  case (deliver g q b d)
  then obtain R where "ready s = add_mset (q, b) R" by (auto dest: multi_member_split)
  with deliver show ?thesis by (simp add: published_def acked_def)
next
  case (consume d)
  note dIn = next_delivery_in [OF consume(3)]
  from consume(2) show ?thesis
  proof (cases rule: consume_cases)
    case skipped
    then show ?thesis by (simp add: consume(1) published_def acked_def)
  next
    case (ran b ps hs mc ts)
    show ?thesis
    proof (cases "live s = Some (d_Gen d)")
      case True
      then have "item d \<in># unacked s"
        using assms(2) pending_in [OF dIn True] by (auto simp: conn_ok_def dest: mset_subset_eqD)
      then obtain U where "unacked s = add_mset (item d) U" by (auto dest: multi_member_split)
      then show ?thesis using ran(1,3) True by (simp add: consume(1) published_def acked_def item_def)
    next
      case False
      then show ?thesis using ran(1,3) by (simp add: consume(1) published_def acked_def)
    qed
  qed
next
  case (fire tm r)
  then show ?thesis using fire_frame [of tm r "s\<lparr>timers := remove1 tm (timers s)\<rparr>"] by (auto simp: published_def acked_def)
next
  case tick
  then show ?thesis using reset_frame [of s] by (auto simp: published_def acked_def)
next
  case (close_old ch)
  then show ?thesis by (simp add: close_old_def drop_connection_def published_def acked_def)
qed (simp_all add: detach_def connect_def connect_failed_def drop_connection_def startConsumers_def published_def acked_def Let_def)

lemma timers_step:
  assumes "sim_step oob s l t"
  shows "waiting q data (timers t) + (if fired q data l then 1 else 0) =
    waiting q data (timers s) + (if scheduled (carries q data) l then 1 else 0)"
  using assms
proof cases
  case (publish q' data' b)
  then show ?thesis using publish_frame [OF publish(2)] by (auto simp: fired_def scheduled_def)
next
  case (consume d)
  from consume(2) show ?thesis
  proof (cases rule: consume_cases)
    case skipped
    then show ?thesis by (simp add: consume(1) fired_def scheduled_def)
  next
    case (ran b ps hs mc ts)
    then show ?thesis
      by (cases b) (auto simp: consume(1) fired_def scheduled_def carries_def item_def waiting_def)
  qed
next
  case (fire tm r)
  obtain xs ys where "timers s = xs @ tm # ys" "remove1 tm (timers s) = xs @ ys"
    using fire(3) by (metis remove1_append remove1.simps(2) split_list_first)
  then show ?thesis using fire(1,2) fire_frame [of tm r "s\<lparr>timers := remove1 tm (timers s)\<rparr>"]
    by (auto simp: fired_def scheduled_def waiting_def)
next
  case tick
  then show ?thesis using reset_frame [of s] by (auto simp: fired_def scheduled_def)
next
  case (close_old ch)
  then show ?thesis by (simp add: close_old_def drop_connection_def fired_def scheduled_def)
qed (simp_all add: detach_def connect_def connect_failed_def drop_connection_def startConsumers_def fired_def scheduled_def Let_def)

lemma messages_conserved:
  assumes "run oob (started c) tr s"
  shows "tally (published P) tr = size (filter_mset P (ready s)) + size (filter_mset P (unacked s)) + tally (acked P) tr"
  using assms
proof (induction "started c" tr s rule: run.induct)
  case run_Nil
  then show ?case by (simp add: started_def)
next
  case (run_snoc tr t l u)
  then show ?case using messages_step [OF run_snoc(3) conn_ok_run [OF run_snoc(1)], of P] by simp
qed

lemma timers_conserved:
  assumes "run oob (started c) tr s"
  shows "tally (fired q data) tr + waiting q data (timers s) = tally (scheduled (carries q data)) tr"
  using assms
proof (induction "started c" tr s rule: run.induct)
  case run_Nil
  then show ?case by (simp add: started_def waiting_def)
next
  case (run_snoc tr t l u)
  then show ?case using timers_step [OF run_snoc(3), of q data] by simp
qed

text \<open>
  C18. Whatever the interleaving, no registration is lost and none is answered twice by a working
  connection: every published message is ready, unacknowledged or acknowledged once; every
  scheduled callback has fired or is waiting; and the callbacks fired for given data are at most
  the messages published with it plus the acknowledgements that failed because the connection was
  already being replaced.
\<close>

theorem registrations_conserved:
  assumes "run oob (started c) tr s"
  shows "(\<forall>P. tally (published P) tr = size (filter_mset P (ready s)) + size (filter_mset P (unacked s)) + tally (acked P) tr) \<and>
    (\<forall>q data. tally (fired q data) tr + waiting q data (timers s) = tally (scheduled (carries q data)) tr \<and>
      tally (fired q data) tr \<le> tally (published (carries q data)) tr + tally (ack_lost (carries q data)) tr)"
proof (intro conjI allI)
  fix P q data
  show "tally (published P) tr = size (filter_mset P (ready s)) + size (filter_mset P (unacked s)) + tally (acked P) tr"
    by (rule messages_conserved [OF assms])
  show timers: "tally (fired q data) tr + waiting q data (timers s) = tally (scheduled (carries q data)) tr"
    by (rule timers_conserved [OF assms])
  show "tally (fired q data) tr \<le> tally (published (carries q data)) tr + tally (ack_lost (carries q data)) tr"
    using timers scheduled_le [of "carries q data" tr] messages_conserved [OF assms, of "carries q data"] by linarith
qed

subsection \<open>A message answered twice\<close>

lemma parseData_envelope [simp]: "parseData (Some (envelope p data)) = Some (Some data)"
  by (simp add: parseData_def envelope_def string_field_def members_def EqualFold_def ascii_lower_def)

definition registration :: "string \<Rightarrow> json" where
  "registration i = JObj [(''paymentId'', JStr i)]"

lemma extractID_registration [simp]: "i \<noteq> [] \<Longrightarrow> extractID (Some (registration i)) = i"
  by (simp add: extractID_def registration_def string_field_def members_def EqualFold_def ascii_lower_def)

definition payment_message :: "string \<Rightarrow> body" where
  "payment_message i = Some (envelope ''register-payment'' (registration i))"

text \<open>Scripted runs: what the scheduler, the broker and the network do next.\<close>

datatype action =
    APublish string json
  | ADeliver string body
  | AConsume nat string
  | AFire f64
  | ATick
  | AReset
  | ADialFailed
  | ASet "(string \<times> any) list"

fun act :: "(f64 \<Rightarrow> int) \<Rightarrow> (any \<Rightarrow> string) \<Rightarrow> action \<Rightarrow> sim \<Rightarrow> (label \<times> sim) option" where
  "act oob fmt (APublish q data) s =
     (let (ok, s') = Publish q data s; b = Some (envelope (if q = PaymentsQueue then ''register-payment'' else ''register-shipment'') data)
      in if ok then Some (Published q b, s') else None)"
| "act oob fmt (ADeliver q b) s =
     (case live s of None \<Rightarrow> None
      | Some g \<Rightarrow>
          let d = \<lparr>d_Gen = g, d_Queue = q, d_Body = b\<rparr>
          in if (g, q) \<in> consumers s \<and> (q, b) \<in># ready s
             then Some (Delivered d, s\<lparr>ready := ready s - {#(q, b)#}, unacked := add_mset (q, b) (unacked s), inbox := inbox s @ [d]\<rparr>)
             else None)"
| "act oob fmt (AConsume g q) s =
     (case find (\<lambda>x. d_Gen x = g \<and> d_Queue x = q) (inbox s) of None \<Rightarrow> None
      | Some d \<Rightarrow> Some (Consumed d (verdict_of d s), consumeMessage oob d (s\<lparr>inbox := remove1 d (inbox s)\<rparr>)))"
| "act oob fmt (AFire r) s =
     (case timers s of [] \<Rightarrow> None | t # ts \<Rightarrow> Some (Fired t, fire t r (s\<lparr>timers := ts\<rparr>)))"
| "act oob fmt ATick s = (if reset_at s = Idle then Some (Tick, resetMessageCounts s) else None)"
| "act oob fmt AReset s =
     (case reset_at s of
        Idle \<Rightarrow> None
      | MustReconnect \<Rightarrow> Some (ResetStep, detach s)
      | Closing ch \<Rightarrow> Some (ResetStep, close_old ch s)
      | Dialling \<Rightarrow> Some (ResetStep, connect s)
      | Starting \<Rightarrow> Some (ResetStep, startConsumers queues s))"
| "act oob fmt ADialFailed s = (if reset_at s = Dialling then Some (DialFailed, connect_failed s) else None)"
| "act oob fmt (ASet vars) s = Some (Configured, s\<lparr>cfg := snd (SetVariables_cfg fmt vars (cfg s))\<rparr>)"

fun script :: "(f64 \<Rightarrow> int) \<Rightarrow> (any \<Rightarrow> string) \<Rightarrow> action list \<Rightarrow> sim \<Rightarrow> (label list \<times> sim) option" where
  "script oob fmt [] s = Some ([], s)"
| "script oob fmt (a # as) s =
     (case act oob fmt a s of None \<Rightarrow> None
      | Some (l, t) \<Rightarrow> (case script oob fmt as t of None \<Rightarrow> None | Some (tr, u) \<Rightarrow> Some (l # tr, u)))"

lemma publish_ready:
  "Publish q data s = (True, s') \<Longrightarrow>
    ready s' = add_mset (q, Some (envelope (if q = PaymentsQueue then ''register-payment'' else ''register-shipment'') data)) (ready s)"
  by (auto simp: Publish_def Let_def split: if_splits)

lemma act_step: "act oob fmt a s = Some (l, t) \<Longrightarrow> sim_step oob s l t"
proof (induction a)
  case (APublish q data)
  then show ?case by (auto simp: Let_def split: prod.splits if_splits intro!: sim_step.publish dest: publish_ready)
next
  case (ADeliver q b)
  then show ?case by (auto simp: Let_def split: option.splits if_splits intro: sim_step.deliver)
next
  case (AConsume g q)
  then obtain d where d: "find (\<lambda>x. d_Gen x = g \<and> d_Queue x = q) (inbox s) = Some d"
      "l = Consumed d (verdict_of d s)" "t = consumeMessage oob d (s\<lparr>inbox := remove1 d (inbox s)\<rparr>)"
    by (auto split: option.splits)
  then have "d_Gen d = g" "d_Queue d = q" by (auto simp: find_Some_iff)
  then show ?case using d sim_step.consume [of d s oob] by (simp add: next_delivery_def)
next
  case (AFire r)
  then show ?case using sim_step.fire [of "hd (timers s)" s oob r] by (auto split: list.splits)
next
  case (ASet vars)
  then show ?case by (auto intro!: sim_step.set_variables [of fmt vars] simp: prod_eq_iff)
qed (auto split: if_splits reset_pc.splits intro: sim_step.intros)

lemma script_run: "script oob fmt as s = Some (tr, t) \<Longrightarrow> run oob s tr t"
proof (induction as arbitrary: s tr)
  case (Cons a as)
  then obtain l u tr' where "act oob fmt a s = Some (l, u)" "script oob fmt as u = Some (tr', t)" "tr = l # tr'"
    by (auto split: option.splits prod.splits)
  then show ?case using run_trans [OF run_one [OF act_step] Cons.IH] by force
qed (auto intro: run_Nil)

lemma script_result:
  "map_option f (script oob fmt as s) = Some v \<Longrightarrow> \<exists>tr t. run oob s tr t \<and> f (tr, t) = v"
  by (cases "script oob fmt as s") (auto dest: script_run)

text \<open>
  Payments are paused by a limit of 0 with one message held back; the limit is raised, and the minute
  reset replaces the connection while the next message is on its way to the consumer.
\<close>

definition race_script :: "action list" where
  "race_script =
    [ASet [(''PAYMENTS_PER_MINUTE'', AInt 0)],
     APublish PaymentsQueue (registration ''a''), ADeliver PaymentsQueue (payment_message ''a''), AConsume 1 PaymentsQueue,
     APublish PaymentsQueue (registration ''b''), ADeliver PaymentsQueue (payment_message ''b''),
     ASet [(''PAYMENTS_PER_MINUTE'', AInt 5)],
     ATick, AReset, AReset, AConsume 1 PaymentsQueue, AReset, AReset,
     ADeliver PaymentsQueue (payment_message ''b''), AConsume 2 PaymentsQueue,
     AFire (Fin 255 (- 8)), AFire (Fin 0 0)]"

text \<open>
  A payment can be answered twice, with contradicting results. While the minute reset replaces
  the connection, a message of the old one is still consumed: its acknowledgement fails, its callback
  is scheduled, and the broker delivers it again. The payment registered once is reported to the
  payment service as failed and as succeeded.
\<close>

theorem reconnect_answers_twice:
  "\<exists>tr s. run oob (started (newConfig fmt env)) tr s \<and>
    tally (published (\<lambda>x. snd x = payment_message ''b'')) tr = 1 \<and>
    callbacks s = [UpdatePayment ''b'' ''FAILED'', UpdatePayment ''b'' ''SUCCEEDED'']"
proof -
  have "map_option (\<lambda>(tr, s). (tally (published (\<lambda>x. snd x = payment_message ''b'')) tr, callbacks s))
      (script oob fmt race_script (started (newConfig fmt env))) =
    Some (1, [UpdatePayment ''b'' ''FAILED'', UpdatePayment ''b'' ''SUCCEEDED''])"
    by code_simp
  then show ?thesis using script_run by (fastforce split: option.splits)
qed

subsection \<open>Stalls\<close>

lemma channel_off_step:
  assumes "sim_step oob s l t" "\<And>ch. reset_at s \<in> {Closing ch, Dialling} \<Longrightarrow> channel s = None"
  shows "reset_at t \<in> {Closing ch, Dialling} \<Longrightarrow> channel t = None"
  using assms(1)
proof cases
  case (publish q data b)
  moreover assume "reset_at t \<in> {Closing ch, Dialling}"
  ultimately show ?thesis using assms(2) publish_frame [OF publish(2)] by auto
next
  case (consume d)
  moreover assume "reset_at t \<in> {Closing ch, Dialling}"
  moreover from consume(2) have "reset_at t = reset_at s \<and> channel t = channel s"
    by (cases rule: consume_cases) auto
  ultimately show ?thesis using assms(2) by auto
next
  case (fire tm r)
  moreover assume "reset_at t \<in> {Closing ch, Dialling}"
  ultimately show ?thesis using assms(2) fire_frame [of tm r "s\<lparr>timers := remove1 tm (timers s)\<rparr>"] by auto
next
  case tick
  moreover assume "reset_at t \<in> {Closing ch, Dialling}"
  ultimately show ?thesis using reset_frame [of s] by auto
next
  case (close_old ch')
  then show ?thesis using assms(2) [of ch'] by (auto simp: close_old_def drop_connection_def)
qed (use assms(2) in \<open>auto simp: detach_def connect_def connect_failed_def drop_connection_def startConsumers_def Let_def\<close>)

lemma channel_off_run: "run oob (started c) tr s \<Longrightarrow> reset_at s \<in> {Closing ch, Dialling} \<Longrightarrow> channel s = None"
proof (induction "started c" tr s arbitrary: ch rule: run.induct)
  case run_Nil
  then show ?case by (simp add: started_def)
next
  case (run_snoc tr t l u)
  then show ?case using channel_off_step [OF run_snoc(3)] by blast
qed

text \<open>Nothing is on its way to a consumer, and no queue counts as paused.\<close>

definition quiet :: "sim \<Rightarrow> bool" where
  "quiet s \<longleftrightarrow> reset_at s = Idle \<and> (\<forall>q \<in> set queues. processingAllowed s q) \<and>
     (\<forall>d \<in> set (inbox s). d_Gen d \<noteq> consumerGen s) \<and> (live s = None \<or> ready s = {#})"

lemma queue_names [simp]: "PaymentsQueue \<noteq> ShipmentsQueue" "ShipmentsQueue \<noteq> PaymentsQueue"
  by (simp_all add: PaymentsQueue_def ShipmentsQueue_def)

lemma reset_exact:
  "resetMessageCounts s = s\<lparr>messageCounts := (messageCounts s)(PaymentsQueue := Fin 0 0, ShipmentsQueue := Fin 0 0),
     processingAllowed := (processingAllowed s)(PaymentsQueue := True, ShipmentsQueue := True),
     reset_at := (if \<exists>q \<in> set queues. \<not> processingAllowed s q \<and> f64_less (Fin 0 0) (getMaxPerMinute q s) then MustReconnect else Idle)\<rparr>"
  by (simp add: resetMessageCounts_def queues_def getMaxPerMinute_def)

lemma reset_quiet:
  assumes "\<forall>q \<in> set queues. \<not> processingAllowed s q \<longrightarrow> \<not> f64_less (Fin 0 0) (getMaxPerMinute q s)"
  shows "\<exists>mc al. resetMessageCounts s = s\<lparr>messageCounts := mc, processingAllowed := al, reset_at := Idle\<rparr> \<and> (\<forall>q \<in> set queues. al q)"
proof -
  have "\<not> (\<exists>q \<in> set queues. \<not> processingAllowed s q \<and> f64_less (Fin 0 0) (getMaxPerMinute q s))" using assms by blast
  moreover have "\<forall>q \<in> set queues. ((processingAllowed s)(PaymentsQueue := True, ShipmentsQueue := True)) q"
    by (simp add: queues_def)
  ultimately show ?thesis unfolding reset_exact
    by (intro exI [of _ "(messageCounts s)(PaymentsQueue := Fin 0 0, ShipmentsQueue := Fin 0 0)"]
        exI [of _ "(processingAllowed s)(PaymentsQueue := True, ShipmentsQueue := True)"] conjI) (simp_all only: if_False)
qed

lemma quiet_step:
  assumes "sim_step oob s l t" "quiet s" "l \<noteq> ConnectionLost" "\<not> published (\<lambda>x. True) l"
  shows "quiet t \<and> ready t = ready s \<and> unacked t = unacked s \<and> channel t = channel s \<and> live t = live s \<and> \<not> scheduled (\<lambda>x. True) l"
  using assms(1)
proof cases
  case (publish q data b)
  then show ?thesis using assms(4) by (simp add: published_def)
next
  case (deliver g q b d)
  then show ?thesis using assms(2) by (auto simp: quiet_def)
next
  case (consume d)
  note dIn = next_delivery_in [OF consume(3)]
  have g: "d_Gen d \<noteq> consumerGen s" using assms(2) dIn by (simp add: quiet_def)
  have "t = s\<lparr>inbox := remove1 d (inbox s)\<rparr>" using g consume(2) by (simp add: consumeMessage_def)
  moreover have "verdict_of d s = Skipped" using g by (simp add: verdict_of_def)
  ultimately show ?thesis using assms(2) consume(1)
    by (auto simp: quiet_def scheduled_def dest: notin_set_remove1)
next
  case (drop d)
  then show ?thesis using assms(2) by (auto simp: quiet_def scheduled_def dest: notin_set_remove1)
next
  case (fire tm r)
  then show ?thesis using assms(2) fire_frame [of tm r "s\<lparr>timers := remove1 tm (timers s)\<rparr>"]
    by (auto simp: quiet_def scheduled_def)
next
  case tick
  have "\<forall>q \<in> set queues. \<not> processingAllowed s q \<longrightarrow> \<not> f64_less (Fin 0 0) (getMaxPerMinute q s)" using assms(2) by (simp add: quiet_def)
  from reset_quiet [OF this] show ?thesis using assms(2) tick by (auto simp: quiet_def scheduled_def)
qed (use assms(2,3) in \<open>auto simp: quiet_def scheduled_def\<close>)

lemma quiet_run:
  assumes "run oob s tr t" "quiet s" "\<forall>l \<in> set tr. l \<noteq> ConnectionLost \<and> \<not> published (\<lambda>x. True) l"
  shows "quiet t \<and> ready t = ready s \<and> unacked t = unacked s \<and> channel t = channel s \<and> live t = live s \<and>
    (\<forall>l \<in> set tr. \<not> scheduled (\<lambda>x. True) l)"
  using assms
proof (induction s tr t rule: run.induct)
  case (run_snoc s tr t l u)
  then show ?case using quiet_step [OF run_snoc(2)] by auto
qed simp

lemma no_publish: "channel s = None \<Longrightarrow> sim_step oob s l t \<Longrightarrow> \<not> published P l"
  by (erule sim_step.cases) (auto simp: published_def Publish_def Let_def split: if_splits)

lemma no_loss: "live s = None \<Longrightarrow> sim_step oob s l t \<Longrightarrow> l \<noteq> ConnectionLost"
  by (erule sim_step.cases) auto

lemma stranded_run:
  assumes "run oob s tr t" "quiet s" "channel s = None" "live s = None"
  shows "quiet t \<and> ready t = ready s \<and> channel t = None \<and> live t = None \<and>
    (\<forall>l \<in> set tr. \<not> scheduled (\<lambda>x. True) l \<and> \<not> published (\<lambda>x. True) l)"
  using assms
proof (induction s tr t rule: run.induct)
  case (run_snoc s tr t l u)
  then have t: "quiet t" "channel t = None" "live t = None" "ready t = ready s" by auto
  note this run_snoc quiet_step [OF run_snoc(2) t(1) no_loss [OF t(3) run_snoc(2)] no_publish [OF t(2) run_snoc(2)]]
    no_publish [OF t(2) run_snoc(2)]
  then show ?case by auto
qed simp

text \<open>
  One failed dial ends the simulation. When the reconnect of the minute reset cannot reach the
  broker and no delivery of the old connection is left, then however the run goes on - reachable
  broker or not - no registration can be published, no waiting message is consumed and no callback
  is scheduled any more: the reset has marked every queue as allowed, so no later reset reconnects.
\<close>

theorem failed_reconnect_stops:
  assumes "run oob (started c) tr s" "reset_at s = Dialling" "\<forall>q \<in> set queues. processingAllowed s q" "inbox s = []"
    and "run oob (connect_failed s) tr' t"
  shows "ready t = ready s \<and> channel t = None \<and> live t = None \<and>
    (\<forall>l \<in> set tr'. \<not> scheduled (\<lambda>x. True) l \<and> \<not> published (\<lambda>x. True) l)"
proof -
  have "channel s = None" using channel_off_run [OF assms(1)] assms(2) by simp
  moreover have "live s = None" using conn_ok_run [OF assms(1)] assms(2) by (cases "live s") (auto simp: conn_ok_def)
  ultimately show ?thesis
    using stranded_run [OF assms(5)] assms(3,4) by (simp add: quiet_def connect_failed_def)
qed

text \<open>
  Messages held back by a limit of 0 stay held back when the limit is raised. Once a minute
  reset found the limit not positive, nothing but a new registration or a lost connection ever makes
  the broker deliver them again, whatever limit is set and however many minutes pass.
\<close>

theorem held_back_messages_stay:
  assumes "ready s = {#}" "inbox s = []" "reset_at s = Idle"
    "\<forall>q \<in> set queues. \<not> processingAllowed s q \<longrightarrow> \<not> f64_less (Fin 0 0) (getMaxPerMinute q s)"
    and "run oob (resetMessageCounts s) tr t" "\<forall>l \<in> set tr. l \<noteq> ConnectionLost \<and> \<not> published (\<lambda>x. True) l"
  shows "unacked t = unacked s \<and> ready t = {#} \<and> (\<forall>l \<in> set tr. \<not> scheduled (\<lambda>x. True) l)"
proof -
  obtain mc al where r: "resetMessageCounts s = s\<lparr>messageCounts := mc, processingAllowed := al, reset_at := Idle\<rparr>" "\<forall>q \<in> set queues. al q"
    using reset_quiet [OF assms(4)] by blast
  then have "quiet (resetMessageCounts s)" using assms(1-3) by (simp add: quiet_def)
  from quiet_run [OF assms(5) this assms(6)] show ?thesis using r assms(1) by simp
qed

lemma registrations_conserved_witness:
  "\<exists>tr s. run (\<lambda>x. 0) (started (newConfig (\<lambda>x. []) Map.empty)) tr s \<and> tr \<noteq> [] \<and>
    tally (fired PaymentsQueue (Some (registration ''b''))) tr = 2 \<and>
    2 \<le> tally (published (carries PaymentsQueue (Some (registration ''b'')))) tr +
      tally (ack_lost (carries PaymentsQueue (Some (registration ''b'')))) tr"
proof -
  have "map_option (\<lambda>(tr, s). (tr \<noteq> [], tally (fired PaymentsQueue (Some (registration ''b''))) tr))
      (script (\<lambda>x. 0) (\<lambda>x. []) race_script (started (newConfig (\<lambda>x. []) Map.empty))) = Some (True, 2)"
    by code_simp
  from script_result [OF this] obtain tr s where r: "run (\<lambda>x. 0) (started (newConfig (\<lambda>x. []) Map.empty)) tr s" "tr \<noteq> []"
      "tally (fired PaymentsQueue (Some (registration ''b''))) tr = 2"
    by auto
  from registrations_conserved [OF r(1)] r(3)
  have "2 \<le> tally (published (carries PaymentsQueue (Some (registration ''b'')))) tr +
      tally (ack_lost (carries PaymentsQueue (Some (registration ''b'')))) tr"
    by metis
  with r show ?thesis by blast
qed

definition stall_script :: "action list" where
  "stall_script = take 4 race_script"

lemma failed_reconnect_stops_witness:
  "\<exists>tr s. run (\<lambda>x. 0) (started (newConfig (\<lambda>x. []) Map.empty)) tr s \<and> (PaymentsQueue, payment_message ''a'') \<in># ready s \<and>
    (\<forall>tr' t. run (\<lambda>x. 0) (connect_failed s) tr' t \<longrightarrow> ready t = ready s)"
proof -
  have "map_option (\<lambda>(tr, s). ((PaymentsQueue, payment_message ''a'') \<in># ready s, reset_at s = Dialling,
        list_all (processingAllowed s) queues, inbox s))
      (script (\<lambda>x. 0) (\<lambda>x. []) (stall_script @ [ASet [(''PAYMENTS_PER_MINUTE'', AInt 5)], ATick, AReset, AReset])
        (started (newConfig (\<lambda>x. []) Map.empty))) = Some (True, True, True, [])"
    by code_simp
  from script_result [OF this] obtain tr s where r: "run (\<lambda>x. 0) (started (newConfig (\<lambda>x. []) Map.empty)) tr s" "(PaymentsQueue, payment_message ''a'') \<in># ready s"
      "reset_at s = Dialling" "\<forall>q \<in> set queues. processingAllowed s q" "inbox s = []"
    by (auto simp: list_all_iff)
  then show ?thesis using failed_reconnect_stops [OF r(1,3-5)] by blast
qed

lemma held_back_messages_stay_witness:
  "\<exists>tr s. run (\<lambda>x. 0) (started (newConfig (\<lambda>x. []) Map.empty)) tr s \<and> (PaymentsQueue, payment_message ''a'') \<in># unacked s \<and>
    (\<forall>tr' t. run (\<lambda>x. 0) (resetMessageCounts s) tr' t \<and> (\<forall>l \<in> set tr'. l \<noteq> ConnectionLost \<and> \<not> published (\<lambda>x. True) l) \<longrightarrow>
      unacked t = unacked s)"
proof -
  have "map_option (\<lambda>(tr, s). ((PaymentsQueue, payment_message ''a'') \<in># unacked s, ready s = {#}, inbox s, reset_at s = Idle,
        list_all (\<lambda>q. \<not> processingAllowed s q \<longrightarrow> \<not> f64_less (Fin 0 0) (getMaxPerMinute q s)) queues))
      (script (\<lambda>x. 0) (\<lambda>x. []) stall_script (started (newConfig (\<lambda>x. []) Map.empty))) = Some (True, True, [], True, True)"
    by code_simp
  from script_result [OF this] obtain tr s where r: "run (\<lambda>x. 0) (started (newConfig (\<lambda>x. []) Map.empty)) tr s" "(PaymentsQueue, payment_message ''a'') \<in># unacked s"
      "ready s = {#}" "inbox s = []" "reset_at s = Idle"
      "\<forall>q \<in> set queues. \<not> processingAllowed s q \<longrightarrow> \<not> f64_less (Fin 0 0) (getMaxPerMinute q s)"
    by (auto simp: list_all_iff)
  then show ?thesis using held_back_messages_stay [OF r(3-6)] by blast
qed

subsection \<open>Draining\<close>

text \<open>
  While the limits are positive, a message that is delivered but not on its way to the consumer is
  held back by the rate limit: its queue is paused, or the connection is about to be replaced.
\<close>

definition overhang :: "sim \<Rightarrow> string \<times> body \<Rightarrow> bool" where
  "overhang s x \<longleftrightarrow> count (pending (live s) (inbox s)) x < count (unacked s) x"

definition held_ok :: "ConfigService \<Rightarrow> sim \<Rightarrow> bool" where
  "held_ok c s \<longleftrightarrow> cfg s = c \<and> (\<forall>x \<in># ready s + unacked s. fst x \<in> set queues) \<and>
     (\<forall>x. overhang s x \<longrightarrow> \<not> processingAllowed s (fst x) \<or> reset_at s = MustReconnect \<or> (\<exists>ch. reset_at s = Closing ch))"

definition limits_positive :: "ConfigService \<Rightarrow> bool" where
  "limits_positive c \<longleftrightarrow>
     f64_less (Fin 0 0) (GetCurrentVariableValueNumber c ''PAYMENTS_PER_MINUTE'' (Fin 1000000 0)) \<and>
     f64_less (Fin 0 0) (GetCurrentVariableValueNumber c ''SHIPMENTS_PER_MINUTE'' (Fin 1000000 0))"

lemma limits_positive_max: "limits_positive c \<Longrightarrow> cfg s = c \<Longrightarrow> f64_less (Fin 0 0) (getMaxPerMinute q s)"
  by (simp add: limits_positive_def getMaxPerMinute_def)

lemma held_ok_started: "held_ok c (started c)"
  by (simp add: held_ok_def started_def overhang_def)

lemma held_okI:
  assumes "held_ok c s" "cfg t = cfg s" "set_mset (ready t + unacked t) \<subseteq> set_mset (ready s + unacked s)"
    and "\<And>x. overhang t x \<Longrightarrow> overhang s x" "processingAllowed t = processingAllowed s" "reset_at t = reset_at s"
  shows "held_ok c t"
  using assms unfolding held_ok_def by (metis subsetD)

lemma held_ok_step:
  assumes "sim_step oob s l t" "l \<noteq> Configured" "held_ok c s" "conn_ok s" "limits_positive c"
  shows "held_ok c t"
  using assms(1)
proof cases
  case (publish q data b)
  then obtain r where "t = s\<lparr>ready := add_mset (q, r) (ready s)\<rparr>" "q \<in> set queues" using publish_frame by blast
  then show ?thesis using assms(3) by (auto simp: held_ok_def overhang_def)
next
  case (deliver g q b d)
  then have "overhang t x \<Longrightarrow> overhang s x" for x by (auto simp: overhang_def item_def split: if_splits)
  then show ?thesis using deliver by (intro held_okI [OF assms(3)]) (auto dest: in_diffD)
next
  case (consume d)
  note dIn = next_delivery_in [OF consume(3)]
  have cnt: "count (pending (live s) (remove1 d (inbox s))) x =
      count (pending (live s) (inbox s)) x - (if live s = Some (d_Gen d) \<and> x = item d then 1 else 0)" for x
    by (simp add: pending_remove1 [OF dIn])
  from consume(2) show ?thesis
  proof (cases rule: consume_cases)
    case skipped
    have "\<not> processingAllowed t (fst x) \<or> reset_at s = MustReconnect \<or> (\<exists>ch. reset_at s = Closing ch)" if "overhang t x" for x
    proof (cases "live s = Some (d_Gen d) \<and> x = item d")
      case True
      then have "d_Gen d = consumerGen s" using assms(4) by (simp add: conn_ok_def)
      then show ?thesis using True by (simp add: skipped(2) item_def)
    next
      case False
      then have "overhang s x"
        using that cnt [of x, unfolded if_not_P [OF False]] by (simp add: overhang_def skipped(2))
      then have "\<not> processingAllowed s (fst x) \<or> reset_at s = MustReconnect \<or> (\<exists>ch. reset_at s = Closing ch)"
        using assms(3) unfolding held_ok_def by blast
      then show ?thesis by (auto simp: skipped(2))
    qed
    then show ?thesis using assms(3) unfolding held_ok_def by (simp add: skipped(2))
  next
    case (ran b ps hs mc ts)
    have "overhang t x \<Longrightarrow> overhang s x" for x
      using cnt [of x] by (simp add: overhang_def ran(3) item_def split: if_splits)
    then show ?thesis by (intro held_okI [OF assms(3)]) (auto simp: ran(3) dest: in_diffD)
  qed
next
  case (drop d)
  then have "pending (live s) (remove1 d (inbox s)) = pending (live s) (inbox s)" by (simp add: pending_remove1)
  then show ?thesis using drop by (intro held_okI [OF assms(3)]) (simp_all add: overhang_def)
next
  case (fire tm r)
  then obtain cbs where "t = s\<lparr>timers := remove1 tm (timers s), callbacks := cbs\<rparr>"
    using fire_frame [of tm r "s\<lparr>timers := remove1 tm (timers s)\<rparr>"] by auto
  then show ?thesis by (intro held_okI [OF assms(3)]) (simp_all add: overhang_def)
next
  case tick
  have pos: "f64_less (Fin 0 0) (getMaxPerMinute q s)" for q
    using assms(3,5) by (auto simp: held_ok_def intro: limits_positive_max)
  have "\<exists>q \<in> set queues. \<not> processingAllowed s q" if "overhang s x" for x
  proof -
    have "x \<in># unacked s" using that by (metis gr0I count_greater_zero_iff not_less_zero overhang_def)
    then have "fst x \<in> set queues" using assms(3) by (auto simp: held_ok_def)
    moreover have "\<not> processingAllowed s (fst x)" using assms(3) that unfolding held_ok_def tick(3) by blast
    ultimately show ?thesis by blast
  qed
  then show ?thesis using assms(3) unfolding tick(2) reset_exact by (auto simp: held_ok_def pos overhang_def)
next
  case (close_old ch)
  then show ?thesis using assms(3,4) by (auto simp: held_ok_def conn_ok_def close_old_def drop_connection_def overhang_def)
next
  case connect
  have "live s = None" using assms(4) connect(3) by (cases "live s") (auto simp: conn_ok_def)
  then show ?thesis using connect assms(3,4) by (auto simp: held_ok_def conn_ok_def connect_def Let_def overhang_def)
qed (use assms(2,3,4) in \<open>auto simp: held_ok_def conn_ok_def detach_def connect_failed_def drop_connection_def startConsumers_def overhang_def\<close>)

lemma held_ok_run:
  assumes "run oob (started c) tr s" "Configured \<notin> set tr" "limits_positive c"
  shows "held_ok c s"
  using assms
proof (induction "started c" tr s rule: run.induct)
  case run_Nil
  then show ?case by (simp add: held_ok_started)
next
  case (run_snoc tr t l u)
  then show ?case using held_ok_step [OF run_snoc(3) _ _ conn_ok_run [OF run_snoc(1)]] by auto
qed

text \<open>A state in which the reset sleeps and both consumers run on the open connection.\<close>

definition serving :: "ConfigService \<Rightarrow> sim \<Rightarrow> bool" where
  "serving c s \<longleftrightarrow> conn_ok s \<and> held_ok c s \<and> reset_at s = Idle \<and> live s = Some (consumerGen s) \<and>
     (\<forall>q \<in> set queues. (consumerGen s, q) \<in> consumers s)"

definition backlog :: "sim \<Rightarrow> nat" where
  "backlog s = size (ready s) + size (unacked s)"

text \<open>Steps of the broker, the consumers and the reset alone.\<close>

definition internal :: "label \<Rightarrow> bool" where
  "internal l \<longleftrightarrow> (case l of Delivered _ \<Rightarrow> True | Consumed _ _ \<Rightarrow> True | Tick \<Rightarrow> True | ResetStep \<Rightarrow> True | _ \<Rightarrow> False)"

lemma serving_step:
  assumes "serving c s" "sim_step oob s l t" "limits_positive c" "l \<noteq> Configured"
    and "reset_at t = Idle" "live t = live s" "consumerGen t = consumerGen s" "consumers t = consumers s"
  shows "serving c t"
  using assms held_ok_step [OF assms(2,4)] conn_ok_step [OF assms(2)] by (auto simp: serving_def)

lemma consume_shrinks:
  assumes "serving c s" "d \<in> set (inbox s)" "next_delivery d (inbox s)" "limits_positive c"
    and t_def: "t = consumeMessage oob d (s\<lparr>inbox := remove1 d (inbox s)\<rparr>)"
  shows "serving c t \<and> inbox t = remove1 d (inbox s) \<and> backlog t \<le> backlog s \<and>
    (d_Gen d = consumerGen s \<and> \<not> f64_ge (messageCounts s (d_Queue d)) (getMaxPerMinute (d_Queue d) s) \<longrightarrow> backlog t < backlog s)"
proof -
  have step: "sim_step oob s (Consumed d (verdict_of d s)) t" unfolding t_def by (rule sim_step.consume [OF assms(3)])
  from t_def show ?thesis
  proof (cases rule: consume_cases)
    case skipped
    have "serving c t"
      using assms(1) by (intro serving_step [OF assms(1) step assms(4)]) (simp_all add: skipped(2) serving_def)
    moreover have "\<not> (d_Gen d = consumerGen s \<and> \<not> f64_ge (messageCounts s (d_Queue d)) (getMaxPerMinute (d_Queue d) s))"
      using skipped(1) by (auto simp: verdict_of_def split: if_splits)
    ultimately show ?thesis by (simp add: skipped(2) backlog_def)
  next
    case (ran b ps hs mc ts)
    have lv: "live s = Some (d_Gen d)" using assms(1) ran(2) by (simp add: serving_def)
    have "pending (live s) (inbox s) \<subseteq># unacked s" using assms(1) unfolding serving_def conn_ok_def by (elim conjE)
    then have "item d \<in># unacked s" using pending_in [OF assms(2) lv] by (rule mset_subset_eqD)
    then obtain U where "unacked s = add_mset (d_Queue d, d_Body d) U" by (auto simp: item_def dest: multi_member_split)
    then have "size (unacked s - {#(d_Queue d, d_Body d)#}) < size (unacked s)" by simp
    moreover have "serving c t"
      using assms(1) by (intro serving_step [OF assms(1) step assms(4)]) (simp_all add: ran(3) serving_def)
    ultimately show ?thesis using lv by (simp add: ran(3) backlog_def)
  qed
qed

lemma flush:
  assumes "serving c s" "limits_positive c"
  shows "\<exists>tr t. run oob s tr t \<and> serving c t \<and> inbox t = [] \<and> backlog t \<le> backlog s \<and>
    (\<forall>l \<in> set tr. internal l \<and> l \<noteq> Tick)"
  using assms
proof (induction "length (inbox s)" arbitrary: s)
  case 0
  then show ?case by (intro exI [of _ "[]"] exI [of _ s]) simp
next
  case (Suc n)
  then obtain d ds where ib: "inbox s = d # ds" by (cases "inbox s") auto
  then have nd: "d \<in> set (inbox s)" "next_delivery d (inbox s)" by (simp_all add: next_delivery_def)
  let ?t = "consumeMessage oob d (s\<lparr>inbox := remove1 d (inbox s)\<rparr>)"
  note 1 = consume_shrinks [OF Suc.prems(1) nd Suc.prems(2) refl, of oob]
  have "n = length (inbox ?t)" using 1 ib Suc.hyps(2) by simp
  from Suc.hyps(1) [OF this] 1 Suc.prems(2)
  obtain tr u where 2: "run oob ?t tr u" "serving c u" "inbox u = []" "backlog u \<le> backlog ?t" "\<forall>l \<in> set tr. internal l \<and> l \<noteq> Tick"
    by blast
  have "run oob s ([Consumed d (verdict_of d s)] @ tr) u"
    by (rule run_trans [OF run_one [OF sim_step.consume [OF nd(2)]] 2(1)])
  with 1 2 show ?case
    by (intro exI [of _ "[Consumed d (verdict_of d s)] @ tr"] exI [of _ u]) (auto simp: internal_def)
qed

text \<open>The reset wakes up once and, if a queue was paused, replaces the connection.\<close>

lemma restart:
  assumes "serving c s" "limits_positive c" "inbox s = []"
  shows "\<exists>tr t. run oob s tr t \<and> serving c t \<and> inbox t = [] \<and> unacked t = {#} \<and> backlog t = backlog s \<and>
    (\<forall>q \<in> set queues. messageCounts t q = Fin 0 0) \<and> (\<forall>l \<in> set tr. internal l) \<and> tally (\<lambda>l. l = Tick) tr = 1"
proof -
  have held: "held_ok c s" and conn: "conn_ok s" and idle: "reset_at s = Idle" and lv: "live s = Some (consumerGen s)"
    and cons: "\<forall>q \<in> set queues. (consumerGen s, q) \<in> consumers s"
    using assms(1) unfolding serving_def by blast+
  have cfg: "cfg s = c" using held unfolding held_ok_def by blast
  have ch: "channel s = Some (consumerGen s)" using conn unfolding conn_ok_def idle lv by simp
  have pos: "f64_less (Fin 0 0) (getMaxPerMinute q s)" for q using limits_positive_max [OF assms(2) cfg] .
  let ?s1 = "resetMessageCounts s"
  have 1: "run oob s [Tick] ?s1" using run_one [OF sim_step.tick [OF idle]] .
  have ok1: "held_ok c ?s1" "conn_ok ?s1"
    using held_ok_step [OF sim_step.tick [OF idle] _ held conn assms(2)] conn_ok_step [OF sim_step.tick [OF idle] conn]
    by simp_all
  show ?thesis
  proof (cases "\<exists>q \<in> set queues. \<not> processingAllowed s q")
    case False
    have "\<not> overhang s x" for x
    proof
      assume o: "overhang s x"
      then have "x \<in># unacked s" by (metis gr0I count_greater_zero_iff not_less_zero overhang_def)
      then have "fst x \<in> set queues" using held unfolding held_ok_def by auto
      moreover have "\<not> processingAllowed s (fst x)" using held o unfolding held_ok_def idle by blast
      ultimately show False using False by blast
    qed
    then have "x \<notin># unacked s" for x by (simp add: overhang_def assms(3) pending_def)
    then have "unacked s = {#}" by (meson multiset_nonemptyE)
    moreover have "reset_at ?s1 = Idle" using False by (simp add: reset_exact)
    ultimately show ?thesis using 1 ok1 assms(3) lv ch cons
      by (intro exI [of _ "[Tick]"] exI [of _ ?s1])
        (simp add: serving_def reset_exact backlog_def queues_def internal_def tally_def)
  next
    case True
    let ?s2 = "detach ?s1" and ?s3 = "close_old (live s) (detach ?s1)"
    let ?s4 = "connect ?s3" and ?s5 = "startConsumers queues (connect ?s3)"
    have pc: "reset_at ?s1 = MustReconnect" using True pos by (auto simp: reset_exact)
    have "reset_at ?s2 = Closing (live s)" using lv ch by (simp add: detach_def reset_exact)
    moreover have "reset_at ?s3 = Dialling" by (simp add: close_old_def)
    moreover have "reset_at ?s4 = Starting" by (simp add: connect_def Let_def)
    ultimately have st: "sim_step oob ?s1 ResetStep ?s2" "sim_step oob ?s2 ResetStep ?s3" "sim_step oob ?s3 ResetStep ?s4"
        "sim_step oob ?s4 ResetStep ?s5"
      using pc by (auto intro: sim_step.detach sim_step.close_old sim_step.connect sim_step.start)
    note run5 = run_trans [OF run_trans [OF run_trans [OF run_trans [OF 1 run_one [OF st(1)]] run_one [OF st(2)]] run_one [OF st(3)]] run_one [OF st(4)]]
    note keep = held_ok_step [OF _ _ _ _ assms(2)]
    have ok2: "held_ok c ?s2" "conn_ok ?s2" using keep [OF st(1) _ ok1] conn_ok_step [OF st(1) ok1(2)] by simp_all
    have ok3: "held_ok c ?s3" "conn_ok ?s3" using keep [OF st(2) _ ok2] conn_ok_step [OF st(2) ok2(2)] by simp_all
    have ok4: "held_ok c ?s4" "conn_ok ?s4" using keep [OF st(3) _ ok3] conn_ok_step [OF st(3) ok3(2)] by simp_all
    have "held_ok c ?s5" "conn_ok ?s5" using keep [OF st(4) _ ok4] conn_ok_step [OF st(4) ok4(2)] by simp_all
    moreover have "inbox ?s5 = []" "unacked ?s5 = {#}" "backlog ?s5 = backlog s" "reset_at ?s5 = Idle"
        "live ?s5 = Some (consumerGen ?s5)" "\<forall>q \<in> set queues. (consumerGen ?s5, q) \<in> consumers ?s5"
        "\<forall>q \<in> set queues. messageCounts ?s5 q = Fin 0 0"
      using assms(3) lv ch by (auto simp: startConsumers_def connect_def Let_def close_old_def drop_connection_def detach_def
          reset_exact backlog_def queues_def)
    ultimately show ?thesis using run5
      by (intro exI [of _ "((([Tick] @ [ResetStep]) @ [ResetStep]) @ [ResetStep]) @ [ResetStep]"] exI [of _ ?s5])
        (simp add: serving_def internal_def tally_def)
  qed
qed

text \<open>Then at least one message is delivered and consumed.\<close>

lemma serve:
  assumes "serving c s" "limits_positive c" "inbox s = []" "unacked s = {#}" "backlog s \<noteq> 0"
    "\<forall>q \<in> set queues. messageCounts s q = Fin 0 0"
  shows "\<exists>tr t. run oob s tr t \<and> serving c t \<and> backlog t < backlog s \<and> (\<forall>l \<in> set tr. internal l \<and> l \<noteq> Tick)"
proof -
  have held: "held_ok c s" and idle: "reset_at s = Idle" and lv: "live s = Some (consumerGen s)"
    and cons: "\<forall>q \<in> set queues. (consumerGen s, q) \<in> consumers s"
    using assms(1) unfolding serving_def by blast+
  have cfg: "cfg s = c" using held unfolding held_ok_def by blast
  obtain q b where x: "(q, b) \<in># ready s" using assms(4,5) by (auto simp: backlog_def)
  have q: "q \<in> set queues" using held x unfolding held_ok_def by force
  let ?d = "\<lparr>d_Gen = consumerGen s, d_Queue = q, d_Body = b\<rparr>"
  let ?t = "s\<lparr>ready := ready s - {#(q, b)#}, unacked := add_mset (q, b) (unacked s), inbox := inbox s @ [?d]\<rparr>"
  have "(consumerGen s, q) \<in> consumers s" using cons q by blast
  from sim_step.deliver [OF lv this x refl] have 1: "sim_step oob s (Delivered ?d) ?t" .
  have t: "serving c ?t" by (rule serving_step [OF assms(1) 1 assms(2)]) (simp_all add: idle)
  have nd: "next_delivery ?d (inbox ?t)" "?d \<in> set (inbox ?t)" using assms(3) by (simp_all add: next_delivery_def)
  have "f64_less (Fin 0 0) (getMaxPerMinute q ?t)" by (rule limits_positive_max [OF assms(2)]) (simp add: cfg)
  then have "\<not> f64_ge (messageCounts ?t (d_Queue ?d)) (getMaxPerMinute (d_Queue ?d) ?t)"
    using assms(6) q by (simp add: f64_ge_def)
  moreover have "backlog ?t = backlog s" using x by (auto simp: backlog_def dest: multi_member_split)
  ultimately have 2: "serving c (consumeMessage oob ?d (?t\<lparr>inbox := remove1 ?d (inbox ?t)\<rparr>)) \<and>
      backlog (consumeMessage oob ?d (?t\<lparr>inbox := remove1 ?d (inbox ?t)\<rparr>)) < backlog s"
    using consume_shrinks [OF t nd(2,1) assms(2) refl, of oob] by simp
  have "run oob s ([Delivered ?d] @ [Consumed ?d (verdict_of ?d ?t)]) (consumeMessage oob ?d (?t\<lparr>inbox := remove1 ?d (inbox ?t)\<rparr>))"
    by (rule run_trans [OF run_one [OF 1] run_one [OF sim_step.consume [OF nd(1)]]])
  with 2 show ?thesis by (intro exI conjI) (auto simp: internal_def)
qed

lemma tally_append [simp]: "tally P (tr @ tr') = tally P tr + tally P tr'"
  by (simp add: tally_def)

lemma tally_none: "(\<And>l. l \<in> set tr \<Longrightarrow> \<not> P l) \<Longrightarrow> tally P tr = 0"
  by (simp add: tally_def filter_empty_conv)

lemma drain:
  assumes "serving c s" "limits_positive c"
  shows "\<exists>tr t. run oob s tr t \<and> serving c t \<and> backlog t = 0 \<and> (\<forall>l \<in> set tr. internal l) \<and> tally (\<lambda>l. l = Tick) tr \<le> backlog s"
  using assms
proof (induction "backlog s" arbitrary: s rule: less_induct)
  case less
  show ?case
  proof (cases "backlog s = 0")
    case True
    then show ?thesis using less.prems by (intro exI [of _ "[]"] exI [of _ s]) (simp add: tally_def)
  next
    case False
    obtain tr1 s1 where 1: "run oob s tr1 s1" "serving c s1" "inbox s1 = []" "backlog s1 \<le> backlog s" "\<forall>l \<in> set tr1. internal l \<and> l \<noteq> Tick"
      using flush [OF less.prems] by blast
    obtain tr2 s2 where 2: "run oob s1 tr2 s2" "serving c s2" "inbox s2 = []" "unacked s2 = {#}" "backlog s2 = backlog s1"
        "\<forall>q \<in> set queues. messageCounts s2 q = Fin 0 0" "\<forall>l \<in> set tr2. internal l" "tally (\<lambda>l. l = Tick) tr2 = 1"
      using restart [OF 1(2) less.prems(2) 1(3)] by blast
    have "\<exists>tr3 s3. run oob s2 tr3 s3 \<and> serving c s3 \<and> backlog s3 < backlog s \<and> (\<forall>l \<in> set tr3. internal l \<and> l \<noteq> Tick)"
    proof (cases "backlog s2 = 0")
      case True
      then show ?thesis using 2 False by (intro exI [of _ "[]"] exI [of _ s2]) simp
    next
      case nz: False
      then show ?thesis using serve [OF 2(2) less.prems(2) 2(3,4) nz 2(6), of oob] 1(4) 2(5) by (metis order_less_le_trans)
    qed
    then obtain tr3 s3 where 3: "run oob s2 tr3 s3" "serving c s3" "backlog s3 < backlog s" "\<forall>l \<in> set tr3. internal l \<and> l \<noteq> Tick"
      by blast
    obtain tr4 s4 where 4: "run oob s3 tr4 s4" "serving c s4" "backlog s4 = 0" "\<forall>l \<in> set tr4. internal l"
        "tally (\<lambda>l. l = Tick) tr4 \<le> backlog s3"
      using less.hyps [OF 3(3) 3(2) less.prems(2)] by blast
    have "tally (\<lambda>l. l = Tick) tr1 = 0" "tally (\<lambda>l. l = Tick) tr3 = 0" using 1(5) 3(4) by (auto intro: tally_none)
    then have "tally (\<lambda>l. l = Tick) (tr1 @ tr2 @ tr3 @ tr4) \<le> backlog s" using 2(8) 4(5) 3(3) by simp
    moreover have "run oob s (tr1 @ tr2 @ tr3 @ tr4) s4"
      by (rule run_trans [OF 1(1) run_trans [OF 2(1) run_trans [OF 3(1) 4(1)]]])
    ultimately show ?thesis using 1(5) 2(7) 3(4) 4(2-4) by (intro exI [of _ "tr1 @ tr2 @ tr3 @ tr4"] exI [of _ s4]) auto
  qed
qed

text \<open>
  C19. The rate limit delays but does not starve. As long as the limits are positive and are not
  changed, from every reachable state in which the consumers of both queues run on the open
  connection, the consumers, the broker and the minute resets alone can bring every registered
  message to its acknowledgement, within as many minutes as there are messages.
\<close>

theorem registrations_can_drain:
  assumes "run oob (started c) tr s" "Configured \<notin> set tr" "limits_positive c"
    and "reset_at s = Idle" "live s \<noteq> None" "\<forall>q \<in> set queues. (consumerGen s, q) \<in> consumers s"
  shows "\<exists>tr' t. run oob s tr' t \<and> (\<forall>l \<in> set tr'. internal l) \<and>
    tally (\<lambda>l. l = Tick) tr' \<le> size (ready s) + size (unacked s) \<and>
    (\<forall>P. tally (acked P) (tr @ tr') = tally (published P) tr)"
proof -
  have "serving c s"
    using assms conn_ok_run [OF assms(1)] held_ok_run [OF assms(1-3)] by (auto simp: serving_def conn_ok_def)
  from drain [OF this assms(3)] obtain tr' t where 1: "run oob s tr' t" "backlog t = 0" "\<forall>l \<in> set tr'. internal l"
      "tally (\<lambda>l. l = Tick) tr' \<le> backlog s" by blast
  have "tally (acked P) (tr @ tr') = tally (published P) tr" for P
  proof -
    have "tally (published P) tr' = 0"
      using 1(3) by (intro tally_none) (auto simp: published_def internal_def split: label.splits)
    then show ?thesis using messages_conserved [OF run_trans [OF assms(1) 1(1)], of P] 1(2) by (simp add: backlog_def)
  qed
  with 1 show ?thesis by (intro exI [of _ tr'] exI [of _ t]) (simp add: backlog_def)
qed

definition with_payments_limit :: "int \<Rightarrow> ConfigService" where
  "with_payments_limit n = snd (SetVariables_cfg (\<lambda>x. []) [(''PAYMENTS_PER_MINUTE'', AInt n)] (newConfig (\<lambda>x. []) Map.empty))"

lemma registrations_can_drain_witness:
  "\<exists>tr s tr' t. run (\<lambda>x. 0) (started (with_payments_limit 1)) tr s \<and> size (unacked s) = 1 \<and> run (\<lambda>x. 0) s tr' t \<and>
    tally (acked (\<lambda>x. True)) (tr @ tr') = 2"
proof -
  let ?c = "with_payments_limit 1"
  have "map_option (\<lambda>(tr, s). (Configured \<notin> set tr, reset_at s = Idle, live s \<noteq> None,
        list_all (\<lambda>q. (consumerGen s, q) \<in> consumers s) queues, size (unacked s), tally (published (\<lambda>x. True)) tr))
      (script (\<lambda>x. 0) (\<lambda>x. [])
        [APublish PaymentsQueue (registration ''a''), ADeliver PaymentsQueue (payment_message ''a''), AConsume 1 PaymentsQueue,
         APublish PaymentsQueue (registration ''b''), ADeliver PaymentsQueue (payment_message ''b''), AConsume 1 PaymentsQueue]
        (started ?c)) = Some (True, True, True, True, 1, 2)"
    by code_simp
  from script_result [OF this] obtain tr s where r: "run (\<lambda>x. 0) (started ?c) tr s" "Configured \<notin> set tr" "reset_at s = Idle" "live s \<noteq> None"
      "\<forall>q \<in> set queues. (consumerGen s, q) \<in> consumers s" "size (unacked s) = 1" "tally (published (\<lambda>x. True)) tr = 2"
    by (auto simp: list_all_iff)
  have "limits_positive ?c" by code_simp
  from registrations_can_drain [OF r(1,2) this r(3-5)] r show ?thesis by metis
qed

end
