(* ===== verification/Sim_Http.thy ===== *)
theory Sim_Http
  imports Sim_Queue
begin

text \<open>
  \<open>simulation/connector\<close> and the HTTP surface of the simulation: the callbacks with their retry
  loop, the REST handlers with the validation of their bodies, and the experiment variables.
\<close>

subsection \<open>Callbacks\<close>

text \<open>A reply is its status, or \<open>None\<close> for a transport error.\<close>

definition post_ok :: "int option \<Rightarrow> bool" where
  "post_ok reply = (case reply of None \<Rightarrow> False | Some code \<Rightarrow> \<not> (code < 200 \<or> 299 < code))"

definition next_retry :: "f64 \<Rightarrow> int \<Rightarrow> bool" where
  "next_retry retryCount attempts \<longleftrightarrow> f64_ge retryCount (f64_of_int attempts)"

text \<open>
  The loop of \<open>send_callback\<close>, which yields the number of posts made; \<open>reply k\<close> is the outcome of the
  \<open>k\<close>-th one, \<open>cancelled k\<close> says that the context ends during the wait after it.
\<close>

partial_function (option) send_loop ::
  "(nat \<Rightarrow> int option) \<Rightarrow> (nat \<Rightarrow> bool) \<Rightarrow> f64 \<Rightarrow> int \<Rightarrow> nat \<Rightarrow> nat option" where
  "send_loop reply cancelled retryCount attempts k =
     (if post_ok (reply k) then Some (Suc k)
      else if next_retry retryCount (i64 (attempts + 1)) then
        (if cancelled k then Some (Suc k) else send_loop reply cancelled retryCount (i64 (attempts + 1)) (Suc k))
      else Some (Suc k))"

definition retry_count :: "(any \<Rightarrow> string) \<Rightarrow> ConfigService \<Rightarrow> f64" where
  "retry_count fmt c = jsNumber (AString (GetCurrentVariableValueString fmt c ''RETRY_COUNT'' ''3''))"

definition send_callback :: "(any \<Rightarrow> string) \<Rightarrow> ConfigService \<Rightarrow> (nat \<Rightarrow> int option) \<Rightarrow> (nat \<Rightarrow> bool) \<Rightarrow> nat option" where
  "send_callback fmt c reply cancelled = send_loop reply cancelled (retry_count fmt c) 0 0"

record connector =
  paymentEndpoint :: string
  shipmentEndpoint :: string

definition newConnector :: "(any \<Rightarrow> string) \<Rightarrow> ConfigService \<Rightarrow> connector" where
  "newConnector fmt c = \<lparr>paymentEndpoint = GetCurrentVariableValueString fmt c ''PAYMENT_URL'' ''NOT_SET'',
     shipmentEndpoint = GetCurrentVariableValueString fmt c ''SHIPMENT_URL'' ''NOT_SET''\<rparr>"

text \<open>The endpoint and body of a callback; what is posted is the request as often as \<open>send_callback\<close> says.\<close>

fun request :: "connector \<Rightarrow> callback \<Rightarrow> string \<times> json" where
  "request cn (UpdateShipment i st) =
     (shipmentEndpoint cn @ ''/shipment/'' @ i @ ''/status'', JObj [(''status'', JStr st)])"
| "request cn (UpdatePayment i st) =
     (paymentEndpoint cn @ ''/payment/update-payment-status'', JObj [(''paymentId'', JStr i), (''status'', JStr st)])"

definition deliver_callback ::
  "(any \<Rightarrow> string) \<Rightarrow> ConfigService \<Rightarrow> connector \<Rightarrow> callback \<Rightarrow> (nat \<Rightarrow> int option) \<Rightarrow> (nat \<Rightarrow> bool) \<Rightarrow> (string \<times> json) list option" where
  "deliver_callback fmt c cn cb reply cancelled =
     map_option (\<lambda>n. replicate n (request cn cb)) (send_callback fmt c reply cancelled)"

subsection \<open>Requests and responses\<close>

datatype http_body = ReadError | EmptyBody | BadJson | JsonBody json

datatype response =
    Void
  | BadRequest "string list"
  | NotFound string
  | InternalServerError
  | AllPayments "SimPayment list"
  | AllShipments "SimShipment list"
  | Definitions "(string \<times> VariableDefinition) list"

definition isUUID :: "string \<Rightarrow> bool" where
  "isUUID s = hex_groups [8, 4, 4, 4, 12] s"

definition msgMustBeUUID :: "string \<Rightarrow> string" where
  "msgMustBeUUID field = field @ '' must be a UUID''"
definition msgMustBeString :: "string \<Rightarrow> string" where
  "msgMustBeString field = field @ '' must be a string''"
definition msgMustBeNumber :: "string \<Rightarrow> string" where
  "msgMustBeNumber field = field @ '' must be a number conforming to the specified constraints''"

definition decodeBody :: "http_body \<Rightarrow> response + (string \<times> json) list" where
  "decodeBody b =
     (case b of
        ReadError \<Rightarrow> Inl (BadRequest [''Unexpected end of JSON input''])
      | EmptyBody \<Rightarrow> Inr []
      | BadJson \<Rightarrow> Inl (BadRequest [''Unexpected token in JSON''])
      | JsonBody j \<Rightarrow>
          (case struct_members j of None \<Rightarrow> Inl (BadRequest [''Unexpected token in JSON'']) | Some kvs \<Rightarrow> Inr kvs))"

fun stringField :: "json option \<Rightarrow> string option" where
  "stringField (Some (JStr s)) = Some s"
| "stringField raw = None"

fun isJSONNumber :: "json option \<Rightarrow> bool" where
  "isJSONNumber (Some (JNum l)) = (ParseFloat l \<noteq> None)"
| "isJSONNumber raw = False"

definition uuid_ok :: "json option \<Rightarrow> bool" where
  "uuid_ok raw = (case stringField raw of None \<Rightarrow> False | Some s \<Rightarrow> isUUID s)"

definition validateCreatePayment :: "(string \<times> json) list \<Rightarrow> string list + (string \<times> json \<times> string)" where
  "validateCreatePayment kvs =
     (let i = raw_field ''paymentId'' kvs; amount = raw_field ''amount'' kvs; ty = raw_field ''paymentType'' kvs;
          msgs = (if uuid_ok i then [] else [msgMustBeUUID ''paymentId'']) @
            (if isJSONNumber amount then [] else [msgMustBeNumber ''amount'']) @
            (if stringField ty \<noteq> None then [] else [msgMustBeString ''paymentType''])
      in if msgs \<noteq> [] then Inl msgs else Inr (the (stringField i), the amount, the (stringField ty)))"

definition validateUpdate :: "string \<Rightarrow> (string \<times> json) list \<Rightarrow> string list + (string \<times> string)" where
  "validateUpdate idField kvs =
     (let i = raw_field idField kvs; st = raw_field ''status'' kvs;
          msgs = (if uuid_ok i then [] else [msgMustBeUUID idField]) @
            (if stringField st \<noteq> None then [] else [msgMustBeString ''status''])
      in if msgs \<noteq> [] then Inl msgs else Inr (the (stringField i), the (stringField st)))"

definition validateShipmentID :: "(string \<times> json) list \<Rightarrow> string list + string" where
  "validateShipmentID kvs =
     (let i = raw_field ''shipmentId'' kvs
      in if uuid_ok i then Inr (the (stringField i)) else Inl [msgMustBeUUID ''shipmentId''])"

subsection \<open>Handlers\<close>

definition paymentRegister :: "http_body \<Rightarrow> sim \<Rightarrow> response \<times> sim" where
  "paymentRegister b s =
     (case decodeBody b of
        Inl r \<Rightarrow> (r, s)
      | Inr kvs \<Rightarrow>
          (case validateCreatePayment kvs of
             Inl msgs \<Rightarrow> (BadRequest msgs, s)
           | Inr (i, amount, ty) \<Rightarrow>
               let s1 = snd (Publish PaymentsQueue (JObj [(''amount'', amount), (''paymentId'', JStr i), (''paymentType'', JStr ty)]) s)
               in (Void, s1\<lparr>payments := payments s1 @ [\<lparr>pay_ID = i, pay_PaymentType = ty, pay_Blocked = False\<rparr>]\<rparr>)))"

text \<open>The callback is sent before the response.\<close>

definition paymentUpdate :: "http_body \<Rightarrow> sim \<Rightarrow> response \<times> sim" where
  "paymentUpdate b s =
     (case decodeBody b of
        Inl r \<Rightarrow> (r, s)
      | Inr kvs \<Rightarrow>
          (case validateUpdate ''paymentId'' kvs of
             Inl msgs \<Rightarrow> (BadRequest msgs, s)
           | Inr (i, st) \<Rightarrow>
               if \<not> FindByID_repo pay_ID i (payments s) then (NotFound ''Shipment not found'', s)
               else (Void, s\<lparr>payments := BlockPayment i (payments s), callbacks := callbacks s @ [UpdatePayment i st]\<rparr>)))"

definition paymentFindAll :: "sim \<Rightarrow> response \<times> sim" where
  "paymentFindAll s = (AllPayments (payments s), s)"

text \<open>An empty body is read as the empty object, which is what is emitted.\<close>

definition readRawBody :: "http_body \<Rightarrow> response + json option" where
  "readRawBody b =
     (case b of
        ReadError \<Rightarrow> Inl (BadRequest [''Unexpected end of JSON input''])
      | EmptyBody \<Rightarrow> Inr (Some (JObj []))
      | BadJson \<Rightarrow> Inr None
      | JsonBody j \<Rightarrow> Inr (Some j))"

definition shipmentRegister :: "http_body \<Rightarrow> sim \<Rightarrow> response \<times> sim" where
  "shipmentRegister b s =
     (case readRawBody b of
        Inl r \<Rightarrow> (r, s)
      | Inr raw \<Rightarrow>
          (case Option.bind raw struct_members of
             None \<Rightarrow> (BadRequest [msgMustBeUUID ''shipmentId''], s)
           | Some kvs \<Rightarrow>
               (case validateShipmentID kvs of
                  Inl msgs \<Rightarrow> (BadRequest msgs, s)
                | Inr i \<Rightarrow>
                    let s1 = s\<lparr>shipments := shipments s @ [\<lparr>shp_ID = i, shp_Blocked = False\<rparr>]\<rparr>
                    in (Void, snd (Publish ShipmentsQueue (the raw) s1)))))"

definition shipmentUpdate :: "http_body \<Rightarrow> sim \<Rightarrow> response \<times> sim" where
  "shipmentUpdate b s =
     (case decodeBody b of
        Inl r \<Rightarrow> (r, s)
      | Inr kvs \<Rightarrow>
          (case validateUpdate ''shipmentId'' kvs of
             Inl msgs \<Rightarrow> (BadRequest msgs, s)
           | Inr (i, st) \<Rightarrow>
               if \<not> FindByID_repo shp_ID i (shipments s) then (NotFound ''Shipment not found'', s)
               else (Void, s\<lparr>shipments := BlockShipment i (shipments s), callbacks := callbacks s @ [UpdateShipment i st]\<rparr>)))"

definition shipmentFindAll :: "sim \<Rightarrow> response \<times> sim" where
  "shipmentFindAll s = (AllShipments (shipments s), s)"

definition definedVariables_handler :: "sim \<Rightarrow> response \<times> sim" where
  "definedVariables_handler s = (Definitions DefinedVariables, s)"

text \<open>The value of a number out of range is its literal.\<close>

fun jsonValue :: "json \<Rightarrow> any" where
  "jsonValue (JNum l) = (case ParseFloat l of None \<Rightarrow> AString l | Some x \<Rightarrow> AFloat x)"
| "jsonValue (JStr s) = AString s"
| "jsonValue (JBool b) = ABool b"
| "jsonValue j = AOther j"

text \<open>\<open>range'\<close> is the order in which the runtime ranges over the decoded map.\<close>

definition setVariables_handler ::
  "(any \<Rightarrow> string) \<Rightarrow> ((string \<times> any) list \<Rightarrow> (string \<times> any) list) \<Rightarrow> http_body \<Rightarrow> sim \<Rightarrow> response \<times> sim" where
  "setVariables_handler fmt range' b s =
     (let apply = (\<lambda>kvs. case SetVariables_cfg fmt (range' (map (\<lambda>(k, v). (k, jsonValue v)) (json_map kvs))) (cfg s) of
            (ok, c) \<Rightarrow> (if ok then Void else InternalServerError, s\<lparr>cfg := c\<rparr>))
      in case b of
        ReadError \<Rightarrow> (InternalServerError, s)
      | EmptyBody \<Rightarrow> apply []
      | BadJson \<Rightarrow> (BadRequest [''Unexpected token in JSON''], s)
      | JsonBody j \<Rightarrow>
          (case struct_members j of
             None \<Rightarrow> (BadRequest [''Unexpected token in JSON''], s)
           | Some kvs \<Rightarrow> apply kvs))"

subsection \<open>The retry loop ends\<close>

text \<open>The post after which the loop stops.\<close>

definition stops :: "(nat \<Rightarrow> int option) \<Rightarrow> (nat \<Rightarrow> bool) \<Rightarrow> f64 \<Rightarrow> nat \<Rightarrow> bool" where
  "stops reply cancelled retryCount k \<longleftrightarrow>
     post_ok (reply k) \<or> cancelled k \<or> \<not> next_retry retryCount (i64 (int k + 1))"

lemma i64_Suc: "i64 (i64 (int k) + 1) = i64 (int (Suc k))"
proof -
  have "i64 (i64 a + b) = i64 (a + b)" for a b
  proof -
    have "signed_take_bit 63 (signed_take_bit 63 a + b) =
        signed_take_bit 63 (signed_take_bit 63 (signed_take_bit 63 a) + signed_take_bit 63 b)"
      by (rule signed_take_bit_add [symmetric])
    also have "\<dots> = signed_take_bit 63 (signed_take_bit 63 a + signed_take_bit 63 b)" by simp
    also have "\<dots> = signed_take_bit 63 (a + b)" by (rule signed_take_bit_add)
    finally show ?thesis by (simp add: i64_def)
  qed
  then show ?thesis by (simp add: add.commute)
qed

lemma send_loop_step:
  "send_loop reply cancelled rc (i64 (int k)) k =
     (if stops reply cancelled rc k then Some (Suc k) else send_loop reply cancelled rc (i64 (int (Suc k))) (Suc k))"
proof -
  have "i64 (int k + 1) = i64 (int (Suc k))" by (simp add: add.commute)
  then show ?thesis unfolding stops_def by (subst send_loop.simps) (simp only: i64_Suc; auto)
qed

lemma send_loop_stops:
  assumes "stops reply cancelled rc n" "k \<le> n" "\<And>j. k \<le> j \<Longrightarrow> j < n \<Longrightarrow> \<not> stops reply cancelled rc j"
  shows "send_loop reply cancelled rc (i64 (int k)) k = Some (Suc n)"
  using assms(2,3)
proof (induction rule: inc_induct)
  case base
  then show ?case using assms(1) by (simp add: send_loop_step)
next
  case (step k)
  then show ?case by (simp add: send_loop_step)
qed

lemma send_loop_only:
  assumes "send_loop reply cancelled rc a k = Some n" "a = i64 (int k)"
  shows "\<exists>j. n = Suc j \<and> k \<le> j \<and> stops reply cancelled rc j"
proof -
  have "a = i64 (int k) \<longrightarrow> (\<exists>j. n = Suc j \<and> k \<le> j \<and> stops reply cancelled rc j)"
  proof (rule send_loop.raw_induct [where P = "\<lambda>reply cancelled rc a k n.
        a = i64 (int k) \<longrightarrow> (\<exists>j. n = Suc j \<and> k \<le> j \<and> stops reply cancelled rc j)", OF _ assms(1)], rule impI)
    fix loop reply cancelled rc a k n
    assume IH: "\<And>reply cancelled rc a k n. loop reply cancelled rc a k = Some n \<Longrightarrow>
        a = i64 (int k) \<longrightarrow> (\<exists>j. n = Suc j \<and> k \<le> j \<and> stops reply cancelled rc j)"
      and body: "(if post_ok (reply k) then Some (Suc k) else if next_retry rc (i64 (a + 1)) then
          (if cancelled k then Some (Suc k) else loop reply cancelled rc (i64 (a + 1)) (Suc k)) else Some (Suc k)) = Some n"
      and a: "a = i64 (int k)"
    have e: "i64 (a + 1) = i64 (int (Suc k))" "i64 (a + 1) = i64 (int k + 1)" unfolding a i64_Suc by (simp_all add: add.commute)
    show "\<exists>j. n = Suc j \<and> k \<le> j \<and> stops reply cancelled rc j"
    proof (cases "stops reply cancelled rc k")
      case True
      then have "n = Suc k" using body e(2) by (auto simp: stops_def split: if_splits)
      then show ?thesis using True by blast
    next
      case False
      then have "loop reply cancelled rc (i64 (a + 1)) (Suc k) = Some n"
        using body e(2) by (auto simp: stops_def split: if_splits)
      from IH [OF this] e(1) show ?thesis using Suc_leD by blast
    qed
  qed
  then show ?thesis using assms(2) by blast
qed

lemma send_iff:
  "send_callback fmt c reply cancelled = Some n \<longleftrightarrow>
     (\<exists>k. n = Suc k \<and> stops reply cancelled (retry_count fmt c) k \<and> (\<forall>j < k. \<not> stops reply cancelled (retry_count fmt c) j))"
proof -
  let ?st = "stops reply cancelled (retry_count fmt c)"
  have z: "(0 :: int) = i64 (int 0)" by (simp add: i64_def)
  have "send_callback fmt c reply cancelled = Some (Suc k)" if "?st k" "\<forall>j < k. \<not> ?st j" for k
    using send_loop_stops [OF that(1), of 0] that(2) unfolding send_callback_def z by simp
  moreover have "\<exists>k. n = Suc k \<and> ?st k \<and> (\<forall>j < k. \<not> ?st j)" if s: "send_callback fmt c reply cancelled = Some n"
  proof -
    obtain j where "?st j" using send_loop_only [OF s [unfolded send_callback_def] z] by blast
    define k where "k = (LEAST k. ?st k)"
    have k: "?st k" "\<forall>i < k. \<not> ?st i"
      unfolding k_def using \<open>?st j\<close> by (auto intro: LeastI dest: not_less_Least)
    then have "send_callback fmt c reply cancelled = Some (Suc k)"
      using send_loop_stops [OF k(1), of 0] unfolding send_callback_def z by simp
    then show ?thesis using s k by auto
  qed
  ultimately show ?thesis by blast
qed

lemma f64_of_int_not_NaN: "f64_of_int n \<noteq> NaN"
  by (simp add: f64_of_int_def f64_round_def Let_def split: prod.split)

lemma next_retry_PosInf: "next_retry PosInf n"
  using f64_of_int_not_NaN [of n] by (cases "f64_of_int n") (simp_all add: next_retry_def f64_ge_def)

lemma next_retry_Fin:
  assumes "0 \<le> n" "n < 2 ^ 53"
  shows "next_retry (Fin m e) n \<longleftrightarrow> of_int n \<le> fin_val m e"
proof -
  have "f64_of_int n = Fin n 0" using assms by (intro f64_of_int_exact) simp
  moreover have "fin_val n 0 = of_int n" by (simp add: fin_val_def)
  ultimately show ?thesis by (simp add: next_retry_def f64_ge_def f64_less_val not_less del: f64_less.simps)
qed

text \<open>The counter is a 64-bit integer: a count of 2^63 or more is never passed.\<close>

lemma next_retry_huge:
  assumes "n < 2 ^ 63" "2 ^ 63 \<le> fin_val m e"
  shows "next_retry (Fin m e) n"
proof (cases "0 \<le> n")
  case True
  have v: "fin_val n 0 = of_int n" "fin_val 1 63 = 2 ^ 63" by (simp_all add: fin_val_def)
  have "(of_int n :: real) \<le> of_int (2 ^ 63)" using assms(1) by (simp only: of_int_le_iff)
  then have "fin_val n 0 \<le> fin_val 1 63" unfolding v by simp
  moreover have "f64_ok (Fin 1 63)"
  proof -
    have "(2 :: real) powi 63 < 2 powi 1024" by (rule power_int_strict_increasing) simp_all
    then show ?thesis by (simp add: f64_limit_def fin_val_def)
  qed
  ultimately obtain q e' where "f64_of_int n = Fin q e'" "fin_val q e' \<le> fin_val 1 63"
    using f64_round_le [OF True] unfolding f64_of_int_def by metis
  then show ?thesis
    using assms(2) v(2) by (simp add: next_retry_def f64_ge_def f64_less_val not_less del: f64_less.simps)
next
  case False
  obtain q e' where rm: "round_mag \<bar>n\<bar> 0 = (q, e')" by fastforce
  have "0 \<le> q" using round_mag_ok [OF _ rm] False by simp
  then have "fin_val (- q) e' \<le> 0" using fin_val_nonneg_iff [of q e'] by (simp add: fin_val_def)
  then have "\<not> fin_val m e < fin_val (- q) e'" using assms(2) by simp
  moreover have "f64_of_int n \<in> {NegInf, Fin (- q) e'}" using False rm by (auto simp: f64_of_int_def f64_round_def)
  ultimately show ?thesis
    by (auto simp: next_retry_def f64_ge_def f64_less_val simp del: f64_less.simps(1))
qed

text \<open>
  C20. When the retry loop of a callback ends. It stops at the first post that is answered with a
  2xx status, is followed by the end of the context, or is the last one the retry count allows. A
  finite count below 2^53 - 1 bounds the posts by its floor plus one, so the call returns whatever
  the endpoint does; a count that is not a number allows a single post. With an infinite count, and
  with a finite one of 2^63 or more (the counter wraps before it passes it), the call never returns
  while the endpoint keeps failing and nobody cancels.
\<close>

theorem send_termination:
  assumes "rc = retry_count fmt c"
  shows "(\<forall>n. send_callback fmt c reply cancelled = Some n \<longleftrightarrow>
      (\<exists>k. n = Suc k \<and> stops reply cancelled rc k \<and> (\<forall>j < k. \<not> stops reply cancelled rc j))) \<and>
    (\<forall>m e. rc = Fin m e \<and> fin_val m e < 2 ^ 53 - 1 \<longrightarrow>
      (\<exists>n. send_callback fmt c reply cancelled = Some n \<and> int n \<le> max 1 (\<lfloor>fin_val m e\<rfloor> + 1))) \<and>
    (rc = NaN \<longrightarrow> send_callback fmt c reply cancelled = Some 1) \<and>
    ((rc = PosInf \<or> (\<exists>m e. rc = Fin m e \<and> 2 ^ 63 \<le> fin_val m e)) \<and> (\<forall>k. \<not> post_ok (reply k) \<and> \<not> cancelled k) \<longrightarrow>
      send_callback fmt c reply cancelled = None)"
proof (intro conjI allI impI)
  fix n
  show iff: "send_callback fmt c reply cancelled = Some n \<longleftrightarrow>
      (\<exists>k. n = Suc k \<and> stops reply cancelled rc k \<and> (\<forall>j < k. \<not> stops reply cancelled rc j))" for n
    by (simp add: send_iff assms)
  show "\<exists>n. send_callback fmt c reply cancelled = Some n \<and> int n \<le> max 1 (\<lfloor>fin_val m e\<rfloor> + 1)"
    if h: "rc = Fin m e \<and> fin_val m e < 2 ^ 53 - 1" for m e
  proof -
    define b where "b = nat \<lfloor>fin_val m e\<rfloor>"
    have "\<lfloor>fin_val m e\<rfloor> < 2 ^ 53 - 1" using h by (simp add: floor_less_iff)
    then have b: "int b + 1 < 2 ^ 53" by (auto simp: b_def)
    have "\<lfloor>fin_val m e\<rfloor> < int b + 1" unfolding b_def by linarith
    then have "fin_val m e < of_int (int b + 1)" unfolding floor_less_iff .
    then have "\<not> next_retry rc (int b + 1)" using h b next_retry_Fin [of "int b + 1" m e] by simp
    moreover have "i64 (int b + 1) = int b + 1" using b by (intro i64_id) simp_all
    ultimately have "stops reply cancelled rc b" by (simp add: stops_def)
    then obtain k where k: "stops reply cancelled rc k" "\<forall>j < k. \<not> stops reply cancelled rc j" "k \<le> b"
      by (metis exists_least_iff not_le_imp_less)
    have "int (Suc k) \<le> max 1 (\<lfloor>fin_val m e\<rfloor> + 1)" using k(3) by (auto simp: b_def)
    then show ?thesis using k(1,2) iff by blast
  qed
  show "send_callback fmt c reply cancelled = Some 1" if "rc = NaN"
    using that by (simp add: iff stops_def next_retry_def f64_ge_def)
  show "send_callback fmt c reply cancelled = None" if h: "(rc = PosInf \<or> (\<exists>m e. rc = Fin m e \<and> 2 ^ 63 \<le> fin_val m e)) \<and> (\<forall>k. \<not> post_ok (reply k) \<and> \<not> cancelled k)"
  proof -
    have "i64 n < 2 ^ 63" for n using signed_take_bit_int_less_exp [of 63 n] by (simp add: i64_def)
    then have "\<not> stops reply cancelled rc k" for k using h next_retry_PosInf next_retry_huge by (auto simp: stops_def)
    then show ?thesis using iff by (cases "send_callback fmt c reply cancelled") auto
  qed
qed

lemma send_termination_witness:
  "\<exists>n. send_callback (\<lambda>x. []) (newConfig (\<lambda>x. []) Map.empty) (\<lambda>k. Some 500) (\<lambda>k. False) = Some n \<and> n \<le> 4"
proof -
  have rc: "Fin 3 0 = retry_count (\<lambda>x. []) (newConfig (\<lambda>x. []) Map.empty)" by code_simp
  have "\<lfloor>fin_val 3 0\<rfloor> = 3" "fin_val 3 0 < 2 ^ 53 - 1" by (simp_all add: fin_val_def)
  then show ?thesis using send_termination [OF rc, of "\<lambda>k. Some 500" "\<lambda>k. False"] by force
qed

end
