(* ===== verification/Discount_Store.thy ===== *)
theory Discount_Store
  imports Postgres Auth Go_Float Timestamps "HOL-Library.Product_Lexorder"
begin

text \<open>
  \<open>discount/store\<close>: the tables of the discount service, with the constraints and the two
  triggers of its migration (\<open>update_coupon_usages\<close> before a redemption is inserted,
  \<open>check_discount_usages\<close> before a usage is inserted or raised). Join tables are lists of
  pairs: the generated ids of their rows are never read. A coupon's redemptions are pairs of a
  coupon and a user, a product's categories pairs of a product and a category.
\<close>

subsection \<open>Rows\<close>

record DiscountRow =
  dc_ID :: uuid
  dc_Discount :: f64
  dc_MaxUsagesPerUser :: "int option"
  dc_ValidFrom :: time
  dc_ValidUntil :: time
  dc_MinOrderAmount :: "int option"

record CouponRow =
  cp_ID :: uuid
  cp_Usages :: int
  cp_MaxUsages :: "int option"
  cp_ValidFrom :: time
  cp_ValidUntil :: time
  cp_Code :: string
  cp_DiscountID :: uuid

record DiscountUsageRow =
  us_ID :: uuid
  us_DiscountID :: uuid
  us_UserID :: uuid
  us_Usages :: int

datatype discount_err =
    DcDbError
  | NoTargets
  | CategoriesMissing "uuid list"
  | ProductsMissing "uuid list"
  | VariantsMissing "uuid list"
  | DiscountNegative
  | DiscountAboveOne
  | DiscountNotFound uuid
  | DiscountDoesNotExist uuid
  | CodeExists string
  | CodeUnknown string
  | CodeNotValid string
  | CouponNotFound uuid
  | UsageNotFound uuid
  | CouponUsedTooOften
  | DiscountAppliedTooOften
  | VariantsDoNotExist "uuid list"
  | CouponsDoNotExist "uuid list"
  | CouponUnusable uuid
  | CouponsForOneDiscount "uuid list" uuid
  | DcUnauthorized
  | DcNotEmployee uuid
  | FilterNeedsUser
  | DcPublishFailed
  | DcBadEvent

text \<open>What the service announces.\<close>

record DiscountDTO =
  dd_ID :: uuid
  dd_Discount :: f64
  dd_MaxUsagesPerUser :: "int option"
  dd_ValidUntil :: string
  dd_ValidFrom :: string
  dd_MinOrderAmount :: "int option"
  dd_CategoryIds :: "uuid list"
  dd_ProductIds :: "uuid list"
  dd_ProductVariantIds :: "uuid list"

record CouponDTO =
  cd_ID :: uuid
  cd_MaxUsages :: "int option"
  cd_ValidUntil :: string
  cd_ValidFrom :: string
  cd_Code :: string
  cd_DiscountID :: uuid

record ReservedItem =
  ri_ID :: uuid
  ri_CreatedAt :: string
  ri_ProductVariantVersionID :: uuid
  ri_ProductVariantID :: uuid
  ri_TaxRateVersionID :: uuid
  ri_ShoppingCartItemID :: uuid
  ri_Count :: int
  ri_CompensatableAmount :: int
  ri_ShipmentMethodID :: uuid
  ri_DiscountIds :: "uuid list"

record ReservedOrder =
  ro_ID :: uuid
  ro_UserID :: uuid
  ro_CreatedAt :: string
  ro_OrderStatus :: string
  ro_PlacedAt :: string
  ro_RejectionReason :: "string option"
  ro_OrderItems :: "ReservedItem list"
  ro_ShipmentAddressID :: uuid
  ro_InvoiceAddressID :: uuid
  ro_CompensatableOrderAmount :: int
  ro_PaymentInformationID :: uuid
  ro_PaymentAuthorization :: "int option"
  ro_VatNumber :: "string option"

datatype discount_event =
    DiscountCreated DiscountDTO
  | DiscountUpdated DiscountDTO
  | CouponCreated CouponDTO
  | CouponUpdated CouponDTO
  | ValidationSucceeded ReservedOrder
  | ValidationFailed ReservedOrder "uuid list"

record discount_db = "discount_event io" +
  userReplicas :: "uuid list"
  productReplicas :: "uuid list"
  categoryReplicas :: "uuid list"
  variantReplicas :: "(uuid \<times> uuid) list"
  productToCategory :: "(uuid \<times> uuid) list"
  discountTable :: "DiscountRow list"
  couponTable :: "CouponRow list"
  redemptionTable :: "(uuid \<times> uuid) list"
  discountToProduct :: "(uuid \<times> uuid) list"
  discountToCategory :: "(uuid \<times> uuid) list"
  discountToVariant :: "(uuid \<times> uuid) list"
  usageTable :: "DiscountUsageRow list"

type_synonym 'a discount_act = "(discount_db, discount_err, 'a) act"

abbreviation dc_query :: "(discount_db \<Rightarrow> 'a) \<Rightarrow> 'a discount_act" where
  "dc_query f \<equiv> ext DcDbError (gets f)"

abbreviation dc_write :: "(discount_db \<Rightarrow> bool) \<Rightarrow> (discount_db \<Rightarrow> discount_db) \<Rightarrow> unit discount_act" where
  "dc_write \<equiv> pg_insert DcDbError"

abbreviation in_tx :: "'a discount_act \<Rightarrow> 'a discount_act" where
  "in_tx \<equiv> transaction DcDbError DcDbError"

subsection \<open>Ids\<close>

definition dedupe :: "uuid list \<Rightarrow> uuid list" where
  "dedupe ids = first_seen id {} ids"

definition missingIDs :: "(discount_db \<Rightarrow> uuid list) \<Rightarrow> uuid list \<Rightarrow> uuid list discount_act" where
  "missingIDs table ids =
     (if ids = [] then ret []
      else andThen (dc_query (\<lambda>s. filter (\<lambda>i. i \<in> set ids) (table s))) (\<lambda>present.
        ret (filter (\<lambda>i. i \<notin> set present) ids)))"

definition existsByID :: "(discount_db \<Rightarrow> uuid list) \<Rightarrow> uuid \<Rightarrow> bool discount_act" where
  "existsByID table i = dc_query (\<lambda>s. i \<in> set (table s))"

subsection \<open>Single rows\<close>

definition getDiscountTx :: "uuid \<Rightarrow> DiscountRow discount_act" where
  "getDiscountTx i = find_one (DiscountNotFound i) (DiscountNotFound i) discountTable (\<lambda>d. dc_ID d = i)"

definition GetDiscount :: "uuid \<Rightarrow> DiscountRow discount_act" where
  "GetDiscount i = find_one DcDbError (DiscountNotFound i) discountTable (\<lambda>d. dc_ID d = i)"

definition GetCoupon :: "uuid \<Rightarrow> CouponRow discount_act" where
  "GetCoupon i = find_one DcDbError (CouponNotFound i) couponTable (\<lambda>c. cp_ID c = i)"

definition GetDiscountUsage :: "uuid \<Rightarrow> DiscountUsageRow discount_act" where
  "GetDiscountUsage i = find_one DcDbError (UsageNotFound i) usageTable (\<lambda>u. us_ID u = i)"

subsection \<open>Replicas of foreign entities\<close>

definition RegisterUser :: "uuid \<Rightarrow> unit discount_act" where
  "RegisterUser i = insert_one DcDbError DcDbError userReplicas userReplicas_update id i"

definition RegisterCategory :: "uuid \<Rightarrow> unit discount_act" where
  "RegisterCategory i = insert_one DcDbError DcDbError categoryReplicas categoryReplicas_update id i"

definition RegisterProductVariant :: "uuid \<Rightarrow> uuid \<Rightarrow> unit discount_act" where
  "RegisterProductVariant i product = insert_one DcDbError DcDbError variantReplicas variantReplicas_update fst (i, product)"

definition RegisterProduct :: "uuid \<Rightarrow> uuid list \<Rightarrow> unit discount_act" where
  "RegisterProduct i categoryIDs = in_tx
     (andThen (insert_one DcDbError DcDbError productReplicas productReplicas_update id i) (\<lambda>_.
        each (\<lambda>cid. insert_one DcDbError DcDbError productToCategory productToCategory_update id (i, cid)) categoryIDs))"

subsection \<open>Discounts\<close>

record AppliesTo =
  at_CategoryIDs :: "uuid list"
  at_ProductIDs :: "uuid list"
  at_ProductVariantIDs :: "uuid list"

definition ensureEntitiesExist :: "uuid list \<Rightarrow> uuid list \<Rightarrow> uuid list \<Rightarrow> unit discount_act" where
  "ensureEntitiesExist categoryIDs productIDs productVariantIDs =
     andThen (missingIDs categoryReplicas categoryIDs) (\<lambda>missing.
       if missing \<noteq> [] then fail (CategoriesMissing missing)
       else andThen (missingIDs productReplicas productIDs) (\<lambda>missing.
         if missing \<noteq> [] then fail (ProductsMissing missing)
         else andThen (missingIDs (\<lambda>s. map fst (variantReplicas s)) productVariantIDs) (\<lambda>missing.
           if missing \<noteq> [] then fail (VariantsMissing missing) else ret ())))"

text \<open>A join row references the discount and its target, and is unique.\<close>

definition insert_reference ::
  "(discount_db \<Rightarrow> (uuid \<times> uuid) list) \<Rightarrow> (((uuid \<times> uuid) list \<Rightarrow> (uuid \<times> uuid) list) \<Rightarrow> discount_db \<Rightarrow> discount_db) \<Rightarrow>
     (discount_db \<Rightarrow> uuid list) \<Rightarrow> uuid \<Rightarrow> uuid \<Rightarrow> unit discount_act" where
  "insert_reference get upd targets discount i = dc_write
     (\<lambda>s. discount \<in> dc_ID ` set (discountTable s) \<and> i \<in> set (targets s) \<and> (discount, i) \<notin> set (get s))
     (upd (\<lambda>rows. rows @ [(discount, i)]))"

definition addAppliedToReferences :: "uuid \<Rightarrow> uuid list \<Rightarrow> uuid list \<Rightarrow> uuid list \<Rightarrow> unit discount_act" where
  "addAppliedToReferences discount categoryIDs productIDs productVariantIDs =
     andThen (each (insert_reference discountToCategory discountToCategory_update categoryReplicas discount) categoryIDs) (\<lambda>_.
     andThen (each (insert_reference discountToProduct discountToProduct_update productReplicas discount) productIDs) (\<lambda>_.
       each (insert_reference discountToVariant discountToVariant_update (\<lambda>s. map fst (variantReplicas s)) discount)
         productVariantIDs))"

record CreateDiscountParams =
  cdp_Discount :: f64
  cdp_MaxUsagesPerUser :: "int option"
  cdp_MinOrderAmount :: "int option"
  cdp_ValidFrom :: time
  cdp_ValidUntil :: time
  cdp_AppliesTo :: AppliesTo

definition insert_discount :: "CreateDiscountParams \<Rightarrow> uuid discount_act" where
  "insert_discount p = pg_generated DcDbError
     (\<lambda>i s. int4_opt (cdp_MaxUsagesPerUser p) \<and> int4_opt (cdp_MinOrderAmount p) \<and> i \<notin> dc_ID ` set (discountTable s))
     (\<lambda>i. discountTable_update (\<lambda>rows. rows @
        [\<lparr>dc_ID = i, dc_Discount = cdp_Discount p, dc_MaxUsagesPerUser = cdp_MaxUsagesPerUser p,
          dc_ValidFrom = pg_time (cdp_ValidFrom p), dc_ValidUntil = pg_time (cdp_ValidUntil p),
          dc_MinOrderAmount = cdp_MinOrderAmount p\<rparr>]))"

definition CreateDiscountRow :: "CreateDiscountParams \<Rightarrow> (DiscountRow \<times> AppliesTo) discount_act" where
  "CreateDiscountRow p =
     (let categoryIDs = dedupe (at_CategoryIDs (cdp_AppliesTo p));
          productIDs = dedupe (at_ProductIDs (cdp_AppliesTo p));
          productVariantIDs = dedupe (at_ProductVariantIDs (cdp_AppliesTo p))
      in in_tx
        (if categoryIDs = [] \<and> productIDs = [] \<and> productVariantIDs = [] then fail NoTargets
         else andThen (ensureEntitiesExist categoryIDs productIDs productVariantIDs) (\<lambda>_.
           if \<not> f64_ge (cdp_Discount p) (Fin 0 0) then fail DiscountNegative
           else if \<not> f64_ge (Fin 1 0) (cdp_Discount p) then fail DiscountAboveOne
           else andThen (insert_discount p) (\<lambda>i.
             andThen (addAppliedToReferences i categoryIDs productIDs productVariantIDs) (\<lambda>_.
               ret (\<lparr>dc_ID = i, dc_Discount = cdp_Discount p, dc_MaxUsagesPerUser = cdp_MaxUsagesPerUser p,
                 dc_ValidFrom = cdp_ValidFrom p, dc_ValidUntil = cdp_ValidUntil p, dc_MinOrderAmount = cdp_MinOrderAmount p\<rparr>,
                 \<lparr>at_CategoryIDs = categoryIDs, at_ProductIDs = productIDs, at_ProductVariantIDs = productVariantIDs\<rparr>))))))"

text \<open>
  \<open>OptionalInt\<close>: absent is \<open>None\<close>, an explicit null \<open>Some None\<close>.
\<close>

type_synonym OptionalInt = "int option option"

record UpdateDiscountParams =
  udp_ID :: uuid
  udp_MaxUsagesPerUser :: OptionalInt
  udp_MinOrderAmount :: OptionalInt
  udp_ValidFrom :: "time option"
  udp_ValidUntil :: "time option"
  udp_Added :: AppliesTo
  udp_Removed :: AppliesTo

definition patched :: "'a option \<Rightarrow> 'a \<Rightarrow> 'a" where
  "patched p x = (case p of None \<Rightarrow> x | Some y \<Rightarrow> y)"

definition patchDiscount :: "UpdateDiscountParams \<Rightarrow> DiscountRow \<Rightarrow> DiscountRow" where
  "patchDiscount p d = d\<lparr>dc_MaxUsagesPerUser := patched (udp_MaxUsagesPerUser p) (dc_MaxUsagesPerUser d),
     dc_ValidUntil := patched (udp_ValidUntil p) (dc_ValidUntil d),
     dc_ValidFrom := patched (udp_ValidFrom p) (dc_ValidFrom d),
     dc_MinOrderAmount := patched (udp_MinOrderAmount p) (dc_MinOrderAmount d)\<rparr>"

definition remove_reference ::
  "(((uuid \<times> uuid) list \<Rightarrow> (uuid \<times> uuid) list) \<Rightarrow> discount_db \<Rightarrow> discount_db) \<Rightarrow> uuid \<Rightarrow> uuid \<Rightarrow> unit discount_act" where
  "remove_reference upd discount i = ext DcDbError (modify (upd (filter (\<lambda>r. r \<noteq> (discount, i)))))"

definition readAppliesTo :: "uuid \<Rightarrow> AppliesTo discount_act" where
  "readAppliesTo discount =
     andThen (dc_query (\<lambda>s. map snd (filter (\<lambda>r. fst r = discount) (discountToCategory s)))) (\<lambda>cat.
     andThen (dc_query (\<lambda>s. map snd (filter (\<lambda>r. fst r = discount) (discountToProduct s)))) (\<lambda>prod.
     andThen (dc_query (\<lambda>s. map snd (filter (\<lambda>r. fst r = discount) (discountToVariant s)))) (\<lambda>pv.
       ret \<lparr>at_CategoryIDs = cat, at_ProductIDs = prod, at_ProductVariantIDs = pv\<rparr>)))"

text \<open>The columns the update writes; the discount itself is never changed.\<close>

definition save_discount :: "DiscountRow \<Rightarrow> unit discount_act" where
  "save_discount d = dc_write
     (\<lambda>s. int4_opt (dc_MaxUsagesPerUser d) \<and> int4_opt (dc_MinOrderAmount d))
     (discountTable_update (map_all (\<lambda>r. dc_ID r = dc_ID d) (\<lambda>r. r\<lparr>dc_MaxUsagesPerUser := dc_MaxUsagesPerUser d,
        dc_ValidUntil := pg_time (dc_ValidUntil d), dc_ValidFrom := pg_time (dc_ValidFrom d),
        dc_MinOrderAmount := dc_MinOrderAmount d\<rparr>)))"

definition UpdateDiscountRow :: "UpdateDiscountParams \<Rightarrow> (DiscountRow \<times> AppliesTo) discount_act" where
  "UpdateDiscountRow p =
     (let addedCategories = dedupe (at_CategoryIDs (udp_Added p));
          addedProducts = dedupe (at_ProductIDs (udp_Added p));
          addedProductVariants = dedupe (at_ProductVariantIDs (udp_Added p));
          removed = udp_Removed p
      in in_tx
        (andThen (getDiscountTx (udp_ID p)) (\<lambda>d0.
         let d = patchDiscount p d0 in
         andThen (ensureEntitiesExist addedCategories addedProducts addedProductVariants) (\<lambda>_.
         andThen (addAppliedToReferences (udp_ID p) addedCategories addedProducts addedProductVariants) (\<lambda>_.
         andThen (each (remove_reference discountToCategory_update (udp_ID p)) (at_CategoryIDs removed)) (\<lambda>_.
         andThen (each (remove_reference discountToProduct_update (udp_ID p)) (at_ProductIDs removed)) (\<lambda>_.
         andThen (each (remove_reference discountToVariant_update (udp_ID p)) (at_ProductVariantIDs removed)) (\<lambda>_.
         andThen (save_discount d) (\<lambda>_.
         andThen (readAppliesTo (udp_ID p)) (\<lambda>applies.
           ret (d, applies)))))))))))"

subsection \<open>Coupons\<close>

record CreateCouponParams =
  ccp_Code :: string
  ccp_DiscountID :: uuid
  ccp_MaxUsages :: "int option"
  ccp_ValidFrom :: time
  ccp_ValidUntil :: time

definition insert_coupon :: "CreateCouponParams \<Rightarrow> uuid discount_act" where
  "insert_coupon p = pg_generated DcDbError
     (\<lambda>i s. int4_opt (ccp_MaxUsages p) \<and> varchar (ccp_Code p) \<and> i \<notin> cp_ID ` set (couponTable s) \<and>
        ccp_Code p \<notin> cp_Code ` set (couponTable s) \<and> ccp_DiscountID p \<in> dc_ID ` set (discountTable s))
     (\<lambda>i. couponTable_update (\<lambda>rows. rows @
        [\<lparr>cp_ID = i, cp_Usages = 0, cp_MaxUsages = ccp_MaxUsages p, cp_ValidFrom = pg_time (ccp_ValidFrom p),
          cp_ValidUntil = pg_time (ccp_ValidUntil p), cp_Code = ccp_Code p, cp_DiscountID = ccp_DiscountID p\<rparr>]))"

definition CreateCouponRow :: "CreateCouponParams \<Rightarrow> CouponRow discount_act" where
  "CreateCouponRow p = in_tx
     (andThen (existsByID (\<lambda>s. map dc_ID (discountTable s)) (ccp_DiscountID p)) (\<lambda>exists.
        if \<not> exists then fail (DiscountDoesNotExist (ccp_DiscountID p))
        else andThen (dc_query (\<lambda>s. find (\<lambda>c. cp_Code c = ccp_Code p) (couponTable s))) (\<lambda>clash.
          if clash \<noteq> None then fail (CodeExists (ccp_Code p))
          else andThen (insert_coupon p) (\<lambda>i.
            ret \<lparr>cp_ID = i, cp_Usages = 0, cp_MaxUsages = ccp_MaxUsages p, cp_ValidFrom = ccp_ValidFrom p,
              cp_ValidUntil = ccp_ValidUntil p, cp_Code = ccp_Code p, cp_DiscountID = ccp_DiscountID p\<rparr>))))"

record UpdateCouponParams =
  ucp_ID :: uuid
  ucp_Code :: "string option"
  ucp_ValidFrom :: "time option"
  ucp_ValidUntil :: "time option"
  ucp_MaxUsages :: OptionalInt

definition patchCoupon :: "UpdateCouponParams \<Rightarrow> CouponRow \<Rightarrow> CouponRow" where
  "patchCoupon p c = c\<lparr>cp_Code := patched (ucp_Code p) (cp_Code c),
     cp_ValidUntil := patched (ucp_ValidUntil p) (cp_ValidUntil c),
     cp_ValidFrom := patched (ucp_ValidFrom p) (cp_ValidFrom c),
     cp_MaxUsages := patched (ucp_MaxUsages p) (cp_MaxUsages c)\<rparr>"

definition save_coupon :: "CouponRow \<Rightarrow> unit discount_act" where
  "save_coupon c = dc_write
     (\<lambda>s. int4_opt (cp_MaxUsages c) \<and> varchar (cp_Code c) \<and>
        (\<forall>r \<in> set (couponTable s). cp_Code r = cp_Code c \<longrightarrow> cp_ID r = cp_ID c))
     (couponTable_update (map_all (\<lambda>r. cp_ID r = cp_ID c) (\<lambda>r. r\<lparr>cp_Code := cp_Code c,
        cp_ValidUntil := pg_time (cp_ValidUntil c), cp_ValidFrom := pg_time (cp_ValidFrom c),
        cp_MaxUsages := cp_MaxUsages c\<rparr>)))"

definition UpdateCouponRow :: "UpdateCouponParams \<Rightarrow> CouponRow discount_act" where
  "UpdateCouponRow p = in_tx
     (andThen (map_err (\<lambda>_. CouponNotFound (ucp_ID p)) (GetCoupon (ucp_ID p))) (\<lambda>c0.
        let c = patchCoupon p c0 in
        andThen (save_coupon c) (\<lambda>_. ret c)))"

text \<open>
  Inserting a redemption: the trigger reads the coupon's counter, refuses beyond the cap and
  writes the counter back; the row itself is unique and references a known user.
\<close>

definition insert_redemption :: "uuid \<Rightarrow> uuid \<Rightarrow> unit discount_act" where
  "insert_redemption coupon user = ext DcDbError (\<lambda>s.
     case find (\<lambda>c. cp_ID c = coupon) (couponTable s) of
       None \<Rightarrow> (Inl DcDbError, s)
     | Some c \<Rightarrow>
         let n = cp_Usages c + 1
         in if \<not> int4 n then (Inl DcDbError, s)
            else if (case cp_MaxUsages c of None \<Rightarrow> False | Some cap \<Rightarrow> cap < n) then (Inl CouponUsedTooOften, s)
            else if (coupon, user) \<in> set (redemptionTable s) \<or> user \<notin> set (userReplicas s) then (Inl DcDbError, s)
            else (Inr (), s\<lparr>couponTable := map_all (\<lambda>c. cp_ID c = coupon) (\<lambda>c. c\<lparr>cp_Usages := n\<rparr>) (couponTable s),
                    redemptionTable := redemptionTable s @ [(coupon, user)]\<rparr>))"

definition RegisterCouponRow :: "string \<Rightarrow> uuid \<Rightarrow> time \<Rightarrow> CouponRow discount_act" where
  "RegisterCouponRow code user t = in_tx
     (andThen (find_one DcDbError (CodeUnknown code) couponTable (\<lambda>c. cp_Code c = code)) (\<lambda>c.
        if \<not> (cp_ValidFrom c < t \<and> t < cp_ValidUntil c) then fail (CodeNotValid code)
        else andThen (insert_redemption (cp_ID c) user) (\<lambda>_.
          map_err (\<lambda>_. DcDbError) (GetCoupon (cp_ID c)))))"

subsection \<open>Applicability\<close>

definition appliesCondition :: "uuid \<Rightarrow> discount_db \<Rightarrow> DiscountRow \<Rightarrow> bool" where
  "appliesCondition variant s d \<longleftrightarrow>
     (dc_ID d, variant) \<in> set (discountToVariant s) \<or>
     (\<exists>v \<in> set (variantReplicas s). fst v = variant \<and> (dc_ID d, snd v) \<in> set (discountToProduct s)) \<or>
     (\<exists>v \<in> set (variantReplicas s). fst v = variant \<and>
        (\<exists>r \<in> set (discountToCategory s). fst r = dc_ID d \<and> (snd v, snd r) \<in> set (productToCategory s)))"

definition noCouponsCondition :: "discount_db \<Rightarrow> DiscountRow \<Rightarrow> bool" where
  "noCouponsCondition s d \<longleftrightarrow> \<not> (\<exists>c \<in> set (couponTable s). cp_DiscountID c = dc_ID d)"

definition userHasCouponForDiscountCondition :: "uuid \<Rightarrow> discount_db \<Rightarrow> DiscountRow \<Rightarrow> bool" where
  "userHasCouponForDiscountCondition user s d \<longleftrightarrow>
     (\<exists>c \<in> set (couponTable s). cp_DiscountID c = dc_ID d \<and> (cp_ID c, user) \<in> set (redemptionTable s))"

definition userHasCouponFromListCondition :: "uuid list \<Rightarrow> uuid \<Rightarrow> discount_db \<Rightarrow> DiscountRow \<Rightarrow> bool" where
  "userHasCouponFromListCondition coupons user s d \<longleftrightarrow>
     (\<exists>c \<in> set (couponTable s). cp_ID c \<in> set coupons \<and> cp_DiscountID c = dc_ID d \<and> (cp_ID c, user) \<in> set (redemptionTable s))"

text \<open>The bound instant is a timestamp, kept to microseconds as the columns are.\<close>

definition valid_at :: "time \<Rightarrow> DiscountRow \<Rightarrow> bool" where
  "valid_at t d \<longleftrightarrow> dc_ValidFrom d \<le> pg_time t \<and> pg_time t \<le> dc_ValidUntil d"

definition minAmountCondition :: "int \<Rightarrow> DiscountRow \<Rightarrow> bool" where
  "minAmountCondition amount d \<longleftrightarrow> (case dc_MinOrderAmount d of None \<Rightarrow> True | Some m \<Rightarrow> m \<le> amount)"

definition applicable_rows :: "uuid \<Rightarrow> uuid list \<Rightarrow> uuid \<Rightarrow> int \<Rightarrow> time \<Rightarrow> discount_db \<Rightarrow> DiscountRow list" where
  "applicable_rows variant coupons user amount t s = filter (\<lambda>d. appliesCondition variant s d \<and>
     (noCouponsCondition s d \<or> userHasCouponFromListCondition coupons user s d) \<and> valid_at t d \<and>
     minAmountCondition amount d) (discountTable s)"

text \<open>An amount beyond 32 bits cannot be bound.\<close>

definition ApplicableDiscountsForVariant ::
  "uuid \<Rightarrow> uuid list \<Rightarrow> uuid \<Rightarrow> int \<Rightarrow> time \<Rightarrow> DiscountRow list discount_act" where
  "ApplicableDiscountsForVariant variant coupons user amount t = ext DcDbError (\<lambda>s.
     if int4 amount then (Inr (applicable_rows variant coupons user amount t s), s) else (Inl DcDbError, s))"

definition MissingProductVariants :: "uuid list \<Rightarrow> uuid list discount_act" where
  "MissingProductVariants ids = missingIDs (\<lambda>s. map fst (variantReplicas s)) ids"

definition CouponsByIDs :: "uuid list \<Rightarrow> (uuid \<rightharpoonup> CouponRow) discount_act" where
  "CouponsByIDs ids =
     (if ids = [] then ret Map.empty
      else andThen (find_all DcDbError couponTable (\<lambda>c. cp_ID c \<in> set ids)) (\<lambda>coupons.
        ret (map_of (rev (map (\<lambda>c. (cp_ID c, c)) coupons)))))"

definition DiscountsByIDs :: "uuid list \<Rightarrow> DiscountRow list discount_act" where
  "DiscountsByIDs ids =
     (if ids = [] then ret [] else find_all DcDbError discountTable (\<lambda>d. dc_ID d \<in> set ids))"

definition caps :: "DiscountRow list \<Rightarrow> (uuid \<times> int) list" where
  "caps ds = List.map_filter (\<lambda>d. map_option (Pair (dc_ID d)) (dc_MaxUsagesPerUser d)) ds"

definition remaining_of :: "DiscountRow list \<Rightarrow> DiscountUsageRow list \<Rightarrow> uuid \<rightharpoonup> int" where
  "remaining_of ds usages = (\<lambda>i. map_option
     (\<lambda>cap. i64 (cap - (case map_of (rev (map (\<lambda>u. (us_DiscountID u, us_Usages u)) usages)) i of None \<Rightarrow> 0 | Some n \<Rightarrow> n)))
     (map_of (rev (caps ds)) i))"

definition RemainingUsages :: "uuid \<Rightarrow> DiscountRow list \<Rightarrow> (uuid \<rightharpoonup> int) discount_act" where
  "RemainingUsages user ds =
     andThen (if caps ds = [] then ret []
       else find_all DcDbError usageTable (\<lambda>u. us_UserID u = user \<and> us_DiscountID u \<in> fst ` set (caps ds)))
     (\<lambda>usages. ret (remaining_of ds usages))"

subsection \<open>Usages\<close>

definition cap_of :: "uuid \<Rightarrow> discount_db \<Rightarrow> int option" where
  "cap_of discount s = (case find (\<lambda>d. dc_ID d = discount) (discountTable s) of
     None \<Rightarrow> None | Some d \<Rightarrow> dc_MaxUsagesPerUser d)"

definition over_cap :: "uuid \<Rightarrow> int \<Rightarrow> discount_db \<Rightarrow> bool" where
  "over_cap discount n s \<longleftrightarrow> (case cap_of discount s of None \<Rightarrow> False | Some cap \<Rightarrow> cap < n)"

text \<open>
  The trigger runs before the row that is proposed for insertion, conflict or not, and again
  before the update when the usages grow.
\<close>

definition UpsertDiscountUsage :: "uuid \<Rightarrow> uuid \<Rightarrow> int \<Rightarrow> unit discount_act" where
  "UpsertDiscountUsage discount user delta = ext DcDbError (\<lambda>s.
     let i = fresh s (minted s); s1 = s\<lparr>minted := Suc (minted s)\<rparr>
     in if over_cap discount delta s then (Inl DiscountAppliedTooOften, s1)
        else case find (\<lambda>u. us_DiscountID u = discount \<and> us_UserID u = user) (usageTable s) of
          None \<Rightarrow>
            if discount \<in> dc_ID ` set (discountTable s) \<and> user \<in> set (userReplicas s) \<and> i \<notin> us_ID ` set (usageTable s)
            then (Inr (), s1\<lparr>usageTable := usageTable s @
              [\<lparr>us_ID = i, us_DiscountID = discount, us_UserID = user, us_Usages = delta\<rparr>]\<rparr>)
            else (Inl DcDbError, s1)
        | Some u \<Rightarrow>
            let n = us_Usages u + delta
            in if \<not> int8 n then (Inl DcDbError, s1)
               else if us_Usages u < n \<and> over_cap discount n s then (Inl DiscountAppliedTooOften, s1)
               else (Inr (), s1\<lparr>usageTable := map_first (\<lambda>u. us_DiscountID u = discount \<and> us_UserID u = user)
                      (\<lambda>u. u\<lparr>us_Usages := n\<rparr>) (usageTable s)\<rparr>))"

definition RunInTx :: "unit discount_act \<Rightarrow> unit discount_act" where
  "RunInTx fn = in_tx fn"

subsection \<open>Connections\<close>

abbreviation dc_page ::
  "(discount_db \<Rightarrow> 'a list) \<Rightarrow> ('a \<Rightarrow> 'k :: linorder) \<Rightarrow> int option \<Rightarrow> int option \<Rightarrow> bool \<Rightarrow> 'a PgConnection discount_act" where
  "dc_page \<equiv> pgList DcDbError"

text \<open>An order column with the id that breaks its ties; the columns share one direction.\<close>

datatype validity_order = ByID | ByValidFrom | ByValidUntil

fun discount_key :: "validity_order \<Rightarrow> DiscountRow \<Rightarrow> time \<times> uuid" where
  "discount_key ByID d = (0, dc_ID d)"
| "discount_key ByValidFrom d = (dc_ValidFrom d, dc_ID d)"
| "discount_key ByValidUntil d = (dc_ValidUntil d, dc_ID d)"

fun coupon_key :: "validity_order \<Rightarrow> CouponRow \<Rightarrow> time \<times> uuid" where
  "coupon_key ByID c = (0, cp_ID c)"
| "coupon_key ByValidFrom c = (cp_ValidFrom c, cp_ID c)"
| "coupon_key ByValidUntil c = (cp_ValidUntil c, cp_ID c)"

fun usage_key :: "bool \<Rightarrow> DiscountUsageRow \<Rightarrow> int \<times> uuid" where
  "usage_key byUsages u = (if byUsages then us_Usages u else 0, us_ID u)"

definition DiscountsByCategory ::
  "uuid \<Rightarrow> int option \<Rightarrow> int option \<Rightarrow> validity_order \<Rightarrow> bool \<Rightarrow> DiscountRow PgConnection discount_act" where
  "DiscountsByCategory category first skip order asc =
     dc_page (\<lambda>s. filter (\<lambda>d. (dc_ID d, category) \<in> set (discountToCategory s)) (discountTable s)) (discount_key order) first skip asc"

definition DiscountsByProduct ::
  "uuid \<Rightarrow> int option \<Rightarrow> int option \<Rightarrow> validity_order \<Rightarrow> bool \<Rightarrow> DiscountRow PgConnection discount_act" where
  "DiscountsByProduct product first skip order asc =
     dc_page (\<lambda>s. filter (\<lambda>d. (dc_ID d, product) \<in> set (discountToProduct s)) (discountTable s)) (discount_key order) first skip asc"

definition DiscountsByProductVariant ::
  "uuid \<Rightarrow> int option \<Rightarrow> int option \<Rightarrow> validity_order \<Rightarrow> bool \<Rightarrow> DiscountRow PgConnection discount_act" where
  "DiscountsByProductVariant variant first skip order asc =
     dc_page (\<lambda>s. filter (\<lambda>d. (dc_ID d, variant) \<in> set (discountToVariant s)) (discountTable s)) (discount_key order) first skip asc"

record AuthUser =
  au_ID :: uuid
  au_Employee :: bool

definition ApplicableDiscounts ::
  "uuid \<Rightarrow> AuthUser option \<Rightarrow> time \<Rightarrow> int option \<Rightarrow> int option \<Rightarrow> validity_order \<Rightarrow> bool \<Rightarrow>
     DiscountRow PgConnection discount_act" where
  "ApplicableDiscounts variant user t first skip order asc =
     dc_page (\<lambda>s. filter (\<lambda>d. appliesCondition variant s d \<and>
       (case user of None \<Rightarrow> noCouponsCondition s d
        | Some u \<Rightarrow> noCouponsCondition s d \<or> userHasCouponForDiscountCondition (au_ID u) s d) \<and>
       valid_at t d) (discountTable s)) (discount_key order) first skip asc"

definition couponAuthFilter :: "AuthUser option \<Rightarrow> discount_db \<Rightarrow> CouponRow \<Rightarrow> bool" where
  "couponAuthFilter user s c =
     (case user of None \<Rightarrow> False | Some u \<Rightarrow> au_Employee u \<or> (cp_ID c, au_ID u) \<in> set (redemptionTable s))"

text \<open>The filter is the optional user of \<open>userHasCoupon\<close>.\<close>

definition couponConnection ::
  "(discount_db \<Rightarrow> CouponRow \<Rightarrow> bool) \<Rightarrow> uuid option \<Rightarrow> AuthUser option \<Rightarrow> int option \<Rightarrow> int option \<Rightarrow> validity_order \<Rightarrow>
     bool \<Rightarrow> CouponRow PgConnection discount_act" where
  "couponConnection cond userHasCoupon user first skip order asc =
     dc_page (\<lambda>s. filter (\<lambda>c. cond s c \<and>
       (case userHasCoupon of None \<Rightarrow> True | Some u \<Rightarrow> (cp_ID c, u) \<in> set (redemptionTable s)) \<and>
       couponAuthFilter user s c) (couponTable s)) (coupon_key order) first skip asc"

definition CouponsByDiscount ::
  "uuid \<Rightarrow> uuid option \<Rightarrow> AuthUser option \<Rightarrow> int option \<Rightarrow> int option \<Rightarrow> validity_order \<Rightarrow> bool \<Rightarrow>
     CouponRow PgConnection discount_act" where
  "CouponsByDiscount discount = couponConnection (\<lambda>s c. cp_DiscountID c = discount)"

definition CouponsByUser ::
  "uuid \<Rightarrow> uuid option \<Rightarrow> AuthUser option \<Rightarrow> int option \<Rightarrow> int option \<Rightarrow> validity_order \<Rightarrow> bool \<Rightarrow>
     CouponRow PgConnection discount_act" where
  "CouponsByUser user = couponConnection (\<lambda>s c. (cp_ID c, user) \<in> set (redemptionTable s))"

definition CategoriesByDiscount :: "uuid \<Rightarrow> int option \<Rightarrow> int option \<Rightarrow> bool \<Rightarrow> uuid PgConnection discount_act" where
  "CategoriesByDiscount discount first skip asc =
     dc_page (\<lambda>s. filter (\<lambda>i. (discount, i) \<in> set (discountToCategory s)) (categoryReplicas s)) id first skip asc"

definition ProductsByDiscount :: "uuid \<Rightarrow> int option \<Rightarrow> int option \<Rightarrow> bool \<Rightarrow> uuid PgConnection discount_act" where
  "ProductsByDiscount discount first skip asc =
     dc_page (\<lambda>s. filter (\<lambda>i. (discount, i) \<in> set (discountToProduct s)) (productReplicas s)) id first skip asc"

definition ProductVariantsByDiscount ::
  "uuid \<Rightarrow> int option \<Rightarrow> int option \<Rightarrow> bool \<Rightarrow> (uuid \<times> uuid) PgConnection discount_act" where
  "ProductVariantsByDiscount discount first skip asc =
     dc_page (\<lambda>s. filter (\<lambda>v. (discount, fst v) \<in> set (discountToVariant s)) (variantReplicas s)) fst first skip asc"

definition UsersByCoupon :: "uuid \<Rightarrow> int option \<Rightarrow> int option \<Rightarrow> bool \<Rightarrow> uuid PgConnection discount_act" where
  "UsersByCoupon coupon first skip asc =
     dc_page (\<lambda>s. filter (\<lambda>u. (coupon, u) \<in> set (redemptionTable s)) (userReplicas s)) id first skip asc"

definition DiscountUsagesByDiscount ::
  "uuid \<Rightarrow> int option \<Rightarrow> int option \<Rightarrow> bool \<Rightarrow> bool \<Rightarrow> DiscountUsageRow PgConnection discount_act" where
  "DiscountUsagesByDiscount discount first skip byUsages asc =
     dc_page (\<lambda>s. filter (\<lambda>u. us_DiscountID u = discount) (usageTable s)) (usage_key byUsages) first skip asc"

definition DiscountUsagesByUser ::
  "uuid \<Rightarrow> int option \<Rightarrow> int option \<Rightarrow> bool \<Rightarrow> bool \<Rightarrow> DiscountUsageRow PgConnection discount_act" where
  "DiscountUsagesByUser user first skip byUsages asc =
     dc_page (\<lambda>s. filter (\<lambda>u. us_UserID u = user) (usageTable s)) (usage_key byUsages) first skip asc"

end
