(* ===== verification/Discount.thy ===== *)
theory Discount
  imports Discount_Store
begin

text \<open>
  The discount service's events and its two sagas: \<open>findApplicableDiscounts\<close>, which the order
  service calls while an order is created, and \<open>validateOrder\<close>, which runs on every
  reservation-succeeded event and charges the order's discounts to the user.
\<close>

subsection \<open>Events\<close>

definition FormatTimestamp :: "time \<Rightarrow> string" where
  "FormatTimestamp t = MarshalDateTime t"

definition discountEvent :: "DiscountRow \<Rightarrow> AppliesTo \<Rightarrow> DiscountDTO" where
  "discountEvent d applies = \<lparr>dd_ID = dc_ID d, dd_Discount = dc_Discount d, dd_MaxUsagesPerUser = dc_MaxUsagesPerUser d,
     dd_ValidUntil = FormatTimestamp (dc_ValidUntil d), dd_ValidFrom = FormatTimestamp (dc_ValidFrom d),
     dd_MinOrderAmount = dc_MinOrderAmount d, dd_CategoryIds = at_CategoryIDs applies, dd_ProductIds = at_ProductIDs applies,
     dd_ProductVariantIds = at_ProductVariantIDs applies\<rparr>"

definition couponEvent :: "CouponRow \<Rightarrow> CouponDTO" where
  "couponEvent c = \<lparr>cd_ID = cp_ID c, cd_MaxUsages = cp_MaxUsages c, cd_ValidUntil = FormatTimestamp (cp_ValidUntil c),
     cd_ValidFrom = FormatTimestamp (cp_ValidFrom c), cd_Code = cp_Code c, cd_DiscountID = cp_DiscountID c\<rparr>"

abbreviation dc_publish :: "discount_event \<Rightarrow> unit discount_act" where
  "dc_publish \<equiv> emit DcPublishFailed"

definition PublishDiscountCreated :: "DiscountDTO \<Rightarrow> unit discount_act" where
  "PublishDiscountCreated e = dc_publish (DiscountCreated e)"

definition PublishDiscountUpdated :: "DiscountDTO \<Rightarrow> unit discount_act" where
  "PublishDiscountUpdated e = dc_publish (DiscountUpdated e)"

definition PublishCouponCreated :: "CouponDTO \<Rightarrow> unit discount_act" where
  "PublishCouponCreated e = dc_publish (CouponCreated e)"

definition PublishCouponUpdated :: "CouponDTO \<Rightarrow> unit discount_act" where
  "PublishCouponUpdated e = dc_publish (CouponUpdated e)"

definition PublishValidationSucceeded :: "ReservedOrder \<Rightarrow> unit discount_act" where
  "PublishValidationSucceeded order = dc_publish (ValidationSucceeded order)"

definition PublishValidationFailed :: "ReservedOrder \<Rightarrow> uuid list \<Rightarrow> unit discount_act" where
  "PublishValidationFailed order failing = dc_publish (ValidationFailed order failing)"

subsection \<open>Finding applicable discounts\<close>

record VariantInput =
  vi_ProductVariantID :: uuid
  vi_Count :: int
  vi_CouponIds :: "uuid list"

record FindInput =
  fi_UserID :: uuid
  fi_OrderAmount :: int
  fi_ProductVariants :: "VariantInput list"

record DiscountsForVariant =
  dv_ProductVariantID :: uuid
  dv_Count :: int
  dv_Discounts :: "DiscountRow list"

definition uniqueUUIDs :: "uuid list \<Rightarrow> uuid list" where
  "uniqueUUIDs ids = first_seen id {} ids"

definition mapProductVariantIDs :: "VariantInput list \<Rightarrow> uuid list" where
  "mapProductVariantIDs pvs = map vi_ProductVariantID pvs"

definition flattenCouponIDs :: "VariantInput list \<Rightarrow> uuid list" where
  "flattenCouponIDs pvs = concat (map vi_CouponIds pvs)"

definition dedupeDiscountsByID :: "DiscountRow list list \<Rightarrow> DiscountRow list" where
  "dedupeDiscountsByID perVariant = first_seen dc_ID {} (concat perVariant)"

text \<open>The budget is decremented for every kept discount it tracks.\<close>

definition usable_now :: "(uuid \<rightharpoonup> int) \<Rightarrow> int \<Rightarrow> DiscountRow \<Rightarrow> bool" where
  "usable_now remaining n d \<longleftrightarrow> (case remaining (dc_ID d) of None \<Rightarrow> True | Some rem \<Rightarrow> n \<le> rem)"

fun spend :: "int \<Rightarrow> DiscountRow list \<Rightarrow> (uuid \<rightharpoonup> int) \<Rightarrow> (uuid \<rightharpoonup> int)" where
  "spend n [] remaining = remaining"
| "spend n (d # ds) remaining = spend n ds
     (case remaining (dc_ID d) of None \<Rightarrow> remaining | Some rem \<Rightarrow> remaining(dc_ID d \<mapsto> i64 (rem - n)))"

text \<open>A coupon that is not in the map reads as the zero \<open>Coupon\<close>, whose discount is the zero id.\<close>

definition coupon_discount :: "(uuid \<rightharpoonup> CouponRow) \<Rightarrow> uuid \<Rightarrow> uuid" where
  "coupon_discount coupons i = (case coupons i of None \<Rightarrow> UUID 0 | Some c \<Rightarrow> cp_DiscountID c)"

fun first_unusable :: "(uuid \<rightharpoonup> CouponRow) \<Rightarrow> uuid set \<Rightarrow> uuid list \<Rightarrow> uuid option" where
  "first_unusable coupons kept [] = None"
| "first_unusable coupons kept (c # cs) =
     (if coupon_discount coupons c \<notin> kept then Some c else first_unusable coupons kept cs)"

fun first_shared :: "(uuid \<Rightarrow> uuid list) \<Rightarrow> uuid list \<Rightarrow> (uuid list \<times> uuid) option" where
  "first_shared couponsOf [] = None"
| "first_shared couponsOf (d # ds) = (if 1 < length (couponsOf d) then Some (couponsOf d, d) else first_shared couponsOf ds)"

definition filterApplicableDiscounts ::
  "DiscountRow list \<Rightarrow> (uuid \<rightharpoonup> int) \<Rightarrow> VariantInput \<Rightarrow> (uuid \<rightharpoonup> CouponRow) \<Rightarrow>
     (discount_err + DiscountsForVariant) \<times> (uuid \<rightharpoonup> int)" where
  "filterApplicableDiscounts discounts remaining pv coupons =
     (let usable = filter (usable_now remaining (vi_Count pv)) discounts;
          remaining' = spend (vi_Count pv) usable remaining;
          discountOf = coupon_discount coupons
      in (case first_unusable coupons (dc_ID ` set usable) (vi_CouponIds pv) of
            Some c \<Rightarrow> Inl (CouponUnusable c)
          | None \<Rightarrow>
              (case first_shared (\<lambda>d. filter (\<lambda>c. discountOf c = d) (vi_CouponIds pv))
                 (first_seen id {} (map discountOf (vi_CouponIds pv))) of
                 Some (ids, d) \<Rightarrow> Inl (CouponsForOneDiscount ids d)
               | None \<Rightarrow> Inr \<lparr>dv_ProductVariantID = vi_ProductVariantID pv, dv_Count = vi_Count pv, dv_Discounts = usable\<rparr>),
          remaining'))"

text \<open>Step 5: the budget is threaded through the variants in input order.\<close>

fun filter_all ::
  "(DiscountRow list \<times> VariantInput) list \<Rightarrow> (uuid \<rightharpoonup> int) \<Rightarrow> (uuid \<rightharpoonup> CouponRow) \<Rightarrow>
     discount_err + DiscountsForVariant list" where
  "filter_all [] remaining coupons = Inr []"
| "filter_all ((ds, pv) # rest) remaining coupons =
     (case filterApplicableDiscounts ds remaining pv coupons of
        (Inl e, _) \<Rightarrow> Inl e
      | (Inr r, remaining') \<Rightarrow>
          (case filter_all rest remaining' coupons of Inl e \<Rightarrow> Inl e | Inr rs \<Rightarrow> Inr (r # rs)))"

text \<open>\<open>perVariant[i], err = f(pv)\<close> for each input in order.\<close>

fun collect :: "('x \<Rightarrow> 'a discount_act) \<Rightarrow> 'x list \<Rightarrow> 'a list discount_act" where
  "collect f [] = ret []"
| "collect f (x # xs) = andThen (f x) (\<lambda>y. andThen (collect f xs) (\<lambda>ys. ret (y # ys)))"

definition findApplicableDiscounts :: "FindInput \<Rightarrow> DiscountsForVariant list discount_act" where
  "findApplicableDiscounts input =
     andThen (MissingProductVariants (uniqueUUIDs (mapProductVariantIDs (fi_ProductVariants input)))) (\<lambda>missing.
       if missing \<noteq> [] then fail (VariantsDoNotExist missing)
       else
     andThen now (\<lambda>t.
     andThen (collect (\<lambda>pv. ApplicableDiscountsForVariant (vi_ProductVariantID pv) (uniqueUUIDs (vi_CouponIds pv))
        (fi_UserID input) (fi_OrderAmount input) t) (fi_ProductVariants input)) (\<lambda>perVariant.
     andThen (RemainingUsages (fi_UserID input) (dedupeDiscountsByID perVariant)) (\<lambda>remaining.
     let couponIDs = uniqueUUIDs (flattenCouponIDs (fi_ProductVariants input)) in
     andThen (CouponsByIDs couponIDs) (\<lambda>couponsByID.
     let missingCoupons = filter (\<lambda>i. couponsByID i = None) couponIDs in
       if missingCoupons \<noteq> [] then fail (CouponsDoNotExist missingCoupons)
       else (case filter_all (zip perVariant (fi_ProductVariants input)) remaining couponsByID of
         Inl e \<Rightarrow> fail e
       | Inr result \<Rightarrow> ret result))))))"

subsection \<open>Validating an order\<close>

text \<open>The totals of each discount, in first-encounter order.\<close>

fun add_totals :: "int \<Rightarrow> uuid list \<Rightarrow> (uuid \<times> int) list \<Rightarrow> (uuid \<times> int) list" where
  "add_totals n [] totals = totals"
| "add_totals n (d # ds) totals = add_totals n ds
     (case map_of totals d of
        None \<Rightarrow> totals @ [(d, n)]
      | Some m \<Rightarrow> AList.update d (i64 (m + n)) totals)"

fun group_totals :: "ReservedItem list \<Rightarrow> (uuid \<times> int) list \<Rightarrow> (uuid \<times> int) list" where
  "group_totals [] totals = totals"
| "group_totals (it # items) totals = group_totals items (add_totals (ri_Count it) (ri_DiscountIds it) totals)"

definition validateOrderInternal :: "ReservedOrder \<Rightarrow> unit discount_act" where
  "validateOrderInternal order =
     (let totals = group_totals (ro_OrderItems order) []
      in andThen (DiscountsByIDs (map fst totals)) (\<lambda>discounts.
         andThen (RemainingUsages (ro_UserID order) discounts) (\<lambda>remaining.
           let failed = map fst (filter (\<lambda>(d, total). case remaining d of None \<Rightarrow> False | Some limit \<Rightarrow> limit < total) totals)
           in if failed \<noteq> [] then PublishValidationFailed order failed
              else RunInTx
                (andThen (each (\<lambda>(d, total). UpsertDiscountUsage d (ro_UserID order) total) totals) (\<lambda>_.
                   PublishValidationSucceeded order)))))"

definition validateOrder :: "ReservedOrder \<Rightarrow> unit discount_act" where
  "validateOrder order =
     andThen (attempt (validateOrderInternal order)) (\<lambda>r.
       case r of
         Inr _ \<Rightarrow> ret ()
       | Inl e \<Rightarrow> andThen (attempt (PublishValidationFailed order [])) (\<lambda>_. fail e))"

definition HandleReservationSucceeded :: "ReservedOrder option \<Rightarrow> unit discount_act" where
  "HandleReservationSucceeded data = (case data of None \<Rightarrow> fail DcBadEvent | Some order \<Rightarrow> validateOrder order)"

subsection \<open>Subscriptions\<close>

definition onUserCreated :: "uuid option \<Rightarrow> unit discount_act" where
  "onUserCreated data = (case data of None \<Rightarrow> fail DcBadEvent | Some i \<Rightarrow> RegisterUser i)"

definition onProductCreated :: "(uuid \<times> uuid list) option \<Rightarrow> unit discount_act" where
  "onProductCreated data = (case data of None \<Rightarrow> fail DcBadEvent | Some (i, categories) \<Rightarrow> RegisterProduct i categories)"

definition onCategoryCreated :: "uuid option \<Rightarrow> unit discount_act" where
  "onCategoryCreated data = (case data of None \<Rightarrow> fail DcBadEvent | Some i \<Rightarrow> RegisterCategory i)"

definition onProductVariantCreated :: "(uuid \<times> uuid) option \<Rightarrow> unit discount_act" where
  "onProductVariantCreated data = (case data of None \<Rightarrow> fail DcBadEvent | Some (i, product) \<Rightarrow> RegisterProductVariant i product)"

end
