(* ===== verification/Discount_Graph.thy ===== *)
theory Discount_Graph
  imports Discount
begin

text \<open>
  \<open>discount/graph\<close>: role checks with the messages of the service, the GraphQL models, the
  mutations with their events, the field resolvers and the entity lookups. An omitted and a null
  argument differ only where the schema's \<open>Omittable\<close> keeps them apart.
\<close>

subsection \<open>Authorization\<close>

definition requireEmployee :: "ctx \<Rightarrow> unit discount_act" where
  "requireEmployee c =
     (case FromContext c of
        None \<Rightarrow> fail DcUnauthorized
      | Some u \<Rightarrow> if \<not> IsEmployeeOrAdmin (Some u) then fail (DcNotEmployee (user_ID u)) else ret ())"

definition requireSelfOrEmployee_dc :: "ctx \<Rightarrow> uuid \<Rightarrow> unit discount_act" where
  "requireSelfOrEmployee_dc c owner =
     (case FromContext c of
        None \<Rightarrow> fail DcUnauthorized
      | Some u \<Rightarrow>
          if user_ID u = owner then ret ()
          else if \<not> IsEmployeeOrAdmin (Some u) then fail (DcNotEmployee (user_ID u)) else ret ())"

definition authUser :: "ctx \<Rightarrow> AuthUser option" where
  "authUser c = (case FromContext c of None \<Rightarrow> None
     | Some u \<Rightarrow> Some \<lparr>au_ID = user_ID u, au_Employee = IsEmployeeOrAdmin (Some u)\<rparr>)"

text \<open>The filter is \<open>None\<close> when absent; its \<open>userHasCoupon\<close> when omitted or null.\<close>

definition applyCouponFilterAuth :: "ctx \<Rightarrow> uuid option option \<Rightarrow> unit discount_act" where
  "applyCouponFilterAuth c filter' =
     (case filter' of
        None \<Rightarrow> ret ()
      | Some None \<Rightarrow> ret ()
      | Some (Some owner) \<Rightarrow>
          (case FromContext c of
             None \<Rightarrow> fail FilterNeedsUser
           | Some u \<Rightarrow>
               if owner \<noteq> user_ID u \<and> \<not> IsEmployeeOrAdmin (Some u) then fail (DcNotEmployee (user_ID u)) else ret ()))"

definition couponFilter :: "uuid option option \<Rightarrow> uuid option" where
  "couponFilter filter' = (case filter' of None \<Rightarrow> None | Some u \<Rightarrow> u)"

subsection \<open>Models\<close>

record GDiscount =
  gd_ID :: uuid
  gd_Discount :: f64
  gd_MaxUsagesPerUser :: "int option"
  gd_MinOrderAmount :: "int option"
  gd_ValidFrom :: time
  gd_ValidUntil :: time

record GCoupon =
  gc_ID :: uuid
  gc_Code :: string
  gc_ValidFrom :: time
  gc_ValidUntil :: time
  gc_UsagesValue :: int
  gc_MaxUsagesValue :: "int option"
  gc_DiscountID :: uuid

record GDiscountUsage =
  gu_ID :: uuid
  gu_Usages :: int
  gu_DiscountID :: uuid
  gu_UserID :: uuid

definition toDiscount :: "DiscountRow \<Rightarrow> GDiscount" where
  "toDiscount d = \<lparr>gd_ID = dc_ID d, gd_Discount = dc_Discount d, gd_MaxUsagesPerUser = dc_MaxUsagesPerUser d,
     gd_MinOrderAmount = dc_MinOrderAmount d, gd_ValidFrom = dc_ValidFrom d, gd_ValidUntil = dc_ValidUntil d\<rparr>"

definition toCoupon :: "CouponRow \<Rightarrow> GCoupon" where
  "toCoupon c = \<lparr>gc_ID = cp_ID c, gc_Code = cp_Code c, gc_ValidFrom = cp_ValidFrom c, gc_ValidUntil = cp_ValidUntil c,
     gc_UsagesValue = cp_Usages c, gc_MaxUsagesValue = cp_MaxUsages c, gc_DiscountID = cp_DiscountID c\<rparr>"

definition toDiscountUsage :: "DiscountUsageRow \<Rightarrow> GDiscountUsage" where
  "toDiscountUsage u = \<lparr>gu_ID = us_ID u, gu_Usages = us_Usages u, gu_DiscountID = us_DiscountID u, gu_UserID = us_UserID u\<rparr>"

definition toDiscountConnection :: "DiscountRow PgConnection \<Rightarrow> GDiscount PgConnection" where
  "toDiscountConnection c = map_connection toDiscount c"

definition toCouponConnection :: "CouponRow PgConnection \<Rightarrow> GCoupon PgConnection" where
  "toCouponConnection c = map_connection toCoupon c"

definition toDiscountUsageConnection :: "DiscountUsageRow PgConnection \<Rightarrow> GDiscountUsage PgConnection" where
  "toDiscountUsageConnection c = map_connection toDiscountUsage c"

text \<open>A variant's node keeps only its id.\<close>

definition toProductVariantConnection :: "(uuid \<times> uuid) PgConnection \<Rightarrow> uuid PgConnection" where
  "toProductVariantConnection c = map_connection fst c"

subsection \<open>Orders\<close>

definition dc_ascending :: "OrderDirectionD option \<Rightarrow> bool" where
  "dc_ascending d \<longleftrightarrow> d = None \<or> d \<noteq> Some DirDesc"

record 'f OrderInput =
  ord_Direction :: "OrderDirectionD option"
  ord_Field :: "'f option"

definition commonOrder :: "unit OrderInput option \<Rightarrow> bool" where
  "commonOrder ord = (case ord of None \<Rightarrow> True | Some i \<Rightarrow> dc_ascending (ord_Direction i))"

definition couponOrder :: "validity_order OrderInput option \<Rightarrow> validity_order \<times> bool" where
  "couponOrder ord = (case ord of
     None \<Rightarrow> (ByID, True)
   | Some i \<Rightarrow> (case ord_Field i of None \<Rightarrow> ByID | Some f \<Rightarrow> f, dc_ascending (ord_Direction i)))"

definition discountOrder :: "validity_order OrderInput option \<Rightarrow> validity_order \<times> bool" where
  "discountOrder ord = (case ord of
     None \<Rightarrow> (ByID, True)
   | Some i \<Rightarrow> (case ord_Field i of None \<Rightarrow> ByID | Some f \<Rightarrow> f, dc_ascending (ord_Direction i)))"

text \<open>The field says whether usages come first.\<close>

definition discountUsageOrder :: "bool OrderInput option \<Rightarrow> bool \<times> bool" where
  "discountUsageOrder ord = (case ord of
     None \<Rightarrow> (False, True)
   | Some i \<Rightarrow> (ord_Field i = Some True, dc_ascending (ord_Direction i)))"

subsection \<open>Mutations\<close>

record CreateCouponInputD =
  ccin_Code :: string
  ccin_DiscountID :: uuid
  ccin_MaxUsages :: int
  ccin_ValidFrom :: time
  ccin_ValidUntil :: time

definition CreateCoupon :: "ctx \<Rightarrow> CreateCouponInputD \<Rightarrow> GCoupon discount_act" where
  "CreateCoupon c input =
     andThen (requireEmployee c) (\<lambda>_.
     andThen (CreateCouponRow \<lparr>ccp_Code = ccin_Code input, ccp_DiscountID = ccin_DiscountID input,
         ccp_MaxUsages = Some (ccin_MaxUsages input), ccp_ValidFrom = ccin_ValidFrom input,
         ccp_ValidUntil = ccin_ValidUntil input\<rparr>) (\<lambda>coupon.
     andThen (PublishCouponCreated (couponEvent coupon)) (\<lambda>_.
       ret (toCoupon coupon))))"

record CreateDiscountInputD =
  cdin_Discount :: f64
  cdin_MaxUsagesPerUser :: int
  cdin_MinOrderAmount :: "int option"
  cdin_ValidFrom :: time
  cdin_ValidUntil :: time
  cdin_CategoryIds :: "uuid list"
  cdin_ProductIds :: "uuid list"
  cdin_ProductVariantIds :: "uuid list"

definition CreateDiscount :: "ctx \<Rightarrow> CreateDiscountInputD \<Rightarrow> GDiscount discount_act" where
  "CreateDiscount c input =
     andThen (requireEmployee c) (\<lambda>_.
     andThen (CreateDiscountRow \<lparr>cdp_Discount = cdin_Discount input,
         cdp_MaxUsagesPerUser = Some (cdin_MaxUsagesPerUser input), cdp_MinOrderAmount = cdin_MinOrderAmount input,
         cdp_ValidFrom = cdin_ValidFrom input, cdp_ValidUntil = cdin_ValidUntil input,
         cdp_AppliesTo = \<lparr>at_CategoryIDs = cdin_CategoryIds input, at_ProductIDs = cdin_ProductIds input,
           at_ProductVariantIDs = cdin_ProductVariantIds input\<rparr>\<rparr>) (\<lambda>(discount, applies).
     andThen (PublishDiscountCreated (discountEvent discount applies)) (\<lambda>_.
       ret (toDiscount discount))))"

definition RegisterCoupon :: "ctx \<Rightarrow> uuid \<Rightarrow> string \<Rightarrow> GCoupon discount_act" where
  "RegisterCoupon c user code =
     andThen (requireSelfOrEmployee_dc c user) (\<lambda>_.
     andThen now (\<lambda>t.
     andThen (RegisterCouponRow code user t) (\<lambda>coupon.
       ret (toCoupon coupon))))"

definition UpdateCoupon :: "ctx \<Rightarrow> UpdateCouponParams \<Rightarrow> GCoupon discount_act" where
  "UpdateCoupon c input =
     andThen (requireEmployee c) (\<lambda>_.
     andThen (UpdateCouponRow input) (\<lambda>coupon.
     andThen (PublishCouponUpdated (couponEvent coupon)) (\<lambda>_.
       ret (toCoupon coupon))))"

definition UpdateDiscount :: "ctx \<Rightarrow> UpdateDiscountParams \<Rightarrow> GDiscount discount_act" where
  "UpdateDiscount c input =
     andThen (requireEmployee c) (\<lambda>_.
     andThen (UpdateDiscountRow input) (\<lambda>(discount, applies).
     andThen (PublishDiscountUpdated (discountEvent discount applies)) (\<lambda>_.
       ret (toDiscount discount))))"

subsection \<open>Queries and fields\<close>

definition Query_Coupon :: "ctx \<Rightarrow> uuid \<Rightarrow> GCoupon discount_act" where
  "Query_Coupon c i = andThen (requireEmployee c) (\<lambda>_. andThen (GetCoupon i) (\<lambda>r. ret (toCoupon r)))"

definition Query_Discount :: "ctx \<Rightarrow> uuid \<Rightarrow> GDiscount discount_act" where
  "Query_Discount c i = andThen (requireEmployee c) (\<lambda>_. andThen (GetDiscount i) (\<lambda>r. ret (toDiscount r)))"

definition Query_FindApplicableDiscounts :: "FindInput \<Rightarrow> DiscountsForVariant list discount_act" where
  "Query_FindApplicableDiscounts input = findApplicableDiscounts input"

definition Coupon_Discount :: "GCoupon \<Rightarrow> GDiscount discount_act" where
  "Coupon_Discount obj = andThen (GetDiscount (gc_DiscountID obj)) (\<lambda>d. ret (toDiscount d))"

definition Coupon_MaxUsages :: "ctx \<Rightarrow> GCoupon \<Rightarrow> int option discount_act" where
  "Coupon_MaxUsages c obj = andThen (requireEmployee c) (\<lambda>_. ret (gc_MaxUsagesValue obj))"

definition Coupon_Usages :: "ctx \<Rightarrow> GCoupon \<Rightarrow> int discount_act" where
  "Coupon_Usages c obj = andThen (requireEmployee c) (\<lambda>_. ret (gc_UsagesValue obj))"

definition Coupon_Users :: "ctx \<Rightarrow> GCoupon \<Rightarrow> int option \<Rightarrow> unit OrderInput option \<Rightarrow> int option \<Rightarrow> uuid PgConnection discount_act" where
  "Coupon_Users c obj first orderBy skip = andThen (requireEmployee c) (\<lambda>_.
     UsersByCoupon (gc_ID obj) first skip (commonOrder orderBy))"

definition Discount_Categories ::
  "ctx \<Rightarrow> GDiscount \<Rightarrow> int option \<Rightarrow> unit OrderInput option \<Rightarrow> int option \<Rightarrow> uuid PgConnection discount_act" where
  "Discount_Categories c obj first orderBy skip = andThen (requireEmployee c) (\<lambda>_.
     CategoriesByDiscount (gd_ID obj) first skip (commonOrder orderBy))"

definition Discount_ProductVariants ::
  "ctx \<Rightarrow> GDiscount \<Rightarrow> int option \<Rightarrow> unit OrderInput option \<Rightarrow> int option \<Rightarrow> uuid PgConnection discount_act" where
  "Discount_ProductVariants c obj first orderBy skip = andThen (requireEmployee c) (\<lambda>_.
     andThen (ProductVariantsByDiscount (gd_ID obj) first skip (commonOrder orderBy)) (\<lambda>conn.
       ret (toProductVariantConnection conn)))"

definition Discount_Products ::
  "ctx \<Rightarrow> GDiscount \<Rightarrow> int option \<Rightarrow> unit OrderInput option \<Rightarrow> int option \<Rightarrow> uuid PgConnection discount_act" where
  "Discount_Products c obj first orderBy skip = andThen (requireEmployee c) (\<lambda>_.
     ProductsByDiscount (gd_ID obj) first skip (commonOrder orderBy))"

definition Discount_RequiresCoupon ::
  "ctx \<Rightarrow> GDiscount \<Rightarrow> uuid option option \<Rightarrow> int option \<Rightarrow> validity_order OrderInput option \<Rightarrow> int option \<Rightarrow>
     GCoupon PgConnection discount_act" where
  "Discount_RequiresCoupon c obj filter' first orderBy skip = andThen (applyCouponFilterAuth c filter') (\<lambda>_.
     let (order, asc) = couponOrder orderBy in
     andThen (CouponsByDiscount (gd_ID obj) (couponFilter filter') (authUser c) first skip order asc) (\<lambda>conn.
       ret (toCouponConnection conn)))"

definition Discount_Usages ::
  "ctx \<Rightarrow> GDiscount \<Rightarrow> int option \<Rightarrow> bool OrderInput option \<Rightarrow> int option \<Rightarrow> GDiscountUsage PgConnection discount_act" where
  "Discount_Usages c obj first orderBy skip = andThen (requireEmployee c) (\<lambda>_.
     let (byUsages, asc) = discountUsageOrder orderBy in
     andThen (DiscountUsagesByDiscount (gd_ID obj) first skip byUsages asc) (\<lambda>conn. ret (toDiscountUsageConnection conn)))"

definition DiscountUsage_Discount :: "GDiscountUsage \<Rightarrow> GDiscount discount_act" where
  "DiscountUsage_Discount obj = andThen (GetDiscount (gu_DiscountID obj)) (\<lambda>d. ret (toDiscount d))"

definition DiscountUsage_User :: "GDiscountUsage \<Rightarrow> uuid" where
  "DiscountUsage_User obj = gu_UserID obj"

text \<open>Discounts of a category, a product or a variant: one resolver on each entity.\<close>

definition discounts_field ::
  "(int option \<Rightarrow> int option \<Rightarrow> validity_order \<Rightarrow> bool \<Rightarrow> DiscountRow PgConnection discount_act) \<Rightarrow> ctx \<Rightarrow>
     int option \<Rightarrow> validity_order OrderInput option \<Rightarrow> int option \<Rightarrow> GDiscount PgConnection discount_act" where
  "discounts_field list c first orderBy skip = andThen (requireEmployee c) (\<lambda>_.
     let (order, asc) = discountOrder orderBy in
     andThen (list first skip order asc) (\<lambda>conn. ret (toDiscountConnection conn)))"

definition Category_Discounts ::
  "uuid \<Rightarrow> ctx \<Rightarrow> int option \<Rightarrow> validity_order OrderInput option \<Rightarrow> int option \<Rightarrow> GDiscount PgConnection discount_act" where
  "Category_Discounts i = discounts_field (DiscountsByCategory i)"

definition Product_Discounts ::
  "uuid \<Rightarrow> ctx \<Rightarrow> int option \<Rightarrow> validity_order OrderInput option \<Rightarrow> int option \<Rightarrow> GDiscount PgConnection discount_act" where
  "Product_Discounts i = discounts_field (DiscountsByProduct i)"

definition ProductVariant_Discounts ::
  "uuid \<Rightarrow> ctx \<Rightarrow> int option \<Rightarrow> validity_order OrderInput option \<Rightarrow> int option \<Rightarrow> GDiscount PgConnection discount_act" where
  "ProductVariant_Discounts i = discounts_field (DiscountsByProductVariant i)"

definition ProductVariant_ApplicableDiscounts ::
  "ctx \<Rightarrow> uuid \<Rightarrow> int option \<Rightarrow> validity_order OrderInput option \<Rightarrow> int option \<Rightarrow> GDiscount PgConnection discount_act" where
  "ProductVariant_ApplicableDiscounts c i first orderBy skip =
     (let (order, asc) = discountOrder orderBy in
      andThen now (\<lambda>t. andThen (ApplicableDiscounts i (authUser c) t first skip order asc) (\<lambda>conn.
        ret (toDiscountConnection conn))))"

definition User_Coupons ::
  "ctx \<Rightarrow> uuid \<Rightarrow> uuid option option \<Rightarrow> int option \<Rightarrow> validity_order OrderInput option \<Rightarrow> int option \<Rightarrow>
     GCoupon PgConnection discount_act" where
  "User_Coupons c user filter' first orderBy skip =
     andThen (requireSelfOrEmployee_dc c user) (\<lambda>_.
     andThen (applyCouponFilterAuth c filter') (\<lambda>_.
     let (order, asc) = couponOrder orderBy in
     andThen (CouponsByUser user (couponFilter filter') (authUser c) first skip order asc) (\<lambda>conn.
       ret (toCouponConnection conn))))"

definition User_DiscountUsages ::
  "ctx \<Rightarrow> uuid \<Rightarrow> int option \<Rightarrow> bool OrderInput option \<Rightarrow> int option \<Rightarrow> GDiscountUsage PgConnection discount_act" where
  "User_DiscountUsages c user first orderBy skip = andThen (requireEmployee c) (\<lambda>_.
     let (byUsages, asc) = discountUsageOrder orderBy in
     andThen (DiscountUsagesByUser user first skip byUsages asc) (\<lambda>conn. ret (toDiscountUsageConnection conn)))"

subsection \<open>Entities\<close>

definition Entity_Coupon :: "uuid \<Rightarrow> GCoupon discount_act" where
  "Entity_Coupon i = andThen (GetCoupon i) (\<lambda>c. ret (toCoupon c))"

definition Entity_Discount :: "uuid \<Rightarrow> GDiscount discount_act" where
  "Entity_Discount i = andThen (GetDiscount i) (\<lambda>d. ret (toDiscount d))"

definition Entity_DiscountUsage :: "uuid \<Rightarrow> GDiscountUsage discount_act" where
  "Entity_DiscountUsage i = andThen (GetDiscountUsage i) (\<lambda>u. ret (toDiscountUsage u))"

end
