(* ===== verification/Discount_Lists.thy ===== *)
theory Discount_Lists
  imports Discount_Graph
begin

text \<open>
  Facts about the pure parts of the two sagas: the budget a user has left, what filtering the
  variants keeps of it, and the totals an order asks for.
\<close>

subsection \<open>Reading a query into a map\<close>

lemma find_map_of_key: "map_of (map (\<lambda>x. (key x, val x)) xs) i = map_option val (find (\<lambda>x. key x = i) xs)"
  by (induction xs) auto

lemma map_of_rev_distinct: "distinct (map fst kvs) \<Longrightarrow> map_of (rev kvs) = map_of kvs"
  by (simp add: map_of_inject_set rev_map [symmetric])

lemma find_filter: "find P (filter Q xs) = find (\<lambda>x. Q x \<and> P x) xs"
  by (induction xs) auto

lemma find_distinct_key:
  "distinct (map key xs) \<Longrightarrow> x \<in> set xs \<Longrightarrow> find (\<lambda>y. key y = key x) xs = Some x"
  by (induction xs) (auto simp: rev_image_eqI)

lemma map_of_query:
  assumes "distinct (map key xs)"
  shows "map_of (rev (map (\<lambda>x. (key x, val x)) xs)) i = map_option val (find (\<lambda>x. key x = i) xs)"
  using assms by (simp add: map_of_rev_distinct find_map_of_key comp_def)

subsection \<open>What a user has left\<close>

definition used :: "discount_db \<Rightarrow> uuid \<Rightarrow> uuid \<Rightarrow> int" where
  "used s user d = (case find (\<lambda>u. us_DiscountID u = d \<and> us_UserID u = user) (usageTable s) of
     None \<Rightarrow> 0 | Some u \<Rightarrow> us_Usages u)"

text \<open>The tables as the constraints keep them, and usages that are neither negative nor astronomic.\<close>

definition discount_tables :: "discount_db \<Rightarrow> bool" where
  "discount_tables s \<longleftrightarrow> distinct (map dc_ID (discountTable s)) \<and> distinct (map cp_ID (couponTable s)) \<and>
     distinct (map (\<lambda>u. (us_DiscountID u, us_UserID u)) (usageTable s)) \<and>
     (\<forall>d \<in> set (discountTable s). int4_opt (dc_MaxUsagesPerUser d)) \<and>
     (\<forall>u \<in> set (usageTable s). 0 \<le> us_Usages u \<and> us_Usages u < 2 ^ 62)"

lemma used_range: "discount_tables s \<Longrightarrow> 0 \<le> used s user d \<and> used s user d < 2 ^ 62"
proof (cases "find (\<lambda>u. us_DiscountID u = d \<and> us_UserID u = user) (usageTable s)")
  case (Some u)
  moreover assume "discount_tables s"
  ultimately show ?thesis using find_Some_in [OF Some] by (simp add: used_def discount_tables_def)
qed (simp add: used_def)

lemma cap_range: "discount_tables s \<Longrightarrow> d \<in> set (discountTable s) \<Longrightarrow> dc_MaxUsagesPerUser d = Some m \<Longrightarrow> m < 2 ^ 31 \<and> - (2 ^ 31) \<le> m"
  by (auto simp: discount_tables_def int4_opt_def int4_def)

lemma caps_Cons: "caps (d # ds) = (case dc_MaxUsagesPerUser d of None \<Rightarrow> [] | Some m \<Rightarrow> [(dc_ID d, m)]) @ caps ds"
  by (simp add: caps_def map_filter_simps split: option.split)

lemma caps_keys: "fst ` set (caps ds) \<subseteq> dc_ID ` set ds"
  by (induction ds) (auto simp: caps_Cons caps_def map_filter_simps split: option.splits)

lemma caps_distinct: "distinct (map dc_ID ds) \<Longrightarrow> distinct (map fst (caps ds))"
proof (induction ds)
  case (Cons d ds)
  then show ?case using caps_keys [of ds] by (auto simp: caps_Cons split: option.split)
qed (simp add: caps_def map_filter_simps)

lemma map_of_caps: "distinct (map dc_ID ds) \<Longrightarrow> d \<in> set ds \<Longrightarrow> map_of (caps ds) (dc_ID d) = dc_MaxUsagesPerUser d"
proof (induction ds)
  case (Cons x ds)
  have "map_of (caps ds) (dc_ID x) = None"
    using caps_keys [of ds] Cons.prems(1) by (auto simp: map_of_eq_None_iff)
  moreover have "dc_ID d \<noteq> dc_ID x \<and> d \<in> set ds \<or> d = x" using Cons.prems by (auto simp: rev_image_eqI)
  ultimately show ?case using Cons by (auto simp: caps_Cons map_add_def split: option.split)
qed simp

lemma remaining_of_used:
  assumes "discount_tables s" "distinct (map dc_ID ds)" "set ds \<subseteq> set (discountTable s)" "d \<in> set ds"
  shows "remaining_of ds (filter (\<lambda>u. us_UserID u = user \<and> us_DiscountID u \<in> fst ` set (caps ds)) (usageTable s)) (dc_ID d) =
    map_option (\<lambda>m. m - used s user (dc_ID d)) (dc_MaxUsagesPerUser d)"
proof (cases "dc_MaxUsagesPerUser d")
  case None
  then show ?thesis
    using assms by (simp add: remaining_of_def map_of_rev_distinct caps_distinct map_of_caps)
next
  case (Some m)
  let ?us = "filter (\<lambda>u. us_UserID u = user \<and> us_DiscountID u \<in> fst ` set (caps ds)) (usageTable s)"
  have "distinct (map us_DiscountID ?us)"
    using assms(1) by (force simp: discount_tables_def distinct_map inj_on_def)
  moreover have key: "dc_ID d \<in> fst ` set (caps ds)"
    using map_of_caps [OF assms(2,4)] Some by (force dest: map_of_SomeD)
  have "find (\<lambda>u. us_DiscountID u = dc_ID d) ?us = find (\<lambda>u. us_DiscountID u = dc_ID d \<and> us_UserID u = user) (usageTable s)"
    unfolding find_filter using key by (intro arg_cong2 [of _ _ _ _ find] ext refl) (metis (no_types))
  ultimately have "(case map_of (rev (map (\<lambda>u. (us_DiscountID u, us_Usages u)) ?us)) (dc_ID d) of None \<Rightarrow> 0 | Some n \<Rightarrow> n) =
      used s user (dc_ID d)"
    by (simp add: map_of_query used_def split: option.split)
  moreover have "i64 (m - used s user (dc_ID d)) = m - used s user (dc_ID d)"
    using used_range [OF assms(1), of user "dc_ID d"] cap_range [OF assms(1), of d m] assms(3,4) Some
    by (intro i64_id) (auto simp: subset_iff)
  ultimately show ?thesis
    using Some assms by (simp add: remaining_of_def map_of_rev_distinct caps_distinct map_of_caps)
qed

subsection \<open>Filtering the variants in order\<close>

text \<open>What the results so far take of a discount's budget, and whether another count still fits.\<close>

definition spent :: "DiscountsForVariant list \<Rightarrow> DiscountRow \<Rightarrow> int" where
  "spent rs d = (\<Sum>r \<leftarrow> rs. if d \<in> set (dv_Discounts r) then dv_Count r else 0)"

definition fits :: "discount_db \<Rightarrow> uuid \<Rightarrow> DiscountsForVariant list \<Rightarrow> int \<Rightarrow> DiscountRow \<Rightarrow> bool" where
  "fits s user rs n d \<longleftrightarrow> (case dc_MaxUsagesPerUser d of None \<Rightarrow> True
     | Some m \<Rightarrow> used s user (dc_ID d) + spent rs d + n \<le> m)"

text \<open>The budget map during the loop.\<close>

definition tracks :: "discount_db \<Rightarrow> uuid \<Rightarrow> DiscountRow set \<Rightarrow> (uuid \<rightharpoonup> int) \<Rightarrow> DiscountsForVariant list \<Rightarrow> bool" where
  "tracks s user D rem rs \<longleftrightarrow> (\<forall>d \<in> D. 0 \<le> spent rs d \<and>
     rem (dc_ID d) = map_option (\<lambda>m. m - used s user (dc_ID d) - spent rs d) (dc_MaxUsagesPerUser d))"

lemma spent_Nil [simp]: "spent [] d = 0"
  by (simp add: spent_def)

lemma spent_snoc: "spent (rs @ [r]) d = spent rs d + (if d \<in> set (dv_Discounts r) then dv_Count r else 0)"
  by (simp add: spent_def)

lemma spend_outside: "i \<notin> dc_ID ` set ds \<Longrightarrow> spend n ds rem i = rem i"
  by (induction n ds rem rule: spend.induct) (auto split: option.split)

lemma spend_inside:
  "distinct (map dc_ID ds) \<Longrightarrow> d \<in> set ds \<Longrightarrow> spend n ds rem (dc_ID d) = map_option (\<lambda>x. i64 (x - n)) (rem (dc_ID d))"
proof (induction n ds rem rule: spend.induct)
  case (2 n x ds rem)
  show ?case
  proof (cases "d = x")
    case True
    with 2 show ?thesis by (auto simp: spend_outside split: option.split)
  next
    case False
    with 2 have "dc_ID d \<noteq> dc_ID x" "d \<in> set ds" by (auto simp: image_iff)
    with 2 show ?thesis by (auto split: option.split)
  qed
qed simp

lemma first_unusable_None: "first_unusable coupons kept cs = None \<longleftrightarrow> (\<forall>c \<in> set cs. coupon_discount coupons c \<in> kept)"
  by (induction cs) auto

lemma first_shared_None: "first_shared f ds = None \<longleftrightarrow> (\<forall>d \<in> set ds. length (f d) \<le> 1)"
  by (induction ds) auto

lemma filter_le_1_distinct:
  "(\<forall>d \<in> f ` set cs. length (filter (\<lambda>c. f c = d) cs) \<le> 1) \<Longrightarrow> distinct (map f cs)"
proof (induction cs)
  case (Cons c cs)
  have "filter (\<lambda>x. f x = f c) cs = []" using Cons.prems by simp
  then have "f c \<notin> f ` set cs" by (auto simp: filter_empty_conv)
  moreover have "\<forall>d \<in> f ` set cs. length (filter (\<lambda>x. f x = d) cs) \<le> 1"
    using Cons.prems by (force split: if_splits)
  ultimately show ?case using Cons.IH by simp
qed simp

text \<open>One variant: what is kept, what its coupons are for, and the budget afterwards.\<close>

lemma filter_one:
  assumes "filterApplicableDiscounts ds rem pv coupons = (Inr r, rem')" "tracks s user D rem rs"
    and "discount_tables s" "D \<subseteq> set (discountTable s)" "set ds \<subseteq> D" "distinct (map dc_ID ds)" "0 \<le> vi_Count pv"
  shows "dv_ProductVariantID r = vi_ProductVariantID pv \<and> dv_Count r = vi_Count pv \<and>
    dv_Discounts r = filter (fits s user rs (vi_Count pv)) ds \<and> tracks s user D rem' (rs @ [r]) \<and>
    distinct (map (coupon_discount coupons) (vi_CouponIds pv)) \<and>
    (\<forall>c \<in> set (vi_CouponIds pv). coupon_discount coupons c \<in> dc_ID ` set (dv_Discounts r))"
proof -
  let ?n = "vi_Count pv" and ?usable = "filter (usable_now rem (vi_Count pv)) ds"
  have r: "r = \<lparr>dv_ProductVariantID = vi_ProductVariantID pv, dv_Count = ?n, dv_Discounts = ?usable\<rparr>"
      and rem': "rem' = spend ?n ?usable rem"
      and unusable: "first_unusable coupons (dc_ID ` set ?usable) (vi_CouponIds pv) = None"
      and shared: "first_shared (\<lambda>d. filter (\<lambda>c. coupon_discount coupons c = d) (vi_CouponIds pv))
        (first_seen id {} (map (coupon_discount coupons) (vi_CouponIds pv))) = None"
    using assms(1) by (auto simp: filterApplicableDiscounts_def Let_def split: option.splits)
  have now: "usable_now rem ?n d \<longleftrightarrow> fits s user rs ?n d" if "d \<in> D" for d
    using assms(2) that by (auto simp: tracks_def usable_now_def fits_def split: option.split)
  then have kept: "?usable = filter (fits s user rs ?n) ds"
    using assms(5) by (intro filter_cong) auto
  have "tracks s user D rem' (rs @ [r])"
    unfolding tracks_def
  proof (intro ballI conjI)
    fix d assume d: "d \<in> D"
    show "0 \<le> spent (rs @ [r]) d" using assms(2,7) d by (simp add: spent_snoc tracks_def r)
    show "rem' (dc_ID d) = map_option (\<lambda>m. m - used s user (dc_ID d) - spent (rs @ [r]) d) (dc_MaxUsagesPerUser d)"
    proof (cases "d \<in> set ?usable")
      case True
      have dist: "distinct (map dc_ID ?usable)" using assms(6) by (rule distinct_map_filter)
      have "i64 (m - used s user (dc_ID d) - spent rs d - ?n) = m - used s user (dc_ID d) - spent rs d - ?n"
        if "dc_MaxUsagesPerUser d = Some m" for m
      proof -
        have "0 \<le> m - used s user (dc_ID d) - spent rs d - ?n"
          using True that unfolding kept by (simp add: fits_def)
        moreover have "0 \<le> used s user (dc_ID d)" "0 \<le> spent rs d"
          using used_range [OF assms(3)] assms(2) d by (auto simp: tracks_def)
        moreover have "m < 2 ^ 31" using cap_range [OF assms(3) _ that] d assms(4) by blast
        ultimately show ?thesis using assms(7) by (intro i64_id) simp_all
      qed
      moreover have "d \<in> set (dv_Discounts r)" "dv_Count r = ?n" using True by (simp_all add: r)
      ultimately show ?thesis
        using assms(2) d spend_inside [OF dist True, of ?n rem]
        by (cases "dc_MaxUsagesPerUser d") (simp_all add: rem' tracks_def spent_snoc algebra_simps)
    next
      case False
      have "dc_ID d \<notin> dc_ID ` set ?usable"
      proof
        assume "dc_ID d \<in> dc_ID ` set ?usable"
        then obtain x where x: "x \<in> set ?usable" "dc_ID x = dc_ID d" by auto
        then have "x \<in> set (discountTable s)" "d \<in> set (discountTable s)" using assms(4,5) d by auto
        then have "x = d" using x(2) assms(3) by (auto simp: discount_tables_def distinct_map inj_on_def)
        then show False using x(1) False by blast
      qed
      moreover have "d \<notin> set (dv_Discounts r)" using False by (simp add: r)
      ultimately show ?thesis using assms(2) d by (simp add: rem' spend_outside tracks_def spent_snoc)
    qed
  qed
  moreover have "distinct (map (coupon_discount coupons) (vi_CouponIds pv))"
    using shared by (intro filter_le_1_distinct) (simp add: first_shared_None)
  moreover have "\<forall>c \<in> set (vi_CouponIds pv). coupon_discount coupons c \<in> dc_ID ` set (dv_Discounts r)"
    using unusable by (simp add: first_unusable_None r)
  ultimately show ?thesis using kept by (simp add: r)
qed

text \<open>The discounts of a variant, given what the variants before it took.\<close>

definition chosen ::
  "discount_db \<Rightarrow> uuid \<Rightarrow> (uuid \<rightharpoonup> CouponRow) \<Rightarrow> DiscountsForVariant list \<Rightarrow> DiscountRow list \<Rightarrow> VariantInput \<Rightarrow>
     DiscountsForVariant \<Rightarrow> bool" where
  "chosen s user coupons before ds pv r \<longleftrightarrow>
     dv_ProductVariantID r = vi_ProductVariantID pv \<and> dv_Count r = vi_Count pv \<and>
     dv_Discounts r = filter (fits s user before (vi_Count pv)) ds \<and>
     distinct (map (coupon_discount coupons) (vi_CouponIds pv)) \<and>
     (\<forall>c \<in> set (vi_CouponIds pv). coupon_discount coupons c \<in> dc_ID ` set (dv_Discounts r))"

lemma filter_all_chosen:
  assumes "filter_all (zip dss pvs) rem coupons = Inr rs" "length dss = length pvs" "tracks s user D rem before"
    and "discount_tables s" "D \<subseteq> set (discountTable s)" "\<forall>ds \<in> set dss. set ds \<subseteq> D \<and> distinct (map dc_ID ds)"
    and "\<forall>pv \<in> set pvs. 0 \<le> vi_Count pv"
  shows "length rs = length pvs \<and> (\<forall>k < length rs. chosen s user coupons (before @ take k rs) (dss ! k) (pvs ! k) (rs ! k))"
  using assms(2,1,3,6,7)
proof (induction dss pvs arbitrary: rem before rs rule: list_induct2)
  case (Cons ds dss pv pvs)
  obtain r rem' rs' where one: "filterApplicableDiscounts ds rem pv coupons = (Inr r, rem')"
      and rest: "filter_all (zip dss pvs) rem' coupons = Inr rs'" "rs = r # rs'"
    using Cons.prems(1) by (auto split: prod.splits sum.splits)
  have f: "chosen s user coupons before ds pv r" "tracks s user D rem' (before @ [r])"
    using filter_one [OF one Cons.prems(2) assms(4,5)] Cons.prems(3,4) by (auto simp: chosen_def)
  have "length rs' = length pvs \<and>
      (\<forall>k < length rs'. chosen s user coupons ((before @ [r]) @ take k rs') (dss ! k) (pvs ! k) (rs' ! k))"
    using Cons.IH [OF rest(1) f(2)] Cons.prems(3,4) by simp
  then show ?case using f(1) rest(2) by (auto simp: less_Suc_eq_0_disj)
qed simp

text \<open>Fitting at each step keeps the sum within the cap.\<close>

lemma chosen_spent:
  assumes "\<forall>k < length rs. chosen s user coupons (take k rs) (dss ! k) (pvs ! k) (rs ! k)"
    and "dc_MaxUsagesPerUser d = Some m"
  shows "spent rs d = 0 \<or> used s user (dc_ID d) + spent rs d \<le> m"
  using assms(1)
proof (induction rs rule: rev_induct)
  case (snoc r rs)
  have "\<forall>k < length rs. chosen s user coupons (take k rs) (dss ! k) (pvs ! k) (rs ! k)"
  proof (intro allI impI)
    fix k assume "k < length rs"
    then show "chosen s user coupons (take k rs) (dss ! k) (pvs ! k) (rs ! k)"
      using snoc.prems [rule_format, of k] by (simp add: nth_append)
  qed
  moreover have "chosen s user coupons rs (dss ! length rs) (pvs ! length rs) r"
    using snoc.prems [rule_format, of "length rs"] by simp
  then have "d \<in> set (dv_Discounts r) \<Longrightarrow> used s user (dc_ID d) + spent rs d + dv_Count r \<le> m"
    using assms(2) by (auto simp: chosen_def fits_def)
  ultimately show ?case using snoc.IH by (auto simp: spent_snoc)
qed simp

subsection \<open>What an order asks for\<close>

text \<open>Every use of a discount by an item, with the item's count, in the order of the loops.\<close>

definition asked :: "ReservedItem list \<Rightarrow> (uuid \<times> int) list" where
  "asked items = concat (map (\<lambda>it. map (\<lambda>d. (d, ri_Count it)) (ri_DiscountIds it)) items)"

definition asked_total :: "(uuid \<times> int) list \<Rightarrow> uuid \<Rightarrow> int" where
  "asked_total ps d = (\<Sum>p \<leftarrow> ps. if fst p = d then snd p else 0)"

definition asked_discounts :: "ReservedItem list \<Rightarrow> uuid list" where
  "asked_discounts items = first_seen id {} (map fst (asked items))"

lemma first_seen_snoc:
  "first_seen id seen (xs @ [x]) = first_seen id seen xs @ (if x \<in> seen \<union> set xs then [] else [x])"
  by (induction xs arbitrary: seen) auto

lemma map_of_graph: "map_of (map (\<lambda>x. (x, f x)) xs) k = (if k \<in> set xs then Some (f k) else None)"
  by (induction xs) auto

lemma update_graph:
  "distinct xs \<Longrightarrow> k \<in> set xs \<Longrightarrow> AList.update k v (map (\<lambda>x. (x, f x)) xs) = map (\<lambda>x. (x, if x = k then v else f x)) xs"
  by (induction xs) auto

lemma total_snoc: "asked_total (ps @ [(d, n)]) e = asked_total ps e + (if e = d then n else 0)"
  by (simp add: asked_total_def)

lemma total_bounds:
  "\<forall>p \<in> set ps. 0 \<le> snd p \<Longrightarrow> 0 \<le> asked_total ps d \<and> asked_total ps d \<le> (\<Sum>p \<leftarrow> ps. snd p)"
  by (induction ps) (auto simp: asked_total_def)

lemma total_none: "d \<notin> fst ` set ps \<Longrightarrow> asked_total ps d = 0"
  by (induction ps) (auto simp: asked_total_def)

definition tallied :: "(uuid \<times> int) list \<Rightarrow> (uuid \<times> int) list" where
  "tallied ps = map (\<lambda>d. (d, asked_total ps d)) (first_seen id {} (map fst ps))"

lemma totals_step:
  assumes "\<forall>p \<in> set ps. 0 \<le> snd p" "0 \<le> n" "(\<Sum>p \<leftarrow> ps. snd p) + n < 2 ^ 62"
  shows "(case map_of (tallied ps) d of None \<Rightarrow> tallied ps @ [(d, n)] | Some m \<Rightarrow> AList.update d (i64 (m + n)) (tallied ps)) =
    tallied (ps @ [(d, n)])"
proof (cases "d \<in> fst ` set ps")
  case True
  have "i64 (asked_total ps d + n) = asked_total ps d + n"
    using total_bounds [OF assms(1), of d] assms(2,3) by (intro i64_id) auto
  then show ?thesis
    using True by (auto simp: tallied_def map_of_graph first_seen_snoc update_graph total_snoc)
next
  case False
  have "asked_total (ps @ [(d, n)]) e = asked_total ps e" if "e \<in> fst ` set ps" for e
    using that False by (auto simp: total_snoc)
  then show ?thesis using False by (simp add: tallied_def map_of_graph first_seen_snoc total_snoc total_none)
qed

lemma add_totals_asked:
  assumes "\<forall>p \<in> set ps. 0 \<le> snd p" "0 \<le> n" "(\<Sum>p \<leftarrow> ps @ map (\<lambda>d. (d, n)) ds. snd p) < 2 ^ 62"
  shows "add_totals n ds (tallied ps) = tallied (ps @ map (\<lambda>d. (d, n)) ds)"
  using assms
proof (induction ds arbitrary: ps)
  case (Cons d ds)
  have "0 \<le> (\<Sum>p \<leftarrow> map (\<lambda>d. (d, n)) ds. snd p)"
    using Cons.prems(2) by (induction ds) auto
  then have "(\<Sum>p \<leftarrow> ps. snd p) + n < 2 ^ 62" using Cons.prems(3) by simp
  then have "add_totals n (d # ds) (tallied ps) = add_totals n ds (tallied (ps @ [(d, n)]))"
    using totals_step [OF Cons.prems(1,2)] by simp
  then show ?case using Cons.IH [of "ps @ [(d, n)]"] Cons.prems by auto
qed simp

lemma group_totals_asked:
  assumes "\<forall>p \<in> set ps. 0 \<le> snd p" "\<forall>it \<in> set items. 0 \<le> ri_Count it"
    and "(\<Sum>p \<leftarrow> ps @ asked items. snd p) < 2 ^ 62"
  shows "group_totals items (tallied ps) = tallied (ps @ asked items)"
  using assms
proof (induction items arbitrary: ps)
  case (Cons it items)
  let ?ps = "ps @ map (\<lambda>d. (d, ri_Count it)) (ri_DiscountIds it)"
  have split: "ps @ asked (it # items) = ?ps @ asked items" by (simp add: asked_def)
  have "0 \<le> (\<Sum>p \<leftarrow> asked items. snd p)"
    using Cons.prems(2) by (intro sum_list_nonneg) (auto simp: asked_def)
  then have "(\<Sum>p \<leftarrow> ?ps. snd p) < 2 ^ 62" using Cons.prems(3) unfolding split by simp
  then have "group_totals (it # items) (tallied ps) = group_totals items (tallied ?ps)"
    using add_totals_asked [of ps "ri_Count it" "ri_DiscountIds it"] Cons.prems(1,2) by simp
  moreover have "\<forall>p \<in> set ?ps. 0 \<le> snd p" using Cons.prems(1,2) by auto
  ultimately show ?case using Cons.IH [of ?ps] Cons.prems(2,3) unfolding split by simp
qed (simp add: asked_def)

text \<open>An order whose counts are in range: none negative, and their sum far from 64 bits.\<close>

definition order_counts_ok :: "ReservedOrder \<Rightarrow> bool" where
  "order_counts_ok order \<longleftrightarrow> (\<forall>it \<in> set (ro_OrderItems order). 0 \<le> ri_Count it) \<and>
     (\<Sum>p \<leftarrow> asked (ro_OrderItems order). snd p) < 2 ^ 62"

definition order_total :: "ReservedOrder \<Rightarrow> uuid \<Rightarrow> int" where
  "order_total order = asked_total (asked (ro_OrderItems order))"

lemma group_totals_order:
  assumes "order_counts_ok order"
  shows "group_totals (ro_OrderItems order) [] = map (\<lambda>d. (d, order_total order d)) (asked_discounts (ro_OrderItems order))"
  using group_totals_asked [of "[]" "ro_OrderItems order"] assms
  by (simp add: order_counts_ok_def order_total_def asked_discounts_def tallied_def)

lemma order_total_range:
  assumes "order_counts_ok order"
  shows "0 \<le> order_total order d \<and> order_total order d < 2 ^ 62"
proof -
  have "\<forall>p \<in> set (asked (ro_OrderItems order)). 0 \<le> snd p"
    using assms by (auto simp: order_counts_ok_def asked_def)
  from total_bounds [OF this, of d] show ?thesis using assms by (simp add: order_counts_ok_def order_total_def)
qed

lemma distinct_asked [simp]: "distinct (asked_discounts items)"
  by (simp add: asked_discounts_def)

lemma order_total_none: "d \<notin> set (asked_discounts (ro_OrderItems order)) \<Longrightarrow> order_total order d = 0"
  by (simp add: asked_discounts_def order_total_def total_none)

subsection \<open>The ledger\<close>

text \<open>
  The service in one sentence: it keeps, per user and discount, how often the discount was used,
  and validating an order either charges all its discounts or, when caps are exceeded, reports which.
\<close>

type_synonym ledger = "uuid \<Rightarrow> uuid \<Rightarrow> int"

datatype verdict = Charged | Overdrawn "uuid list"

definition charge :: "(uuid \<rightharpoonup> int) \<Rightarrow> ReservedOrder \<Rightarrow> ledger \<Rightarrow> verdict \<times> ledger" where
  "charge cap order L =
     (let user = ro_UserID order;
          over = filter (\<lambda>d. \<exists>m. cap d = Some m \<and> m < L user d + order_total order d) (asked_discounts (ro_OrderItems order))
      in if over \<noteq> [] then (Overdrawn over, L)
         else (Charged, L(user := (\<lambda>d. L user d + order_total order d))))"

definition announce :: "ReservedOrder \<Rightarrow> verdict \<Rightarrow> discount_event" where
  "announce order v = (case v of Charged \<Rightarrow> ValidationSucceeded order | Overdrawn ds \<Rightarrow> ValidationFailed order ds)"

end
