(* ===== verification/Discount_Claims.thy ===== *)
theory Discount_Claims
  imports Discount_Lists
begin

text \<open>
  The properties of the discount service: the budget of a user over the variants of an order, the
  ledger of usages that validating orders keeps, the counters of coupons, and what a redelivered
  reservation does.
\<close>

subsection \<open>Reads\<close>

text \<open>What a successful read returns, and that it leaves all but the script alone.\<close>

lemma dc_query_run:
  assumes "dc_query f s = (Inr x, s')" "\<And>t fs. f (t\<lparr>faults := fs\<rparr>) = f t"
  shows "x = f s \<and> (\<exists>fs. s' = s\<lparr>faults := fs\<rparr>)"
  using ext_gets_run [OF assms(1)] assms(2) by auto

lemma missingIDs_run:
  assumes "missingIDs table ids s = (Inr xs, s')" "\<And>t fs. table (t\<lparr>faults := fs\<rparr>) = table t"
  shows "xs = filter (\<lambda>i. i \<notin> set (table s)) ids \<and> (\<exists>fs. s' = s\<lparr>faults := fs\<rparr>)"
proof (cases "ids = []")
  case True
  then show ?thesis using assms(1) by (auto simp: missingIDs_def run_ret intro: exI [of _ "faults s"])
next
  case False
  then obtain present s1 where q: "dc_query (\<lambda>s. filter (\<lambda>i. i \<in> set ids) (table s)) s = (Inr present, s1)"
      and xs: "xs = filter (\<lambda>i. i \<notin> set present) ids" "s' = s1"
    using assms(1) by (auto simp: missingIDs_def run_ret elim!: andThen_InrE)
  have "present = filter (\<lambda>i. i \<in> set ids) (table s)" "\<exists>fs. s1 = s\<lparr>faults := fs\<rparr>"
    using dc_query_run [OF q] assms(2) by auto
  moreover have "filter (\<lambda>i. i \<notin> set (filter (\<lambda>i. i \<in> set ids) ts)) ids = filter (\<lambda>i. i \<notin> set ts) ids" for ts
    by (rule filter_cong) auto
  ultimately show ?thesis using xs by auto
qed

lemma table_io [simp]:
  "discountTable (s\<lparr>faults := fs\<rparr>) = discountTable s" "usageTable (s\<lparr>faults := fs\<rparr>) = usageTable s"
  "couponTable (s\<lparr>faults := fs\<rparr>) = couponTable s" "variantReplicas (s\<lparr>faults := fs\<rparr>) = variantReplicas s"
  by simp_all

lemma applicable_rows_io [simp]:
  "applicable_rows v cs u a t (s\<lparr>faults := fs\<rparr>) = applicable_rows v cs u a t s"
  "applicable_rows v cs u a t (s\<lparr>reads := n\<rparr>) = applicable_rows v cs u a t s"
  by (simp_all add: applicable_rows_def appliesCondition_def noCouponsCondition_def userHasCouponFromListCondition_def)

lemma applicable_run:
  assumes "ApplicableDiscountsForVariant v cs u a t s = (Inr ds, s')"
  shows "ds = applicable_rows v cs u a t s \<and> (\<exists>fs. s' = s\<lparr>faults := fs\<rparr>)"
  using assms unfolding ApplicableDiscountsForVariant_def
  by (cases rule: ext_cases [of DcDbError "\<lambda>s. if int4 a then (Inr (applicable_rows v cs u a t s), s) else (Inl DcDbError, s)" s])
    (auto split: if_splits)

lemma collect_run:
  assumes "\<And>x y t t'. f x t = (Inr y, t') \<Longrightarrow> y = g x t \<and> (\<exists>fs. t' = t\<lparr>faults := fs\<rparr>)"
    and "\<And>x t fs. g x (t\<lparr>faults := fs\<rparr>) = g x t" and "collect f xs s = (Inr ys, s')"
  shows "ys = map (\<lambda>x. g x s) xs \<and> (\<exists>fs. s' = s\<lparr>faults := fs\<rparr>)"
  using assms(3)
proof (induction xs arbitrary: s ys)
  case Nil
  then show ?case by (auto simp: run_ret intro: exI [of _ "faults s"])
next
  case (Cons x xs)
  then obtain y s1 zs where y: "f x s = (Inr y, s1)" and zs: "collect f xs s1 = (Inr zs, s')" "ys = y # zs"
    by (auto simp: run_ret elim!: andThen_InrE)
  show ?case using assms(1) [OF y] Cons.IH [OF zs(1)] zs(2) assms(2) by auto
qed

lemma RemainingUsages_run:
  assumes "RemainingUsages user ds s = (Inr rem, s')"
  shows "rem = remaining_of ds (filter (\<lambda>u. us_UserID u = user \<and> us_DiscountID u \<in> fst ` set (caps ds)) (usageTable s)) \<and>
    (\<exists>fs. s' = s\<lparr>faults := fs\<rparr>)"
proof -
  obtain us s1 where us: "(if caps ds = [] then ret []
      else find_all DcDbError usageTable (\<lambda>u. us_UserID u = user \<and> us_DiscountID u \<in> fst ` set (caps ds))) s = (Inr us, s1)"
      and rem: "rem = remaining_of ds us" "s' = s1"
    using assms unfolding RemainingUsages_def by (elim andThen_InrE) (simp add: run_ret)
  have "us = filter (\<lambda>u. us_UserID u = user \<and> us_DiscountID u \<in> fst ` set (caps ds)) (usageTable s) \<and> (\<exists>fs. s1 = s\<lparr>faults := fs\<rparr>)"
  proof (cases "caps ds = []")
    case True
    then show ?thesis using us by (auto simp: run_ret intro: exI [of _ "faults s"])
  next
    case False
    then show ?thesis using us find_all_run [where get = usageTable] by fastforce
  qed
  then show ?thesis using rem by auto
qed

lemma CouponsByIDs_run:
  assumes "CouponsByIDs ids s = (Inr m, s')" "distinct (map cp_ID (couponTable s))"
  shows "(\<forall>i \<in> set ids. m i = find (\<lambda>c. cp_ID c = i) (couponTable s)) \<and> (\<exists>fs. s' = s\<lparr>faults := fs\<rparr>)"
proof (cases "ids = []")
  case True
  then show ?thesis using assms(1) by (auto simp: CouponsByIDs_def run_ret intro: exI [of _ "faults s"])
next
  case False
  then obtain cs s1 where q: "find_all DcDbError couponTable (\<lambda>c. cp_ID c \<in> set ids) s = (Inr cs, s1)"
      and m: "m = map_of (rev (map (\<lambda>c. (cp_ID c, c)) cs))" "s' = s1"
    using assms(1) by (auto simp: CouponsByIDs_def run_ret elim!: andThen_InrE)
  have cs: "cs = filter (\<lambda>c. cp_ID c \<in> set ids) (couponTable s)" "\<exists>fs. s1 = s\<lparr>faults := fs\<rparr>"
    using find_all_run [OF q] by auto
  have "map_of (rev (map (\<lambda>c. (cp_ID c, c)) cs)) i = find (\<lambda>c. cp_ID c = i) (couponTable s)" if "i \<in> set ids" for i
  proof -
    have "map_of (rev (map (\<lambda>c. (cp_ID c, c)) cs)) i = map_option (\<lambda>c. c) (find (\<lambda>c. cp_ID c = i) cs)"
      using assms(2) by (intro map_of_query) (simp add: cs(1) distinct_map_filter)
    also have "find (\<lambda>c. cp_ID c = i) cs = find (\<lambda>c. cp_ID c = i) (couponTable s)"
      unfolding cs(1) find_filter using that by (intro arg_cong2 [of _ _ _ _ find] ext refl) auto
    finally show ?thesis by (simp add: option.map_ident)
  qed
  then show ?thesis using m cs(2) by auto
qed

subsection \<open>The budget of a user\<close>

lemma tables_used:
  "io.more t = io.more s \<Longrightarrow> used t user d = used s user d"
  "io.more t = io.more s \<Longrightarrow> applicable_rows v cs u a n t = applicable_rows v cs u a n s"
  by (cases s; cases t; simp add: used_def applicable_rows_def appliesCondition_def noCouponsCondition_def
      userHasCouponFromListCondition_def)+

text \<open>The reads of \<open>findApplicableDiscounts\<close>, put together.\<close>

lemma findApplicableDiscounts_run:
  assumes "findApplicableDiscounts input s = (Inr rs, s')"
  obtains t rem coupons where
    "\<And>c. distinct (map cp_ID (couponTable s)) \<Longrightarrow> c \<in> set (flattenCouponIDs (fi_ProductVariants input)) \<Longrightarrow>
       coupons c = find (\<lambda>r. cp_ID r = c) (couponTable s) \<and> coupons c \<noteq> None"
    "let rows = map (\<lambda>pv. applicable_rows (vi_ProductVariantID pv) (uniqueUUIDs (vi_CouponIds pv)) (fi_UserID input)
         (fi_OrderAmount input) t s) (fi_ProductVariants input); ds = dedupeDiscountsByID rows in
     rem = remaining_of ds (filter (\<lambda>u. us_UserID u = fi_UserID input \<and> us_DiscountID u \<in> fst ` set (caps ds)) (usageTable s)) \<and>
     filter_all (zip rows (fi_ProductVariants input)) rem coupons = Inr rs"
proof -
  let ?pvs = "fi_ProductVariants input" and ?user = "fi_UserID input"
  let ?cids = "uniqueUUIDs (flattenCouponIDs ?pvs)"
  obtain missing s1 where m: "MissingProductVariants (uniqueUUIDs (mapProductVariantIDs ?pvs)) s = (Inr missing, s1)"
      and none: "missing = []"
      and rest: "andThen now (\<lambda>t.
       andThen (collect (\<lambda>pv. ApplicableDiscountsForVariant (vi_ProductVariantID pv) (uniqueUUIDs (vi_CouponIds pv))
          ?user (fi_OrderAmount input) t) ?pvs) (\<lambda>perVariant.
       andThen (RemainingUsages ?user (dedupeDiscountsByID perVariant)) (\<lambda>remaining.
       andThen (CouponsByIDs ?cids) (\<lambda>couponsByID.
         if filter (\<lambda>i. couponsByID i = None) ?cids \<noteq> [] then fail (CouponsDoNotExist (filter (\<lambda>i. couponsByID i = None) ?cids))
         else (case filter_all (zip perVariant ?pvs) remaining couponsByID of
           Inl e \<Rightarrow> fail e | Inr result \<Rightarrow> ret result))))) s1 = (Inr rs, s')"
    using assms(1) unfolding findApplicableDiscounts_def Let_def
    by (elim andThen_InrE) (auto simp: run_fail split: if_splits)
  obtain fs1 where s1: "s1 = s\<lparr>faults := fs1\<rparr>"
    using m missingIDs_run [of "\<lambda>s. map fst (variantReplicas s)"] unfolding MissingProductVariants_def by fastforce
  let ?t = "clock s1 (reads s1)" and ?s2 = "s1\<lparr>reads := Suc (reads s1)\<rparr>"
  let ?g = "\<lambda>pv. applicable_rows (vi_ProductVariantID pv) (uniqueUUIDs (vi_CouponIds pv)) ?user (fi_OrderAmount input) ?t"
  obtain dss s3 rem s4 coupons s5 where
      c: "collect (\<lambda>pv. ApplicableDiscountsForVariant (vi_ProductVariantID pv) (uniqueUUIDs (vi_CouponIds pv)) ?user
        (fi_OrderAmount input) ?t) ?pvs ?s2 = (Inr dss, s3)"
      and r: "RemainingUsages ?user (dedupeDiscountsByID dss) s3 = (Inr rem, s4)"
      and k: "CouponsByIDs ?cids s4 = (Inr coupons, s5)"
      and found: "filter (\<lambda>i. coupons i = None) ?cids = []"
      and all: "filter_all (zip dss ?pvs) rem coupons = Inr rs"
    using rest by (auto simp: run_fail run_ret run_now elim!: andThen_InrE split: if_splits sum.splits)
  have dss: "dss = map (\<lambda>pv. ?g pv s) ?pvs" and s3: "\<exists>fs. s3 = ?s2\<lparr>faults := fs\<rparr>"
    using collect_run [OF applicable_run _ c] by (auto simp: s1)
  then have rem: "rem = remaining_of (dedupeDiscountsByID dss) (filter (\<lambda>u. us_UserID u = ?user \<and>
      us_DiscountID u \<in> fst ` set (caps (dedupeDiscountsByID dss))) (usageTable s))" and s4: "\<exists>fs. s4 = ?s2\<lparr>faults := fs\<rparr>"
    using RemainingUsages_run [OF r] by (auto simp: s1)
  have "\<forall>i \<in> set ?cids. coupons i = find (\<lambda>c. cp_ID c = i) (couponTable s)" if "distinct (map cp_ID (couponTable s))"
    using CouponsByIDs_run [OF k] that s4 by (auto simp: s1)
  moreover have "set ?cids = set (flattenCouponIDs ?pvs)" by (simp add: uniqueUUIDs_def)
  moreover have "\<forall>i \<in> set ?cids. coupons i \<noteq> None" using found by (simp add: filter_empty_conv)
  ultimately show ?thesis using all by (intro that [of coupons ?t rem]) (auto simp: rem dss Let_def)
qed

text \<open>
  C22. What a user may use is handed out greedily in the order of the variants: when the query
  succeeds, variant by variant the discounts returned are exactly the applicable ones for which the
  uses recorded so far, the counts of the earlier variants that got the discount, and this count
  together stay within the cap per user; the coupons passed for a variant belong to distinct
  discounts, each of which the variant got; and no cap is exceeded over the whole order.
\<close>

theorem applicable_within_budget:
  assumes "findApplicableDiscounts input s = (Inr rs, s')" "discount_tables s"
    and "\<forall>pv \<in> set (fi_ProductVariants input). 0 \<le> vi_Count pv"
  shows "\<exists>t. length rs = length (fi_ProductVariants input) \<and>
    (\<forall>k < length rs. let pv = fi_ProductVariants input ! k; r = rs ! k in
       dv_ProductVariantID r = vi_ProductVariantID pv \<and> dv_Count r = vi_Count pv \<and>
       dv_Discounts r = filter (fits s (fi_UserID input) (take k rs) (vi_Count pv))
         (applicable_rows (vi_ProductVariantID pv) (uniqueUUIDs (vi_CouponIds pv)) (fi_UserID input) (fi_OrderAmount input) t s) \<and>
       (\<exists>rows. map cp_ID rows = vi_CouponIds pv \<and> set rows \<subseteq> set (couponTable s) \<and> distinct (map cp_DiscountID rows) \<and>
          cp_DiscountID ` set rows \<subseteq> dc_ID ` set (dv_Discounts r))) \<and>
    (\<forall>d m. dc_MaxUsagesPerUser d = Some m \<longrightarrow> spent rs d = 0 \<or> used s (fi_UserID input) (dc_ID d) + spent rs d \<le> m)"
proof -
  let ?pvs = "fi_ProductVariants input" and ?user = "fi_UserID input"
  have ids: "distinct (map dc_ID (discountTable s))" "distinct (map cp_ID (couponTable s))"
    using assms(2) by (simp_all add: discount_tables_def)
  obtain t rem coupons where coupons: "\<And>c. c \<in> set (flattenCouponIDs ?pvs) \<Longrightarrow>
       coupons c = find (\<lambda>r. cp_ID r = c) (couponTable s) \<and> coupons c \<noteq> None"
    and run: "let rows = map (\<lambda>pv. applicable_rows (vi_ProductVariantID pv) (uniqueUUIDs (vi_CouponIds pv)) ?user
         (fi_OrderAmount input) t s) ?pvs; ds = dedupeDiscountsByID rows in
     rem = remaining_of ds (filter (\<lambda>u. us_UserID u = ?user \<and> us_DiscountID u \<in> fst ` set (caps ds)) (usageTable s)) \<and>
     filter_all (zip rows ?pvs) rem coupons = Inr rs"
    by (rule findApplicableDiscounts_run [OF assms(1)]) (use ids(2) in blast)
  define rows where "rows = map (\<lambda>pv. applicable_rows (vi_ProductVariantID pv) (uniqueUUIDs (vi_CouponIds pv)) ?user
    (fi_OrderAmount input) t s) ?pvs"
  define D where "D = set (dedupeDiscountsByID rows)"
  have sub: "set ds \<subseteq> set (discountTable s) \<and> distinct (map dc_ID ds)" if "ds \<in> set rows" for ds
    using that ids(1) by (auto simp: rows_def applicable_rows_def distinct_map_filter)
  have D: "D \<subseteq> set (discountTable s)"
    using set_first_seen_subset [of dc_ID "{}" "concat rows"] sub by (fastforce simp: D_def dedupeDiscountsByID_def)
  have all: "\<forall>ds \<in> set rows. set ds \<subseteq> D \<and> distinct (map dc_ID ds)"
  proof (intro ballI conjI subsetI)
    fix ds d assume ds: "ds \<in> set rows" "d \<in> set ds"
    then have "dc_ID d \<in> dc_ID ` D"
      using keys_first_seen [of dc_ID "{}" "concat rows"] by (auto simp: D_def dedupeDiscountsByID_def)
    then obtain x where "x \<in> D" "dc_ID x = dc_ID d" by auto
    then have "x = d" using ids(1) D ds sub by (auto simp: distinct_map inj_on_def subset_iff)
    then show "d \<in> D" using \<open>x \<in> D\<close> by simp
  qed (use sub in blast)
  have "tracks s ?user D rem []"
    using run remaining_of_used [OF assms(2) _ D [unfolded D_def], of _ ?user] distinct_first_seen [of dc_ID "{}" "concat rows"]
    by (auto simp: tracks_def D_def rows_def [symmetric] Let_def dedupeDiscountsByID_def)
  moreover have "filter_all (zip rows ?pvs) rem coupons = Inr rs" using run unfolding rows_def Let_def by (rule conjunct2)
  ultimately have picked: "length rs = length ?pvs"
      "\<forall>k < length rs. chosen s ?user coupons (take k rs) (rows ! k) (?pvs ! k) (rs ! k)"
    using filter_all_chosen [of rows ?pvs rem coupons rs s ?user D "[]"] assms(2,3) D all by (auto simp: rows_def)
  have coupon_rows: "\<exists>rows. map cp_ID rows = vi_CouponIds pv \<and> set rows \<subseteq> set (couponTable s) \<and>
      map cp_DiscountID rows = map (coupon_discount coupons) (vi_CouponIds pv)" if "pv \<in> set ?pvs" for pv
  proof (intro exI conjI)
    let ?r = "map (\<lambda>c. the (coupons c)) (vi_CouponIds pv)"
    have c: "\<exists>r \<in> set (couponTable s). coupons c = Some r \<and> cp_ID r = c" if "c \<in> set (vi_CouponIds pv)" for c
    proof -
      have "c \<in> set (flattenCouponIDs ?pvs)" using that \<open>pv \<in> set ?pvs\<close> by (auto simp: flattenCouponIDs_def)
      from coupons [OF this] obtain r where "coupons c = Some r" "find (\<lambda>r. cp_ID r = c) (couponTable s) = Some r" by (metis not_None_eq)
      then show ?thesis using find_Some_in by fastforce
    qed
    then show "map cp_ID ?r = vi_CouponIds pv" by (force intro: map_idI)
    show "set ?r \<subseteq> set (couponTable s)" using c by force
    show "map cp_DiscountID ?r = map (coupon_discount coupons) (vi_CouponIds pv)"
      using c by (force simp: coupon_discount_def)
  qed
  show ?thesis
  proof (intro exI [of _ t] conjI allI impI)
    fix k assume k: "k < length rs"
    then have ch: "chosen s ?user coupons (take k rs) (rows ! k) (?pvs ! k) (rs ! k)" and pv: "?pvs ! k \<in> set ?pvs"
      using picked by auto
    obtain cs where cs: "map cp_ID cs = vi_CouponIds (?pvs ! k)" "set cs \<subseteq> set (couponTable s)"
        "map cp_DiscountID cs = map (coupon_discount coupons) (vi_CouponIds (?pvs ! k))"
      using coupon_rows [OF pv] by blast
    then have "cp_DiscountID ` set cs = coupon_discount coupons ` set (vi_CouponIds (?pvs ! k))"
      by (metis set_map)
    moreover have "coupon_discount coupons ` set (vi_CouponIds (?pvs ! k)) \<subseteq> dc_ID ` set (dv_Discounts (rs ! k))"
      using ch unfolding chosen_def by blast
    ultimately have "\<exists>rows. map cp_ID rows = vi_CouponIds (?pvs ! k) \<and> set rows \<subseteq> set (couponTable s) \<and>
        distinct (map cp_DiscountID rows) \<and> cp_DiscountID ` set rows \<subseteq> dc_ID ` set (dv_Discounts (rs ! k))"
      using ch cs by (intro exI [of _ cs]) (simp add: chosen_def)
    moreover have "rows ! k = applicable_rows (vi_ProductVariantID (?pvs ! k)) (uniqueUUIDs (vi_CouponIds (?pvs ! k)))
        ?user (fi_OrderAmount input) t s"
      using k picked(1) by (simp add: rows_def)
    ultimately show "let pv = ?pvs ! k; r = rs ! k in
       dv_ProductVariantID r = vi_ProductVariantID pv \<and> dv_Count r = vi_Count pv \<and>
       dv_Discounts r = filter (fits s ?user (take k rs) (vi_Count pv))
         (applicable_rows (vi_ProductVariantID pv) (uniqueUUIDs (vi_CouponIds pv)) ?user (fi_OrderAmount input) t s) \<and>
       (\<exists>rows. map cp_ID rows = vi_CouponIds pv \<and> set rows \<subseteq> set (couponTable s) \<and> distinct (map cp_DiscountID rows) \<and>
          cp_DiscountID ` set rows \<subseteq> dc_ID ` set (dv_Discounts r))"
      using ch unfolding Let_def chosen_def by metis
  qed (use picked chosen_spent in auto)
qed

text \<open>A shop with one discount for one variant, usable three times per user, and one buyer.\<close>

definition dc_row :: DiscountRow where
  "dc_row = \<lparr>dc_ID = UUID 7, dc_Discount = Fin 1 (-1), dc_MaxUsagesPerUser = Some 3, dc_ValidFrom = 0,
     dc_ValidUntil = 10 ^ 12, dc_MinOrderAmount = None\<rparr>"

definition dc_shop :: "DiscountUsageRow list \<Rightarrow> fault list \<Rightarrow> discount_db" where
  "dc_shop usages fs = \<lparr>faults = fs, outbox = [], fresh = (\<lambda>n. UUID (of_nat (1000 + n))), minted = 0,
     clock = (\<lambda>n. 5000000), reads = 0, userReplicas = [UUID 1], productReplicas = [UUID 3], categoryReplicas = [],
     variantReplicas = [(UUID 4, UUID 3)], productToCategory = [], discountTable = [dc_row], couponTable = [],
     redemptionTable = [], discountToProduct = [(UUID 7, UUID 3)], discountToCategory = [], discountToVariant = [],
     usageTable = usages\<rparr>"

definition dc_find :: FindInput where
  "dc_find = \<lparr>fi_UserID = UUID 1, fi_OrderAmount = 100, fi_ProductVariants =
     [\<lparr>vi_ProductVariantID = UUID 4, vi_Count = 2, vi_CouponIds = []\<rparr>,
      \<lparr>vi_ProductVariantID = UUID 4, vi_Count = 2, vi_CouponIds = []\<rparr>]\<rparr>"

lemma dc_find_run:
  "case findApplicableDiscounts dc_find (dc_shop [] []) of
     (Inr rs, _) \<Rightarrow> map (map dc_ID \<circ> dv_Discounts) rs = [[UUID 7], []] | _ \<Rightarrow> False"
  by code_simp

lemma applicable_within_budget_witness:
  "\<exists>rs s'. findApplicableDiscounts dc_find (dc_shop [] []) = (Inr rs, s') \<and> length rs = 2 \<and>
     map (map dc_ID \<circ> dv_Discounts) rs = [[UUID 7], []]"
proof -
  obtain rs s' where run: "findApplicableDiscounts dc_find (dc_shop [] []) = (Inr rs, s')"
      "map (map dc_ID \<circ> dv_Discounts) rs = [[UUID 7], []]"
    using dc_find_run by (auto split: prod.splits sum.splits)
  moreover have "discount_tables (dc_shop [] [])" by code_simp
  ultimately have "length rs = length (fi_ProductVariants dc_find)"
    using applicable_within_budget [of dc_find "dc_shop [] []" rs s'] by (auto simp: dc_find_def)
  then show ?thesis using run by (intro exI [of _ rs] exI [of _ s']) (simp add: dc_find_def)
qed

subsection \<open>The ledger of usages\<close>

text \<open>Runs that write the usages only, and send nothing.\<close>

definition usage_writes :: "discount_db \<Rightarrow> discount_db \<Rightarrow> bool" where
  "usage_writes s s' \<longleftrightarrow> outbox s' = outbox s \<and> (\<exists>us. io.more s' = io.more (s\<lparr>usageTable := us\<rparr>))"

lemma usage_writes_refl [simp]: "usage_writes s (s\<lparr>faults := fs\<rparr>)" "usage_writes s s"
  by (auto simp: usage_writes_def intro: exI [of _ "usageTable s"])

lemma usage_writes_upd [simp]:
  "usage_writes s (s\<lparr>minted := k, usageTable := us\<rparr>)" "usage_writes s (s\<lparr>faults := fs, minted := k, usageTable := us\<rparr>)"
  by (cases s; auto simp: usage_writes_def intro: exI [of _ us])+

lemma usage_writes_trans: "usage_writes s t \<Longrightarrow> usage_writes t u \<Longrightarrow> usage_writes s u"
proof -
  assume a: "usage_writes s t" "usage_writes t u"
  then obtain us us' where "io.more t = io.more (s\<lparr>usageTable := us\<rparr>)" "io.more u = io.more (t\<lparr>usageTable := us'\<rparr>)"
    by (auto simp: usage_writes_def)
  then have "io.more u = io.more (s\<lparr>usageTable := us'\<rparr>)" by (cases s; cases t; cases u) simp
  then show ?thesis using a by (auto simp: usage_writes_def)
qed

lemma used_insert:
  assumes "find (\<lambda>x. us_DiscountID x = d \<and> us_UserID x = u) (usageTable s) = None"
    and "usageTable s' = usageTable s @ [\<lparr>us_ID = i, us_DiscountID = d, us_UserID = u, us_Usages = n\<rparr>]"
  shows "used s' = (used s)(u := (used s u)(d := used s u d + n))"
  using assms by (auto simp: fun_eq_iff used_def find_append split: option.split)

lemma used_update:
  assumes "find (\<lambda>x. us_DiscountID x = d \<and> us_UserID x = u) (usageTable s) = Some r"
    and "usageTable s' = map_first (\<lambda>x. us_DiscountID x = d \<and> us_UserID x = u) (\<lambda>x. x\<lparr>us_Usages := us_Usages r + n\<rparr>) (usageTable s)"
  shows "used s' = (used s)(u := (used s u)(d := used s u d + n))"
proof (intro ext)
  fix v e
  let ?P = "\<lambda>x. us_DiscountID x = d \<and> us_UserID x = u" and ?Q = "\<lambda>x. us_DiscountID x = e \<and> us_UserID x = v"
  show "used s' v e = ((used s)(u := (used s u)(d := used s u d + n))) v e"
  proof (cases "v = u \<and> e = d")
    case True
    then show ?thesis
      using assms find_map_first_same [OF assms(1), of "\<lambda>x. x\<lparr>us_Usages := us_Usages r + n\<rparr>"] find_Some_in [OF assms(1)]
      by (simp add: used_def)
  next
    case False
    then have "find ?Q (usageTable s') = find ?Q (usageTable s)"
      unfolding assms(2) by (intro find_map_first_other) auto
    then show ?thesis using False by (auto simp: used_def)
  qed
qed

text \<open>A successful upsert adds to one entry.\<close>

lemma upsert_Inr:
  assumes "UpsertDiscountUsage d u n s = (Inr (), s')"
  shows "used s' = (used s)(u := (used s u)(d := used s u d + n)) \<and> usage_writes s s'"
proof (cases "find (\<lambda>x. us_DiscountID x = d \<and> us_UserID x = u) (usageTable s)")
  case None
  then have "usage_writes s s' \<and> (\<exists>i. usageTable s' = usageTable s @ [\<lparr>us_ID = i, us_DiscountID = d, us_UserID = u, us_Usages = n\<rparr>])"
    using assms unfolding UpsertDiscountUsage_def Let_def
    by (auto simp: ext_def over_cap_def cap_of_def split: list.splits fault.splits if_splits)
  then show ?thesis using used_insert [OF None] by blast
next
  case (Some r)
  then have "usage_writes s s' \<and> usageTable s' = map_first (\<lambda>x. us_DiscountID x = d \<and> us_UserID x = u)
      (\<lambda>x. x\<lparr>us_Usages := us_Usages r + n\<rparr>) (usageTable s)"
    using assms unfolding UpsertDiscountUsage_def Let_def
    by (auto simp: ext_def over_cap_def cap_of_def split: list.splits fault.splits if_splits)
  then show ?thesis using used_update [OF Some] by blast
qed

lemma upserts_Inr:
  assumes "each (\<lambda>(d, n). UpsertDiscountUsage d u n) ts s = (Inr (), s')"
  shows "used s' = (used s)(u := (\<lambda>e. used s u e + asked_total ts e)) \<and> usage_writes s s'"
  using assms
proof (induction ts arbitrary: s)
  case Nil
  then show ?case by (auto simp: run_ret asked_total_def)
next
  case (Cons t ts)
  obtain d n where t: "t = (d, n)" by fastforce
  with Cons.prems obtain s1 where s1: "UpsertDiscountUsage d u n s = (Inr (), s1)"
      and rest: "each (\<lambda>(d, n). UpsertDiscountUsage d u n) ts s1 = (Inr (), s')"
    by (auto elim!: andThen_InrE)
  show ?case
    using upsert_Inr [OF s1] Cons.IH [OF rest] usage_writes_trans
    by (auto simp: t fun_eq_iff asked_total_def)
qed

lemma upserts_mute: "guar mute (each (\<lambda>(d, n). UpsertDiscountUsage d u n) ts)"
proof (intro mute.guar_each)
  fix x :: "uuid \<times> int"
  show "guar mute (case x of (d, n) \<Rightarrow> UpsertDiscountUsage d u n)"
    unfolding UpsertDiscountUsage_def Let_def
    by (intro guar_case_prod mute.guar_ext guarI) (auto simp: mute_def split: option.split)
qed

lemma DiscountsByIDs_run:
  assumes "DiscountsByIDs ids s = (Inr ds, s')"
  shows "ds = filter (\<lambda>d. dc_ID d \<in> set ids) (discountTable s) \<and> (\<exists>fs. s' = s\<lparr>faults := fs\<rparr>)"
  using assms find_all_run [of DcDbError discountTable]
  by (cases "ids = []") (auto simp: DiscountsByIDs_def run_ret intro: exI [of _ "faults s"])

lemma saga_reads: "guar reading (DiscountsByIDs ids)" "guar reading (RemainingUsages u ds)"
  unfolding DiscountsByIDs_def RemainingUsages_def by (intro guar_intros)+

lemma remaining_cap:
  assumes "discount_tables s" "d \<in> set ids" "ds = filter (\<lambda>d. dc_ID d \<in> set ids) (discountTable s)"
  shows "remaining_of ds (filter (\<lambda>x. us_UserID x = u \<and> us_DiscountID x \<in> fst ` set (caps ds)) (usageTable s)) d =
    map_option (\<lambda>m. m - used s u d) (cap_of d s)"
proof (cases "\<exists>row \<in> set (discountTable s). dc_ID row = d")
  case True
  then obtain row where row: "row \<in> set (discountTable s)" "dc_ID row = d" by blast
  have "distinct (map dc_ID (discountTable s))" using assms(1) by (simp add: discount_tables_def)
  then have "cap_of d s = dc_MaxUsagesPerUser row" "distinct (map dc_ID ds)"
    using find_distinct_key row by (fastforce simp: cap_of_def assms(3) distinct_map_filter)+
  moreover have "row \<in> set ds" using row assms(2,3) by simp
  ultimately show ?thesis using remaining_of_used [OF assms(1), of ds row u] row(2) assms(3) by simp
next
  case False
  then have "find (\<lambda>r. dc_ID r = d) (discountTable s) = None" "d \<notin> dc_ID ` set ds"
    by (auto simp: find_None_iff assms(3))
  moreover then have "map_of (rev (caps ds)) d = None" using caps_keys [of ds] by (auto simp: map_of_eq_None_iff)
  ultimately show ?thesis by (simp add: remaining_of_def cap_of_def)
qed

lemma used_more: "io.more t = io.more s \<Longrightarrow> used t = used s"
  by (cases s; cases t) (simp add: used_def fun_eq_iff)

lemma asked_total_graph: "distinct xs \<Longrightarrow> asked_total (map (\<lambda>d. (d, f d)) xs) e = (if e \<in> set xs then f e else 0)"
  by (induction xs) (auto simp: asked_total_def)

text \<open>What the transaction does to the ledger.\<close>

lemma charging_run:
  assumes "order_counts_ok order" "totals = group_totals (ro_OrderItems order) []"
    and "RunInTx (andThen (each (\<lambda>(d, n). UpsertDiscountUsage d (ro_UserID order) n) totals)
      (\<lambda>_. PublishValidationSucceeded order)) s = (r, s')"
  shows "let L = (used s)(ro_UserID order := (\<lambda>d. used s (ro_UserID order) d + order_total order d)) in
    r = Inr () \<and> used s' = L \<and> outbox s' = outbox s @ [ValidationSucceeded order] \<or>
    (\<exists>e. r = Inl e \<and> (used s' = used s \<or> used s' = L \<and> outbox s' = outbox s @ [ValidationSucceeded order]) \<and>
       outbox s' \<in> {outbox s, outbox s @ [ValidationSucceeded order]})"
proof -
  let ?u = "ro_UserID order" and ?E = "[ValidationSucceeded order]"
  let ?body = "andThen (each (\<lambda>(d, n). UpsertDiscountUsage d ?u n) totals) (\<lambda>_. PublishValidationSucceeded order)"
  have total: "asked_total totals = order_total order"
    using assms(1,2) by (auto simp: group_totals_order asked_total_graph fun_eq_iff order_total_none)
  have body: "outbox s2 \<in> {outbox t, outbox t @ ?E} \<and> (b = Inr () \<longrightarrow> outbox s2 = outbox t @ ?E \<and>
      used s2 = (used t)(?u := (\<lambda>d. used t ?u d + order_total order d)))"
    if "?body t = (b, s2)" for t b s2
  proof -
    obtain r1 t1 where e: "each (\<lambda>(d, n). UpsertDiscountUsage d ?u n) totals t = (r1, t1)" by fastforce
    have mute: "outbox t1 = outbox t" using guarD [OF upserts_mute e] by (simp add: mute_def)
    show ?thesis
    proof (cases r1)
      case (Inl x)
      then show ?thesis using that e mute by (auto simp: run_andThen)
    next
      case (Inr x)
      then have "used t1 = (used t)(?u := (\<lambda>d. used t ?u d + order_total order d))"
        using upserts_Inr [of ?u totals t t1] e total by simp
      moreover have "emit DcPublishFailed (ValidationSucceeded order) t1 = (b, s2)"
        using that e Inr by (simp add: run_andThen PublishValidationSucceeded_def)
      then have "io.more s2 = io.more t1 \<and> outbox s2 \<in> {outbox t1, outbox t1 @ ?E} \<and> (b = Inr () \<longrightarrow> outbox s2 = outbox t1 @ ?E)"
        by (rule emit_run) auto
      ultimately show ?thesis using mute used_more [of s2 t1] by auto
    qed
  qed
  have io: "used (s\<lparr>faults := fs\<rparr>) = used s" for fs by (rule used_more) simp
  show ?thesis using assms(3) unfolding RunInTx_def
  proof (cases rule: transaction_outcomes)
    case (unbegun fs)
    then show ?thesis by (simp add: Let_def io)
  next
    case (failed fs e s2)
    then show ?thesis using body [OF failed(1)] used_more [OF failed(3)] by (auto simp: Let_def)
  next
    case (aborted fs x s2)
    then show ?thesis using body [OF aborted(1)] used_more [OF aborted(3)] by (auto simp: Let_def)
  next
    case (committed fs x s2)
    then show ?thesis using body [OF committed(1)] used_more [OF committed(3)] by (auto simp: Let_def io)
  qed
qed

lemma validateOrderInternal_outcomes:
  assumes "validateOrderInternal order s = (r, s')" "discount_tables s" "order_counts_ok order"
    and "charge (\<lambda>d. cap_of d s) order (used s) = (v, L)"
  shows "r = Inr () \<and> used s' = L \<and> outbox s' = outbox s @ [announce order v] \<or>
    (\<exists>e. r = Inl e \<and> (used s' = used s \<or> v = Charged \<and> used s' = L \<and> outbox s' = outbox s @ [announce order v]) \<and>
       outbox s' \<in> {outbox s, outbox s @ [announce order v]})"
proof -
  let ?u = "ro_UserID order" and ?ids = "asked_discounts (ro_OrderItems order)"
  define totals where "totals = group_totals (ro_OrderItems order) []"
  have totals: "totals = map (\<lambda>d. (d, order_total order d)) ?ids"
    unfolding totals_def by (rule group_totals_order [OF assms(3)])
  then have ids: "map fst totals = ?ids" by (simp add: comp_def)
  obtain rd s1 where d: "DiscountsByIDs ?ids s = (rd, s1)" by fastforce
  show ?thesis
  proof (cases rd)
    case (Inl e)
    then show ?thesis
      using assms(1) d guarD [OF saga_reads(1) d] used_more [of s1 s]
      by (auto simp: validateOrderInternal_def Let_def ids totals_def [symmetric] run_andThen reading_def)
  next
    case ds: (Inr ds)
    obtain rr s2 where m: "RemainingUsages ?u ds s1 = (rr, s2)" by fastforce
    obtain fs where s1: "s1 = s\<lparr>faults := fs\<rparr>" and ds_eq: "ds = filter (\<lambda>d. dc_ID d \<in> set ?ids) (discountTable s)"
      using DiscountsByIDs_run d ds by blast
    show ?thesis
    proof (cases rr)
      case (Inl e)
      then show ?thesis
        using assms(1) d ds m guarD [OF saga_reads(2) m] used_more [of s2 s] s1
        by (auto simp: validateOrderInternal_def Let_def ids totals_def [symmetric] run_andThen reading_def)
    next
      case rem: (Inr rem)
      obtain fs' where s2: "s2 = s\<lparr>faults := fs'\<rparr>" and rem_eq: "rem = remaining_of ds
          (filter (\<lambda>x. us_UserID x = ?u \<and> us_DiscountID x \<in> fst ` set (caps ds)) (usageTable s))"
        using RemainingUsages_run m rem s1 by fastforce
      let ?over = "filter (\<lambda>d. \<exists>m. cap_of d s = Some m \<and> m < used s ?u d + order_total order d) ?ids"
      have failed: "map fst (filter (\<lambda>(d, total). case rem d of None \<Rightarrow> False | Some limit \<Rightarrow> limit < total) totals) = ?over"
      proof -
        have "(case rem d of None \<Rightarrow> False | Some limit \<Rightarrow> limit < order_total order d) \<longleftrightarrow>
            (\<exists>m. cap_of d s = Some m \<and> m < used s ?u d + order_total order d)" if "d \<in> set ?ids" for d
          using remaining_cap [OF assms(2) that ds_eq, of ?u] by (auto simp: rem_eq split: option.split)
        then show ?thesis unfolding totals filter_map map_map comp_def by (auto intro: filter_cong)
      qed
      let ?charge = "RunInTx (andThen (each (\<lambda>(d, n). UpsertDiscountUsage d ?u n) totals) (\<lambda>_. PublishValidationSucceeded order))"
      have "validateOrderInternal order s =
          (let failed = map fst (filter (\<lambda>(d, total). case rem d of None \<Rightarrow> False | Some limit \<Rightarrow> limit < total) totals)
           in if failed \<noteq> [] then PublishValidationFailed order failed else ?charge) s2"
        using d ds m rem by (simp add: validateOrderInternal_def Let_def ids totals_def [symmetric] run_andThen)
      then have run: "(if ?over \<noteq> [] then PublishValidationFailed order ?over else ?charge) s2 = (r, s')"
        unfolding failed Let_def using assms(1) by simp
      have io: "used s2 = used s" "outbox s2 = outbox s" using used_more [of s2 s] by (simp_all add: s2)
      show ?thesis
      proof (cases "?over = []")
        case False
        then have "charge (\<lambda>d. cap_of d s) order (used s) = (Overdrawn ?over, used s)" by (simp add: charge_def Let_def)
        then have "v = Overdrawn ?over" "L = used s" using assms(4) by auto
        moreover have "emit DcPublishFailed (ValidationFailed order ?over) s2 = (r, s')"
          using run False by (simp add: PublishValidationFailed_def)
        then have "io.more s' = io.more s2 \<and> (r = Inr () \<longrightarrow> outbox s' = outbox s2 @ [ValidationFailed order ?over]) \<and>
            (r = Inr () \<or> (\<exists>e. r = Inl e)) \<and> outbox s' \<in> {outbox s2, outbox s2 @ [ValidationFailed order ?over]}"
          by (rule emit_run) auto
        ultimately show ?thesis using used_more [of s' s2] io by (auto simp: announce_def)
      next
        case True
        then have "v = Charged" "L = (used s)(?u := (\<lambda>d. used s ?u d + order_total order d))"
          using assms(4) by (simp_all add: charge_def Let_def)
        moreover have "?charge s2 = (r, s')" using run True by simp
        from charging_run [OF assms(3) totals_def this] have "let L = (used s2)(?u := (\<lambda>d. used s2 ?u d + order_total order d)) in
            r = Inr () \<and> used s' = L \<and> outbox s' = outbox s2 @ [ValidationSucceeded order] \<or>
            (\<exists>e. r = Inl e \<and> (used s' = used s2 \<or> used s' = L \<and> outbox s' = outbox s2 @ [ValidationSucceeded order]) \<and>
               outbox s' \<in> {outbox s2, outbox s2 @ [ValidationSucceeded order]})" .
        ultimately show ?thesis unfolding io Let_def by (auto simp: announce_def)
      qed
    qed
  qed
qed

text \<open>
  C23. Validating an order under every script of failures: the user's ledger is left as it was or
  charged with all discounts of the order, never with some; a success means the verdict of the
  ledger was carried out and announced; and on an error the order may have been announced with that
  verdict, or as failed without reasons, or both.
\<close>

theorem validation_all_or_nothing:
  assumes "validateOrder order s = (r, s')" "discount_tables s" "order_counts_ok order"
    and "charge (\<lambda>d. cap_of d s) order (used s) = (v, L)"
  shows "(used s' = used s \<or> v = Charged \<and> used s' = L) \<and>
    (r = Inr () \<longrightarrow> used s' = L \<and> outbox s' = outbox s @ [announce order v]) \<and>
    (\<exists>evs failed. outbox s' = outbox s @ evs @ failed \<and> evs \<in> {[], [announce order v]} \<and>
       failed \<in> {[], [ValidationFailed order []]} \<and> (r = Inr () \<longrightarrow> failed = []) \<and>
       (used s' \<noteq> used s \<longrightarrow> evs \<noteq> []))"
proof -
  obtain r1 s1 where i: "validateOrderInternal order s = (r1, s1)" by fastforce
  note out = validateOrderInternal_outcomes [OF i assms(2-4)]
  have L: "v \<noteq> Charged \<Longrightarrow> L = used s" using assms(4) by (auto simp: charge_def Let_def split: if_splits)
  show ?thesis
  proof (cases r1)
    case (Inr u)
    then have "r = Inr ()" "s' = s1" using assms(1) i by (auto simp: validateOrder_def run_andThen run_attempt run_ret)
    then show ?thesis using out Inr L by (cases v) auto
  next
    case (Inl e)
    obtain r2 s2 where p: "PublishValidationFailed order [] s1 = (r2, s2)" by fastforce
    then have p': "io.more s2 = io.more s1 \<and> outbox s2 \<in> {outbox s1, outbox s1 @ [ValidationFailed order []]}"
      unfolding PublishValidationFailed_def by (rule emit_run) auto
    have "r = Inl e" "s' = s2"
      using assms(1) i p Inl by (auto simp: validateOrder_def run_andThen run_attempt run_fail)
    moreover have "used s' = used s1" using p' used_more \<open>s' = s2\<close> by blast
    moreover obtain evs where "outbox s1 = outbox s @ evs" "evs \<in> {[], [announce order v]}" "used s1 \<noteq> used s \<longrightarrow> evs \<noteq> []"
      using out Inl by (auto simp: that)
    moreover obtain failed where "outbox s2 = outbox s1 @ failed" "failed \<in> {[], [ValidationFailed order []]}"
      using p' that by auto
    ultimately show ?thesis using out Inl by (intro conjI exI [of _ evs] exI [of _ failed]) auto
  qed
qed

text \<open>When every call is answered: a state in which \<open>n\<close> usages can still be inserted under fresh ids.\<close>

definition ledger_ready :: "nat \<Rightarrow> discount_db \<Rightarrow> bool" where
  "ledger_ready n s \<longleftrightarrow> faults s = [] \<and> discount_tables s \<and> distinct (map (fresh s) [minted s..<minted s + n]) \<and>
     (\<forall>k \<in> {minted s..<minted s + n}. fresh s k \<notin> us_ID ` set (usageTable s))"

lemma ledger_ready_iff:
  "ledger_ready n s \<longleftrightarrow> faults s = [] \<and> discount_tables s \<and> inj_on (fresh s) {minted s..<minted s + n} \<and>
     fresh s ` {minted s..<minted s + n} \<inter> us_ID ` set (usageTable s) = {}"
  by (simp add: ledger_ready_def distinct_map) blast

lemma image_disjoint_subset: "f ` A \<inter> B = {} \<Longrightarrow> A' \<subseteq> A \<Longrightarrow> f ` A' \<inter> B = {}"
  by blast

lemma ledger_ready_less: "ledger_ready (n + k) s \<Longrightarrow> ledger_ready n s"
proof -
  assume r: "ledger_ready (n + k) s"
  have "{minted s..<minted s + n} \<subseteq> {minted s..<minted s + (n + k)}" by auto
  then show ?thesis using r inj_on_subset image_disjoint_subset unfolding ledger_ready_iff by (metis (no_types, lifting))
qed

definition chargeable :: "uuid \<Rightarrow> discount_db \<Rightarrow> uuid \<times> int \<Rightarrow> bool" where
  "chargeable u s t \<longleftrightarrow> u \<in> set (userReplicas s) \<and> fst t \<in> dc_ID ` set (discountTable s) \<and> 0 \<le> snd t \<and>
     used s u (fst t) + snd t < 2 ^ 62 \<and> (\<forall>m. cap_of (fst t) s = Some m \<longrightarrow> used s u (fst t) + snd t \<le> m)"

definition ledger_frame :: "discount_db \<Rightarrow> discount_db \<Rightarrow> bool" where
  "ledger_frame s s' \<longleftrightarrow> (\<exists>k us. s' = s\<lparr>minted := k, usageTable := us\<rparr>)"

lemma map_first_usages:
  "distinct (map f xs) \<Longrightarrow> (\<And>x. f (g x) = f x) \<Longrightarrow> distinct (map f (map_first P g xs))"
  by (simp add: map_map_first)

lemma upsert_ready:
  assumes "ledger_ready (Suc k) s" "chargeable u s (d, n)"
  shows "\<exists>s'. UpsertDiscountUsage d u n s = (Inr (), s') \<and> ledger_ready k s' \<and> ledger_frame s s'"
proof -
  have q: "faults s = []" and tab: "discount_tables s"
      and inj: "inj_on (fresh s) {minted s..<Suc (minted s + k)}"
      and new: "fresh s ` {minted s..<Suc (minted s + k)} \<inter> us_ID ` set (usageTable s) = {}"
    using assms(1) by (simp_all add: ledger_ready_iff)
  have first: "fresh s (minted s) \<notin> us_ID ` set (usageTable s)" using new by (auto simp: disjoint_iff)
  have inj': "inj_on (fresh s) {Suc (minted s)..<Suc (minted s + k)}" by (rule inj_on_subset [OF inj]) auto
  have new': "fresh s ` {Suc (minted s)..<Suc (minted s + k)} \<inter> us_ID ` set (usageTable s) = {}"
    by (rule image_disjoint_subset [OF new]) auto
  have u: "u \<in> set (userReplicas s)" "d \<in> dc_ID ` set (discountTable s)" "0 \<le> n" "used s u d + n < 2 ^ 62"
      and cap: "\<And>m. cap_of d s = Some m \<Longrightarrow> used s u d + n \<le> m"
    using assms(2) by (auto simp: chargeable_def)
  have range: "0 \<le> used s u d" using used_range [OF tab] by simp
  have under: "\<not> over_cap d n s" "\<not> over_cap d (used s u d + n) s"
    using cap range by (fastforce simp: over_cap_def split: option.splits)+
  show ?thesis
  proof (cases "find (\<lambda>x. us_DiscountID x = d \<and> us_UserID x = u) (usageTable s)")
    case None
    let ?row = "\<lparr>us_ID = fresh s (minted s), us_DiscountID = d, us_UserID = u, us_Usages = n\<rparr>"
    let ?s' = "s\<lparr>minted := Suc (minted s), usageTable := usageTable s @ [?row]\<rparr>"
    have "UpsertDiscountUsage d u n s = (Inr (), ?s')"
      using None under(1) u(1,2) first q by (simp add: UpsertDiscountUsage_def Let_def ext_def)
    moreover have "discount_tables ?s'"
      using tab None u(3,4) range by (auto simp: discount_tables_def find_None_iff used_def)
    moreover have "fresh s (minted s) \<notin> fresh s ` {Suc (minted s)..<Suc (minted s + k)}"
      using inj by (fastforce simp: inj_on_def)
    ultimately show ?thesis using new' q inj' by (auto simp: ledger_ready_iff ledger_frame_def)
  next
    case (Some x)
    let ?P = "\<lambda>x. us_DiscountID x = d \<and> us_UserID x = u" and ?f = "\<lambda>y. y\<lparr>us_Usages := us_Usages x + n\<rparr>"
    let ?s' = "s\<lparr>minted := Suc (minted s), usageTable := map_first ?P ?f (usageTable s)\<rparr>"
    have x: "used s u d = us_Usages x" using Some by (simp add: used_def)
    have "int8 (us_Usages x + n)" using u(3,4) range x by (simp add: int8_def)
    then have "UpsertDiscountUsage d u n s = (Inr (), ?s')"
      using Some under x q by (simp add: UpsertDiscountUsage_def Let_def ext_def)
    moreover have keys: "map us_ID (map_first ?P ?f (usageTable s)) = map us_ID (usageTable s)"
        "map (\<lambda>u. (us_DiscountID u, us_UserID u)) (map_first ?P ?f (usageTable s)) = map (\<lambda>u. (us_DiscountID u, us_UserID u)) (usageTable s)"
      by (simp_all add: map_map_first)
    then have "us_ID ` set (map_first ?P ?f (usageTable s)) = us_ID ` set (usageTable s)" by (metis set_map)
    moreover have "0 \<le> us_Usages y \<and> us_Usages y < 2 ^ 62" if "y \<in> set (map_first ?P ?f (usageTable s))" for y
    proof -
      have "y \<in> set (usageTable s) \<or> us_Usages y = us_Usages x + n"
        using that set_map_first_subset [of ?P ?f "usageTable s"] by auto
      then show ?thesis using tab u(3,4) range x by (auto simp: discount_tables_def)
    qed
    ultimately show ?thesis using tab q inj' new' keys
      by (auto simp: ledger_ready_iff ledger_frame_def discount_tables_def)
  qed
qed

lemma ledger_frame_same:
  assumes "ledger_frame s s'"
  shows "userReplicas s' = userReplicas s" "discountTable s' = discountTable s" "cap_of d s' = cap_of d s"
    "outbox s' = outbox s" "faults s' = faults s"
  using assms by (auto simp: ledger_frame_def cap_of_def)

lemma ledger_frame_trans: "ledger_frame s t \<Longrightarrow> ledger_frame t v \<Longrightarrow> ledger_frame s v"
  by (auto simp: ledger_frame_def) (intro exI, rule refl)

lemma ledger_frame_refl: "ledger_frame s s"
  unfolding ledger_frame_def by (intro exI [of _ "minted s"] exI [of _ "usageTable s"]) simp

lemma upserts_ready:
  assumes "ledger_ready (k + length ts) s" "\<forall>t \<in> set ts. chargeable u s t" "distinct (map fst ts)"
  shows "\<exists>s'. each (\<lambda>(d, n). UpsertDiscountUsage d u n) ts s = (Inr (), s') \<and> ledger_ready k s' \<and> ledger_frame s s'"
  using assms
proof (induction ts arbitrary: s)
  case Nil
  then show ?case by (auto simp: run_ret ledger_frame_refl)
next
  case (Cons t ts)
  obtain d n where t: "t = (d, n)" by fastforce
  obtain s1 where s1: "UpsertDiscountUsage d u n s = (Inr (), s1)" "ledger_ready (k + length ts) s1" "ledger_frame s s1"
    using upsert_ready [of "k + length ts" s u d n] Cons.prems(1,2) by (auto simp: t)
  have "chargeable u s1 x" if "x \<in> set ts" for x
  proof -
    have "fst x \<noteq> d" using Cons.prems(3) that by (auto simp: t)
    then have "used s1 u (fst x) = used s u (fst x)" using upsert_Inr [OF s1(1)] by simp
    then show ?thesis using Cons.prems(2) that by (simp add: chargeable_def ledger_frame_same [OF s1(3)])
  qed
  then obtain s' where "each (\<lambda>(d, n). UpsertDiscountUsage d u n) ts s1 = (Inr (), s')" "ledger_ready k s'" "ledger_frame s1 s'"
    using Cons.IH [OF s1(2)] Cons.prems(3) by auto
  then show ?case using s1 ledger_frame_trans by (auto simp: t run_andThen)
qed

lemma run_saga_reads:
  assumes "faults s = []"
  shows "DiscountsByIDs ids s = (Inr (filter (\<lambda>d. dc_ID d \<in> set ids) (discountTable s)), s)"
    "RemainingUsages u ds s = (Inr (remaining_of ds
       (filter (\<lambda>x. us_UserID x = u \<and> us_DiscountID x \<in> fst ` set (caps ds)) (usageTable s))), s)"
  using assms by (cases ids; simp add: DiscountsByIDs_def RemainingUsages_def find_all_def run_andThen run_simps)+

lemma validateOrder_charges_ledger:
  assumes "ledger_ready (n + length (asked_discounts (ro_OrderItems order))) s" "order_counts_ok order" "ro_UserID order \<in> set (userReplicas s)"
    and "set (asked_discounts (ro_OrderItems order)) \<subseteq> dc_ID ` set (discountTable s)"
    and "\<forall>d. used s (ro_UserID order) d + order_total order d < 2 ^ 62"
  shows "\<exists>s'. validateOrder order s = (Inr (), s') \<and> ledger_ready n s' \<and>
    (case charge (\<lambda>d. cap_of d s) order (used s) of (v, L) \<Rightarrow>
       used s' = L \<and> ledger_frame (s\<lparr>outbox := outbox s @ [announce order v]\<rparr>) s')"
proof -
  let ?u = "ro_UserID order" and ?ids = "asked_discounts (ro_OrderItems order)"
  let ?over = "filter (\<lambda>d. \<exists>m. cap_of d s = Some m \<and> m < used s ?u d + order_total order d) ?ids"
  let ?ds = "filter (\<lambda>d. dc_ID d \<in> set ?ids) (discountTable s)"
  let ?rem = "remaining_of ?ds (filter (\<lambda>x. us_UserID x = ?u \<and> us_DiscountID x \<in> fst ` set (caps ?ds)) (usageTable s))"
  define totals where "totals = map (\<lambda>d. (d, order_total order d)) ?ids"
  have q: "faults s = []" and tab: "discount_tables s" using assms(1) by (simp_all add: ledger_ready_def)
  have "(case ?rem d of None \<Rightarrow> False | Some limit \<Rightarrow> limit < order_total order d) \<longleftrightarrow>
      (\<exists>m. cap_of d s = Some m \<and> m < used s ?u d + order_total order d)" if "d \<in> set ?ids" for d
    using remaining_cap [OF tab that refl, of ?u] by (auto split: option.split)
  then have failed: "map fst (filter (\<lambda>(d, total). case ?rem d of None \<Rightarrow> False | Some limit \<Rightarrow> limit < total) totals) = ?over"
    unfolding totals_def filter_map map_map comp_def by (auto intro: filter_cong)
  have "map fst totals = ?ids" by (simp add: totals_def comp_def)
  then have run: "validateOrderInternal order s = (let failed = map fst (filter (\<lambda>(d, total).
      case ?rem d of None \<Rightarrow> False | Some limit \<Rightarrow> limit < total) totals) in
      if failed \<noteq> [] then PublishValidationFailed order failed
      else RunInTx (andThen (each (\<lambda>(d, n). UpsertDiscountUsage d ?u n) totals) (\<lambda>_. PublishValidationSucceeded order))) s"
    using run_saga_reads [OF q]
    by (simp add: validateOrderInternal_def Let_def group_totals_order [OF assms(2)] totals_def [symmetric] run_andThen)
  show ?thesis
  proof (cases "?over = []")
    case False
    then have v: "charge (\<lambda>d. cap_of d s) order (used s) = (Overdrawn ?over, used s)" by (simp add: charge_def Let_def)
    let ?s' = "s\<lparr>outbox := outbox s @ [ValidationFailed order ?over]\<rparr>"
    have "validateOrderInternal order s = (Inr (), ?s')"
      unfolding run failed Let_def using False q by (simp add: PublishValidationFailed_def run_simps)
    moreover have "ledger_ready n ?s'"
      using ledger_ready_less [OF assms(1)] by (simp add: ledger_ready_def discount_tables_def)
    moreover have "used ?s' = used s" by (rule used_more) simp
    ultimately show ?thesis
      using ledger_frame_refl v by (auto simp: validateOrder_def run_andThen run_attempt run_ret announce_def)
  next
    case True
    let ?L = "(used s)(?u := (\<lambda>d. used s ?u d + order_total order d))"
    have v: "charge (\<lambda>d. cap_of d s) order (used s) = (Charged, ?L)" using True by (simp add: charge_def Let_def)
    have "\<forall>t \<in> set totals. chargeable ?u s t"
      using assms(3-5) True order_total_range [OF assms(2)]
      by (fastforce simp: chargeable_def totals_def filter_empty_conv not_less)
    moreover have "distinct (map fst totals)" by (simp add: totals_def comp_def)
    ultimately obtain s1 where s1: "each (\<lambda>(d, n). UpsertDiscountUsage d ?u n) totals s = (Inr (), s1)"
        "ledger_ready n s1" "ledger_frame s s1"
      using upserts_ready [of n totals s ?u] assms(1) by (auto simp: totals_def)
    let ?s' = "s1\<lparr>outbox := outbox s @ [ValidationSucceeded order]\<rparr>"
    have q1: "faults s1 = []" using s1(2) by (simp add: ledger_ready_def)
    have body: "andThen (each (\<lambda>(d, n). UpsertDiscountUsage d ?u n) totals) (\<lambda>_. PublishValidationSucceeded order) s = (Inr (), ?s')"
      using s1(1) q1 ledger_frame_same(4) [OF s1(3)] by (simp add: PublishValidationSucceeded_def run_simps)
    then have "RunInTx (andThen (each (\<lambda>(d, n). UpsertDiscountUsage d ?u n) totals) (\<lambda>_. PublishValidationSucceeded order)) s =
        (Inr (), ?s')"
      using q q1 by (simp add: RunInTx_def transaction_def run_simps)
    then have "validateOrderInternal order s = (Inr (), ?s')"
      unfolding run failed Let_def using True by simp
    moreover have "ledger_ready n ?s'" using s1(2) by (simp add: ledger_ready_def discount_tables_def)
    moreover have "used ?s' = ?L"
    proof -
      have "asked_total totals = order_total order"
        by (auto simp: totals_def asked_total_graph fun_eq_iff order_total_none)
      then show ?thesis using upserts_Inr [OF s1(1)] used_more [of ?s' s1] by simp
    qed
    moreover have "ledger_frame (s\<lparr>outbox := outbox s @ [ValidationSucceeded order]\<rparr>) ?s'"
    proof -
      obtain k us where "s1 = s\<lparr>minted := k, usageTable := us\<rparr>" using s1(3) by (auto simp: ledger_frame_def)
      then show ?thesis unfolding ledger_frame_def by (intro exI [of _ k] exI [of _ us]) simp
    qed
    ultimately show ?thesis using v by (auto simp: validateOrder_def run_andThen run_attempt run_ret announce_def)
  qed
qed

text \<open>
  C21. Validating an order refines the ledger: from a state in which calls are answered, for an order
  of a known user and known discounts with counts in range, the service succeeds, its usages
  read as a ledger are exactly the charged ledger, the verdict is announced, nothing else changes, and the
  state is ready for the next order as far as fresh ids last.
\<close>

theorem validation_refines_ledger:
  assumes "ledger_ready (n + length (asked_discounts (ro_OrderItems order))) s" "order_counts_ok order" "ro_UserID order \<in> set (userReplicas s)"
    and "set (asked_discounts (ro_OrderItems order)) \<subseteq> dc_ID ` set (discountTable s)"
    and "\<forall>d. used s (ro_UserID order) d + order_total order d < 2 ^ 62"
  shows "\<exists>s'. validateOrder order s = (Inr (), s') \<and> ledger_ready n s' \<and>
    (case charge (\<lambda>d. cap_of d s) order (used s) of (v, L) \<Rightarrow>
       used s' = L \<and> ledger_frame (s\<lparr>outbox := outbox s @ [announce order v]\<rparr>) s')"
  using assms by (rule validateOrder_charges_ledger)

definition dc_order :: ReservedOrder where
  "dc_order = \<lparr>ro_ID = UUID 50, ro_UserID = UUID 1, ro_CreatedAt = ''t'', ro_OrderStatus = ''PLACED'', ro_PlacedAt = ''t'',
     ro_RejectionReason = None, ro_OrderItems =
       [\<lparr>ri_ID = UUID 51, ri_CreatedAt = ''t'', ri_ProductVariantVersionID = UUID 52, ri_ProductVariantID = UUID 4,
         ri_TaxRateVersionID = UUID 53, ri_ShoppingCartItemID = UUID 54, ri_Count = 1, ri_CompensatableAmount = 10,
         ri_ShipmentMethodID = UUID 55, ri_DiscountIds = [UUID 7]\<rparr>],
     ro_ShipmentAddressID = UUID 56, ro_InvoiceAddressID = UUID 56, ro_CompensatableOrderAmount = 10,
     ro_PaymentInformationID = UUID 57, ro_PaymentAuthorization = None, ro_VatNumber = None\<rparr>"

lemma dc_order_facts:
  "order_counts_ok dc_order" "asked_discounts (ro_OrderItems dc_order) = [UUID 7]" "ro_UserID dc_order = UUID 1"
  "cap_of (UUID 7) (dc_shop us fs) = Some 3"
  by code_simp+

lemma dc_order_total: "order_total dc_order d = (if d = UUID 7 then 1 else 0)"
  by (simp add: order_total_def asked_def asked_total_def dc_order_def)

lemma dc_used_none: "used (dc_shop [] fs) u d = 0"
  by (simp add: used_def dc_shop_def)

lemma dc_charge:
  "charge (\<lambda>d. cap_of d (dc_shop [] fs)) dc_order (used (dc_shop [] fs)) =
     (Charged, (used (dc_shop [] fs))(UUID 1 := (\<lambda>d. if d = UUID 7 then 1 else 0)))"
  by (auto simp: charge_def Let_def dc_order_facts dc_order_total dc_used_none)

lemma dc_cap: "cap_of d (dc_shop us fs) = (if d = UUID 7 then Some 3 else None)"
  by (simp add: cap_of_def dc_shop_def dc_row_def)

lemma dc_tables: "discount_tables (dc_shop [] fs)"
  by (simp add: discount_tables_def dc_shop_def dc_row_def int4_opt_def int4_def)

lemma validation_refines_ledger_witness:
  "\<exists>s'. validateOrder dc_order (dc_shop [] []) = (Inr (), s') \<and> used s' (UUID 1) (UUID 7) = 1 \<and>
     outbox s' = [ValidationSucceeded dc_order]"
proof -
  let ?s = "dc_shop [] []"
  have 1: "ledger_ready (0 + length (asked_discounts (ro_OrderItems dc_order))) ?s"
    unfolding dc_order_facts using dc_tables [of "[]"] by (simp add: ledger_ready_def dc_shop_def)
  have 2: "ro_UserID dc_order \<in> set (userReplicas ?s)"
    unfolding dc_order_facts by (simp add: dc_shop_def)
  have 3: "set (asked_discounts (ro_OrderItems dc_order)) \<subseteq> dc_ID ` set (discountTable ?s)"
    unfolding dc_order_facts by (simp add: dc_shop_def dc_row_def)
  have 4: "\<forall>d. used ?s (ro_UserID dc_order) d + order_total dc_order d < 2 ^ 62"
    by (simp add: dc_used_none dc_order_total)
  obtain s' where "validateOrder dc_order ?s = (Inr (), s')"
      "case charge (\<lambda>d. cap_of d ?s) dc_order (used ?s) of (v, L) \<Rightarrow>
        used s' = L \<and> ledger_frame (?s\<lparr>outbox := outbox ?s @ [announce dc_order v]\<rparr>) s'"
    using validation_refines_ledger [OF 1 dc_order_facts(1) 2 3 4] by (elim exE conjE)
  then have "validateOrder dc_order ?s = (Inr (), s')" "used s' (UUID 1) (UUID 7) = 1"
      "ledger_frame (?s\<lparr>outbox := outbox ?s @ [ValidationSucceeded dc_order]\<rparr>) s'"
    by (simp_all add: dc_charge announce_def)
  moreover then have "outbox s' = [ValidationSucceeded dc_order]"
    using ledger_frame_same(4) by (fastforce simp: dc_shop_def)
  ultimately show ?thesis by blast
qed

lemma validation_all_or_nothing_witness:
  "\<exists>r s'. validateOrder dc_order (dc_shop [] [Answered, Answered, Answered, Answered, Answered, ReplyLost]) = (r, s') \<and>
     r \<noteq> Inr () \<and> used s' (UUID 1) (UUID 7) = 1 \<and>
     outbox s' = [ValidationSucceeded dc_order, ValidationFailed dc_order []]"
proof -
  let ?s = "dc_shop [] [Answered, Answered, Answered, Answered, Answered, ReplyLost]"
  obtain r s' where run: "validateOrder dc_order ?s = (r, s')" by fastforce
  have "map (\<lambda>e. case e of ValidationSucceeded _ \<Rightarrow> 0 | ValidationFailed _ _ \<Rightarrow> Suc 0 | _ \<Rightarrow> 2) (outbox (snd (validateOrder dc_order ?s))) = [0, 1]
      \<and> fst (validateOrder dc_order ?s) \<noteq> Inr () \<and> used (snd (validateOrder dc_order ?s)) (UUID 1) (UUID 7) = 1"
    by code_simp
  then have seen: "map (\<lambda>e. case e of ValidationSucceeded _ \<Rightarrow> 0 | ValidationFailed _ _ \<Rightarrow> Suc 0 | _ \<Rightarrow> 2) (outbox s') = [0, 1]"
      "r \<noteq> Inr ()" "used s' (UUID 1) (UUID 7) = 1" using run by simp_all
  obtain evs failed where out: "outbox s' = outbox ?s @ evs @ failed" "evs \<in> {[], [announce dc_order Charged]}"
      "failed \<in> {[], [ValidationFailed dc_order []]}"
    using validation_all_or_nothing [OF run dc_tables dc_order_facts(1) dc_charge] by blast
  then have "outbox s' = [ValidationSucceeded dc_order, ValidationFailed dc_order []]"
    using seen(1) by (auto simp: announce_def dc_shop_def)
  then show ?thesis using run seen(2,3) by blast
qed

text \<open>
  C35. Validation is not idempotent although its event is delivered at least once: when the answer to
  the first delivery gets lost, the redelivered reservation charges every discount of the order a
  second time, as long as the caps allow it, and announces the order as validated twice.
\<close>

theorem redelivered_reservation_charges_twice:
  assumes "ledger_ready (2 * length (asked_discounts (ro_OrderItems order))) s" "order_counts_ok order"
    and "ro_UserID order \<in> set (userReplicas s)"
    and "set (asked_discounts (ro_OrderItems order)) \<subseteq> dc_ID ` set (discountTable s)"
    and "\<forall>d. used s (ro_UserID order) d + 2 * order_total order d < 2 ^ 62"
    and "\<forall>d m. cap_of d s = Some m \<longrightarrow> used s (ro_UserID order) d + 2 * order_total order d \<le> m"
    and "HandleReservationSucceeded (Some order) s = (r1, s1)" "HandleReservationSucceeded (Some order) s1 = (r2, s2)"
  shows "r1 = Inr () \<and> r2 = Inr () \<and>
    (\<forall>d. used s2 (ro_UserID order) d = used s (ro_UserID order) d + 2 * order_total order d) \<and>
    outbox s2 = outbox s @ [ValidationSucceeded order, ValidationSucceeded order]"
proof -
  let ?u = "ro_UserID order" and ?n = "length (asked_discounts (ro_OrderItems order))"
  have once: "\<exists>t'. validateOrder order t = (Inr (), t') \<and> ledger_ready k t' \<and>
      used t' = (used t)(?u := (\<lambda>d. used t ?u d + order_total order d)) \<and>
      ledger_frame (t\<lparr>outbox := outbox t @ [ValidationSucceeded order]\<rparr>) t'"
    if "ledger_ready (k + ?n) t" "?u \<in> set (userReplicas t)" "set (asked_discounts (ro_OrderItems order)) \<subseteq> dc_ID ` set (discountTable t)"
      "\<forall>d. used t ?u d + order_total order d < 2 ^ 62" "\<forall>d m. cap_of d t = Some m \<longrightarrow> used t ?u d + order_total order d \<le> m"
    for k t
  proof -
    have "charge (\<lambda>d. cap_of d t) order (used t) = (Charged, (used t)(?u := (\<lambda>d. used t ?u d + order_total order d)))"
      using that(5) by (auto simp: charge_def Let_def filter_empty_conv not_less)
    then show ?thesis using validateOrder_charges_ledger [OF that(1) assms(2) that(2-4)] by (simp add: announce_def)
  qed
  have pos: "0 \<le> order_total order d" for d using order_total_range [OF assms(2)] by simp
  have half: "used s ?u d + order_total order d \<le> used s ?u d + 2 * order_total order d" for d using pos by simp
  have a: "ledger_ready (?n + ?n) s" using assms(1) by (simp add: mult_2)
  have b: "\<forall>d. used s ?u d + order_total order d < 2 ^ 62" using assms(5) half by (meson le_less_trans)
  have c: "\<forall>d m. cap_of d s = Some m \<longrightarrow> used s ?u d + order_total order d \<le> m" using assms(6) half by (meson order_trans)
  obtain t1 where t1: "validateOrder order s = (Inr (), t1)" "ledger_ready ?n t1"
      "used t1 = (used s)(?u := (\<lambda>d. used s ?u d + order_total order d))"
      "ledger_frame (s\<lparr>outbox := outbox s @ [ValidationSucceeded order]\<rparr>) t1"
    using once [OF a assms(3,4) b c] by blast
  have same: "userReplicas t1 = userReplicas s" "discountTable t1 = discountTable s" "\<And>d. cap_of d t1 = cap_of d s"
      "outbox t1 = outbox s @ [ValidationSucceeded order]"
    using ledger_frame_same [OF t1(4)] by (simp_all add: cap_of_def)
  obtain t2 where t2: "validateOrder order t1 = (Inr (), t2)"
      "used t2 = (used t1)(?u := (\<lambda>d. used t1 ?u d + order_total order d))"
      "ledger_frame (t1\<lparr>outbox := outbox t1 @ [ValidationSucceeded order]\<rparr>) t2"
    using once [of 0 t1] t1(2,3) assms(3-6) by (auto simp: same algebra_simps)
  have "outbox t2 = outbox s @ [ValidationSucceeded order, ValidationSucceeded order]"
    using ledger_frame_same(4) [OF t2(3)] same by simp
  moreover have "s1 = t1" "s2 = t2" "r1 = Inr ()" "r2 = Inr ()"
    using assms(7,8) t1(1) t2(1) by (auto simp: HandleReservationSucceeded_def)
  ultimately show ?thesis using t1(3) t2(2) by simp
qed

lemma redelivered_reservation_charges_twice_witness:
  "\<exists>s1 s2. HandleReservationSucceeded (Some dc_order) (dc_shop [] []) = (Inr (), s1) \<and>
     HandleReservationSucceeded (Some dc_order) s1 = (Inr (), s2) \<and> used s2 (UUID 1) (UUID 7) = 2 \<and>
     outbox s2 = [ValidationSucceeded dc_order, ValidationSucceeded dc_order]"
proof -
  let ?s = "dc_shop [] []" and ?H = "HandleReservationSucceeded (Some dc_order)"
  obtain r1 s1 where run1: "?H ?s = (r1, s1)" by fastforce
  obtain r2 s2 where run2: "?H s1 = (r2, s2)" by fastforce
  have 1: "ledger_ready (2 * length (asked_discounts (ro_OrderItems dc_order))) ?s"
    unfolding dc_order_facts using dc_tables [of "[]"] by (simp add: ledger_ready_def dc_shop_def upt_rec)
  have 2: "ro_UserID dc_order \<in> set (userReplicas ?s)"
    unfolding dc_order_facts by (simp add: dc_shop_def)
  have 3: "set (asked_discounts (ro_OrderItems dc_order)) \<subseteq> dc_ID ` set (discountTable ?s)"
    unfolding dc_order_facts by (simp add: dc_shop_def dc_row_def)
  have 4: "\<forall>d. used ?s (ro_UserID dc_order) d + 2 * order_total dc_order d < 2 ^ 62"
    by (simp add: dc_used_none dc_order_total)
  have 5: "\<forall>d m. cap_of d ?s = Some m \<longrightarrow> used ?s (ro_UserID dc_order) d + 2 * order_total dc_order d \<le> m"
    by (simp add: dc_used_none dc_order_total dc_cap)
  have out: "outbox ?s = []" by (simp add: dc_shop_def)
  show ?thesis
    using redelivered_reservation_charges_twice [OF 1 dc_order_facts(1) 2 3 4 5 run1 run2] run1 run2
    by (simp add: dc_order_facts dc_used_none dc_order_total out)
qed

end
