(* ===== verification/Discount_Coupons.thy ===== *)
theory Discount_Coupons
  imports Discount_Claims
begin

text \<open>
  The discount service over its whole life: its requests and deliveries as a step relation, the
  factors of discounts and the counters of coupons as invariants of all its runs, and the outcomes of
  registering a coupon.
\<close>

subsection \<open>Requests and deliveries\<close>

text \<open>Everything that writes; \<open>script\<close> lets the outside world change its mind between requests.\<close>

inductive discount_step :: "discount_db \<Rightarrow> discount_db \<Rightarrow> bool" where
  script: "discount_step s (s\<lparr>faults := fs\<rparr>)"
| create_coupon: "CreateCoupon c ci s = (rc, s') \<Longrightarrow> discount_step s s'"
| create_discount: "CreateDiscount c di s = (rd, s') \<Longrightarrow> discount_step s s'"
| register_coupon: "RegisterCoupon c user code s = (rc, s') \<Longrightarrow> discount_step s s'"
| update_coupon: "UpdateCoupon c up s = (rc, s') \<Longrightarrow> discount_step s s'"
| update_discount: "UpdateDiscount c ud s = (rd, s') \<Longrightarrow> discount_step s s'"
| find_applicable: "Query_FindApplicableDiscounts input s = (rf, s') \<Longrightarrow> discount_step s s'"
| reserved: "HandleReservationSucceeded order s = (r, s') \<Longrightarrow> discount_step s s'"
| user_created: "onUserCreated u s = (r, s') \<Longrightarrow> discount_step s s'"
| product_created: "onProductCreated p s = (r, s') \<Longrightarrow> discount_step s s'"
| category_created: "onCategoryCreated u s = (r, s') \<Longrightarrow> discount_step s s'"
| variant_created: "onProductVariantCreated v s = (r, s') \<Longrightarrow> discount_step s s'"

text \<open>
  An invariant that the script cannot break, that every write but the insertion of a discount keeps
  and that \<open>CreateDiscountRow\<close> keeps is kept by every step: the rule both invariants below go through.
\<close>

locale discount_writes = table_invariant I for I :: "discount_db \<Rightarrow> bool" +
  assumes users: "guar (keeping I) (RegisterUser u)"
    and categories: "guar (keeping I) (RegisterCategory u)"
    and variants: "guar (keeping I) (RegisterProductVariant u v)"
    and products: "guar (keeping I) (insert_one DcDbError DcDbError productReplicas productReplicas_update id u)"
    and mapping: "guar (keeping I) (insert_one DcDbError DcDbError productToCategory productToCategory_update id (u, v))"
    and save_discount: "guar (keeping I) (save_discount d)"
    and new_coupon: "guar (keeping I) (insert_coupon cc)"
    and save_coupon: "guar (keeping I) (save_coupon c)"
    and redemption: "guar (keeping I) (insert_redemption u v)"
    and usage: "guar (keeping I) (UpsertDiscountUsage u v n)"
    and categories_of: "guar (keeping I) (insert_reference discountToCategory discountToCategory_update categoryReplicas u v)"
    and products_of: "guar (keeping I) (insert_reference discountToProduct discountToProduct_update productReplicas u v)"
    and variants_of: "guar (keeping I) (insert_reference discountToVariant discountToVariant_update (\<lambda>s. map fst (variantReplicas s)) u v)"
    and no_categories: "guar (keeping I) (remove_reference discountToCategory_update u v)"
    and no_products: "guar (keeping I) (remove_reference discountToProduct_update u v)"
    and no_variants: "guar (keeping I) (remove_reference discountToVariant_update u v)"
begin

lemmas writes = users categories variants products mapping save_discount new_coupon save_coupon redemption usage
  categories_of products_of variants_of no_categories no_products no_variants

lemma collect_keeps: "(\<And>x. guar (keeping I) (f x)) \<Longrightarrow> guar (keeping I) (collect f xs)"
  by (induction xs) (auto intro!: guar_intros)

lemma applicable_keeps: "guar (keeping I) (ApplicableDiscountsForVariant v cs u a t)"
  unfolding ApplicableDiscountsForVariant_def by (intro guar_intros guarI) (simp add: keeping_def)

lemma reads_keep:
  "guar (keeping I) (missingIDs f ids)" "guar (keeping I) (existsByID f i)" "guar (keeping I) (getDiscountTx i)"
  "guar (keeping I) (GetCoupon i)" "guar (keeping I) (readAppliesTo i)" "guar (keeping I) (requireEmployee c)"
  "guar (keeping I) (requireSelfOrEmployee_dc c i)" "guar (keeping I) (CouponsByIDs ids)"
  "guar (keeping I) (DiscountsByIDs ids)" "guar (keeping I) (RemainingUsages i ds)"
  unfolding missingIDs_def existsByID_def getDiscountTx_def GetCoupon_def readAppliesTo_def requireEmployee_def
    requireSelfOrEmployee_dc_def CouponsByIDs_def DiscountsByIDs_def RemainingUsages_def
  by (intro guar_intros)+

lemmas keeps = guar_intros writes reads_keep collect_keeps applicable_keeps

lemma store_keeps:
  "guar (keeping I) (RegisterProduct i cats)" "guar (keeping I) (UpdateDiscountRow udp)"
  "guar (keeping I) (CreateCouponRow ccp)" "guar (keeping I) (UpdateCouponRow ucp)" "guar (keeping I) (RegisterCouponRow code u t)"
  unfolding RegisterProduct_def UpdateDiscountRow_def CreateCouponRow_def UpdateCouponRow_def
    RegisterCouponRow_def ensureEntitiesExist_def addAppliedToReferences_def Let_def
  by (intro keeps)+

lemma create_keeps:
  assumes "f64_ge (cdp_Discount cdp) (Fin 0 0) \<Longrightarrow> f64_ge (Fin 1 0) (cdp_Discount cdp) \<Longrightarrow>
    guar (keeping I) (insert_discount cdp)"
  shows "guar (keeping I) (CreateDiscountRow cdp)"
  unfolding CreateDiscountRow_def ensureEntitiesExist_def addAppliedToReferences_def Let_def
  by (intro keeps assms; simp)

end

locale discount_invariant = discount_writes I for I :: "discount_db \<Rightarrow> bool" +
  assumes create: "guar (keeping I) (CreateDiscountRow cdp)"
begin

lemma requests_keep:
  "guar (keeping I) (CreateCoupon c ci)" "guar (keeping I) (CreateDiscount c di)" "guar (keeping I) (RegisterCoupon c u code)"
  "guar (keeping I) (UpdateCoupon c up)" "guar (keeping I) (UpdateDiscount c ud)"
  "guar (keeping I) (Query_FindApplicableDiscounts input)" "guar (keeping I) (HandleReservationSucceeded order)"
  "guar (keeping I) (onUserCreated ou)" "guar (keeping I) (onProductCreated op)" "guar (keeping I) (onCategoryCreated ou)"
  "guar (keeping I) (onProductVariantCreated ov)"
  unfolding CreateCoupon_def CreateDiscount_def RegisterCoupon_def UpdateCoupon_def UpdateDiscount_def
    Query_FindApplicableDiscounts_def findApplicableDiscounts_def MissingProductVariants_def HandleReservationSucceeded_def
    validateOrder_def validateOrderInternal_def RunInTx_def PublishCouponCreated_def PublishCouponUpdated_def
    PublishDiscountCreated_def PublishDiscountUpdated_def PublishValidationFailed_def PublishValidationSucceeded_def
    onUserCreated_def onProductCreated_def onCategoryCreated_def onProductVariantCreated_def Let_def
  by (intro keeps store_keeps create)+

lemma step_keeps: "discount_step s s' \<Longrightarrow> I s \<Longrightarrow> I s'"
  by (induction rule: discount_step.induct)
    (use requests_keep [THEN guarD] in \<open>auto simp: keeping_def\<close>)

lemma steps_keep: "discount_step\<^sup>*\<^sup>* s s' \<Longrightarrow> I s \<Longrightarrow> I s'"
  by (induction rule: rtranclp_induct) (auto intro: step_keeps)

end

text \<open>In particular one that inserting a discount keeps, too.\<close>

locale discount_inserts = discount_writes I for I :: "discount_db \<Rightarrow> bool" +
  assumes new_discount: "guar (keeping I) (insert_discount cdp)"

sublocale discount_inserts \<subseteq> discount_invariant I
proof
  show "guar (keeping I) (CreateDiscountRow cdp)" for cdp by (rule create_keeps) (rule new_discount)
qed

subsection \<open>The counters of coupons\<close>

definition redeemed :: "discount_db \<Rightarrow> uuid \<Rightarrow> nat" where
  "redeemed s c = length (filter (\<lambda>r. fst r = c) (redemptionTable s))"

definition coupon_books :: "discount_db \<Rightarrow> bool" where
  "coupon_books s \<longleftrightarrow> distinct (map cp_ID (couponTable s)) \<and> distinct (redemptionTable s) \<and>
     fst ` set (redemptionTable s) \<subseteq> cp_ID ` set (couponTable s) \<and>
     (\<forall>c \<in> set (couponTable s). cp_Usages c = int (redeemed s (cp_ID c)))"

lemma coupon_books_tables:
  "couponTable s = couponTable t \<Longrightarrow> redemptionTable s = redemptionTable t \<Longrightarrow> coupon_books s = coupon_books t"
  by (simp add: coupon_books_def redeemed_def)

lemma coupon_books_new:
  assumes "coupon_books s" "cp_ID c \<notin> cp_ID ` set (couponTable s)" "cp_Usages c = 0"
  shows "coupon_books (couponTable_update (\<lambda>rows. rows @ [c]) s)"
proof -
  have "redeemed s (cp_ID c) = 0"
    using assms(1,2) by (fastforce simp: redeemed_def coupon_books_def filter_empty_conv)
  then show ?thesis using assms by (auto simp: coupon_books_def redeemed_def)
qed

lemma coupon_books_save:
  assumes "coupon_books s" "\<And>c. cp_ID (f c) = cp_ID c" "\<And>c. cp_Usages (f c) = cp_Usages c"
  shows "coupon_books (couponTable_update (map_all P f) s)"
proof -
  have "map cp_ID (map_all P f cs) = map cp_ID cs" for cs by (rule map_map_all) (rule assms(2))
  then have "distinct (map cp_ID (map_all P f (couponTable s)))" "cp_ID ` set (map_all P f (couponTable s)) = cp_ID ` set (couponTable s)"
    using assms(1) by (simp_all add: coupon_books_def) (metis set_map)
  then show ?thesis using assms by (auto simp: coupon_books_def redeemed_def set_map_all)
qed

lemma coupon_books_redeem:
  assumes "coupon_books s" "find (\<lambda>c. cp_ID c = i) (couponTable s) = Some c" "(i, u) \<notin> set (redemptionTable s)"
  shows "coupon_books (s\<lparr>couponTable := map_all (\<lambda>c. cp_ID c = i) (\<lambda>r. r\<lparr>cp_Usages := cp_Usages c + 1\<rparr>) (couponTable s),
    redemptionTable := redemptionTable s @ [(i, u)]\<rparr>)"
proof -
  have c: "c \<in> set (couponTable s)" "cp_ID c = i" using find_Some_in [OF assms(2)] by auto
  let ?cs = "map_all (\<lambda>c. cp_ID c = i) (\<lambda>r. r\<lparr>cp_Usages := cp_Usages c + 1\<rparr>) (couponTable s)"
  have ids: "map cp_ID ?cs = map cp_ID (couponTable s)" by (rule map_map_all) simp
  have "cp_ID ` set ?cs = cp_ID ` set (couponTable s)" using arg_cong [OF ids, of set] by simp
  moreover have "distinct (map cp_ID ?cs)" using ids assms(1) by (simp add: coupon_books_def)
  moreover have "cp_Usages c = int (redeemed s i)" using assms(1) c by (auto simp: coupon_books_def)
  ultimately show ?thesis using assms(1,3) c by (auto simp: coupon_books_def redeemed_def set_map_all)
qed

lemma usage_tables:
  "usage_writes s s' \<Longrightarrow> couponTable s' = couponTable s \<and> redemptionTable s' = redemptionTable s"
  by (cases s; cases s') (auto simp: usage_writes_def)

interpretation books: table_invariant coupon_books
proof
  fix s t :: discount_db
  assume "io.more s = io.more t"
  then show "coupon_books s = coupon_books t" by (cases s; cases t; intro coupon_books_tables; simp)
qed

text \<open>Writes of other tables leave the books alone.\<close>

lemma books_apart:
  assumes "\<And>s. couponTable (upd f s) = couponTable s" "\<And>s. redemptionTable (upd f s) = redemptionTable s"
  shows "keeping coupon_books s (upd f s)"
  using coupon_books_tables [of "upd f s" s] assms by (simp add: keeping_def)

interpretation books_inv: discount_inserts coupon_books
proof
  show "guar (keeping coupon_books) (UpsertDiscountUsage u v n)" for u v n
    unfolding UpsertDiscountUsage_def Let_def
    by (intro books.guar_ext guarI) (auto simp: keeping_def coupon_books_def redeemed_def split: option.split)
  show "guar (keeping coupon_books) (insert_coupon cc)" for cc
    unfolding insert_coupon_def by (intro books.guar_pg_generated) (auto simp: keeping_def intro: coupon_books_new)
  show "guar (keeping coupon_books) (save_coupon c)" for c
    unfolding save_coupon_def by (intro books.guar_pg_insert) (auto simp: keeping_def intro: coupon_books_save)
  show "guar (keeping coupon_books) (insert_redemption u v)" for u v
    unfolding insert_redemption_def Let_def
    by (intro books.guar_ext guarI) (auto simp: keeping_def split: option.splits intro: coupon_books_redeem)
qed (unfold RegisterUser_def RegisterCategory_def RegisterProductVariant_def insert_discount_def save_discount_def
    insert_reference_def remove_reference_def,
  (intro books.guar_insert_one books.guar_pg_generated books.guar_pg_insert books.guar_ext books.guar_modify books_apart; simp)+)

text \<open>
  C25. In every reachable state, whatever was asked, delivered or lost, the counter of each coupon is
  exactly the number of users who redeemed it, no user redeemed it twice, and only existing coupons were
  redeemed.
\<close>

theorem coupon_counters_exact:
  assumes "discount_step\<^sup>*\<^sup>* s s'" "coupon_books s" "c \<in> set (couponTable s')"
  shows "cp_Usages c = int (card {u. (cp_ID c, u) \<in> set (redemptionTable s')}) \<and>
    fst ` set (redemptionTable s') \<subseteq> cp_ID ` set (couponTable s')"
proof -
  have books: "coupon_books s'" by (rule books_inv.steps_keep [OF assms(1,2)])
  have "{u. (cp_ID c, u) \<in> set (redemptionTable s')} = snd ` set (filter (\<lambda>r. fst r = cp_ID c) (redemptionTable s'))" by force
  then have "card {u. (cp_ID c, u) \<in> set (redemptionTable s')} = card (set (filter (\<lambda>r. fst r = cp_ID c) (redemptionTable s')))"
    by (simp only:) (rule card_image, auto simp: inj_on_def)
  also have "\<dots> = redeemed s' (cp_ID c)"
    using books unfolding redeemed_def coupon_books_def by (intro distinct_card) simp
  finally show ?thesis using books assms(3) by (simp add: coupon_books_def)
qed

subsection \<open>The factors of discounts\<close>

text \<open>
  The column of the factor has no constraint and no update writes it: what keeps it a fraction are
  the two checks before the row is inserted. So this invariant is not kept by every write, only by
  \<open>CreateDiscountRow\<close> as a whole.
\<close>

definition fraction :: "f64 \<Rightarrow> bool" where
  "fraction x \<longleftrightarrow> f64_ge x (Fin 0 0) \<and> f64_ge (Fin 1 0) x"

definition fractions :: "discount_db \<Rightarrow> bool" where
  "fractions s \<longleftrightarrow> list_all (\<lambda>d. fraction (dc_Discount d)) (discountTable s)"

lemma fractions_table: "discountTable s = discountTable t \<Longrightarrow> fractions s = fractions t"
  by (simp add: fractions_def)

interpretation factors: table_invariant fractions
proof
  fix s t :: discount_db
  assume "io.more s = io.more t"
  then show "fractions s = fractions t" by (cases s; cases t; intro fractions_table; simp)
qed

lemma factors_apart: "(\<And>s. discountTable (upd f s) = discountTable s) \<Longrightarrow> keeping fractions s (upd f s)"
  using fractions_table [of "upd f s" s] by (simp add: keeping_def)

interpretation factor_writes: discount_writes fractions
proof
  show "guar (keeping fractions) (UpsertDiscountUsage u v n)" for u v n
    unfolding UpsertDiscountUsage_def Let_def
    by (intro factors.guar_ext guarI) (auto simp: keeping_def fractions_def split: option.split)
  show "guar (keeping fractions) (save_discount d)" for d
    unfolding save_discount_def
    by (intro factors.guar_pg_insert) (auto simp: keeping_def fractions_def list_all_iff set_map_all)
  show "guar (keeping fractions) (insert_redemption u v)" for u v
    unfolding insert_redemption_def Let_def
    by (intro factors.guar_ext guarI) (auto simp: keeping_def fractions_def split: option.splits)
qed (unfold RegisterUser_def RegisterCategory_def RegisterProductVariant_def insert_coupon_def save_coupon_def
    insert_reference_def remove_reference_def,
  (intro factors.guar_insert_one factors.guar_pg_generated factors.guar_pg_insert factors.guar_ext factors.guar_modify
    factors_apart; simp)+)

lemma insert_fraction: "fraction (cdp_Discount cd) \<Longrightarrow> guar (keeping fractions) (insert_discount cd)"
  unfolding insert_discount_def by (intro factors.guar_pg_generated) (simp add: keeping_def fractions_def)

interpretation factors_inv: discount_invariant fractions
proof
  show "guar (keeping fractions) (CreateDiscountRow cdp)" for cdp
    by (rule factor_writes.create_keeps) (simp add: insert_fraction fraction_def)
qed

subsection \<open>Registering a coupon\<close>

text \<open>What a caller gets at instant \<open>t\<close>, told by the books: the coupon with its new count, or the first obstacle.\<close>

definition registration :: "ctx \<Rightarrow> uuid \<Rightarrow> string \<Rightarrow> time \<Rightarrow> discount_db \<Rightarrow> discount_err + CouponRow" where
  "registration c user code t s =
     (case c of
        None \<Rightarrow> Inl DcUnauthorized
      | Some u \<Rightarrow>
          if user_ID u \<noteq> user \<and> \<not> IsEmployeeOrAdmin c then Inl (DcNotEmployee (user_ID u))
          else (case find (\<lambda>r. cp_Code r = code) (couponTable s) of
             None \<Rightarrow> Inl (CodeUnknown code)
           | Some r \<Rightarrow>
               if t \<le> cp_ValidFrom r \<or> cp_ValidUntil r \<le> t then Inl (CodeNotValid code)
               else if 2 ^ 31 - 1 \<le> redeemed s (cp_ID r) then Inl DcDbError
               else if (case cp_MaxUsages r of None \<Rightarrow> False | Some cap \<Rightarrow> cap \<le> int (redeemed s (cp_ID r))) then Inl CouponUsedTooOften
               else if (cp_ID r, user) \<in> set (redemptionTable s) \<or> user \<notin> set (userReplicas s) then Inl DcDbError
               else Inr (r\<lparr>cp_Usages := int (redeemed s (cp_ID r)) + 1\<rparr>)))"

lemma map_all_by_key: "distinct (map key ds) \<Longrightarrow> d \<in> set ds \<Longrightarrow>
    map_all (\<lambda>r. key r = key d) f ds = map (\<lambda>r. if key r = key d then f d else r) ds"
  unfolding map_all_def by (rule map_cong) (auto simp: distinct_map inj_on_def)

lemma insert_redemption_run:
  assumes "faults s = []" "coupon_books s" "r \<in> set (couponTable s)"
  shows "insert_redemption (cp_ID r) user s =
    (if 2 ^ 31 - 1 \<le> redeemed s (cp_ID r) then (Inl DcDbError, s)
     else if (case cp_MaxUsages r of None \<Rightarrow> False | Some cap \<Rightarrow> cap \<le> int (redeemed s (cp_ID r))) then (Inl CouponUsedTooOften, s)
     else if (cp_ID r, user) \<in> set (redemptionTable s) \<or> user \<notin> set (userReplicas s) then (Inl DcDbError, s)
     else (Inr (), s\<lparr>couponTable := map (\<lambda>x. if cp_ID x = cp_ID r then r\<lparr>cp_Usages := int (redeemed s (cp_ID r)) + 1\<rparr> else x) (couponTable s),
        redemptionTable := redemptionTable s @ [(cp_ID r, user)]\<rparr>))"
proof -
  have books: "distinct (map cp_ID (couponTable s))" "cp_Usages r = int (redeemed s (cp_ID r))"
    using assms(2,3) by (auto simp: coupon_books_def)
  have width: "int4 (int n + 1) \<longleftrightarrow> \<not> 2 ^ 31 - 1 \<le> n" for n by (simp add: int4_def) arith
  show ?thesis
    using books assms(1,3) unfolding insert_redemption_def
    by (simp add: run_simps find_by_key map_all_by_key width Let_def del: not_le split: option.split)
qed

lemma find_mapped_row:
  "distinct (map key ds) \<Longrightarrow> d \<in> set ds \<Longrightarrow> key d' = key d \<Longrightarrow>
     find (\<lambda>r. key r = key d) (map (\<lambda>r. if key r = key d then d' else r) ds) = Some d'"
  by (induction ds) (auto simp: image_iff)

lemma RegisterCouponRow_run:
  assumes "faults s = []" "coupon_books s" "find (\<lambda>r. cp_Code r = code) (couponTable s) = Some r"
  shows "RegisterCouponRow code user t s =
    (if t \<le> cp_ValidFrom r \<or> cp_ValidUntil r \<le> t then (Inl (CodeNotValid code), s)
     else case insert_redemption (cp_ID r) user s of
        (Inl e, _) \<Rightarrow> (Inl e, s)
      | (Inr _, s1) \<Rightarrow> (Inr (r\<lparr>cp_Usages := int (redeemed s (cp_ID r)) + 1\<rparr>), s1))"
proof -
  have r: "r \<in> set (couponTable s)" "distinct (map cp_ID (couponTable s))"
    using find_Some_in [OF assms(3)] assms(2) by (auto simp: coupon_books_def)
  have undo: "restore s s = s" by (cases s) (simp add: restore_def)
  note ins = insert_redemption_run [OF assms(1,2) r(1), of user]
  show ?thesis
  proof (cases "insert_redemption (cp_ID r) user s")
    case (Pair res s1)
    show ?thesis
    proof (cases res)
      case (Inl e)
      then have "insert_redemption (cp_ID r) user s = (Inl e, s)" using ins Pair by (auto split: if_splits)
      then show ?thesis using assms(1,3)
        by (simp add: RegisterCouponRow_def transaction_def find_one_def run_simps run_andThen undo not_less)
    next
      case (Inr x)
      then have s1: "s1 = s\<lparr>couponTable := map (\<lambda>x. if cp_ID x = cp_ID r then r\<lparr>cp_Usages := int (redeemed s (cp_ID r)) + 1\<rparr> else x) (couponTable s),
          redemptionTable := redemptionTable s @ [(cp_ID r, user)]\<rparr>"
        using ins Pair by (auto split: if_splits)
      then have "GetCoupon (cp_ID r) s1 = (Inr (r\<lparr>cp_Usages := int (redeemed s (cp_ID r)) + 1\<rparr>), s1)"
        using assms(1) find_mapped_row [OF r(2,1)] by (simp add: GetCoupon_def find_one_def run_simps)
      then show ?thesis using assms(1,3) Pair Inr s1
        by (simp add: RegisterCouponRow_def transaction_def find_one_def run_simps run_andThen undo not_less)
    qed
  qed
qed

text \<open>
  C26. Registering a coupon code, when every call is answered: the reply is the coupon with its new
  count or the first obstacle in the code's order, the table gets exactly that row and that redemption or
  nothing at all, and nothing is announced.
\<close>

theorem registerCoupon_outcomes:
  assumes "faults s = []" "coupon_books s" "RegisterCoupon c user code s = (res, s')"
  shows "res = map_sum id toCoupon (registration c user code (clock s (reads s)) s) \<and> outbox s' = outbox s \<and>
    couponTable s' = (case registration c user code (clock s (reads s)) s of Inl _ \<Rightarrow> couponTable s
      | Inr r \<Rightarrow> map (\<lambda>x. if cp_ID x = cp_ID r then r else x) (couponTable s)) \<and>
    redemptionTable s' = redemptionTable s @
      (case registration c user code (clock s (reads s)) s of Inl _ \<Rightarrow> [] | Inr r \<Rightarrow> [(cp_ID r, user)])"
proof (cases "c = None \<or> (\<exists>u. c = Some u \<and> user_ID u \<noteq> user \<and> \<not> IsEmployeeOrAdmin c)")
  case True
  then show ?thesis using assms(3)
    by (auto simp: RegisterCoupon_def registration_def requireSelfOrEmployee_dc_def FromContext_def run_simps run_andThen)
next
  case False
  then obtain u where u: "c = Some u" "user_ID u = user \<or> IsEmployeeOrAdmin (Some u)" by auto
  let ?s = "s\<lparr>reads := Suc (reads s)\<rparr>" and ?t = "clock s (reads s)"
  have run: "RegisterCoupon c user code s = andThen (RegisterCouponRow code user ?t) (\<lambda>r. ret (toCoupon r)) ?s"
    using u by (auto simp: RegisterCoupon_def requireSelfOrEmployee_dc_def FromContext_def run_simps run_andThen)
  have quiet: "faults ?s = []" "coupon_books ?s" "\<And>i. redeemed ?s i = redeemed s i"
    using assms(1,2) by (simp_all add: coupon_books_def redeemed_def)
  show ?thesis
  proof (cases "find (\<lambda>r. cp_Code r = code) (couponTable s)")
    case None
    then show ?thesis using assms(3) u quiet(1) unfolding run RegisterCouponRow_def
      by (auto simp: registration_def transaction_def find_one_def restore_def run_simps run_andThen)
  next
    case (Some r)
    then have r: "r \<in> set (couponTable ?s)" "find (\<lambda>r. cp_Code r = code) (couponTable ?s) = Some r"
      using find_Some_in [OF Some] by simp_all
    show ?thesis using assms(3) u Some
      unfolding run run_andThen RegisterCouponRow_run [OF quiet(1,2) r(2)] insert_redemption_run [OF quiet(1,2) r(1)] quiet(3)
      by (auto simp: registration_def run_ret split: if_splits)
  qed
qed

subsection \<open>A shop with a coupon for one\<close>

definition dc_coupons :: discount_db where
  "dc_coupons = (dc_shop [] [])\<lparr>couponTable := [\<lparr>cp_ID = UUID 8, cp_Usages = 0, cp_MaxUsages = Some 1, cp_ValidFrom = 0,
     cp_ValidUntil = 10 ^ 12, cp_Code = ''SAVE'', cp_DiscountID = UUID 7\<rparr>]\<rparr>"

definition dc_buyer :: ctx where
  "dc_buyer = Some \<lparr>user_ID = UUID 1, user_Roles = []\<rparr>"

definition dc_registered :: discount_db where
  "dc_registered = snd (RegisterCoupon dc_buyer (UUID 1) ''SAVE'' dc_coupons)"

lemma dc_coupons_ok: "coupon_books dc_coupons"
  by code_simp

lemma dc_registered_step: "discount_step\<^sup>*\<^sup>* dc_coupons dc_registered"
  unfolding dc_registered_def by (intro r_into_rtranclp) (rule discount_step.register_coupon, rule prod.collapse [symmetric])

lemma dc_registered_tables:
  "map cp_Usages (couponTable dc_registered) = [1]" "redemptionTable dc_registered = [(UUID 8, UUID 1)]"
  by code_simp+

lemma coupon_counters_exact_witness:
  "list_all (\<lambda>c. cp_Usages c = int (card {u. (cp_ID c, u) \<in> set (redemptionTable dc_registered)})) (couponTable dc_registered)"
  using coupon_counters_exact [OF dc_registered_step dc_coupons_ok] by (simp add: list_all_iff)

lemma registerCoupon_outcomes_witness:
  "redemptionTable (snd (RegisterCoupon dc_buyer (UUID 1) ''SAVE'' dc_coupons)) =
     redemptionTable dc_coupons @ (case registration dc_buyer (UUID 1) ''SAVE'' 5000000 dc_coupons of
        Inl _ \<Rightarrow> [] | Inr r \<Rightarrow> [(cp_ID r, UUID 1)])"
proof -
  have quiet: "faults dc_coupons = []" "clock dc_coupons (reads dc_coupons) = 5000000" by code_simp+
  show ?thesis
    using registerCoupon_outcomes [OF quiet(1) dc_coupons_ok prod.collapse [symmetric], of dc_buyer "UUID 1" "''SAVE''"] quiet(2)
    by simp
qed

end
