(* ===== verification/Order_Discount.thy ===== *)
theory Order_Discount
  imports Discount_Coupons Order_Claims
begin

text \<open>
  The order service and the discount service together: what an order records when the discount
  service answers \<open>queryDiscountsByProductVariantIDs\<close> from a state it can reach.
\<close>

subsection \<open>The request and the answer\<close>

text \<open>
  The variables of \<open>queryDiscounts\<close> as the discount service's input, and of its result the fields
  the query selects. A count or an amount beyond 63 bits is refused before it reaches the resolver: such a
  request has no answer with data.
\<close>

definition find_input :: "discountRequest \<Rightarrow> FindInput" where
  "find_input req = \<lparr>fi_UserID = dr_UserID req, fi_OrderAmount = uint (dr_OrderAmount req),
     fi_ProductVariants = map (\<lambda>(i, n, cs). \<lparr>vi_ProductVariantID = i, vi_Count = uint n, vi_CouponIds = cs\<rparr>)
       (dr_ProductVariants req)\<rparr>"

definition selected :: "DiscountsForVariant \<Rightarrow> applicableDiscounts" where
  "selected r = \<lparr>ad_ProductVariantID = dv_ProductVariantID r,
     ad_Discounts = map (\<lambda>d. (gd_ID (toDiscount d), gd_Discount (toDiscount d))) (dv_Discounts r)\<rparr>"

lemma fraction_iff [simp]: "fraction x \<longleftrightarrow> unit_factor x"
  by (auto simp: fraction_def unit_factor_def f64_ge_def)

lemma filter_all_applicable:
  "filter_all rows rem cps = Inr rs \<Longrightarrow> r \<in> set rs \<Longrightarrow>
    \<exists>(ds, pv) \<in> set rows. dv_ProductVariantID r = vi_ProductVariantID pv \<and> set (dv_Discounts r) \<subseteq> set ds"
proof (induction rows rem cps arbitrary: rs rule: filter_all.induct)
  case (2 ds pv rest rem cps)
  then obtain r0 rem' rs' where step: "filterApplicableDiscounts ds rem pv cps = (Inr r0, rem')"
      "filter_all rest rem' cps = Inr rs'" "rs = r0 # rs'"
    by (auto split: prod.splits sum.splits)
  from step(1) have "dv_ProductVariantID r0 = vi_ProductVariantID pv" "set (dv_Discounts r0) \<subseteq> set ds"
    by (auto simp: filterApplicableDiscounts_def Let_def split: option.splits)
  moreover have "r \<in> set rs' \<Longrightarrow> \<exists>(ds, pv) \<in> set rest. dv_ProductVariantID r = vi_ProductVariantID pv \<and>
      set (dv_Discounts r) \<subseteq> set ds"
    using "2.IH" step(1,2) by simp
  ultimately show ?case using "2.prems"(2) step(3) by auto
qed simp

text \<open>A row a user may get for a variant.\<close>

definition may_get :: "discount_db \<Rightarrow> uuid \<Rightarrow> uuid \<Rightarrow> DiscountRow \<Rightarrow> bool" where
  "may_get s user variant r \<longleftrightarrow> r \<in> set (discountTable s) \<and> appliesCondition variant s r \<and>
     (noCouponsCondition s r \<or> userHasCouponForDiscountCondition user s r)"

lemma applicable_may_get: "r \<in> set (applicable_rows v cs u a t s) \<Longrightarrow> may_get s u v r"
  by (auto simp: may_get_def applicable_rows_def userHasCouponFromListCondition_def userHasCouponForDiscountCondition_def)

lemma found_may_get:
  assumes "Query_FindApplicableDiscounts input s = (Inr rs, s')" "r \<in> set rs" "d \<in> set (dv_Discounts r)"
  shows "may_get s (fi_UserID input) (dv_ProductVariantID r) d"
proof -
  let ?rows = "\<lambda>t pv. applicable_rows (vi_ProductVariantID pv) (uniqueUUIDs (vi_CouponIds pv)) (fi_UserID input)
    (fi_OrderAmount input) t s"
  obtain t rem cps where
      "filter_all (zip (map (?rows t) (fi_ProductVariants input)) (fi_ProductVariants input)) rem cps = Inr rs"
    by (rule findApplicableDiscounts_run [OF assms(1) [unfolded Query_FindApplicableDiscounts_def]])
      (simp add: Let_def)
  from filter_all_applicable [OF this assms(2)] obtain pv :: VariantInput where
      "dv_ProductVariantID r = vi_ProductVariantID pv" "set (dv_Discounts r) \<subseteq> set (?rows t pv)"
    by (simp add: zip_map1 zip_same_conv_map) blast
  then show ?thesis using assms(3) applicable_may_get by fastforce
qed

lemma granted_selected:
  assumes "map_of (granted_of (map selected rs)) i = Some ds" "d \<in> set ds"
  obtains r row where "r \<in> set rs" "dv_ProductVariantID r = i" "row \<in> set (dv_Discounts r)"
    "dc_ID row = od_ID d" "dc_Discount row = od_Discount d"
proof -
  obtain r where "r \<in> set rs" "dv_ProductVariantID r = i"
      "ds = map (\<lambda>row. \<lparr>od_ID = dc_ID row, od_Discount = dc_Discount row\<rparr>) (dv_Discounts r)"
    using map_of_SomeD [of "rev (map (\<lambda>d. (ad_ProductVariantID d, map (\<lambda>(i, x). \<lparr>od_ID = i, od_Discount = x\<rparr>)
        (ad_Discounts d))) (map selected rs))" i ds] assms(1)
    by (auto simp: granted_of_def map_of_gomap_of selected_def toDiscount_def comp_def)
  then show thesis using assms(2) that by auto
qed

subsection \<open>Orders record what the discount service has\<close>

lemma item_discounts:
  assumes "item_sound D inputs cart stock req (granted_of (map selected rs)) s t it"
    and "Query_FindApplicableDiscounts (find_input req) ds = (Inr rs, ds')" "fractions ds" "d \<in> set (oi_InternalDiscounts it)"
  shows "unit_factor (od_Discount d)"
    and "\<exists>r. may_get ds (dr_UserID req) (pv_ID (oi_ProductVariant it)) r \<and> dc_ID r = od_ID d \<and> dc_Discount r = od_Discount d"
proof -
  obtain granted where "map_of (granted_of (map selected rs)) (pv_ID (oi_ProductVariant it)) = Some granted" "d \<in> set granted"
    using assms(1,4) by (auto simp: item_sound_def)
  then obtain r row where r: "r \<in> set rs" "dv_ProductVariantID r = pv_ID (oi_ProductVariant it)" "row \<in> set (dv_Discounts r)"
      "dc_ID row = od_ID d" "dc_Discount row = od_Discount d"
    by (rule granted_selected)
  have may: "may_get ds (dr_UserID req) (pv_ID (oi_ProductVariant it)) row"
    using found_may_get [OF assms(2) r(1,3)] r(2) by (simp add: find_input_def)
  then show "\<exists>r. may_get ds (dr_UserID req) (pv_ID (oi_ProductVariant it)) r \<and> dc_ID r = od_ID d \<and> dc_Discount r = od_Discount d"
    using r(4,5) by blast
  have "row \<in> set (discountTable ds)" using may by (simp add: may_get_def)
  then show "unit_factor (od_Discount d)"
    using assms(3) r(5) by (auto simp: fractions_def list_all_iff)
qed

text \<open>
  C24. The two services agree on what a buyer gets back. Let the discount service start with factors
  between 0 and 1 and live through any requests, deliveries and failures, and let every answer the
  order service receives from it be the answer of \<open>findApplicableDiscounts\<close> in a state it reached.
  Then in every order created, each discount recorded on an item is a stored discount of that state,
  with its factor, that applies to the item's variant and needs no coupon or one the buyer has
  registered; and the compensatable amount of the item is the rounded-down product, in 64-bit floats,
  of the price and these factors and never more than the price.
\<close>

theorem orders_never_overcompensate:
  assumes "CreateOrder D marshal c input s = (Inr g, s')" "runtime_ok D" "fractions ds0"
    and "\<And>req found. ask_discount D req = Reply [] (Data found) \<Longrightarrow>
      \<exists>ds rs ds'. discount_step\<^sup>*\<^sup>* ds0 ds \<and> Query_FindApplicableDiscounts (find_input req) ds = (Inr rs, ds') \<and>
        found = map selected rs"
  shows "\<exists>ds i t items. discount_step\<^sup>*\<^sup>* ds0 ds \<and> orders s' = orders s @ [bson_order (newOrder input i t items)] \<and>
    (\<forall>it \<in> set items.
       (\<forall>d \<in> set (oi_InternalDiscounts it). \<exists>r. may_get ds (coi_UserID input) (pv_ID (oi_ProductVariant it)) r \<and>
          dc_ID r = od_ID d \<and> dc_Discount r = od_Discount d) \<and>
       unat (oi_CompensatableAmount it) \<le> unat (pvv_Price (oi_ProductVariantVersion it)) \<and>
       (\<exists>q e. foldl (\<lambda>p d. f64_mul p (od_Discount d)) (f64_of_int (uint (pvv_Price (oi_ProductVariantVersion it))))
            (oi_InternalDiscounts it) = Fin q e \<and>
          uint (oi_CompensatableAmount it) = \<lfloor>fin_val q e\<rfloor>))"
proof -
  obtain i t items nodes stock req found where c: "orders s' = orders s @ [bson_order (newOrder input i t items)]"
      "ask_discount D req = Reply [] (Data found)" "dr_UserID req = coi_UserID input"
      "\<forall>it \<in> set items. item_sound D (dedupeOrderItemInputs (coi_OrderItemInputs input)) (cart_of nodes) stock req
         (granted_of found) s t it"
    using CreateOrder_sound [OF assms(1,2)] by (elim exE conjE) (rule that)
  obtain ds rs ds' where d: "discount_step\<^sup>*\<^sup>* ds0 ds" "Query_FindApplicableDiscounts (find_input req) ds = (Inr rs, ds')"
      "found = map selected rs"
    using assms(4) [OF c(2)] by (elim exE conjE) (rule that)
  have fr: "fractions ds" by (rule factors_inv.steps_keep [OF d(1) assms(3)])
  have "(\<forall>x \<in> set (oi_InternalDiscounts it). \<exists>r. may_get ds (coi_UserID input) (pv_ID (oi_ProductVariant it)) r \<and>
          dc_ID r = od_ID x \<and> dc_Discount r = od_Discount x) \<and>
       unat (oi_CompensatableAmount it) \<le> unat (pvv_Price (oi_ProductVariantVersion it)) \<and>
       (\<exists>q e. foldl (\<lambda>p d. f64_mul p (od_Discount d)) (f64_of_int (uint (pvv_Price (oi_ProductVariantVersion it))))
            (oi_InternalDiscounts it) = Fin q e \<and> uint (oi_CompensatableAmount it) = \<lfloor>fin_val q e\<rfloor>)"
    if "it \<in> set items" for it
  proof -
    note sound = c(4) [THEN bspec, OF that, unfolded d(3)]
    have "oi_CompensatableAmount it = calculateCompensatableAmount D (oi_ProductVariantVersion it) (oi_InternalDiscounts it)"
      using sound by (simp add: item_sound_def)
    then show ?thesis
      using item_discounts [OF sound d(2) fr] compensatable_bound [of "oi_InternalDiscounts it" D "oi_ProductVariantVersion it"]
        c(3) by simp
  qed
  then show ?thesis using c(1) d(1) by blast
qed

text \<open>A discount of a quarter with a coupon for it: the buyer registers the coupon and orders with it.\<close>

definition od_start :: discount_db where
  "od_start = (dc_shop [] [])\<lparr>
     discountTable := [\<lparr>dc_ID = UUID 40, dc_Discount = Fin 3 (-2), dc_MaxUsagesPerUser = Some 5, dc_ValidFrom = 0,
       dc_ValidUntil = 10 ^ 12, dc_MinOrderAmount = None\<rparr>],
     couponTable := [\<lparr>cp_ID = UUID 50, cp_Usages = 0, cp_MaxUsages = Some 1, cp_ValidFrom = 0,
       cp_ValidUntil = 10 ^ 12, cp_Code = ''SAVE'', cp_DiscountID = UUID 40\<rparr>],
     variantReplicas := [(UUID 20, UUID 3)], discountToProduct := [(UUID 40, UUID 3)]\<rparr>"

definition od_registered :: discount_db where
  "od_registered = snd (RegisterCoupon dc_buyer (UUID 1) ''SAVE'' od_start)"

definition od_downstream :: downstream where
  "od_downstream = demo_downstream\<lparr>ask_discount := (\<lambda>req.
     case fst (Query_FindApplicableDiscounts (find_input req) od_registered) of
       Inr rs \<Rightarrow> Reply [] (Data (map selected rs)) | Inl e \<Rightarrow> Reply [''error''] NullData)\<rparr>"

definition od_created :: "(order_err + GOrder) \<times> order_db" where
  "od_created = CreateOrder od_downstream (\<lambda>u. ''h'') demo_caller demo_input demo_shop"

lemma od_created_run:
  "(case od_created of
      (Inr g, s') \<Rightarrow> map (\<lambda>it. (uint (oi_CompensatableAmount it), map od_ID (oi_InternalDiscounts it)))
        (concat (map o_InternalOrderItems (orders s'))) = [(750, [UUID 40])]
    | _ \<Rightarrow> False)"
  by code_simp

lemma od_registered_steps: "discount_step\<^sup>*\<^sup>* od_start od_registered"
  unfolding od_registered_def by (intro r_into_rtranclp) (rule discount_step.register_coupon, rule prod.collapse [symmetric])

lemma orders_never_overcompensate_witness:
  "\<exists>g s' o'. od_created = (Inr g, s') \<and> orders s' = [o'] \<and>
     map (\<lambda>it. uint (oi_CompensatableAmount it)) (o_InternalOrderItems o') = [750] \<and>
     list_all (\<lambda>it. unat (oi_CompensatableAmount it) \<le> unat (pvv_Price (oi_ProductVariantVersion it))) (o_InternalOrderItems o')"
proof -
  obtain g s' where run: "CreateOrder od_downstream (\<lambda>u. ''h'') demo_caller demo_input demo_shop = (Inr g, s')"
      "map (\<lambda>it. (uint (oi_CompensatableAmount it), map od_ID (oi_InternalDiscounts it)))
        (concat (map o_InternalOrderItems (orders s'))) = [(750, [UUID 40])]"
    using od_created_run by (auto simp: od_created_def split: prod.splits sum.splits)
  have r: "runtime_ok od_downstream" using demo_runtime by (simp add: runtime_ok_def od_downstream_def)
  have f: "fractions od_start" by code_simp
  have a: "\<exists>ds rs ds'. discount_step\<^sup>*\<^sup>* od_start ds \<and> Query_FindApplicableDiscounts (find_input req) ds = (Inr rs, ds') \<and>
      found = map selected rs" if "ask_discount od_downstream req = Reply [] (Data found)" for req found
    using that od_registered_steps
    by (cases "Query_FindApplicableDiscounts (find_input req) od_registered")
      (auto simp: od_downstream_def split: sum.splits intro!: exI [of _ od_registered])
  show ?thesis
    using orders_never_overcompensate [OF run(1) r f a] run
    by (auto simp: od_created_def demo_shop_def demo_db_def bson_order_def bson_item_def newOrder_def list_all_iff)
qed

end
