(* ===== verification/Return_Store.thy ===== *)
theory Return_Store
  imports Postgres Auth Timestamps
begin

text \<open>
  \<open>return/store\<close>: the read models of orders, order items, shipments and return windows, and the
  table of returns, with the constraints and the two triggers of the migration
  (\<open>check_return_order_match\<close> before every update of an order item,
  \<open>check_return_within_period\<close> before its return is set). \<open>CreateReturn\<close> is one transaction.
\<close>

subsection \<open>Rows\<close>

record ReturnRow =
  rt_ID :: uuid
  rt_Reason :: string
  rt_RefundedAmount :: int
  rt_CreatedAt :: time
  rt_OrderID :: uuid

record ReturnItem =
  oi_ID :: uuid
  oi_ReturnedWithID :: "uuid option"
  oi_SentWithID :: "uuid option"
  oi_OrderID :: uuid
  oi_CompensatableAmount :: "int option"
  oi_ProductVariantVersionID :: "uuid option"

datatype return_err =
    RtDbError
  | ReturnNotFound uuid
  | RtOrderNotFound uuid
  | ShipmentNotFoundR uuid
  | ListIsEmpty
  | NotOriginalBuyer
  | NoItemIds
  | ItemsMissing "uuid list"
  | ItemsReturned "uuid list"
  | ItemDataMissing
  | NotDelivered
  | OrdersDiffer
  | VersionNotFound
  | NotReturnable uuid
  | NoLongerReturnable uuid
  | RtPanic
  | RtUnauthorized
  | ReturnNotYours
  | RtPublishFailed
  | RtBadEvent

record ReturnCreatedDTO =
  rc_ID :: uuid
  rc_OrderID :: uuid
  rc_OrderItemIds :: "uuid list"
  rc_Reason :: string
  rc_RefundedAmount :: int
  rc_CreatedAt :: string

text \<open>An order is its id and its user, a shipment its id and delivery, a version its id and window.\<close>

record return_db = "ReturnCreatedDTO io" +
  orderRows :: "(uuid \<times> uuid) list"
  shipmentRows :: "(uuid \<times> time option) list"
  versionRows :: "(uuid \<times> int option) list"
  itemRows :: "ReturnItem list"
  returnRows :: "ReturnRow list"

type_synonym 'a return_act = "(return_db, return_err, 'a) act"

subsection \<open>Helpers\<close>

definition missing_items :: "uuid list \<Rightarrow> ReturnItem list \<Rightarrow> uuid list" where
  "missing_items requested loaded = first_seen id (oi_ID ` set loaded) requested"

definition returnedItemIDs :: "ReturnItem list \<Rightarrow> uuid list" where
  "returnedItemIDs loaded = map oi_ID (filter (\<lambda>oi. oi_ReturnedWithID oi \<noteq> None) loaded)"

definition distinctPtrIDs :: "(ReturnItem \<Rightarrow> uuid option) \<Rightarrow> ReturnItem list \<Rightarrow> uuid list" where
  "distinctPtrIDs sel items = first_seen id {} (map the (filter (\<lambda>p. p \<noteq> None) (map sel items)))"

definition one_day :: int where
  "one_day = 24 * 3600 * 1000000000"

definition durationDays :: "time \<Rightarrow> time \<Rightarrow> int" where
  "durationDays a b = quot (sat64 (b - a)) one_day"

subsection \<open>Reads and replicas\<close>

definition GetReturn :: "uuid \<Rightarrow> ReturnRow return_act" where
  "GetReturn i = find_one RtDbError (ReturnNotFound i) returnRows (\<lambda>r. rt_ID r = i)"

definition GetReturnsByIDs :: "uuid list \<Rightarrow> (uuid \<rightharpoonup> ReturnRow) return_act" where
  "GetReturnsByIDs ids =
     (if ids = [] then ret Map.empty
      else andThen (find_all RtDbError returnRows (\<lambda>r. rt_ID r \<in> set ids)) (\<lambda>rows.
        ret (map_of (rev (map (\<lambda>r. (rt_ID r, r)) rows)))))"

definition GetOrder_rt :: "uuid \<Rightarrow> (uuid \<times> uuid) return_act" where
  "GetOrder_rt i = find_one RtDbError (RtOrderNotFound i) orderRows (\<lambda>o'. fst o' = i)"

definition CreateOrder_rt :: "uuid \<Rightarrow> uuid \<Rightarrow> unit return_act" where
  "CreateOrder_rt i user = insert_one RtDbError RtDbError orderRows orderRows_update fst (i, user)"

definition GetOrderItem_rt :: "uuid \<Rightarrow> ReturnItem option return_act" where
  "GetOrderItem_rt i = ext RtDbError (gets (\<lambda>s. find (\<lambda>oi. oi_ID oi = i) (itemRows s)))"

definition findOrderItemsByIDs :: "uuid list \<Rightarrow> ReturnItem list return_act" where
  "findOrderItemsByIDs ids =
     (if ids = [] then ret [] else find_all RtDbError itemRows (\<lambda>oi. oi_ID oi \<in> set ids))"

definition findShipmentsByIDs :: "uuid list \<Rightarrow> (uuid \<times> time option) list return_act" where
  "findShipmentsByIDs ids =
     (if ids = [] then ret [] else find_all RtDbError shipmentRows (\<lambda>sh. fst sh \<in> set ids))"

definition findProductVariantVersionsByIDs :: "uuid list \<Rightarrow> (uuid \<times> int option) list return_act" where
  "findProductVariantVersionsByIDs ids =
     (if ids = [] then ret [] else find_all RtDbError versionRows (\<lambda>v. fst v \<in> set ids))"

definition CreateShipment_rt :: "uuid \<Rightarrow> time option \<Rightarrow> unit return_act" where
  "CreateShipment_rt i deliveredAt =
     insert_one RtDbError RtDbError shipmentRows shipmentRows_update fst (i, map_option pg_time deliveredAt)"

definition SetShipmentDelivered :: "uuid \<Rightarrow> time \<Rightarrow> unit return_act" where
  "SetShipmentDelivered i deliveredAt =
     andThen (find_one RtDbError (ShipmentNotFoundR i) shipmentRows (\<lambda>sh. fst sh = i)) (\<lambda>_.
       ext RtDbError (modify (shipmentRows_update (map_all (\<lambda>sh. fst sh = i) (\<lambda>sh. (fst sh, Some (pg_time deliveredAt)))))))"

definition CreateProductVariantVersion_rt :: "uuid \<Rightarrow> int option \<Rightarrow> unit return_act" where
  "CreateProductVariantVersion_rt i days = pg_insert RtDbError
     (\<lambda>s. int4_opt days \<and> i \<notin> fst ` set (versionRows s)) (versionRows_update (\<lambda>rows. rows @ [(i, days)]))"

subsection \<open>Triggers\<close>

text \<open>\<open>check_return_order_match\<close> for the item as stored and its new \<open>returnedWithId\<close>.\<close>

definition order_matches :: "ReturnItem \<Rightarrow> uuid option \<Rightarrow> return_db \<Rightarrow> bool" where
  "order_matches oi returned s \<longleftrightarrow>
     (case returned of
        None \<Rightarrow> True
      | Some r \<Rightarrow> list_ex (\<lambda>row. rt_ID row = r \<and> rt_OrderID row = oi_OrderID oi) (returnRows s))"

text \<open>
  \<open>check_return_within_period\<close>: without the version, the shipment or its delivery there is no
  instant of delivery; without the return no days; days are whole days towards zero.
\<close>

definition within_period :: "ReturnItem \<Rightarrow> uuid \<Rightarrow> return_db \<Rightarrow> bool" where
  "within_period oi r s \<longleftrightarrow>
     (case (Option.bind (oi_ProductVariantVersionID oi) (\<lambda>v. find (\<lambda>row. fst row = v) (versionRows s)),
            Option.bind (oi_SentWithID oi) (\<lambda>sh. find (\<lambda>row. fst row = sh) (shipmentRows s))) of
        (Some (_, limit), Some (_, Some delivered)) \<Rightarrow>
          (case (find (\<lambda>row. rt_ID row = r) (returnRows s), limit) of
             (Some row, Some days) \<Rightarrow> quot (rt_CreatedAt row - delivered) one_day \<le> days
           | _ \<Rightarrow> True)
      | _ \<Rightarrow> False)"

subsection \<open>Order items\<close>

text \<open>
  The foreign key is checked for an inserted row, the trigger for an updated one. An update that
  does not name \<open>returnedWithId\<close> fires the first trigger only.
\<close>

definition upsert_item :: "ReturnItem \<Rightarrow> (ReturnItem \<Rightarrow> ReturnItem) \<Rightarrow> unit return_act" where
  "upsert_item new f = ext RtDbError (\<lambda>s.
     case find (\<lambda>oi. oi_ID oi = oi_ID new) (itemRows s) of
       None \<Rightarrow>
         if oi_OrderID new \<in> fst ` set (orderRows s) then (Inr (), itemRows_update (\<lambda>rows. rows @ [new]) s) else (Inl RtDbError, s)
     | Some oi \<Rightarrow>
         if order_matches oi (oi_ReturnedWithID oi) s
         then (Inr (), itemRows_update (map_all (\<lambda>row. oi_ID row = oi_ID new) f) s) else (Inl RtDbError, s))"

definition UpsertOrderItemFromShipment :: "uuid \<Rightarrow> uuid \<Rightarrow> uuid \<Rightarrow> unit return_act" where
  "UpsertOrderItemFromShipment i sentWith order = upsert_item
     \<lparr>oi_ID = i, oi_ReturnedWithID = None, oi_SentWithID = Some sentWith, oi_OrderID = order,
      oi_CompensatableAmount = None, oi_ProductVariantVersionID = None\<rparr>
     (\<lambda>oi. oi\<lparr>oi_SentWithID := Some sentWith\<rparr>)"

definition UpsertOrderItemFromOrder :: "uuid \<Rightarrow> int \<Rightarrow> uuid \<Rightarrow> uuid \<Rightarrow> unit return_act" where
  "UpsertOrderItemFromOrder i amount order version = upsert_item
     \<lparr>oi_ID = i, oi_ReturnedWithID = None, oi_SentWithID = None, oi_OrderID = order,
      oi_CompensatableAmount = Some amount, oi_ProductVariantVersionID = Some version\<rparr>
     (\<lambda>oi. oi\<lparr>oi_CompensatableAmount := Some amount, oi_ProductVariantVersionID := Some version\<rparr>)"

definition link_item :: "uuid \<Rightarrow> uuid \<Rightarrow> unit return_act" where
  "link_item r i = ext RtDbError (\<lambda>s.
     case find (\<lambda>oi. oi_ID oi = i) (itemRows s) of
       None \<Rightarrow> (Inr (), s)
     | Some oi \<Rightarrow>
         if order_matches oi (Some r) s \<and> within_period oi r s
         then (Inr (), itemRows_update (map_all (\<lambda>row. oi_ID row = i) (\<lambda>row. row\<lparr>oi_ReturnedWithID := Some r\<rparr>)) s)
         else (Inl RtDbError, s))"

subsection \<open>Creating a return\<close>

text \<open>
  The window of each item in turn. The items' pointers are not nil by then; a shipment missing from
  the map reads as one without delivery, whose pointer the code dereferences.
\<close>

fun check_windows ::
  "(uuid \<rightharpoonup> int option) \<Rightarrow> (uuid \<rightharpoonup> time option) \<Rightarrow> time \<Rightarrow> ReturnItem list \<Rightarrow> return_err option" where
  "check_windows versions deliveries t [] = None"
| "check_windows versions deliveries t (oi # items) =
     (case versions (the (oi_ProductVariantVersionID oi)) of
        None \<Rightarrow> Some VersionNotFound
      | Some None \<Rightarrow> check_windows versions deliveries t items
      | Some (Some days) \<Rightarrow>
          if \<not> days > 0 then Some (NotReturnable (oi_ID oi))
          else (case deliveries (the (oi_SentWithID oi)) of
              Some (Some delivered) \<Rightarrow>
                if \<not> durationDays delivered t \<le> days then Some (NoLongerReturnable (oi_ID oi))
                else check_windows versions deliveries t items
            | _ \<Rightarrow> Some RtPanic))"

definition refund :: "ReturnItem list \<Rightarrow> int" where
  "refund items = foldl (\<lambda>acc oi. i64 (acc + the (oi_CompensatableAmount oi))) 0 items"

definition insert_return :: "string \<Rightarrow> uuid \<Rightarrow> int \<Rightarrow> time \<Rightarrow> uuid return_act" where
  "insert_return reason order amount t = pg_generated RtDbError
     (\<lambda>i s. varchar reason \<and> order \<in> fst ` set (orderRows s) \<and> i \<notin> rt_ID ` set (returnRows s))
     (\<lambda>i. returnRows_update (\<lambda>rows. rows @
        [\<lparr>rt_ID = i, rt_Reason = reason, rt_RefundedAmount = amount, rt_CreatedAt = pg_time t, rt_OrderID = order\<rparr>]))"

text \<open>Steps 1 and 2 of \<open>CreateReturn\<close>: the items are loaded and validated; steps 3 to 5 write.\<close>

definition validated_items :: "uuid list \<Rightarrow> uuid \<Rightarrow> time \<Rightarrow> ReturnItem list return_act" where
  "validated_items orderItemIds caller t =
     andThen (findOrderItemsByIDs orderItemIds) (\<lambda>orderItems.
      if orderItems = [] then fail ListIsEmpty
      else
        let orderID = oi_OrderID (hd orderItems) in
        andThen (GetOrder_rt orderID) (\<lambda>order.
        if snd order \<noteq> caller then fail NotOriginalBuyer
        else if orderItemIds = [] then fail NoItemIds
        else if missing_items orderItemIds orderItems \<noteq> [] then fail (ItemsMissing (missing_items orderItemIds orderItems))
        else if returnedItemIDs orderItems \<noteq> [] then fail (ItemsReturned (returnedItemIDs orderItems))
        else if list_ex (\<lambda>oi. oi_SentWithID oi = None \<or> oi_CompensatableAmount oi = None \<or>
            oi_ProductVariantVersionID oi = None) orderItems then fail ItemDataMissing
        else andThen (findShipmentsByIDs (distinctPtrIDs oi_SentWithID orderItems)) (\<lambda>shipments.
          if list_ex (\<lambda>sh. snd sh = None) shipments then fail NotDelivered
          else if list_ex (\<lambda>oi. oi_OrderID oi \<noteq> orderID) orderItems then fail OrdersDiffer
          else andThen (findProductVariantVersionsByIDs (distinctPtrIDs oi_ProductVariantVersionID orderItems)) (\<lambda>pvvs.
            case check_windows (map_of (rev pvvs)) (map_of (rev shipments)) t orderItems of
              Some e \<Rightarrow> fail e
            | None \<Rightarrow> ret orderItems))))"

definition CreateReturnRow :: "uuid list \<Rightarrow> string \<Rightarrow> uuid \<Rightarrow> time \<Rightarrow> ReturnRow return_act" where
  "CreateReturnRow orderItemIds reason caller t = transaction RtDbError RtDbError
     (andThen (validated_items orderItemIds caller t) (\<lambda>orderItems.
        let orderID = oi_OrderID (hd orderItems); refundedAmount = refund orderItems in
        andThen (insert_return reason orderID refundedAmount t) (\<lambda>savedID.
        andThen (each (\<lambda>oi. link_item savedID (oi_ID oi)) orderItems) (\<lambda>_.
          ret \<lparr>rt_ID = savedID, rt_Reason = reason, rt_RefundedAmount = refundedAmount,
            rt_CreatedAt = t, rt_OrderID = orderID\<rparr>))))"

subsection \<open>Pages\<close>

text \<open>\<open>ListReturns\<close> joins the order; each id given restricts the order's user.\<close>

definition returns_of :: "uuid option \<Rightarrow> uuid option \<Rightarrow> return_db \<Rightarrow> ReturnRow list" where
  "returns_of userID authUserID s = filter (\<lambda>r.
     case find (\<lambda>o'. fst o' = rt_OrderID r) (orderRows s) of
       None \<Rightarrow> False
     | Some o' \<Rightarrow> (userID = None \<or> userID = Some (snd o')) \<and> (authUserID = None \<or> authUserID = Some (snd o'))) (returnRows s)"

definition ListReturns ::
  "uuid option \<Rightarrow> uuid option \<Rightarrow> int option \<Rightarrow> int option \<Rightarrow> bool \<Rightarrow> ReturnRow PgConnection return_act" where
  "ListReturns userID authUserID first skip asc = pgList RtDbError (returns_of userID authUserID) rt_ID first skip asc"

definition ListReturnedItems :: "uuid \<Rightarrow> int option \<Rightarrow> int option \<Rightarrow> bool \<Rightarrow> ReturnItem PgConnection return_act" where
  "ListReturnedItems r first skip asc =
     pgList RtDbError (\<lambda>s. filter (\<lambda>oi. oi_ReturnedWithID oi = Some r) (itemRows s)) oi_ID first skip asc"

end
