(* ===== verification/Return_Graph.thy ===== *)
theory Return_Graph
  imports Return_Store
begin

text \<open>
  \<open>return/graph\<close>, \<open>return/events\<close> and the subscriptions of \<open>return/main.go\<close>: the
  mutation with its event, the queries and field resolvers, and the handlers that fill the read
  models. The topic of product variant versions is not subscribed.
\<close>

subsection \<open>Events\<close>

definition FormatEventCreatedAt :: "time \<Rightarrow> string" where
  "FormatEventCreatedAt t = (let frac = trim_zeros (dec_digits 9 (nanos_of t))
     in format_seconds (seconds_of t) @ (if frac = [] then [] else ''.'' @ frac) @ ''+00:00'')"

definition PublishReturnCreated :: "ReturnCreatedDTO \<Rightarrow> unit return_act" where
  "PublishReturnCreated e = emit RtPublishFailed e"

record ShipmentCreatedR =
  sc_ID :: uuid
  sc_OrderID :: "uuid option"
  sc_Status :: string
  sc_OrderItemIds :: "uuid list"

record OrderItemData =
  od_ID :: uuid
  od_ProductVariantVersionID :: uuid
  od_CompensatableAmount :: int

record OrderCreatedR =
  or_ID :: uuid
  or_UserID :: uuid
  or_OrderItems :: "OrderItemData list"

definition ShipmentStatusDelivered :: string where
  "ShipmentStatusDelivered = ''DELIVERED''"

text \<open>The handlers write statement by statement; a body that does not decode is an error.\<close>

definition handleShipmentCreated :: "ShipmentCreatedR option \<Rightarrow> unit return_act" where
  "handleShipmentCreated data =
     (case data of
        None \<Rightarrow> fail RtBadEvent
      | Some sc \<Rightarrow>
          (case sc_OrderID sc of
             None \<Rightarrow> ret ()
           | Some order \<Rightarrow>
               andThen (if sc_Status sc = ShipmentStatusDelivered then andThen now (\<lambda>t. ret (Some t)) else ret None) (\<lambda>deliveredAt.
               andThen (CreateShipment_rt (sc_ID sc) deliveredAt) (\<lambda>_.
                 each (\<lambda>i. UpsertOrderItemFromShipment i (sc_ID sc) order) (sc_OrderItemIds sc)))))"

definition handleShipmentStatusUpdated :: "(uuid \<times> string) option \<Rightarrow> unit return_act" where
  "handleShipmentStatusUpdated data =
     (case data of
        None \<Rightarrow> fail RtBadEvent
      | Some (i, status) \<Rightarrow>
          if status \<noteq> ShipmentStatusDelivered then ret ()
          else andThen now (\<lambda>t. SetShipmentDelivered i t))"

definition handleOrderCreated :: "OrderCreatedR option \<Rightarrow> unit return_act" where
  "handleOrderCreated data =
     (case data of
        None \<Rightarrow> fail RtBadEvent
      | Some o' \<Rightarrow>
          andThen (CreateOrder_rt (or_ID o') (or_UserID o')) (\<lambda>_.
            each (\<lambda>item. UpsertOrderItemFromOrder (od_ID item) (od_CompensatableAmount item) (or_ID o')
              (od_ProductVariantVersionID item)) (or_OrderItems o')))"

subsection \<open>Models\<close>

record GReturn =
  gr_ID :: uuid
  gr_Reason :: string
  gr_RefundedAmount :: int
  gr_CreatedAt :: time
  gr_OrderID :: uuid

record GReturnItem =
  gi_ID :: uuid
  gi_ReturnedWithID :: "uuid option"

text \<open>\<open>int(int32(x))\<close> keeps the low 32 bits.\<close>

definition toReturn :: "ReturnRow \<Rightarrow> GReturn" where
  "toReturn r = \<lparr>gr_ID = rt_ID r, gr_Reason = rt_Reason r, gr_RefundedAmount = signed_take_bit 31 (rt_RefundedAmount r),
     gr_CreatedAt = rt_CreatedAt r, gr_OrderID = rt_OrderID r\<rparr>"

definition toReturnConnection :: "ReturnRow PgConnection \<Rightarrow> GReturn PgConnection" where
  "toReturnConnection c = map_connection toReturn c"

definition toReturnItem :: "ReturnItem \<Rightarrow> GReturnItem" where
  "toReturnItem oi = \<lparr>gi_ID = oi_ID oi, gi_ReturnedWithID = oi_ReturnedWithID oi\<rparr>"

definition toReturnItemConnection :: "ReturnItem PgConnection \<Rightarrow> GReturnItem PgConnection" where
  "toReturnItemConnection c = map_connection toReturnItem c"

definition rt_ascending :: "OrderDirectionD option \<Rightarrow> bool" where
  "rt_ascending d \<longleftrightarrow> d = None \<or> d \<noteq> Some DirDesc"

text \<open>An order input is its direction; both inputs order by id only.\<close>

definition returnAscending :: "OrderDirectionD option option \<Rightarrow> bool" where
  "returnAscending ord = (case ord of None \<Rightarrow> True | Some d \<Rightarrow> rt_ascending d)"

definition commonAscending_rt :: "OrderDirectionD option option \<Rightarrow> bool" where
  "commonAscending_rt ord = (case ord of None \<Rightarrow> True | Some d \<Rightarrow> rt_ascending d)"

subsection \<open>Authorization\<close>

definition requireUser_rt :: "ctx \<Rightarrow> User return_act" where
  "requireUser_rt c = (case FromContext c of None \<Rightarrow> fail RtUnauthorized | Some u \<Rightarrow> ret u)"

definition isEmployee_rt :: "User \<Rightarrow> bool" where
  "isEmployee_rt u = IsEmployeeOrAdmin (Some u)"

definition authFilterUserID :: "User \<Rightarrow> uuid option" where
  "authFilterUserID u = (if isEmployee_rt u then None else Some (user_ID u))"

subsection \<open>Resolvers\<close>

definition CreateReturn :: "ctx \<Rightarrow> uuid list \<Rightarrow> string \<Rightarrow> GReturn return_act" where
  "CreateReturn c orderItemIds reason =
     andThen (requireUser_rt c) (\<lambda>user.
     andThen now (\<lambda>t.
     andThen (CreateReturnRow orderItemIds reason (user_ID user) t) (\<lambda>saved.
     andThen (PublishReturnCreated \<lparr>rc_ID = rt_ID saved, rc_OrderID = rt_OrderID saved, rc_OrderItemIds = orderItemIds,
        rc_Reason = rt_Reason saved, rc_RefundedAmount = rt_RefundedAmount saved,
        rc_CreatedAt = FormatEventCreatedAt (rt_CreatedAt saved)\<rparr>) (\<lambda>_.
       ret (toReturn saved)))))"

definition OrderItem_ReturnedWith :: "GReturnItem \<Rightarrow> GReturn option return_act" where
  "OrderItem_ReturnedWith obj =
     (case gi_ReturnedWithID obj of
        None \<Rightarrow> ret None
      | Some r \<Rightarrow> andThen (GetReturnsByIDs [r]) (\<lambda>returns.
          case returns r of None \<Rightarrow> fail (ReturnNotFound r) | Some row \<Rightarrow> ret (Some (toReturn row))))"

definition Query_Return :: "ctx \<Rightarrow> uuid \<Rightarrow> GReturn return_act" where
  "Query_Return c i =
     andThen (GetReturn i) (\<lambda>row.
     andThen (GetOrder_rt (rt_OrderID row)) (\<lambda>order.
     andThen (requireUser_rt c) (\<lambda>user.
       if \<not> isEmployee_rt user \<and> snd order \<noteq> user_ID user then fail ReturnNotYours else ret (toReturn row))))"

definition Query_Returns ::
  "ctx \<Rightarrow> int option \<Rightarrow> OrderDirectionD option option \<Rightarrow> int option \<Rightarrow> GReturn PgConnection return_act" where
  "Query_Returns c first orderBy skip =
     andThen (requireUser_rt c) (\<lambda>user.
     andThen (ListReturns None (authFilterUserID user) first skip (returnAscending orderBy)) (\<lambda>conn.
       ret (toReturnConnection conn)))"

definition Return_Order :: "GReturn \<Rightarrow> uuid return_act" where
  "Return_Order obj = ret (gr_OrderID obj)"

definition Return_ReturnedItems ::
  "GReturn \<Rightarrow> int option \<Rightarrow> OrderDirectionD option option \<Rightarrow> int option \<Rightarrow> GReturnItem PgConnection return_act" where
  "Return_ReturnedItems obj first orderBy skip =
     andThen (ListReturnedItems (gr_ID obj) first skip (commonAscending_rt orderBy)) (\<lambda>conn.
       ret (toReturnItemConnection conn))"

definition User_Returns ::
  "ctx \<Rightarrow> uuid \<Rightarrow> int option \<Rightarrow> OrderDirectionD option option \<Rightarrow> int option \<Rightarrow> GReturn PgConnection return_act" where
  "User_Returns c obj first orderBy skip =
     andThen (requireUser_rt c) (\<lambda>user.
     andThen (ListReturns (Some obj) (authFilterUserID user) first skip (returnAscending orderBy)) (\<lambda>conn.
       ret (toReturnConnection conn)))"

definition Entity_ReturnItem :: "uuid \<Rightarrow> GReturnItem return_act" where
  "Entity_ReturnItem i = andThen (GetOrderItem_rt i) (\<lambda>found.
     case found of None \<Rightarrow> ret \<lparr>gi_ID = i, gi_ReturnedWithID = None\<rparr> | Some oi \<Rightarrow> ret (toReturnItem oi))"

definition Entity_Return :: "uuid \<Rightarrow> GReturn return_act" where
  "Entity_Return i = andThen (GetReturn i) (\<lambda>row. ret (toReturn row))"

end
