(* ===== verification/Return_Claims.thy ===== *)
theory Return_Claims
  imports Return_Graph
begin

text \<open>
  The properties of the return service: what one return does to the tables, when one can be created,
  that an item is returned once over all runs, that no return can be created while the topic of
  product variant versions is not subscribed, and what a shipment does that is announced before its order.
\<close>

subsection \<open>One return\<close>

definition mark_returned :: "uuid \<Rightarrow> uuid set \<Rightarrow> ReturnItem list \<Rightarrow> ReturnItem list" where
  "mark_returned r ids = map_all (\<lambda>oi. oi_ID oi \<in> ids) (\<lambda>oi. oi\<lparr>oi_ReturnedWithID := Some r\<rparr>)"

lemma mark_returned_none: "mark_returned r {} items = items"
  by (simp add: mark_returned_def map_all_def)

lemma mark_returned_insert: "mark_returned r A (mark_returned r {i} items) = mark_returned r (insert i A) items"
  by (simp add: mark_returned_def map_all_def)

text \<open>Linking touches the listed items only, and all of them when it succeeds.\<close>

lemma link_item_run:
  assumes "link_item r i s = (res, s')"
  shows "\<exists>fs A. A \<subseteq> {i} \<and> s' = itemRows_update (mark_returned r A) (s\<lparr>faults := fs\<rparr>) \<and>
    (res = Inr () \<longrightarrow> mark_returned r A (itemRows s) = mark_returned r {i} (itemRows s))"
proof -
  let ?m = "\<lambda>s. case find (\<lambda>oi. oi_ID oi = i) (itemRows s) of
       None \<Rightarrow> (Inr (), s)
     | Some oi \<Rightarrow>
         if order_matches oi (Some r) s \<and> within_period oi r s
         then (Inr (), itemRows_update (map_all (\<lambda>row. oi_ID row = i) (\<lambda>row. row\<lparr>oi_ReturnedWithID := Some r\<rparr>)) s)
         else (Inl RtDbError, s)"
  have none: "mark_returned r {i} (itemRows s) = itemRows s" if "find (\<lambda>oi. oi_ID oi = i) (itemRows s) = None"
    using that by (induction "itemRows s" arbitrary: s) (auto simp: mark_returned_def map_all_def find_None_iff intro!: map_idI)
  have m: "\<exists>A. A \<subseteq> {i} \<and> snd (?m (s\<lparr>faults := fs\<rparr>)) = itemRows_update (mark_returned r A) (s\<lparr>faults := fs\<rparr>) \<and>
     (fst (?m (s\<lparr>faults := fs\<rparr>)) = Inr () \<longrightarrow> mark_returned r A (itemRows s) = mark_returned r {i} (itemRows s))" for fs
  proof (cases "find (\<lambda>oi. oi_ID oi = i) (itemRows s)")
    case None
    then show ?thesis using none by (intro exI [of _ "{}"]) (simp add: mark_returned_none)
  next
    case (Some oi)
    let ?ok = "order_matches oi (Some r) (s\<lparr>faults := fs\<rparr>) \<and> within_period oi r (s\<lparr>faults := fs\<rparr>)"
    show ?thesis using Some
      by (intro exI [of _ "if ?ok then {i} else {}"]) (simp add: mark_returned_def [of _ "{i}"] mark_returned_none)
  qed
  define g where "g = ?m"
  have run: "ext RtDbError g s = (res, s')" using assms by (simp add: link_item_def g_def)
  have g: "\<exists>A. A \<subseteq> {i} \<and> snd (g (s\<lparr>faults := fs\<rparr>)) = itemRows_update (mark_returned r A) (s\<lparr>faults := fs\<rparr>) \<and>
     (fst (g (s\<lparr>faults := fs\<rparr>)) = Inr () \<longrightarrow> mark_returned r A (itemRows s) = mark_returned r {i} (itemRows s))" for fs
    unfolding g_def by (rule m)
  show ?thesis
  proof (cases rule: ext_cases [of RtDbError g s])
    case (answered fs)
    then have "g (s\<lparr>faults := fs\<rparr>) = (res, s')" using run by simp
    then show ?thesis using g [of fs] by auto
  next
    case (refused fs)
    then show ?thesis using run by (intro exI [of _ fs] exI [of _ "{}"]) (simp add: mark_returned_none)
  next
    case (lost fs)
    then have "res = Inl RtDbError" "s' = snd (g (s\<lparr>faults := fs\<rparr>))" using run by simp_all
    then show ?thesis using g [of fs] by auto
  qed
qed

lemma mark_returned_mark: "mark_returned r B (mark_returned r A items) = mark_returned r (A \<union> B) items"
  by (simp add: mark_returned_def map_all_def)

lemma itemRows_update_twice:
  "itemRows_update f ((itemRows_update g (s\<lparr>faults := fs\<rparr>))\<lparr>faults := fs'\<rparr>) = itemRows_update (f \<circ> g) (s\<lparr>faults := fs'\<rparr>)"
  by (cases s) simp

lemma each_link_run:
  assumes "each (\<lambda>oi. link_item r (oi_ID oi)) ois s = (res, s')"
  shows "\<exists>fs A. A \<subseteq> oi_ID ` set ois \<and> s' = itemRows_update (mark_returned r A) (s\<lparr>faults := fs\<rparr>) \<and>
    (res = Inr () \<longrightarrow> mark_returned r A (itemRows s) = mark_returned r (oi_ID ` set ois) (itemRows s))"
  using assms
proof (induction ois arbitrary: s)
  case Nil
  then show ?case by (intro exI [of _ "faults s"] exI [of _ "{}"]) (cases s; simp add: run_ret mark_returned_none)
next
  case (Cons oi ois)
  obtain r1 s1 where l: "link_item r (oi_ID oi) s = (r1, s1)" by fastforce
  obtain fs A where A: "A \<subseteq> {oi_ID oi}" "s1 = itemRows_update (mark_returned r A) (s\<lparr>faults := fs\<rparr>)"
      "r1 = Inr () \<longrightarrow> mark_returned r A (itemRows s) = mark_returned r {oi_ID oi} (itemRows s)"
    using link_item_run [OF l] by auto
  show ?case
  proof (cases r1)
    case (Inl e)
    then show ?thesis using Cons.prems l A by (intro exI [of _ fs] exI [of _ A]) (auto simp: run_andThen)
  next
    case (Inr u)
    then have "each (\<lambda>oi. link_item r (oi_ID oi)) ois s1 = (res, s')" using Cons.prems l by (simp add: run_andThen)
    from Cons.IH [OF this] obtain fs' B where B: "B \<subseteq> oi_ID ` set ois"
        "s' = itemRows_update (mark_returned r B) (s1\<lparr>faults := fs'\<rparr>)"
        "res = Inr () \<longrightarrow> mark_returned r B (itemRows s1) = mark_returned r (oi_ID ` set ois) (itemRows s1)"
      by auto
    have "s' = itemRows_update (mark_returned r (A \<union> B)) (s\<lparr>faults := fs'\<rparr>)"
      unfolding B(2) A(2) itemRows_update_twice by (simp add: comp_def mark_returned_mark)
    moreover have "mark_returned r (A \<union> B) (itemRows s) = mark_returned r (oi_ID ` set (oi # ois)) (itemRows s)" if "res = Inr ()"
    proof -
      have "mark_returned r (A \<union> B) (itemRows s) = mark_returned r (oi_ID ` set ois) (mark_returned r A (itemRows s))"
        using B(3) that A(2) by (simp add: mark_returned_mark)
      also have "\<dots> = mark_returned r (oi_ID ` set (oi # ois)) (itemRows s)"
        using A(3) Inr by (simp add: mark_returned_mark)
      finally show ?thesis .
    qed
    ultimately show ?thesis using A(1) B(1) by (intro exI [of _ fs'] exI [of _ "A \<union> B"]) auto
  qed
qed

text \<open>Validation only reads, and what it accepts.\<close>

lemma return_io [simp]:
  "orderRows (s\<lparr>faults := fs\<rparr>) = orderRows s" "itemRows (s\<lparr>faults := fs\<rparr>) = itemRows s"
  "shipmentRows (s\<lparr>faults := fs\<rparr>) = shipmentRows s" "versionRows (s\<lparr>faults := fs\<rparr>) = versionRows s"
  "returnRows (s\<lparr>faults := fs\<rparr>) = returnRows s"
  by simp_all

lemma rows_by_ids:
  assumes "(if ids = [] then ret [] else find_all e get (\<lambda>x. key x \<in> set ids)) s = (Inr rows, s')"
    and "\<And>t fs. get (t\<lparr>faults := fs\<rparr>) = get t"
  shows "rows = filter (\<lambda>x. key x \<in> set ids) (get s) \<and> (\<exists>fs. s' = s\<lparr>faults := fs\<rparr>)"
proof (cases "ids = []")
  case True
  then show ?thesis using assms(1) by (auto simp: run_ret intro: exI [of _ "faults s"])
next
  case False
  then have q: "find_all e get (\<lambda>x. key x \<in> set ids) s = (Inr rows, s')" using assms(1) by simp
  show ?thesis using find_all_run [OF q assms(2)] by simp
qed

lemma validated_items_run:
  assumes "validated_items ids caller t s = (Inr ois, s')"
  shows "ois = filter (\<lambda>oi. oi_ID oi \<in> set ids) (itemRows s) \<and> ois \<noteq> [] \<and> missing_items ids ois = [] \<and> returnedItemIDs ois = [] \<and>
    find (\<lambda>o'. fst o' = oi_OrderID (hd ois)) (orderRows s) = Some (oi_OrderID (hd ois), caller) \<and>
    list_all (\<lambda>oi. oi_SentWithID oi \<noteq> None \<and> oi_CompensatableAmount oi \<noteq> None \<and> oi_ProductVariantVersionID oi \<noteq> None) ois \<and>
    list_all (\<lambda>oi. oi_OrderID oi = oi_OrderID (hd ois)) ois \<and>
    (\<exists>shipments pvvs. shipments = filter (\<lambda>sh. fst sh \<in> set (distinctPtrIDs oi_SentWithID ois)) (shipmentRows s) \<and>
       pvvs = filter (\<lambda>v. fst v \<in> set (distinctPtrIDs oi_ProductVariantVersionID ois)) (versionRows s) \<and>
       list_all (\<lambda>sh. snd sh \<noteq> None) shipments \<and>
       check_windows (map_of (rev pvvs)) (map_of (rev shipments)) t ois = None) \<and>
    (\<exists>fs. s' = s\<lparr>faults := fs\<rparr>)"
proof -
  obtain ois1 s1 where items: "findOrderItemsByIDs ids s = (Inr ois1, s1)" and ne: "ois1 \<noteq> []"
    and rest: "(let orderID = oi_OrderID (hd ois1) in
        andThen (GetOrder_rt orderID) (\<lambda>order.
        if snd order \<noteq> caller then fail NotOriginalBuyer
        else if ids = [] then fail NoItemIds
        else if missing_items ids ois1 \<noteq> [] then fail (ItemsMissing (missing_items ids ois1))
        else if returnedItemIDs ois1 \<noteq> [] then fail (ItemsReturned (returnedItemIDs ois1))
        else if list_ex (\<lambda>oi. oi_SentWithID oi = None \<or> oi_CompensatableAmount oi = None \<or>
            oi_ProductVariantVersionID oi = None) ois1 then fail ItemDataMissing
        else andThen (findShipmentsByIDs (distinctPtrIDs oi_SentWithID ois1)) (\<lambda>shipments.
          if list_ex (\<lambda>sh. snd sh = None) shipments then fail NotDelivered
          else if list_ex (\<lambda>oi. oi_OrderID oi \<noteq> orderID) ois1 then fail OrdersDiffer
          else andThen (findProductVariantVersionsByIDs (distinctPtrIDs oi_ProductVariantVersionID ois1)) (\<lambda>pvvs.
            case check_windows (map_of (rev pvvs)) (map_of (rev shipments)) t ois1 of
              Some e \<Rightarrow> fail e
            | None \<Rightarrow> ret ois1)))) s1 = (Inr ois, s')"
    using assms unfolding validated_items_def by (elim andThen_InrE) (auto simp: run_fail split: if_splits)
  note i = rows_by_ids [OF items [unfolded findOrderItemsByIDs_def], simplified]
  obtain order s2 where o': "GetOrder_rt (oi_OrderID (hd ois1)) s1 = (Inr order, s2)" and caller: "snd order = caller"
    and checks: "missing_items ids ois1 = []" "returnedItemIDs ois1 = []"
      "\<not> list_ex (\<lambda>oi. oi_SentWithID oi = None \<or> oi_CompensatableAmount oi = None \<or> oi_ProductVariantVersionID oi = None) ois1"
    and rest2: "andThen (findShipmentsByIDs (distinctPtrIDs oi_SentWithID ois1)) (\<lambda>shipments.
          if list_ex (\<lambda>sh. snd sh = None) shipments then fail NotDelivered
          else if list_ex (\<lambda>oi. oi_OrderID oi \<noteq> oi_OrderID (hd ois1)) ois1 then fail OrdersDiffer
          else andThen (findProductVariantVersionsByIDs (distinctPtrIDs oi_ProductVariantVersionID ois1)) (\<lambda>pvvs.
            case check_windows (map_of (rev pvvs)) (map_of (rev shipments)) t ois1 of
              Some e \<Rightarrow> fail e
            | None \<Rightarrow> ret ois1)) s2 = (Inr ois, s')"
    using rest unfolding Let_def by (elim andThen_InrE) (auto simp: run_fail split: if_splits)
  note o2 = find_one_run [OF o' [unfolded GetOrder_rt_def], simplified]
  obtain shipments s3 where sh: "findShipmentsByIDs (distinctPtrIDs oi_SentWithID ois1) s2 = (Inr shipments, s3)"
    and checks2: "\<not> list_ex (\<lambda>sh. snd sh = None) shipments" "\<not> list_ex (\<lambda>oi. oi_OrderID oi \<noteq> oi_OrderID (hd ois1)) ois1"
    and rest3: "andThen (findProductVariantVersionsByIDs (distinctPtrIDs oi_ProductVariantVersionID ois1)) (\<lambda>pvvs.
            case check_windows (map_of (rev pvvs)) (map_of (rev shipments)) t ois1 of
              Some e \<Rightarrow> fail e
            | None \<Rightarrow> ret ois1) s3 = (Inr ois, s')"
    using rest2 by (elim andThen_InrE) (auto simp: run_fail split: if_splits)
  note s2 = rows_by_ids [OF sh [unfolded findShipmentsByIDs_def], simplified]
  obtain pvvs s4 where v: "findProductVariantVersionsByIDs (distinctPtrIDs oi_ProductVariantVersionID ois1) s3 = (Inr pvvs, s4)"
    and fin: "check_windows (map_of (rev pvvs)) (map_of (rev shipments)) t ois1 = None" "ois = ois1" "s' = s4"
    using rest3 by (elim andThen_InrE) (auto simp: run_fail run_ret split: option.splits)
  note v2 = rows_by_ids [OF v [unfolded findProductVariantVersionsByIDs_def], simplified]
  have key: "fst order = oi_OrderID (hd ois1)" using o2 by (auto dest: find_Some_in)
  obtain fs1 fs2 fs3 fs4 where st: "s1 = s\<lparr>faults := fs1\<rparr>" "s2 = s1\<lparr>faults := fs2\<rparr>" "s3 = s2\<lparr>faults := fs3\<rparr>" "s4 = s3\<lparr>faults := fs4\<rparr>"
    using i o2 s2 v2 by blast
  have "order = (oi_OrderID (hd ois1), caller)" using key caller by (simp add: prod_eq_iff)
  then have "find (\<lambda>o'. fst o' = oi_OrderID (hd ois1)) (orderRows s) = Some (oi_OrderID (hd ois1), caller)"
    using o2 st(1) by simp
  moreover have "ois1 = filter (\<lambda>oi. oi_ID oi \<in> set ids) (itemRows s)" using i by simp
  moreover have "shipments = filter (\<lambda>sh. fst sh \<in> set (distinctPtrIDs oi_SentWithID ois1)) (shipmentRows s)"
    "pvvs = filter (\<lambda>v. fst v \<in> set (distinctPtrIDs oi_ProductVariantVersionID ois1)) (versionRows s)"
    using s2 v2 st by simp_all
  moreover have "list_all (\<lambda>oi. oi_SentWithID oi \<noteq> None \<and> oi_CompensatableAmount oi \<noteq> None \<and> oi_ProductVariantVersionID oi \<noteq> None) ois1"
    "list_all (\<lambda>oi. oi_OrderID oi = oi_OrderID (hd ois1)) ois1" "list_all (\<lambda>sh. snd sh \<noteq> None) shipments"
    using checks(3) checks2 by (simp_all add: list_all_iff list_ex_iff)
  moreover have "s' = s\<lparr>faults := fs4\<rparr>" using fin st by simp
  ultimately show ?thesis using ne checks(1,2) fin(1,2) by blast
qed

lemma createReturnRow_mute: "guar mute (CreateReturnRow ids reason caller t)"
  unfolding CreateReturnRow_def Let_def insert_return_def link_item_def validated_items_def findOrderItemsByIDs_def
    GetOrder_rt_def findShipmentsByIDs_def findProductVariantVersionsByIDs_def
  by (intro guar_intros mute.guar_pg_generated mute.guar_ext guarI)
    (auto simp: mute_def split: option.split)

text \<open>Under every script a return is created as a whole or not at all.\<close>

lemma createReturnRow_effect:
  assumes "CreateReturnRow ids reason caller t s = (res, s')"
  obtains (nothing) e where "res = Inl e" "io.more s' = io.more s"
  | (created) ois row fs s0 where "validated_items ids caller t (s\<lparr>faults := fs\<rparr>) = (Inr ois, s0)"
      "rt_ID row \<notin> rt_ID ` set (returnRows s)" "varchar reason" "rt_Reason row = reason" "rt_RefundedAmount row = refund ois"
      "rt_CreatedAt row = t" "rt_OrderID row = oi_OrderID (hd ois)" "res = Inr row \<or> res = Inl RtDbError"
      "returnRows s' = returnRows s @ [row\<lparr>rt_CreatedAt := pg_time t\<rparr>]"
      "itemRows s' = mark_returned (rt_ID row) (oi_ID ` set ois) (itemRows s)"
      "orderRows s' = orderRows s" "shipmentRows s' = shipmentRows s" "versionRows s' = versionRows s"
  using assms unfolding CreateReturnRow_def
proof (cases rule: transaction_run)
  case (kept e)
  then show ?thesis by (rule nothing)
next
  case (ran row fs s2)
  obtain ois s0 i s1 where v: "validated_items ids caller t (s\<lparr>faults := fs\<rparr>) = (Inr ois, s0)"
    and ins: "insert_return reason (oi_OrderID (hd ois)) (refund ois) t s0 = (Inr i, s1)"
    and link: "each (\<lambda>oi. link_item i (oi_ID oi)) ois s1 = (Inr (), s2)"
    and row: "row = \<lparr>rt_ID = i, rt_Reason = reason, rt_RefundedAmount = refund ois, rt_CreatedAt = t, rt_OrderID = oi_OrderID (hd ois)\<rparr>"
    using ran(1) unfolding Let_def by (elim andThen_InrE) (auto simp: run_ret)
  obtain fs0 where s0: "s0 = s\<lparr>faults := fs0\<rparr>" using validated_items_run [OF v] by auto
  obtain fs1 where i: "varchar reason" "i \<notin> rt_ID ` set (returnRows s)"
      "s1 = returnRows_update (\<lambda>rows. rows @ [row\<lparr>rt_CreatedAt := pg_time t\<rparr>]) (s\<lparr>faults := fs1, minted := Suc (minted s)\<rparr>)"
    using pg_generated_Inr [OF ins [unfolded insert_return_def]] s0 row by auto
  obtain fs2 A where s2: "s2 = itemRows_update (mark_returned i A) (s1\<lparr>faults := fs2\<rparr>)"
      "mark_returned i A (itemRows s1) = mark_returned i (oi_ID ` set ois) (itemRows s1)"
    using each_link_run [OF link] by auto
  have more: "io.more s' = io.more (itemRows_update (mark_returned i A) (returnRows_update (\<lambda>rows. rows @ [row\<lparr>rt_CreatedAt := pg_time t\<rparr>]) s))"
    using ran(2) s2(1) i(3) by (cases s) simp
  have tables: "returnRows s' = returnRows s @ [row\<lparr>rt_CreatedAt := pg_time t\<rparr>]"
      "itemRows s' = mark_returned i A (itemRows s)" "orderRows s' = orderRows s" "shipmentRows s' = shipmentRows s"
      "versionRows s' = versionRows s"
    using more by (cases s; cases s'; simp)+
  show ?thesis
    by (rule created [OF v, of row]) (use i s2 tables row ran(3) in auto)
qed

subsection \<open>Runs\<close>

text \<open>
  What the service is asked and told. With \<open>fixed\<close> the topic of product variant versions is
  subscribed and the store's operation for it runs; in \<open>main.go\<close> it is not.
\<close>

inductive return_step :: "bool \<Rightarrow> return_db \<Rightarrow> return_db \<Rightarrow> bool" for fixed where
  script: "return_step fixed s (s\<lparr>faults := fs\<rparr>)"
| create: "CreateReturn c ids reason s = (res, s') \<Longrightarrow> return_step fixed s s'"
| shipped: "handleShipmentCreated sc s = (r, s') \<Longrightarrow> return_step fixed s s'"
| updated: "handleShipmentStatusUpdated u s = (r, s') \<Longrightarrow> return_step fixed s s'"
| ordered: "handleOrderCreated o' s = (r, s') \<Longrightarrow> return_step fixed s s'"
| version: "fixed \<Longrightarrow> CreateProductVariantVersion_rt i days s = (r, s') \<Longrightarrow> return_step fixed s s'"

locale return_relation = effect_rel_tx R for R :: "return_db \<Rightarrow> return_db \<Rightarrow> bool" +
  fixes fixed :: bool
  assumes orders: "guar R (CreateOrder_rt i u)"
    and shipments: "guar R (CreateShipment_rt i d)"
    and delivered: "guar R (SetShipmentDelivered i t)"
    and item_sent: "guar R (UpsertOrderItemFromShipment i sh u)"
    and item_ordered: "guar R (UpsertOrderItemFromOrder i n u v)"
    and returns: "guar R (CreateReturn c ids reason)"
    and versions: "fixed \<Longrightarrow> guar R (CreateProductVariantVersion_rt i days)"
begin

lemma requests_keep:
  "guar R (handleShipmentCreated sc)" "guar R (handleShipmentStatusUpdated su)" "guar R (handleOrderCreated oc)"
  unfolding handleShipmentCreated_def handleShipmentStatusUpdated_def handleOrderCreated_def
  by (intro guar_intros orders shipments delivered item_sent item_ordered)+

lemma step_keeps: "return_step fixed s s' \<Longrightarrow> R s s'"
  by (induction rule: return_step.induct) (auto intro: R_faults guarD requests_keep returns versions)

lemma steps_keep: "(return_step fixed)\<^sup>*\<^sup>* s s' \<Longrightarrow> R s s'"
  by (induction rule: rtranclp_induct) (auto intro: R_refl R_trans step_keeps)

end

subsection \<open>Without the subscription\<close>

text \<open>Nothing of a return happens while no version is known.\<close>

definition no_returns :: "return_db \<Rightarrow> return_db \<Rightarrow> bool" where
  "no_returns s s' \<longleftrightarrow> (versionRows s = [] \<longrightarrow> versionRows s' = [] \<and> returnRows s' = returnRows s \<and> outbox s' = outbox s)"

lemma no_version_invalid: "versionRows s = [] \<Longrightarrow> validated_items ids caller t s \<noteq> (Inr ois, s')"
proof
  assume none: "versionRows s = []" and run: "validated_items ids caller t s = (Inr ois, s')"
  note v = validated_items_run [OF run]
  then have "ois \<noteq> []" "\<exists>deliveries. check_windows Map.empty deliveries t ois = None"
    using none by (auto simp del: check_windows.simps)
  then show False by (cases ois) auto
qed

lemma createReturnRow_refused:
  assumes "CreateReturnRow ids reason caller t s = (res, s')" "versionRows s = []"
  shows "\<exists>e. res = Inl e \<and> io.more s' = io.more s \<and> outbox s' = outbox s"
  using assms(1)
proof (cases rule: createReturnRow_effect)
  case (nothing e)
  then show ?thesis using guarD [OF createReturnRow_mute assms(1)] by (simp add: mute_def)
next
  case (created ois row fs s0)
  then show ?thesis using no_version_invalid [of "s\<lparr>faults := fs\<rparr>"] assms(2) by simp
qed

lemma createReturn_refused:
  assumes "CreateReturn c ids reason s = (res, s')" "versionRows s = []"
  shows "(\<exists>e. res = Inl e) \<and> io.more s' = io.more s \<and> outbox s' = outbox s"
proof (cases c)
  case None
  then show ?thesis using assms(1) by (auto simp: CreateReturn_def requireUser_rt_def FromContext_def run_andThen run_fail)
next
  case (Some u)
  let ?s = "s\<lparr>reads := Suc (reads s)\<rparr>"
  obtain r1 s1 where row: "CreateReturnRow ids reason (user_ID u) (clock s (reads s)) ?s = (r1, s1)" by fastforce
  have none: "versionRows ?s = []" "io.more ?s = io.more s" "outbox ?s = outbox s" using assms(2) by (cases s; simp)+
  obtain e where "r1 = Inl e" "io.more s1 = io.more s" "outbox s1 = outbox s"
    using createReturnRow_refused [OF row none(1)] none(2,3) by auto
  then show ?thesis
    using assms(1) Some row by (auto simp: CreateReturn_def requireUser_rt_def FromContext_def run_simps run_andThen)
qed

lemma restore_rows [simp]:
  "versionRows (restore s t) = versionRows s" "returnRows (restore s t) = returnRows s" "itemRows (restore s t) = itemRows s"
  for s t :: return_db
  by (cases s; cases t; simp add: restore_def)+

interpretation unsubscribed: effect_rel_tx no_returns
  by unfold_locales (auto simp: no_returns_def)

lemma no_returns_apart:
  "(\<And>s. versionRows (f s) = versionRows s) \<Longrightarrow> (\<And>s. returnRows (f s) = returnRows s) \<Longrightarrow> (\<And>s. outbox (f s) = outbox s) \<Longrightarrow>
     no_returns s (f s)"
  by (simp add: no_returns_def)

lemma upsert_item_keeps:
  assumes "\<And>s. R s s" "\<And>s. oi_ID new \<notin> oi_ID ` set (itemRows s) \<Longrightarrow> R s (itemRows_update (\<lambda>rows. rows @ [new]) s)"
    "\<And>s. R s (itemRows_update (map_all (\<lambda>row. oi_ID row = oi_ID new) f) s)"
  shows "guar R (\<lambda>s. case find (\<lambda>oi. oi_ID oi = oi_ID new) (itemRows s) of
       None \<Rightarrow>
         if oi_OrderID new \<in> fst ` set (orderRows s) then (Inr (), itemRows_update (\<lambda>rows. rows @ [new]) s) else (Inl RtDbError, s)
     | Some oi \<Rightarrow>
         if order_matches oi (oi_ReturnedWithID oi) s
         then (Inr (), itemRows_update (map_all (\<lambda>row. oi_ID row = oi_ID new) f) s) else (Inl RtDbError, s))"
  by (rule guarI) (auto simp: find_None_iff intro!: assms split: option.split)

interpretation unsubscribed_runs: return_relation no_returns False
proof
  show "guar no_returns (CreateOrder_rt i u)" "guar no_returns (CreateShipment_rt i d)" for i u d
    unfolding CreateOrder_rt_def CreateShipment_rt_def by (intro unsubscribed.guar_insert_one no_returns_apart; simp)+
  show "guar no_returns (SetShipmentDelivered i t)" for i t
    unfolding SetShipmentDelivered_def
    by (intro guar_intros unsubscribed.guar_ext unsubscribed.guar_modify no_returns_apart) simp_all
  show "guar no_returns (UpsertOrderItemFromShipment i sh u)" "guar no_returns (UpsertOrderItemFromOrder i n u v)" for i sh u n v
    unfolding UpsertOrderItemFromShipment_def UpsertOrderItemFromOrder_def upsert_item_def
    by (intro unsubscribed.guar_ext upsert_item_keeps no_returns_apart unsubscribed.R_refl; simp)+
  show "guar no_returns (CreateReturn c ids reason)" for c ids reason
  proof (rule guarI)
    fix s :: return_db
    obtain res s' where run: "CreateReturn c ids reason s = (res, s')" by fastforce
    show "no_returns s (snd (CreateReturn c ids reason s))"
      using createReturn_refused [OF run] run by (cases s; cases s'; simp add: no_returns_def)
  qed
qed simp

text \<open>
  C29. As the service is wired, no return is ever created: from tables without product variant
  versions, whatever is delivered, asked or lost, no return is stored or announced, and every further
  request is refused.
\<close>

theorem no_return_without_versions:
  assumes "(return_step False)\<^sup>*\<^sup>* s s'" "versionRows s = []"
  shows "returnRows s' = returnRows s \<and> outbox s' = outbox s \<and> fst (CreateReturn c ids reason s') \<noteq> Inr g"
proof -
  have "no_returns s s'" by (rule unsubscribed_runs.steps_keep [OF assms(1)])
  moreover obtain res s'' where "CreateReturn c ids reason s' = (res, s'')" by fastforce
  ultimately show ?thesis using createReturn_refused [of c ids reason s' res s''] assms(2) by (auto simp: no_returns_def)
qed

subsection \<open>Items are returned once\<close>

text \<open>The links of the tables: an item, its order and its return.\<close>

definition links :: "return_db \<Rightarrow> (uuid \<times> uuid \<times> uuid) set" where
  "links s = (\<lambda>oi. (oi_ID oi, oi_OrderID oi, the (oi_ReturnedWithID oi))) ` {oi \<in> set (itemRows s). oi_ReturnedWithID oi \<noteq> None}"

definition return_books :: "return_db \<Rightarrow> bool" where
  "return_books s \<longleftrightarrow> distinct (map oi_ID (itemRows s)) \<and> distinct (map rt_ID (returnRows s)) \<and>
     (\<lambda>l. (snd (snd l), fst (snd l))) ` links s = (\<lambda>row. (rt_ID row, rt_OrderID row)) ` set (returnRows s)"

definition returned_stay :: "return_db \<Rightarrow> return_db \<Rightarrow> bool" where
  "returned_stay s s' \<longleftrightarrow> (return_books s \<longrightarrow> return_books s' \<and> links s \<subseteq> links s')"

lemma books_tables:
  "itemRows s = itemRows t \<Longrightarrow> links s = links t"
  "itemRows s = itemRows t \<Longrightarrow> returnRows s = returnRows t \<Longrightarrow> return_books s = return_books t"
  by (simp_all add: links_def return_books_def)

lemma returned_stay_apart:
  "itemRows s' = itemRows s \<Longrightarrow> returnRows s' = returnRows s \<Longrightarrow> returned_stay s s'"
  using books_tables [of s' s] by (simp add: returned_stay_def)

lemma links_alt:
  "links s = (\<lambda>(i, o', r). (i, o', the r)) ` {x \<in> set (map (\<lambda>oi. (oi_ID oi, oi_OrderID oi, oi_ReturnedWithID oi)) (itemRows s)).
     snd (snd x) \<noteq> None}"
  by (auto simp: links_def image_iff) (metis option.sel)

lemma links_map_all:
  assumes "\<And>oi. (oi_ID (f oi), oi_OrderID (f oi), oi_ReturnedWithID (f oi)) = (oi_ID oi, oi_OrderID oi, oi_ReturnedWithID oi)"
  shows "links (itemRows_update (map_all P f) s) = links s"
proof -
  have "map (\<lambda>oi. (oi_ID oi, oi_OrderID oi, oi_ReturnedWithID oi)) (map_all P f (itemRows s)) =
      map (\<lambda>oi. (oi_ID oi, oi_OrderID oi, oi_ReturnedWithID oi)) (itemRows s)"
    by (rule map_map_all) (rule assms)
  then show ?thesis by (simp add: links_alt)
qed

lemma returned_stay_update:
  assumes "\<And>oi. (oi_ID (f oi), oi_OrderID (f oi), oi_ReturnedWithID (f oi)) = (oi_ID oi, oi_OrderID oi, oi_ReturnedWithID oi)"
  shows "returned_stay s (itemRows_update (map_all P f) s)"
  using links_map_all [OF assms] map_map_all [of oi_ID f P "itemRows s"] assms
  by (simp add: returned_stay_def return_books_def)

lemma returned_stay_new:
  assumes "oi_ReturnedWithID new = None" "oi_ID new \<notin> oi_ID ` set (itemRows s)"
  shows "returned_stay s (itemRows_update (\<lambda>rows. rows @ [new]) s)"
proof -
  have "links (itemRows_update (\<lambda>rows. rows @ [new]) s) = links s"
    using assms(1) unfolding links_def by (intro arg_cong2 [of _ _ _ _ image] refl) auto
  then show ?thesis using assms(2) by (simp add: returned_stay_def return_books_def)
qed

lemma links_marked:
  assumes "\<forall>oi \<in> set (itemRows s). oi_ID oi \<in> A \<longrightarrow> oi_ReturnedWithID oi = None" "itemRows s' = mark_returned r A (itemRows s)"
  shows "links s' = links s \<union> (\<lambda>oi. (oi_ID oi, oi_OrderID oi, r)) ` {oi \<in> set (itemRows s). oi_ID oi \<in> A}"
proof -
  have "{oi \<in> set (itemRows s'). oi_ReturnedWithID oi \<noteq> None} =
      {oi \<in> set (itemRows s). oi_ReturnedWithID oi \<noteq> None} \<union>
      (\<lambda>oi. oi\<lparr>oi_ReturnedWithID := Some r\<rparr>) ` {oi \<in> set (itemRows s). oi_ID oi \<in> A}"
    using assms(1) unfolding assms(2) mark_returned_def set_map_all by (auto simp: image_iff)
  then show ?thesis unfolding links_def by (simp add: image_Un image_image)
qed

lemma returned_stay_created:
  assumes "validated_items ids caller t s0 = (Inr ois, s1)" "itemRows s0 = itemRows s"
    and "rt_ID row \<notin> rt_ID ` set (returnRows s)" "rt_OrderID row = oi_OrderID (hd ois)"
    and "returnRows s' = returnRows s @ [row\<lparr>rt_CreatedAt := u\<rparr>]"
      "itemRows s' = mark_returned (rt_ID row) (oi_ID ` set ois) (itemRows s)"
  shows "returned_stay s s'"
  unfolding returned_stay_def
proof (rule impI)
  assume books: "return_books s"
  note v = validated_items_run [OF assms(1)]
  have ois: "set ois = {oi \<in> set (itemRows s). oi_ID oi \<in> set ids}" "ois \<noteq> []" using v assms(2) by auto
  have mine: "{oi \<in> set (itemRows s). oi_ID oi \<in> oi_ID ` set ois} = set ois"
    using ois(1) books by (auto simp: return_books_def distinct_map inj_on_def)
  have "\<forall>oi \<in> set ois. oi_ReturnedWithID oi = None" using v by (auto simp: returnedItemIDs_def filter_empty_conv)
  then have "\<forall>oi \<in> set (itemRows s). oi_ID oi \<in> oi_ID ` set ois \<longrightarrow> oi_ReturnedWithID oi = None" using mine by blast
  note L = links_marked [OF this assms(6), unfolded mine]
  have "(\<lambda>oi. (rt_ID row, oi_OrderID oi)) ` set ois = {(rt_ID row, rt_OrderID row)}"
    using v ois(2) assms(4) by (fastforce simp: list_all_iff image_iff)
  then have "(\<lambda>l. (snd (snd l), fst (snd l))) ` links s' =
      (\<lambda>row. (rt_ID row, rt_OrderID row)) ` set (returnRows s')"
    using books unfolding L assms(5) image_Un image_image return_books_def by simp
  moreover have "map oi_ID (itemRows s') = map oi_ID (itemRows s)"
    unfolding assms(6) mark_returned_def by (rule map_map_all) simp
  ultimately show "return_books s' \<and> links s \<subseteq> links s'"
    using books assms(3,5) L by (simp add: return_books_def)
qed

interpretation stay: effect_rel_tx returned_stay
  by unfold_locales ((rule returned_stay_apart; simp; fail) | (auto simp: returned_stay_def) [1])+

interpretation stay_runs: return_relation returned_stay True
proof
  show "guar returned_stay (CreateOrder_rt i u)" "guar returned_stay (CreateShipment_rt i d)" for i u d
    unfolding CreateOrder_rt_def CreateShipment_rt_def by (intro stay.guar_insert_one returned_stay_apart; simp)+
  show "guar returned_stay (SetShipmentDelivered i t)" for i t
    unfolding SetShipmentDelivered_def by (intro guar_intros stay.guar_ext stay.guar_modify returned_stay_apart) simp_all
  show "guar returned_stay (UpsertOrderItemFromShipment i sh u)" "guar returned_stay (UpsertOrderItemFromOrder i n u v)" for i sh u n v
    unfolding UpsertOrderItemFromShipment_def UpsertOrderItemFromOrder_def upsert_item_def
    by (intro stay.guar_ext upsert_item_keeps returned_stay_update returned_stay_new stay.R_refl; simp)+
  have row: "guar returned_stay (CreateReturnRow ids reason caller t)" for ids reason caller t
  proof (rule guarI)
    fix s :: return_db
    obtain res s' where run: "CreateReturnRow ids reason caller t s = (res, s')" by fastforce
    have "returned_stay s s'"
      using run
    proof (cases rule: createReturnRow_effect)
      case (nothing e)
      then show ?thesis by (intro returned_stay_apart; cases s; cases s'; simp)
    next
      case (created ois row fs s0)
      then show ?thesis by (intro returned_stay_created [OF created(1)]) simp_all
    qed
    then show "returned_stay s (snd (CreateReturnRow ids reason caller t s))" using run by simp
  qed
  show "guar returned_stay (CreateReturn c ids reason)" for c ids reason
    unfolding CreateReturn_def requireUser_rt_def PublishReturnCreated_def
    by (intro guar_intros row stay.guar_emit returned_stay_apart) simp_all
  show "guar returned_stay (CreateProductVariantVersion_rt i days)" for i days
    unfolding CreateProductVariantVersion_rt_def by (intro stay.guar_pg_insert returned_stay_apart) simp_all
qed

text \<open>
  C28. Also with the subscription in place: over any run of requests, deliveries and failures an item that
  was returned stays linked to its return, is never linked to a second one, and the returns stored are
  exactly those that items of their order are linked to.
\<close>

theorem items_returned_once:
  assumes "(return_step True)\<^sup>*\<^sup>* s s'" "return_books s"
  shows "links s \<subseteq> links s' \<and>
    (\<lambda>(i, o', r). (r, o')) ` links s' = (\<lambda>row. (rt_ID row, rt_OrderID row)) ` set (returnRows s') \<and>
    (\<forall>i. \<forall>x \<in> {x. (i, x) \<in> links s'}. {x. (i, x) \<in> links s'} = {x})"
proof -
  have "returned_stay s s'" by (rule stay_runs.steps_keep [OF assms(1)])
  then have s': "return_books s'" "links s \<subseteq> links s'" using assms(2) by (simp_all add: returned_stay_def)
  have "x = y" if "(i, x) \<in> links s'" "(i, y) \<in> links s'" for i x y
    using that s'(1) by (auto simp: links_def return_books_def distinct_map inj_on_def)
  then show ?thesis using s' by (auto simp: return_books_def case_prod_unfold)
qed

end
