(* ===== verification/Return_Exact.thy ===== *)
theory Return_Exact
  imports Return_Claims
begin

text \<open>
  When a return can be created: the service's checks and the database's triggers together, as one condition
  on the tables; and a shipment that is announced before its order.
\<close>

subsection \<open>Days\<close>




subsection \<open>Validation\<close>

text \<open>The item was delivered, and its window is unlimited or not over: \<open>n\<close> days end with the next day's start.\<close>

definition in_window :: "time \<Rightarrow> return_db \<Rightarrow> ReturnItem \<Rightarrow> bool" where
  "in_window t s oi \<longleftrightarrow>
     (case (Option.bind (oi_SentWithID oi) (\<lambda>sh. find (\<lambda>x. fst x = sh) (shipmentRows s)),
            Option.bind (oi_ProductVariantVersionID oi) (\<lambda>v. find (\<lambda>x. fst x = v) (versionRows s))) of
        (Some (_, Some delivered), Some (_, limit)) \<Rightarrow>
          (case limit of None \<Rightarrow> True | Some n \<Rightarrow> 0 < n \<and> t - delivered < (n + 1) * one_day)
      | _ \<Rightarrow> False)"

definition returnable :: "uuid list \<Rightarrow> string \<Rightarrow> uuid \<Rightarrow> time \<Rightarrow> return_db \<Rightarrow> bool" where
  "returnable ids reason caller t s \<longleftrightarrow>
     (let ois = filter (\<lambda>oi. oi_ID oi \<in> set ids) (itemRows s) in
      ois \<noteq> [] \<and> set ids \<subseteq> oi_ID ` set ois \<and> varchar reason \<and>
      (\<exists>order \<in> set (orderRows s). snd order = caller \<and> (\<forall>oi \<in> set ois. oi_OrderID oi = fst order)) \<and>
      (\<forall>oi \<in> set ois. oi_ReturnedWithID oi = None \<and> oi_CompensatableAmount oi \<noteq> None \<and> in_window t s oi))"

text \<open>Primary keys, and instants near enough for their differences to be durations.\<close>

definition return_tables :: "time \<Rightarrow> return_db \<Rightarrow> bool" where
  "return_tables t s \<longleftrightarrow> distinct (map oi_ID (itemRows s)) \<and> distinct (map fst (orderRows s)) \<and>
     distinct (map fst (shipmentRows s)) \<and> distinct (map fst (versionRows s)) \<and>
     list_all (\<lambda>sh. case snd sh of None \<Rightarrow> True | Some d \<Rightarrow> \<bar>t - d\<bar> < 2 ^ 63) (shipmentRows s)"





lemma find_key: "find (\<lambda>x. fst x = k) rows = Some y \<Longrightarrow> fst y = k"
  by (auto dest: find_Some_in)






subsection \<open>Triggers\<close>










subsection \<open>Creating returns\<close>


subsection \<open>A shipment announced before its order\<close>

definition shipments_grow :: "return_db \<Rightarrow> return_db \<Rightarrow> bool" where
  "shipments_grow s s' \<longleftrightarrow> fst ` set (shipmentRows s) \<subseteq> fst ` set (shipmentRows s')"

lemma restore_shipments [simp]: "shipmentRows (restore s t) = shipmentRows s"
  by (cases s; cases t; simp add: restore_def)

interpretation grow: effect_rel_tx shipments_grow
  by unfold_locales (auto simp: shipments_grow_def)

lemma shipments_same: "shipmentRows s' = shipmentRows s \<Longrightarrow> shipments_grow s s'"
  by (simp add: shipments_grow_def)

lemma shipments_rekeyed: "map fst (shipmentRows s') = map fst (shipmentRows s) \<Longrightarrow> shipments_grow s s'"
  unfolding shipments_grow_def by (metis list.set_map order_refl)

interpretation grow_runs: return_relation shipments_grow True
proof
  show "guar shipments_grow (CreateOrder_rt i u)" "guar shipments_grow (CreateShipment_rt i d)" for i u d
    unfolding CreateOrder_rt_def CreateShipment_rt_def by (intro grow.guar_insert_one; auto simp: shipments_grow_def)+
  show "guar shipments_grow (SetShipmentDelivered i t)" for i t
    unfolding SetShipmentDelivered_def
    by (intro guar_intros grow.guar_ext grow.guar_modify shipments_rekeyed) (simp add: map_map_all)
  show "guar shipments_grow (UpsertOrderItemFromShipment i sh u)" "guar shipments_grow (UpsertOrderItemFromOrder i n u v)" for i sh u n v
    unfolding UpsertOrderItemFromShipment_def UpsertOrderItemFromOrder_def upsert_item_def
    by (intro grow.guar_ext upsert_item_keeps shipments_same; simp)+
  have row: "guar shipments_grow (CreateReturnRow ids reason caller t)" for ids reason caller t
  proof (rule guarI)
    fix s :: return_db
    obtain res s' where run: "CreateReturnRow ids reason caller t s = (res, s')" by fastforce
    have "shipments_grow s s'"
      using run by (cases rule: createReturnRow_effect) (intro shipments_same; cases s; cases s'; simp)+
    then show "shipments_grow s (snd (CreateReturnRow ids reason caller t s))" using run by simp
  qed
  show "guar shipments_grow (CreateReturn c ids reason)" for c ids reason
    unfolding CreateReturn_def requireUser_rt_def PublishReturnCreated_def
    by (intro guar_intros row grow.guar_emit shipments_same) simp_all
  show "guar shipments_grow (CreateProductVariantVersion_rt i days)" for i days
    unfolding CreateProductVariantVersion_rt_def by (intro grow.guar_pg_insert shipments_same) simp_all
qed

lemma known_shipment_fails:
  assumes "sc_OrderID sc = Some o'" "sc_ID sc \<in> fst ` set (shipmentRows s)" "handleShipmentCreated (Some sc) s = (r, s')"
  shows "r = Inl RtDbError \<and> itemRows s' = itemRows s"
proof -
  have dup: "\<exists>t'. CreateShipment_rt (sc_ID sc) d t = (Inl RtDbError, t') \<and> itemRows t' = itemRows t"
    if "sc_ID sc \<in> fst ` set (shipmentRows t)" for d t
  proof (cases "faults t")
    case Nil
    then show ?thesis using that by (simp add: CreateShipment_rt_def insert_one_def run_simps)
  next
    case (Cons f fs)
    then show ?thesis using that by (cases f) (simp_all add: CreateShipment_rt_def insert_one_def ext_def)
  qed
  show ?thesis
  proof (cases "sc_Status sc = ShipmentStatusDelivered")
    case True
    then have "andThen (CreateShipment_rt (sc_ID sc) (Some (clock s (reads s))))
        (\<lambda>_. each (\<lambda>i. UpsertOrderItemFromShipment i (sc_ID sc) o') (sc_OrderItemIds sc)) (s\<lparr>reads := Suc (reads s)\<rparr>) = (r, s')"
      using assms(1,3) by (simp add: handleShipmentCreated_def run_simps)
    then show ?thesis using dup [of "s\<lparr>reads := Suc (reads s)\<rparr>" "Some (clock s (reads s))"] assms(2)
      by (auto simp: run_andThen)
  next
    case False
    then show ?thesis using assms dup [of s None] by (auto simp: handleShipmentCreated_def run_simps run_andThen)
  qed
qed

text \<open>
  A shipment that is announced before its order reached the service is lost to it: the delivery stores
  the shipment and then fails on the foreign key of the items, and every redelivery, at whatever later state,
  fails on the shipment's own key before any item is written, although the event is retried until it succeeds.
\<close>

theorem early_shipment_lost:
  assumes "faults s = []" "sc_OrderID sc = Some o'" "o' \<notin> fst ` set (orderRows s)"
    and "sc_ID sc \<notin> fst ` set (shipmentRows s)" "sc_OrderItemIds sc = i # is" "i \<notin> oi_ID ` set (itemRows s)"
    and "handleShipmentCreated (Some sc) s = (r, s1)" "(return_step True)\<^sup>*\<^sup>* s1 s2" "handleShipmentCreated (Some sc) s2 = (r2, s3)"
  shows "r = Inl RtDbError \<and> sc_ID sc \<in> fst ` set (shipmentRows s1) \<and> r2 = Inl RtDbError \<and> itemRows s3 = itemRows s2"
proof -
  have none: "find (\<lambda>oi. oi_ID oi = i) (itemRows s) = None" using assms(6) by (auto simp: find_None_iff)
  have first: "r = Inl RtDbError \<and> sc_ID sc \<in> fst ` set (shipmentRows s1)"
    using assms(1-5,7) none
    by (cases "sc_Status sc = ShipmentStatusDelivered")
      (auto simp: handleShipmentCreated_def run_simps run_andThen CreateShipment_rt_def insert_one_def
        UpsertOrderItemFromShipment_def upsert_item_def)
  moreover have "shipments_grow s1 s2" by (rule grow_runs.steps_keep [OF assms(8)])
  ultimately show ?thesis using known_shipment_fails [OF assms(2) _ assms(9)] by (auto simp: shipments_grow_def)
qed

subsection \<open>A shop with one delivered item\<close>

definition rt_shop :: return_db where
  "rt_shop = \<lparr>faults = [], outbox = [], fresh = (\<lambda>n. UUID (of_nat (1000 + n))), minted = 0, clock = (\<lambda>n. 5 * one_day), reads = 0,
     orderRows = [(UUID 10, UUID 1)], shipmentRows = [(UUID 20, Some 0)], versionRows = [(UUID 30, Some 14)],
     itemRows = [\<lparr>oi_ID = UUID 40, oi_ReturnedWithID = None, oi_SentWithID = Some (UUID 20), oi_OrderID = UUID 10,
       oi_CompensatableAmount = Some 500, oi_ProductVariantVersionID = Some (UUID 30)\<rparr>], returnRows = []\<rparr>"

definition rt_buyer :: ctx where
  "rt_buyer = Some \<lparr>user_ID = UUID 1, user_Roles = []\<rparr>"

definition rt_returned :: return_db where
  "rt_returned = snd (CreateReturn rt_buyer [UUID 40] ''broken'' rt_shop)"

definition rt_early :: ShipmentCreatedR where
  "rt_early = \<lparr>sc_ID = UUID 21, sc_OrderID = Some (UUID 11), sc_Status = ''PENDING'', sc_OrderItemIds = [UUID 41]\<rparr>"

lemma rt_shop_facts:
  "faults rt_shop = []" "clock rt_shop (reads rt_shop) = 5 * one_day" "return_tables (5 * one_day) rt_shop"
  "fresh rt_shop (minted rt_shop) \<notin> rt_ID ` set (returnRows rt_shop)"
  "returnable [UUID 40] ''broken'' (UUID 1) (5 * one_day) rt_shop" "return_books rt_shop"
  by (code_simp; simp?)+


lemma items_returned_once_witness:
  "links rt_shop \<subseteq> links rt_returned \<and>
     (\<lambda>(i, o', r). (r, o')) ` links rt_returned = (\<lambda>row. (rt_ID row, rt_OrderID row)) ` set (returnRows rt_returned)"
proof -
  have "return_step True rt_shop rt_returned"
    unfolding rt_returned_def by (rule return_step.create [OF prod.collapse [symmetric]])
  then show ?thesis using items_returned_once [OF r_into_rtranclp rt_shop_facts(6)] by blast
qed

lemma no_return_without_versions_witness:
  "\<forall>g. fst (CreateReturn rt_buyer [UUID 40] ''broken'' (rt_shop\<lparr>versionRows := []\<rparr>)) \<noteq> Inr g"
  using no_return_without_versions [of "rt_shop\<lparr>versionRows := []\<rparr>" _ rt_buyer "[UUID 40]" "''broken''"] by simp

lemma early_shipment_lost_witness:
  "fst (handleShipmentCreated (Some rt_early) (snd (handleShipmentCreated (Some rt_early) rt_shop))) = Inl RtDbError"
proof -
  have "UUID 11 \<notin> fst ` set (orderRows rt_shop)" "UUID 21 \<notin> fst ` set (shipmentRows rt_shop)" "UUID 41 \<notin> oi_ID ` set (itemRows rt_shop)"
    by (simp_all add: rt_shop_def)
  then show ?thesis
    using early_shipment_lost [of rt_shop rt_early "UUID 11" "UUID 41" "[]", OF rt_shop_facts(1) _ _ _ _ _
        prod.collapse [symmetric] rtranclp.rtrancl_refl prod.collapse [symmetric]]
    by (simp add: rt_early_def)
qed

end
