(* ===== verification/Versions.thy ===== *)
theory Versions
  imports Postgres
begin

text \<open>
  Numbered versions, as the tax and the catalog service keep them in Postgres: an owner row (a tax rate, a
  product variant) points to its current version, and a new version takes the highest number so far plus one.
  The columns are parameters: \<open>oid\<close> and \<open>cur\<close> of the owner, \<open>vid\<close>, \<open>vo\<close> (the owner's id)
  and \<open>vn\<close> (the number) of the version.
\<close>

text \<open>\<open>MAX\<close> of a column: NULL when no row matches.\<close>

definition sql_max :: "int list \<Rightarrow> int option" where
  "sql_max vs = (case vs of [] \<Rightarrow> None | v # vs' \<Rightarrow> Some (foldl max v vs'))"

lemma sql_max_upto: "sql_max [1..int n] = (if n = 0 then None else Some (int n))"
proof (cases n)
  case (Suc m)
  have "sql_max vs = Some (Max (set vs))" if "vs \<noteq> []" for vs
    using that by (cases vs) (simp_all add: sql_max_def foldl_conv_fold Max.set_eq_fold max.commute del: set_simps)
  moreover have "[1..int n] \<noteq> []" using Suc by simp
  moreover have "Max {1..int n} = int n" using Suc by (intro Max_eqI) auto
  ultimately show ?thesis using Suc by simp
qed (simp add: sql_max_def)

definition max_version :: "int list \<Rightarrow> int" where
  "max_version vs = (case sql_max vs of None \<Rightarrow> 0 | Some n \<Rightarrow> n)"

lemma max_version_upto: "max_version [1..int n] = int n"
  by (simp add: max_version_def sql_max_upto)

text \<open>Versions \<open>1\<close> to \<open>n\<close> in the order they were created, the last of them current.\<close>

definition numbered_versions :: "('v \<Rightarrow> uuid) \<Rightarrow> ('v \<Rightarrow> int) \<Rightarrow> 'v list \<Rightarrow> uuid option \<Rightarrow> bool" where
  "numbered_versions vid vn vs current \<longleftrightarrow>
     vs \<noteq> [] \<and> map vn vs = [1..int (length vs)] \<and> current = Some (vid (last vs))"

definition version_books ::
  "('o \<Rightarrow> uuid) \<Rightarrow> ('o \<Rightarrow> uuid option) \<Rightarrow> ('v \<Rightarrow> uuid) \<Rightarrow> ('v \<Rightarrow> uuid) \<Rightarrow> ('v \<Rightarrow> int) \<Rightarrow> 'o list \<Rightarrow> 'v list \<Rightarrow> bool" where
  "version_books oid cur vid vo vn os vs \<longleftrightarrow>
     distinct (map oid os) \<and> distinct (map vid vs) \<and> vo ` set vs \<subseteq> oid ` set os \<and>
     list_all (\<lambda>t. numbered_versions vid vn (filter (\<lambda>v. vo v = oid t) vs) (cur t)) os"

lemma version_books_numbered:
  "version_books oid cur vid vo vn os vs \<Longrightarrow> t \<in> set os \<Longrightarrow>
     numbered_versions vid vn (filter (\<lambda>v. vo v = oid t) vs) (cur t)"
  by (simp add: version_books_def list_all_iff)

text \<open>The current version has the highest number.\<close>

lemma numbered_current:
  assumes "numbered_versions vid vn vs current"
  obtains v where "v \<in> set vs" "current = Some (vid v)" "vn v = int (length vs)"
proof -
  have ne: "vs \<noteq> []" and vs: "map vn vs = [1..int (length vs)]" and cur: "current = Some (vid (last vs))"
    using assms by (simp_all add: numbered_versions_def)
  have "vn (last vs) = last [1..int (length vs)]" using ne vs by (metis last_map)
  also have "\<dots> = int (length vs)" using ne by (subst upto_rec2) (simp_all add: Suc_le_eq)
  finally show ?thesis using that last_in_set [OF ne] cur by blast
qed

text \<open>Storing the next version of an owner, old or new, and making it current keeps the books.\<close>

lemma version_books_next:
  assumes books: "version_books oid cur vid vo vn os vs" and fresh: "vid v \<notin> vid ` set vs"
    and number: "vn v = max_version (map vn (filter (\<lambda>w. vo w = vo v) vs)) + 1"
    and patch: "\<And>t. oid (upd t) = oid t" "\<And>t. cur (upd t) = Some (vid v)"
    and owner: "vo v \<in> oid ` set os \<and> new = [] \<or> (\<exists>row. new = [row] \<and> oid row = vo v \<and> oid row \<notin> oid ` set os)"
  shows "version_books oid cur vid vo vn (map_all (\<lambda>t. oid t = vo v) upd (os @ new)) (vs @ [v])" (is "version_books _ _ _ _ _ ?os _")
proof -
  have ids: "map oid ?os = map oid (os @ new)" by (rule map_map_all) (simp add: patch)
  let ?mine = "filter (\<lambda>w. vo w = vo v) vs"
  have upto: "map vn ?mine = [1..int (length ?mine)]"
  proof (cases "vo v \<in> oid ` set os")
    case True
    then obtain t where "t \<in> set os" "oid t = vo v" by auto
    then show ?thesis using version_books_numbered [OF books, of t] by (simp add: numbered_versions_def)
  next
    case False
    then have "?mine = []" using books by (force simp: version_books_def filter_empty_conv)
    then show ?thesis by simp
  qed
  then have "vn v = int (length ?mine) + 1" using number by (simp add: max_version_upto)
  then have vs: "map vn (?mine @ [v]) = [1..int (length (?mine @ [v]))]" using upto by (simp add: upto_rec2)
  have "numbered_versions vid vn (filter (\<lambda>w. vo w = oid t) (vs @ [v])) (cur t)" if "t \<in> set ?os" for t
  proof (cases "oid t = vo v")
    case True
    then have "cur t = Some (vid v)" using that by (auto simp: set_map_all patch)
    then show ?thesis using vs True by (simp add: numbered_versions_def)
  next
    case False
    then have "t \<in> set os" using that owner by (auto simp: set_map_all patch)
    then show ?thesis using version_books_numbered [OF books] False by simp
  qed
  moreover have "distinct (map oid ?os)" using ids books owner by (auto simp: version_books_def) (metis imageI)
  moreover have "oid ` set ?os = oid ` set (os @ new)" using ids by (metis list.set_map)
  ultimately show ?thesis using books fresh owner by (auto simp: version_books_def list_all_iff)
qed

text \<open>Changing other columns of the owners or of the versions changes nothing.\<close>

lemma version_books_map:
  assumes "\<And>t. oid (f t) = oid t" "\<And>t. cur (f t) = cur t"
  shows "version_books oid cur vid vo vn (map f os) vs = version_books oid cur vid vo vn os vs"
proof -
  have "map oid (map f os) = map oid os" by (simp add: assms(1))
  moreover from this have "oid ` set (map f os) = oid ` set os" by (metis list.set_map)
  moreover have "list_all P (map f os) = list_all (P \<circ> f) os" for P by (simp add: list_all_iff)
  ultimately show ?thesis by (simp add: version_books_def comp_def assms)
qed

end
