(* ===== verification/Tax.thy ===== *)
theory Tax
  imports Versions Auth Go_Float Timestamps "HOL-Library.Product_Lexorder"
begin

text \<open>
  \<open>src/tax\<close>: tax rates and their numbered versions in Postgres, the mutations that announce them,
  and the queries. A NULL \<open>currentVersionId\<close> exists only inside the transaction that creates a rate and
  reads as the zero id.
\<close>

subsection \<open>Rows\<close>

record TaxRateRow =
  tx_ID :: uuid
  tx_Name :: string
  tx_Description :: string
  tx_CurrentVersionID :: "uuid option"

record TaxVersionRow =
  tv_ID :: uuid
  tv_Rate :: f64
  tv_Version :: int
  tv_CreatedAt :: time
  tv_TaxRateID :: uuid

datatype tax_err =
    TxDbError
  | TaxRateUnknown uuid
  | TaxVersionUnknown uuid
  | TxAuth auth_err
  | TxPublishFailed

record TaxRateCreatedDTO =
  tc_ID :: uuid
  tc_Name :: string
  tc_Description :: string
  tc_CurrentVersionID :: uuid

record TaxVersionCreatedDTO =
  vc_ID :: uuid
  vc_Rate :: f64
  vc_Version :: int
  vc_CreatedAt :: string
  vc_TaxRateID :: uuid

datatype tax_event = TaxRateCreated TaxRateCreatedDTO | TaxVersionCreated TaxVersionCreatedDTO

record tax_db = "tax_event io" +
  rateRows :: "TaxRateRow list"
  taxVersionRows :: "TaxVersionRow list"

type_synonym 'a tax_act = "(tax_db, tax_err, 'a) act"

subsection \<open>Store\<close>

definition GetTaxRate :: "uuid \<Rightarrow> TaxRateRow tax_act" where
  "GetTaxRate i = find_one TxDbError (TaxRateUnknown i) rateRows (\<lambda>t. tx_ID t = i)"

definition GetTaxRateVersion :: "uuid \<Rightarrow> TaxVersionRow tax_act" where
  "GetTaxRateVersion i = find_one TxDbError (TaxVersionUnknown i) taxVersionRows (\<lambda>v. tv_ID v = i)"

definition TaxRateExists :: "uuid \<Rightarrow> bool tax_act" where
  "TaxRateExists i = ext TxDbError (gets (\<lambda>s. list_ex (\<lambda>t. tx_ID t = i) (rateRows s)))"

text \<open>\<open>COALESCE(MAX(version), 0) + 1\<close> of the rate's versions, an \<open>INT\<close>.\<close>

definition next_version :: "uuid \<Rightarrow> int tax_act" where
  "next_version i = ext TxDbError (\<lambda>s.
     let n = max_version (map tv_Version (filter (\<lambda>v. tv_TaxRateID v = i) (taxVersionRows s))) + 1
     in if int4 n then (Inr n, s) else (Inl TxDbError, s))"

definition insert_version :: "TaxVersionRow \<Rightarrow> unit tax_act" where
  "insert_version v = pg_insert TxDbError
     (\<lambda>s. int4 (tv_Version v) \<and> tv_ID v \<notin> tv_ID ` set (taxVersionRows s) \<and> tv_TaxRateID v \<in> tx_ID ` set (rateRows s))
     (taxVersionRows_update (\<lambda>rows. rows @ [v\<lparr>tv_CreatedAt := pg_time (tv_CreatedAt v)\<rparr>]))"

definition insertTaxRateVersion :: "uuid \<Rightarrow> f64 \<Rightarrow> time \<Rightarrow> TaxVersionRow tax_act" where
  "insertTaxRateVersion taxRateID rate createdAt =
     andThen (next_version taxRateID) (\<lambda>version.
     andThen new_uuid (\<lambda>i.
       let v = \<lparr>tv_ID = i, tv_Rate = rate, tv_Version = version, tv_CreatedAt = createdAt, tv_TaxRateID = taxRateID\<rparr> in
       andThen (insert_version v) (\<lambda>_. ret v)))"

definition set_current_version :: "uuid \<Rightarrow> uuid \<Rightarrow> unit tax_act" where
  "set_current_version rateID versionID = pg_insert TxDbError
     (\<lambda>s. versionID \<in> tv_ID ` set (taxVersionRows s) \<or> rateID \<notin> tx_ID ` set (rateRows s))
     (rateRows_update (map_all (\<lambda>t. tx_ID t = rateID) (\<lambda>t. t\<lparr>tx_CurrentVersionID := Some versionID\<rparr>)))"

definition insert_rate :: "TaxRateRow \<Rightarrow> unit tax_act" where
  "insert_rate t = pg_insert TxDbError
     (\<lambda>s. varchar (tx_Name t) \<and> varchar (tx_Description t) \<and> tx_ID t \<notin> tx_ID ` set (rateRows s))
     (rateRows_update (\<lambda>rows. rows @ [t]))"

definition CreateTaxRateRow :: "string \<Rightarrow> string \<Rightarrow> f64 \<Rightarrow> time \<Rightarrow> (TaxRateRow \<times> TaxVersionRow) tax_act" where
  "CreateTaxRateRow name description rate createdAt = transaction TxDbError TxDbError
     (andThen new_uuid (\<lambda>rateID.
      andThen (insert_rate \<lparr>tx_ID = rateID, tx_Name = name, tx_Description = description, tx_CurrentVersionID = None\<rparr>) (\<lambda>_.
      andThen (insertTaxRateVersion rateID rate createdAt) (\<lambda>version.
      andThen (set_current_version rateID (tv_ID version)) (\<lambda>_.
        ret (\<lparr>tx_ID = rateID, tx_Name = name, tx_Description = description, tx_CurrentVersionID = Some (tv_ID version)\<rparr>, version))))))"

definition CreateTaxRateVersionRow :: "uuid \<Rightarrow> f64 \<Rightarrow> time \<Rightarrow> TaxVersionRow tax_act" where
  "CreateTaxRateVersionRow taxRateID rate createdAt = transaction TxDbError TxDbError
     (andThen (TaxRateExists taxRateID) (\<lambda>exists.
        if \<not> exists then fail (TaxRateUnknown taxRateID)
        else andThen (insertTaxRateVersion taxRateID rate createdAt) (\<lambda>version.
          andThen (set_current_version taxRateID (tv_ID version)) (\<lambda>_. ret version))))"

definition patched_rate :: "string option \<Rightarrow> string option \<Rightarrow> TaxRateRow \<Rightarrow> TaxRateRow" where
  "patched_rate name description t = t\<lparr>tx_Name := (case name of None \<Rightarrow> tx_Name t | Some n \<Rightarrow> n),
     tx_Description := (case description of None \<Rightarrow> tx_Description t | Some d \<Rightarrow> d)\<rparr>"

definition UpdateTaxRateRow :: "uuid \<Rightarrow> string option \<Rightarrow> string option \<Rightarrow> TaxRateRow tax_act" where
  "UpdateTaxRateRow i name description = ext TxDbError (\<lambda>s.
     case find (\<lambda>t. tx_ID t = i) (rateRows s) of
       None \<Rightarrow> (Inl (TaxRateUnknown i), s)
     | Some t \<Rightarrow>
         let t' = patched_rate name description t
         in if varchar (tx_Name t') \<and> varchar (tx_Description t')
            then (Inr t', rateRows_update (map_all (\<lambda>t. tx_ID t = i) (patched_rate name description)) s)
            else (Inl TxDbError, s))"

subsection \<open>Pages\<close>

text \<open>The order of names is the database's; \<open>rank\<close> stands for its collation.\<close>

datatype tax_rate_order = TaxRateOrderByID | TaxRateOrderByName

fun tax_rate_key :: "(string \<Rightarrow> int) \<Rightarrow> tax_rate_order \<Rightarrow> TaxRateRow \<Rightarrow> int \<times> uuid" where
  "tax_rate_key rank TaxRateOrderByID t = (0, tx_ID t)"
| "tax_rate_key rank TaxRateOrderByName t = (rank (tx_Name t), tx_ID t)"

datatype tax_version_order = TaxRateVersionOrderByID | TaxRateVersionOrderByCreatedAt | TaxRateVersionOrderByVersion

fun tax_version_key :: "tax_version_order \<Rightarrow> TaxVersionRow \<Rightarrow> int \<times> uuid" where
  "tax_version_key TaxRateVersionOrderByID v = (0, tv_ID v)"
| "tax_version_key TaxRateVersionOrderByCreatedAt v = (tv_CreatedAt v, tv_ID v)"
| "tax_version_key TaxRateVersionOrderByVersion v = (tv_Version v, tv_ID v)"

definition ListTaxRates ::
  "(string \<Rightarrow> int) \<Rightarrow> int option \<Rightarrow> int option \<Rightarrow> tax_rate_order \<Rightarrow> bool \<Rightarrow> TaxRateRow PgConnection tax_act" where
  "ListTaxRates rank first skip order asc = pgList TxDbError rateRows (tax_rate_key rank order) first skip asc"

definition ListTaxRateVersions ::
  "uuid \<Rightarrow> int option \<Rightarrow> int option \<Rightarrow> tax_version_order \<Rightarrow> bool \<Rightarrow> TaxVersionRow PgConnection tax_act" where
  "ListTaxRateVersions taxRateID first skip order asc =
     pgList TxDbError (\<lambda>s. filter (\<lambda>v. tv_TaxRateID v = taxRateID) (taxVersionRows s)) (tax_version_key order) first skip asc"

subsection \<open>Models\<close>

record GTaxRate =
  gt_ID :: uuid
  gt_Name :: string
  gt_Description :: string
  gt_CurrentVersionID :: uuid

definition toTaxRate :: "TaxRateRow \<Rightarrow> GTaxRate" where
  "toTaxRate t = \<lparr>gt_ID = tx_ID t, gt_Name = tx_Name t, gt_Description = tx_Description t,
     gt_CurrentVersionID = (case tx_CurrentVersionID t of None \<Rightarrow> UUID 0 | Some v \<Rightarrow> v)\<rparr>"

text \<open>A version's GraphQL model has the fields of its row.\<close>

definition toTaxRateVersion :: "TaxVersionRow \<Rightarrow> TaxVersionRow" where
  "toTaxRateVersion v = v"

definition toTaxRateConnection :: "TaxRateRow PgConnection \<Rightarrow> GTaxRate PgConnection" where
  "toTaxRateConnection c = map_connection toTaxRate c"

definition toTaxRateVersionConnection :: "TaxVersionRow PgConnection \<Rightarrow> TaxVersionRow PgConnection" where
  "toTaxRateVersionConnection c = map_connection toTaxRateVersion c"

definition tx_ascending :: "OrderDirectionD option \<Rightarrow> bool" where
  "tx_ascending d \<longleftrightarrow> d = None \<or> d \<noteq> Some DirDesc"

text \<open>An order input is its direction and its field; \<open>Some\<close> field other than the id selects its columns.\<close>

definition taxRateOrder :: "(OrderDirectionD option \<times> tax_rate_order option) option \<Rightarrow> tax_rate_order \<times> bool" where
  "taxRateOrder ord = (case ord of
     None \<Rightarrow> (TaxRateOrderByID, True)
   | Some (d, f) \<Rightarrow> (if f = Some TaxRateOrderByName then TaxRateOrderByName else TaxRateOrderByID, tx_ascending d))"

definition taxRateVersionOrder ::
  "(OrderDirectionD option \<times> tax_version_order option) option \<Rightarrow> tax_version_order \<times> bool" where
  "taxRateVersionOrder ord = (case ord of
     None \<Rightarrow> (TaxRateVersionOrderByID, True)
   | Some (d, f) \<Rightarrow> (case f of None \<Rightarrow> TaxRateVersionOrderByID | Some col \<Rightarrow> col, tx_ascending d))"

subsection \<open>Events\<close>

definition FormatCreatedAt_tx :: "time \<Rightarrow> string" where
  "FormatCreatedAt_tx t = MarshalDateTime t"

definition versionEvent :: "TaxVersionRow \<Rightarrow> TaxVersionCreatedDTO" where
  "versionEvent v = \<lparr>vc_ID = tv_ID v, vc_Rate = tv_Rate v, vc_Version = tv_Version v,
     vc_CreatedAt = FormatCreatedAt_tx (tv_CreatedAt v), vc_TaxRateID = tv_TaxRateID v\<rparr>"

definition PublishTaxRateCreated :: "TaxRateCreatedDTO \<Rightarrow> unit tax_act" where
  "PublishTaxRateCreated e = emit TxPublishFailed (TaxRateCreated e)"

definition PublishTaxRateVersionCreated :: "TaxVersionCreatedDTO \<Rightarrow> unit tax_act" where
  "PublishTaxRateVersionCreated e = emit TxPublishFailed (TaxVersionCreated e)"

subsection \<open>Resolvers\<close>

definition employees_tx :: "ctx \<Rightarrow> unit tax_act" where
  "employees_tx c = (case RequireEmployeeOrAdmin c of Inl e \<Rightarrow> fail (TxAuth e) | Inr _ \<Rightarrow> ret ())"

text \<open>An omitted initial version has rate zero.\<close>

definition CreateTaxRate :: "ctx \<Rightarrow> string \<Rightarrow> string \<Rightarrow> f64 option \<Rightarrow> GTaxRate tax_act" where
  "CreateTaxRate c name description initial =
     andThen (employees_tx c) (\<lambda>_.
     andThen now (\<lambda>t.
     andThen (CreateTaxRateRow name description (case initial of None \<Rightarrow> Fin 0 0 | Some r \<Rightarrow> r) t) (\<lambda>(rate, version).
     andThen (PublishTaxRateCreated \<lparr>tc_ID = tx_ID rate, tc_Name = tx_Name rate, tc_Description = tx_Description rate,
        tc_CurrentVersionID = gt_CurrentVersionID (toTaxRate rate)\<rparr>) (\<lambda>_.
     andThen (PublishTaxRateVersionCreated (versionEvent version)) (\<lambda>_.
       ret (toTaxRate rate))))))"

definition CreateTaxRateVersion :: "ctx \<Rightarrow> uuid \<Rightarrow> f64 \<Rightarrow> TaxVersionRow tax_act" where
  "CreateTaxRateVersion c taxRateID rate =
     andThen (employees_tx c) (\<lambda>_.
     andThen now (\<lambda>t.
     andThen (CreateTaxRateVersionRow taxRateID rate t) (\<lambda>version.
     andThen (PublishTaxRateVersionCreated (versionEvent version)) (\<lambda>_.
       ret (toTaxRateVersion version)))))"

definition UpdateTaxRate :: "ctx \<Rightarrow> uuid \<Rightarrow> string option \<Rightarrow> string option \<Rightarrow> GTaxRate tax_act" where
  "UpdateTaxRate c i name description =
     andThen (employees_tx c) (\<lambda>_.
     andThen (UpdateTaxRateRow i name description) (\<lambda>rate. ret (toTaxRate rate)))"

definition Query_TaxRate :: "ctx \<Rightarrow> uuid \<Rightarrow> GTaxRate tax_act" where
  "Query_TaxRate c i = andThen (employees_tx c) (\<lambda>_. andThen (GetTaxRate i) (\<lambda>rate. ret (toTaxRate rate)))"

definition Query_TaxRateVersion :: "ctx \<Rightarrow> uuid \<Rightarrow> TaxVersionRow tax_act" where
  "Query_TaxRateVersion c i =
     andThen (employees_tx c) (\<lambda>_. andThen (GetTaxRateVersion i) (\<lambda>version. ret (toTaxRateVersion version)))"

definition Query_TaxRates ::
  "(string \<Rightarrow> int) \<Rightarrow> ctx \<Rightarrow> int option \<Rightarrow> (OrderDirectionD option \<times> tax_rate_order option) option \<Rightarrow> int option \<Rightarrow>
     GTaxRate PgConnection tax_act" where
  "Query_TaxRates rank c first orderBy skip =
     andThen (employees_tx c) (\<lambda>_.
     andThen (ListTaxRates rank first skip (fst (taxRateOrder orderBy)) (snd (taxRateOrder orderBy))) (\<lambda>conn.
       ret (toTaxRateConnection conn)))"

definition TaxRate_CurrentVersion :: "GTaxRate \<Rightarrow> TaxVersionRow tax_act" where
  "TaxRate_CurrentVersion obj =
     andThen (GetTaxRateVersion (gt_CurrentVersionID obj)) (\<lambda>version. ret (toTaxRateVersion version))"

definition TaxRate_Versions ::
  "ctx \<Rightarrow> GTaxRate \<Rightarrow> int option \<Rightarrow> (OrderDirectionD option \<times> tax_version_order option) option \<Rightarrow> int option \<Rightarrow>
     TaxVersionRow PgConnection tax_act" where
  "TaxRate_Versions c obj first orderBy skip =
     andThen (employees_tx c) (\<lambda>_.
     andThen (ListTaxRateVersions (gt_ID obj) first skip (fst (taxRateVersionOrder orderBy)) (snd (taxRateVersionOrder orderBy))) (\<lambda>conn.
       ret (toTaxRateVersionConnection conn)))"

definition TaxRateVersion_TaxRate :: "TaxVersionRow \<Rightarrow> GTaxRate tax_act" where
  "TaxRateVersion_TaxRate obj = andThen (GetTaxRate (tv_TaxRateID obj)) (\<lambda>rate. ret (toTaxRate rate))"

definition Entity_TaxRate :: "uuid \<Rightarrow> GTaxRate tax_act" where
  "Entity_TaxRate i = andThen (GetTaxRate i) (\<lambda>rate. ret (toTaxRate rate))"

definition Entity_TaxRateVersion :: "uuid \<Rightarrow> TaxVersionRow tax_act" where
  "Entity_TaxRateVersion i = andThen (GetTaxRateVersion i) (\<lambda>version. ret (toTaxRateVersion version))"

end
