(* ===== verification/Tax_Claims.thy ===== *)
theory Tax_Claims
  imports Tax Order_Events
begin

text \<open>
  The properties of the tax service: the effect of each write under every script of failures, and the
  numbering of versions over all runs.
\<close>

subsection \<open>Writes\<close>

lemma tax_io [simp]:
  "rateRows (s\<lparr>faults := fs\<rparr>) = rateRows s" "taxVersionRows (s\<lparr>faults := fs\<rparr>) = taxVersionRows s"
  "rateRows (s\<lparr>minted := n\<rparr>) = rateRows s" "taxVersionRows (s\<lparr>minted := n\<rparr>) = taxVersionRows s"
  by simp_all

definition version_list :: "tax_db \<Rightarrow> uuid \<Rightarrow> TaxVersionRow list" where
  "version_list s i = filter (\<lambda>v. tv_TaxRateID v = i) (taxVersionRows s)"

lemma insertTaxRateVersion_run:
  assumes "insertTaxRateVersion i rate t s = (Inr v, s')"
  shows "tv_TaxRateID v = i \<and> tv_Rate v = rate \<and> tv_CreatedAt v = t \<and>
    tv_Version v = max_version (map tv_Version (version_list s i)) + 1 \<and>
    tv_ID v \<notin> tv_ID ` set (taxVersionRows s) \<and> i \<in> tx_ID ` set (rateRows s) \<and>
    rateRows s' = rateRows s \<and> taxVersionRows s' = taxVersionRows s @ [v\<lparr>tv_CreatedAt := pg_time t\<rparr>]"
proof -
  obtain n s1 where n: "next_version i s = (Inr n, s1)"
    and rest: "andThen new_uuid (\<lambda>k.
       let v = \<lparr>tv_ID = k, tv_Rate = rate, tv_Version = n, tv_CreatedAt = t, tv_TaxRateID = i\<rparr> in
       andThen (insert_version v) (\<lambda>_. ret v)) s1 = (Inr v, s')"
    by (rule andThen_InrE [OF assms [unfolded insertTaxRateVersion_def]])
  obtain fs where s1: "s1 = s\<lparr>faults := fs\<rparr>" "n = max_version (map tv_Version (version_list s i)) + 1"
    using n unfolding next_version_def
    by (cases rule: ext_cases [of TxDbError "\<lambda>s. let n = max_version (map tv_Version (filter (\<lambda>v. tv_TaxRateID v = i) (taxVersionRows s))) + 1
     in if int4 n then (Inr n, s) else (Inl TxDbError, s)" s]) (auto simp: Let_def version_list_def split: if_splits)
  let ?v = "\<lparr>tv_ID = fresh s1 (minted s1), tv_Rate = rate, tv_Version = n, tv_CreatedAt = t, tv_TaxRateID = i\<rparr>"
  obtain s2 where ins: "insert_version ?v (s1\<lparr>minted := Suc (minted s1)\<rparr>) = (Inr (), s')" and v: "v = ?v"
    using rest by (auto simp: run_andThen run_new_uuid run_ret Let_def split: prod.splits sum.splits)
  show ?thesis using pg_insert_Inr [OF ins [unfolded insert_version_def]] s1 v by auto
qed

lemma set_current_version_run:
  assumes "set_current_version i v s = (Inr (), s')"
  shows "taxVersionRows s' = taxVersionRows s \<and>
    rateRows s' = map_all (\<lambda>t. tx_ID t = i) (\<lambda>t. t\<lparr>tx_CurrentVersionID := Some v\<rparr>) (rateRows s)"
  using pg_insert_Inr [OF assms [unfolded set_current_version_def]] by auto

text \<open>Under every script of failures a transaction leaves the tables alone or writes all of its rows.\<close>

lemma CreateTaxRateRow_effect:
  assumes "CreateTaxRateRow name desc rate t s = (r, s')"
  obtains (nothing) e where "r = Inl e" "io.more s' = io.more s"
  | (created) row v where "r = Inr (row, v) \<or> r = Inl TxDbError" "tx_ID row \<notin> tx_ID ` set (rateRows s)"
      "tx_CurrentVersionID row = Some (tv_ID v)" "tv_TaxRateID v = tx_ID row" "tv_ID v \<notin> tv_ID ` set (taxVersionRows s)"
      "tv_Version v = max_version (map tv_Version (version_list s (tx_ID row))) + 1" "tv_Rate v = rate"
      "rateRows s' = map_all (\<lambda>t. tx_ID t = tx_ID row) (\<lambda>t. t\<lparr>tx_CurrentVersionID := Some (tv_ID v)\<rparr>) (rateRows s @ [row])"
      "taxVersionRows s' = taxVersionRows s @ [v\<lparr>tv_CreatedAt := pg_time t\<rparr>]"
  using assms unfolding CreateTaxRateRow_def
proof (cases rule: transaction_run)
  case (kept e)
  then show ?thesis by (rule nothing)
next
  case (ran x fs s2)
  let ?s = "s\<lparr>faults := fs\<rparr>"
  define i where "i = fresh ?s (minted ?s)"
  define row0 where "row0 = \<lparr>tx_ID = i, tx_Name = name, tx_Description = desc, tx_CurrentVersionID = None\<rparr>"
  obtain s1 v s3 where ins: "insert_rate row0 (?s\<lparr>minted := Suc (minted ?s)\<rparr>) = (Inr (), s1)"
    and v: "insertTaxRateVersion i rate t s1 = (Inr v, s3)" and cur: "set_current_version i (tv_ID v) s3 = (Inr (), s2)"
    and x: "x = (\<lparr>tx_ID = i, tx_Name = name, tx_Description = desc, tx_CurrentVersionID = Some (tv_ID v)\<rparr>, v)"
    using ran(1) unfolding i_def row0_def
    by (auto simp: run_andThen run_new_uuid run_ret split: prod.splits sum.splits)
  have s1: "i \<notin> tx_ID ` set (rateRows s)" "rateRows s1 = rateRows s @ [row0]" "taxVersionRows s1 = taxVersionRows s"
    using pg_insert_Inr [OF ins [unfolded insert_rate_def]] by (auto simp: row0_def)
  note w = insertTaxRateVersion_run [OF v] and c = set_current_version_run [OF cur]
  have tables: "rateRows s' = rateRows s2" "taxVersionRows s' = taxVersionRows s2" using ran(2) by (cases s'; cases s2; simp)+
  let ?row = "\<lparr>tx_ID = i, tx_Name = name, tx_Description = desc, tx_CurrentVersionID = Some (tv_ID v)\<rparr>"
  have "map_all (\<lambda>t. tx_ID t = i) (\<lambda>t. t\<lparr>tx_CurrentVersionID := Some (tv_ID v)\<rparr>) [row0] =
      map_all (\<lambda>t. tx_ID t = i) (\<lambda>t. t\<lparr>tx_CurrentVersionID := Some (tv_ID v)\<rparr>) [?row]"
    by (simp add: row0_def)
  then show ?thesis
    using created [of ?row v] ran(3) x s1 w c tables by (simp add: version_list_def map_all_def)
qed

lemma CreateTaxRateVersionRow_effect:
  assumes "CreateTaxRateVersionRow i rate t s = (r, s')"
  obtains (nothing) e where "r = Inl e" "io.more s' = io.more s"
  | (created) v where "r = Inr v \<or> r = Inl TxDbError" "i \<in> tx_ID ` set (rateRows s)"
      "tv_TaxRateID v = i" "tv_ID v \<notin> tv_ID ` set (taxVersionRows s)" "tv_Rate v = rate"
      "tv_Version v = max_version (map tv_Version (version_list s i)) + 1"
      "rateRows s' = map_all (\<lambda>t. tx_ID t = i) (\<lambda>t. t\<lparr>tx_CurrentVersionID := Some (tv_ID v)\<rparr>) (rateRows s)"
      "taxVersionRows s' = taxVersionRows s @ [v\<lparr>tv_CreatedAt := pg_time t\<rparr>]"
  using assms unfolding CreateTaxRateVersionRow_def
proof (cases rule: transaction_run)
  case (kept e)
  then show ?thesis by (rule nothing)
next
  case (ran v fs s2)
  obtain b s1 where e: "TaxRateExists i (s\<lparr>faults := fs\<rparr>) = (Inr b, s1)" and b
    and rest: "andThen (insertTaxRateVersion i rate t) (\<lambda>version. andThen (set_current_version i (tv_ID version)) (\<lambda>_. ret version)) s1 = (Inr v, s2)"
    using ran(1) by (elim andThen_InrE) (auto simp: run_fail split: if_splits)
  obtain fs1 where s1: "s1 = s\<lparr>faults := fs1\<rparr>" using ext_gets_run [OF e [unfolded TaxRateExists_def]] by auto
  obtain s3 where v: "insertTaxRateVersion i rate t s1 = (Inr v, s3)" and cur: "set_current_version i (tv_ID v) s3 = (Inr (), s2)"
    using rest by (elim andThen_InrE) (auto simp: run_ret)
  note w = insertTaxRateVersion_run [OF v] and c = set_current_version_run [OF cur]
  have "rateRows s' = rateRows s2" "taxVersionRows s' = taxVersionRows s2" using ran(2) by (cases s'; cases s2; simp)+
  then show ?thesis using created [of v] ran(3) s1 w c by (simp add: version_list_def)
qed

subsection \<open>Versions are numbered\<close>

text \<open>Each rate has versions \<open>1\<close> to \<open>n\<close> in the order they were created, and the last is current.\<close>

definition tax_books :: "tax_db \<Rightarrow> bool" where
  "tax_books s \<longleftrightarrow> version_books tx_ID tx_CurrentVersionID tv_ID tv_TaxRateID tv_Version (rateRows s) (taxVersionRows s)"

lemma tax_books_version:
  assumes "tax_books s" "tv_ID v \<notin> tv_ID ` set (taxVersionRows s)"
    and "tv_Version v = max_version (map tv_Version (version_list s (tv_TaxRateID v))) + 1"
    and "taxVersionRows s' = taxVersionRows s @ [v\<lparr>tv_CreatedAt := t\<rparr>]"
    and "rateRows s' = map_all (\<lambda>t. tx_ID t = tv_TaxRateID v) (\<lambda>t. t\<lparr>tx_CurrentVersionID := Some (tv_ID v)\<rparr>) (rateRows s @ new)"
    and "tv_TaxRateID v \<in> tx_ID ` set (rateRows s) \<and> new = [] \<or> (\<exists>row. new = [row] \<and> tx_ID row = tv_TaxRateID v \<and> tx_ID row \<notin> tx_ID ` set (rateRows s))"
  shows "tax_books s'"
  using version_books_next [OF assms(1) [unfolded tax_books_def], of "v\<lparr>tv_CreatedAt := t\<rparr>"] assms(2-6)
  by (simp add: tax_books_def version_list_def)

inductive tax_step :: "tax_db \<Rightarrow> tax_db \<Rightarrow> bool" where
  script: "tax_step s (s\<lparr>faults := fs\<rparr>)"
| create: "CreateTaxRate c name desc initial s = (r, s') \<Longrightarrow> tax_step s s'"
| version: "CreateTaxRateVersion c i rate s = (rv, s') \<Longrightarrow> tax_step s s'"
| update: "UpdateTaxRate c i n d s = (r, s') \<Longrightarrow> tax_step s s'"

interpretation tax: table_invariant tax_books
proof
  fix s t :: tax_db
  assume "io.more s = io.more t"
  then have "rateRows s = rateRows t" "taxVersionRows s = taxVersionRows t" by (cases s; cases t; simp)+
  then show "tax_books s = tax_books t" by (simp add: tax_books_def)
qed

lemma tax_books_more: "io.more s' = io.more s \<Longrightarrow> tax_books s' = tax_books s"
  by (rule tax.only_tables)

lemma rows_keep_books:
  "guar (keeping tax_books) (CreateTaxRateRow name desc rate t)"
  "guar (keeping tax_books) (CreateTaxRateVersionRow i rate t)"
  "guar (keeping tax_books) (UpdateTaxRateRow i n d)"
proof -
  show "guar (keeping tax_books) (CreateTaxRateRow name desc rate t)"
  proof (rule guarI)
    fix s
    obtain r s' where run: "CreateTaxRateRow name desc rate t s = (r, s')" by fastforce
    have "keeping tax_books s s'"
      using run
    proof (cases rule: CreateTaxRateRow_effect)
      case (nothing e)
      note tables = this(2)
      show ?thesis using tax_books_more [OF tables] by (simp add: keeping_def)
    next
      case (created row v)
      then show ?thesis
        unfolding keeping_def by (intro impI tax_books_version [of s v s' "pg_time t" "[row]"]) simp_all
    qed
    then show "keeping tax_books s (snd (CreateTaxRateRow name desc rate t s))" using run by simp
  qed
  show "guar (keeping tax_books) (CreateTaxRateVersionRow i rate t)"
  proof (rule guarI)
    fix s
    obtain r s' where run: "CreateTaxRateVersionRow i rate t s = (r, s')" by fastforce
    have "keeping tax_books s s'"
      using run
    proof (cases rule: CreateTaxRateVersionRow_effect)
      case (nothing e)
      note tables = this(2)
      show ?thesis using tax_books_more [OF tables] by (simp add: keeping_def)
    next
      case (created v)
      then show ?thesis
        unfolding keeping_def by (intro impI tax_books_version [of s v s' "pg_time t" "[]"]) simp_all
    qed
    then show "keeping tax_books s (snd (CreateTaxRateVersionRow i rate t s))" using run by simp
  qed
  have patch: "tax_books (rateRows_update (map_all P (patched_rate n d)) s)" if "tax_books s" for s P
    using that
    by (simp add: tax_books_def map_all_def version_books_map [of tx_ID "\<lambda>t. if P t then patched_rate n d t else t" tx_CurrentVersionID] patched_rate_def)
  show "guar (keeping tax_books) (UpdateTaxRateRow i n d)"
    unfolding UpdateTaxRateRow_def Let_def
    by (intro tax.guar_ext guarI) (auto simp: keeping_def patch split: option.split)
qed

lemma tax_requests_keep:
  "guar (keeping tax_books) (CreateTaxRate c name desc initial)" "guar (keeping tax_books) (CreateTaxRateVersion c i rate)"
  "guar (keeping tax_books) (UpdateTaxRate c i n d)"
  unfolding CreateTaxRate_def CreateTaxRateVersion_def UpdateTaxRate_def employees_tx_def PublishTaxRateCreated_def
    PublishTaxRateVersionCreated_def
  by (intro guar_intros rows_keep_books)+

lemma tax_step_keeps: "tax_step s s' \<Longrightarrow> tax_books s \<Longrightarrow> tax_books s'"
  by (induction rule: tax_step.induct) (use tax_requests_keep [THEN guarD] in \<open>auto simp: keeping_def\<close>)

lemma tax_steps_keep: "tax_step\<^sup>*\<^sup>* s s' \<Longrightarrow> tax_books s \<Longrightarrow> tax_books s'"
  by (induction rule: rtranclp_induct) (auto intro: tax_step_keeps)

text \<open>
  C30. Over any run of requests and failures the versions of a tax rate are numbered from one without gaps or
  repetitions in the order they were stored, and the rate's current version is the one with the highest number.
\<close>

theorem tax_versions_numbered:
  assumes "tax_step\<^sup>*\<^sup>* s s'" "tax_books s" "t \<in> set (rateRows s')"
  shows "map tv_Version (version_list s' (tx_ID t)) = [1..int (length (version_list s' (tx_ID t)))] \<and>
    (\<exists>v \<in> set (taxVersionRows s'). tx_CurrentVersionID t = Some (tv_ID v) \<and> tv_TaxRateID v = tx_ID t \<and>
       tv_Version v = int (length (version_list s' (tx_ID t))))"
proof -
  have n: "numbered_versions tv_ID tv_Version (version_list s' (tx_ID t)) (tx_CurrentVersionID t)"
    using version_books_numbered [OF tax_steps_keep [OF assms(1,2), unfolded tax_books_def] assms(3)] by (simp add: version_list_def)
  obtain v where "v \<in> set (version_list s' (tx_ID t))" "tx_CurrentVersionID t = Some (tv_ID v)"
    "tv_Version v = int (length (version_list s' (tx_ID t)))"
    by (rule numbered_current [OF n])
  moreover from this have "v \<in> set (taxVersionRows s')" "tv_TaxRateID v = tx_ID t" by (simp_all add: version_list_def)
  moreover have "map tv_Version (version_list s' (tx_ID t)) = [1..int (length (version_list s' (tx_ID t)))]"
    using n by (simp add: numbered_versions_def)
  ultimately show ?thesis by blast
qed

definition tax_start :: tax_db where
  "tax_start = \<lparr>faults = [], outbox = [], fresh = (\<lambda>n. UUID (word_of_nat (n + 1))), minted = 0, clock = (\<lambda>n. 1000 * int n), reads = 0,
     rateRows = [], taxVersionRows = []\<rparr>"

definition tax_clerk :: ctx where
  "tax_clerk = Some \<lparr>user_ID = UUID 9, user_Roles = [RoleEmployee]\<rparr>"

definition tax_first :: tax_db where
  "tax_first = snd (CreateTaxRate tax_clerk ''VAT'' ''standard'' (Some (Fin 19 0)) tax_start)"

lemmas tax_run_defs = employees_tx_def CreateTaxRate_def CreateTaxRateVersion_def CreateTaxRateRow_def CreateTaxRateVersionRow_def
  insert_rate_def insertTaxRateVersion_def insert_version_def next_version_def set_current_version_def TaxRateExists_def
  PublishTaxRateCreated_def PublishTaxRateVersionCreated_def pg_insert_def transaction_def

lemma tax_clerk_passes: "employees_tx tax_clerk = ret ()"
  by (simp add: employees_tx_def tax_clerk_def RequireEmployeeOrAdmin_def RequireRole_def Require_def FromContext_def)

lemma tax_first_state:
  "tax_first = tax_start\<lparr>minted := 2, reads := 1, outbox := outbox tax_first,
     rateRows := [\<lparr>tx_ID = UUID 1, tx_Name = ''VAT'', tx_Description = ''standard'', tx_CurrentVersionID = Some (UUID 2)\<rparr>],
     taxVersionRows := [\<lparr>tv_ID = UUID 2, tv_Rate = Fin 19 0, tv_Version = 1, tv_CreatedAt = 0, tv_TaxRateID = UUID 1\<rparr>]\<rparr>"
  unfolding tax_first_def CreateTaxRate_def tax_clerk_passes
  by (simp add: tax_run_defs run_simps run_andThen tax_start_def Let_def max_version_def sql_max_def int4_def varchar_def pg_time_def map_all_def)

lemma tax_first_run: "tax_step\<^sup>*\<^sup>* tax_start tax_first"
  unfolding tax_first_def by (rule r_into_rtranclp, rule tax_step.create, rule prod.collapse [symmetric])

lemma tax_start_ok: "tax_books tax_start"
  by (simp add: tax_books_def tax_start_def version_books_def)

lemma tax_first_rate:
  "rateRows tax_first = [\<lparr>tx_ID = UUID 1, tx_Name = ''VAT'', tx_Description = ''standard'', tx_CurrentVersionID = Some (UUID 2)\<rparr>]"
  by (subst tax_first_state) simp

lemma tax_versions_numbered_witness:
  "map tv_Version (version_list tax_first (UUID 1)) = [1..int (length (version_list tax_first (UUID 1)))]"
  using tax_versions_numbered [OF tax_first_run tax_start_ok, of "hd (rateRows tax_first)"] by (simp add: tax_first_rate)

end
