(* ===== verification/Calm.thy ===== *)
theory Calm
  imports Postgres
begin

text \<open>
  Runs in which every outside call is answered: an action is calm when it leaves an empty script of faults
  empty. A calm transaction either changes no table and errs, or is its body.
\<close>

definition calm :: "('ev, 'x) io_scheme \<Rightarrow> ('ev, 'x) io_scheme \<Rightarrow> bool" where
  "calm s s' \<longleftrightarrow> (faults s = [] \<longrightarrow> faults s' = [])"

abbreviation calmly :: "(('ev, 'x) io_scheme, 'e, 'a) act \<Rightarrow> bool" where
  "calmly m \<equiv> guar calm m"

lemma calmlyD: "calmly m \<Longrightarrow> m s = (r, s') \<Longrightarrow> faults s = [] \<Longrightarrow> faults s' = []"
  by (drule guarD) (auto simp: calm_def)

lemma calmly_basic:
  "calmly (ret x)" "calmly (fail e)" "calmly new_uuid" "calmly now" "calmly (gets f)"
  by (simp_all add: guar_def calm_def ret_def fail_def new_uuid_def now_def gets_def)

lemma calmly_andThen:
  assumes "calmly m" "\<And>x. calmly (k x)"
  shows "calmly (andThen m k)"
proof (rule guarI)
  fix s
  obtain r s1 where m: "m s = (r, s1)" by fastforce
  show "calm s (snd (andThen m k s))"
    using calmlyD [OF assms(1) m] assms(2) by (cases r) (auto simp: guar_def calm_def run_andThen m)
qed

lemma calmly_each: "(\<And>x. calmly (f x)) \<Longrightarrow> calmly (each f xs)"
  by (induction xs) (auto intro: calmly_basic calmly_andThen)

lemma calmly_ext: "(\<And>s. faults s = [] \<Longrightarrow> faults (snd (m s)) = []) \<Longrightarrow> calmly (ext e m)"
  by (simp add: guar_def calm_def ext_def)

lemma calmly_ext_gets: "calmly (ext e (gets f))"
  by (rule calmly_ext) (simp add: gets_def)

lemma calmly_find_one: "calmly (find_one eDrv eNone get P)"
  unfolding find_one_def by (rule calmly_ext) (simp split: option.split)

lemma calmly_pg_insert: "(\<And>s. faults (put s) = faults s) \<Longrightarrow> calmly (pg_insert e ok put)"
  unfolding pg_insert_def by (rule calmly_ext) simp

lemma calmly_pg_generated: "(\<And>i s. faults (put i s) = faults s) \<Longrightarrow> calmly (pg_generated e ok put)"
  unfolding pg_generated_def by (rule calmly_ext) (simp add: Let_def)

lemmas calm_intros = calmly_basic calmly_andThen calmly_each calmly_ext_gets calmly_find_one calmly_pg_insert calmly_pg_generated
  guar_if guar_case_option guar_case_sum guar_case_prod guar_Let

text \<open>Without failures a transaction that errs leaves the tables, and one that succeeds ran its body.\<close>

lemma transaction_calm:
  assumes "calmly m" "faults s = []" "transaction eB eC m s = (r, s')"
  shows "faults s' = [] \<and> (case r of Inl e \<Rightarrow> io.more s' = io.more s | Inr x \<Rightarrow> m s = (Inr x, s'))"
proof -
  obtain r2 s2 where m: "m s = (r2, s2)" by fastforce
  have "faults s2 = []" by (rule calmlyD [OF assms(1) m assms(2)])
  then show ?thesis
    using assms(2,3) by (cases r2) (auto simp: transaction_def run_simps m restore_def)
qed

lemma calmly_transaction:
  fixes m :: "(('ev, 'x) io_scheme, 'e, 'a) act"
  assumes "calmly m"
  shows "calmly (transaction eB eC m)"
proof (rule guarI)
  fix s :: "('ev, 'x) io_scheme"
  show "calm s (snd (transaction eB eC m s))"
    using transaction_calm [OF assms, of s eB eC] by (cases "transaction eB eC m s") (simp add: calm_def)
qed

lemma calmly_emit: "calmly (emit e ev)"
  unfolding emit_def by (rule calmly_ext) (simp add: modify_def)

end
