(* ===== verification/Tax_Order.thy ===== *)
theory Tax_Order
  imports Tax_Claims Calm
begin

text \<open>
  The tax service and the order service together. The order service keeps, per tax rate, the version it
  was told last (\<open>onTaxRateVersionCreated\<close>); the tax service tells every version it creates. When
  the announcements arrive in order the two agree; the order service compares no version numbers, so an
  announcement delivered again takes its rate back.
\<close>

subsection \<open>What travels\<close>

definition wire :: "TaxVersionCreatedDTO \<Rightarrow> TaxRateVersionEventData" where
  "wire e = \<lparr>tre_ID = vc_ID e, tre_Rate = vc_Rate e, tre_Version = word_of_int (vc_Version e), tre_TaxRateID = vc_TaxRateID e\<rparr>"

fun version_messages :: "tax_event list \<Rightarrow> TaxRateVersionEventData list" where
  "version_messages [] = []"
| "version_messages (TaxRateCreated e # es) = version_messages es"
| "version_messages (TaxVersionCreated e # es) = wire e # version_messages es"

definition row_message :: "TaxVersionRow \<Rightarrow> TaxRateVersionEventData" where
  "row_message v = wire (versionEvent v)"

definition deliver_versions :: "TaxRateVersionEventData list \<Rightarrow> order_db \<Rightarrow> order_db" where
  "deliver_versions ms = fold (\<lambda>m s. snd (onTaxRateVersionCreated m s)) ms"

definition told_rate :: "TaxRateVersionEventData \<Rightarrow> TaxRate" where
  "told_rate m = \<lparr>tr_ID = tre_TaxRateID m,
     tr_CurrentVersion = \<lparr>trv_ID = tre_ID m, trv_Rate = tre_Rate m, trv_Version = tre_Version m\<rparr>\<rparr>"

lemma version_messages_append [simp]: "version_messages (es @ es') = version_messages es @ version_messages es'"
  by (induction es rule: version_messages.induct) simp_all

lemma row_message_fields [simp]:
  "tre_TaxRateID (row_message v) = tv_TaxRateID v" "row_message (v\<lparr>tv_CreatedAt := c\<rparr>) = row_message v"
  "wire (versionEvent v) = row_message v"
  by (simp_all add: row_message_def wire_def versionEvent_def)

subsection \<open>The order service\<close>

lemma find_map_first_rate:
  "find (\<lambda>r. tr_ID r = i) (map_first (\<lambda>t. tr_ID t = j) (\<lambda>t. t\<lparr>tr_ID := j, tr_CurrentVersion := v\<rparr>) rs) =
     (if i = j \<and> find (\<lambda>r. tr_ID r = j) rs \<noteq> None then Some \<lparr>tr_ID = j, tr_CurrentVersion = v\<rparr>
      else find (\<lambda>r. tr_ID r = i) rs)"
  by (induction rs) auto

lemma onTaxRateVersionCreated_quiet:
  assumes "faults s = []"
  shows "faults (snd (onTaxRateVersionCreated m s)) = [] \<and>
    find (\<lambda>r. tr_ID r = i) (taxRates (snd (onTaxRateVersionCreated m s))) =
      (if tre_TaxRateID m = i then Some (told_rate m) else find (\<lambda>r. tr_ID r = i) (taxRates s))"
  using assms unfolding onTaxRateVersionCreated_def UpsertTaxRate_def upsert_one_def told_rate_def
  by (auto simp: run_simps find_map_first_rate find_append split: option.split)

lemma deliver_versions_lookup:
  assumes "faults s = []"
  shows "faults (deliver_versions ms s) = [] \<and> find (\<lambda>r. tr_ID r = i) (taxRates (deliver_versions ms s)) =
    (let mine = filter (\<lambda>m. tre_TaxRateID m = i) ms
     in if mine = [] then find (\<lambda>r. tr_ID r = i) (taxRates s) else Some (told_rate (last mine)))"
proof (induction ms rule: rev_induct)
  case (snoc m ms)
  have "deliver_versions (ms @ [m]) s = snd (onTaxRateVersionCreated m (deliver_versions ms s))" by (simp add: deliver_versions_def)
  then show ?case using onTaxRateVersionCreated_quiet [of "deliver_versions ms s" m i] snoc by simp
qed (simp add: deliver_versions_def assms)

subsection \<open>The tax service\<close>

text \<open>A request when every outside call is answered.\<close>

inductive tax_request :: "tax_db \<Rightarrow> tax_db \<Rightarrow> bool" where
  create: "CreateTaxRate c name desc initial s = (r, s') \<Longrightarrow> tax_request s s'"
| version: "CreateTaxRateVersion c i rate s = (rv, s') \<Longrightarrow> tax_request s s'"
| update: "UpdateTaxRate c i n d s = (r, s') \<Longrightarrow> tax_request s s'"

lemma tax_request_steps: "tax_request\<^sup>*\<^sup>* s s' \<Longrightarrow> tax_step\<^sup>*\<^sup>* s s'"
  by (induction rule: rtranclp_induct) (auto elim!: tax_request.cases intro: rtranclp.rtrancl_into_rtrancl tax_step.intros)

lemma calmly_version: "calmly (insertTaxRateVersion i rate t)" "calmly (set_current_version i v)"
  unfolding insertTaxRateVersion_def set_current_version_def next_version_def insert_version_def Let_def
  by (intro calmly_andThen calmly_basic calmly_pg_insert calmly_ext; simp split: if_split)+

lemma CreateTaxRateRow_calm:
  assumes "faults s = []" "CreateTaxRateRow name desc rate t s = (r, s')"
  shows "faults s' = [] \<and> outbox s' = outbox s \<and> (case r of Inl e \<Rightarrow> taxVersionRows s' = taxVersionRows s
    | Inr (row, v) \<Rightarrow> taxVersionRows s' = taxVersionRows s @ [v\<lparr>tv_CreatedAt := pg_time t\<rparr>])"
proof -
  have "calmly (andThen new_uuid (\<lambda>rateID.
      andThen (insert_rate \<lparr>tx_ID = rateID, tx_Name = name, tx_Description = desc, tx_CurrentVersionID = None\<rparr>) (\<lambda>_.
      andThen (insertTaxRateVersion rateID rate t) (\<lambda>version.
      andThen (set_current_version rateID (tv_ID version)) (\<lambda>_.
        ret (\<lparr>tx_ID = rateID, tx_Name = name, tx_Description = desc, tx_CurrentVersionID = Some (tv_ID version)\<rparr>, version))))))"
    unfolding insert_rate_def by (intro calmly_andThen calmly_basic calmly_version calmly_pg_insert) simp
  note ran = transaction_calm [OF this assms(1) assms(2) [unfolded CreateTaxRateRow_def]]
  have "guar mute (CreateTaxRateRow name desc rate t)"
    unfolding CreateTaxRateRow_def insertTaxRateVersion_def insert_rate_def set_current_version_def next_version_def insert_version_def Let_def
    by (intro guar_intros mute.guar_pg_insert guarI; simp add: mute_def)
  then have out: "outbox s' = outbox s" using assms(2) by (auto simp: mute_def dest: guarD)
  show ?thesis
  proof (cases r)
    case (Inl e)
    then have "io.more s' = io.more s" using ran by simp
    then have "taxVersionRows s' = taxVersionRows s" by (cases s; cases s'; simp)
    then show ?thesis using ran out Inl by simp
  next
    case (Inr p)
    then show ?thesis using ran out by (rule_tac CreateTaxRateRow_effect [OF assms(2)]) auto
  qed
qed

lemma CreateTaxRateVersionRow_calm:
  assumes "faults s = []" "CreateTaxRateVersionRow i rate t s = (r, s')"
  shows "faults s' = [] \<and> outbox s' = outbox s \<and> (case r of Inl e \<Rightarrow> taxVersionRows s' = taxVersionRows s
    | Inr v \<Rightarrow> taxVersionRows s' = taxVersionRows s @ [v\<lparr>tv_CreatedAt := pg_time t\<rparr>])"
proof -
  have "calmly (if \<not> exists then fail (TaxRateUnknown i) else andThen (insertTaxRateVersion i rate t) (\<lambda>version.
      andThen (set_current_version i (tv_ID version)) (\<lambda>_. ret version)))" for exists
    by (simp, intro conjI impI calmly_andThen calmly_basic calmly_version)
  then have "calmly (andThen (TaxRateExists i) (\<lambda>exists. if \<not> exists then fail (TaxRateUnknown i)
      else andThen (insertTaxRateVersion i rate t) (\<lambda>version. andThen (set_current_version i (tv_ID version)) (\<lambda>_. ret version))))"
    by (intro calmly_andThen) (simp_all add: TaxRateExists_def calmly_ext run_gets)
  note ran = transaction_calm [OF this assms(1) assms(2) [unfolded CreateTaxRateVersionRow_def]]
  have "guar mute (CreateTaxRateVersionRow i rate t)"
    unfolding CreateTaxRateVersionRow_def TaxRateExists_def insertTaxRateVersion_def set_current_version_def next_version_def
      insert_version_def Let_def
    by (intro guar_intros mute.guar_pg_insert guarI; simp add: mute_def run_fail split: if_split)
  then have out: "outbox s' = outbox s" using assms(2) by (auto simp: mute_def dest: guarD)
  show ?thesis
  proof (cases r)
    case (Inl e)
    then have "io.more s' = io.more s" using ran by simp
    then have "taxVersionRows s' = taxVersionRows s" by (cases s; cases s'; simp)
    then show ?thesis using ran out Inl by simp
  next
    case (Inr p)
    then show ?thesis using ran out by (rule_tac CreateTaxRateVersionRow_effect [OF assms(2)]) auto
  qed
qed

text \<open>Every stored version was announced, in the order stored.\<close>

definition told :: "tax_db \<Rightarrow> bool" where
  "told s \<longleftrightarrow> faults s = [] \<and> version_messages (outbox s) = map row_message (taxVersionRows s)"

lemma employees_tx_run: "employees_tx c s = (r, s') \<Longrightarrow> s' = s"
  by (auto simp: employees_tx_def ret_def fail_def split: sum.splits)

lemma CreateTaxRate_tells:
  assumes "CreateTaxRate c name desc initial s = (r, s')" "told s"
  shows "told s'"
proof -
  let ?s = "s\<lparr>reads := Suc (reads s)\<rparr>"
  obtain r1 s1 where row: "CreateTaxRateRow name desc (case initial of None \<Rightarrow> Fin 0 0 | Some q \<Rightarrow> q) (clock s (reads s)) ?s = (r1, s1)"
    by fastforce
  have q: "faults ?s = []" using assms(2) by (simp add: told_def)
  note ran = CreateTaxRateRow_calm [OF q row]
  obtain re se where e: "employees_tx c s = (re, se)" by fastforce
  then have "se = s" by (rule employees_tx_run)
  then show ?thesis
    using assms e row ran unfolding CreateTaxRate_def run_andThen PublishTaxRateCreated_def PublishTaxRateVersionCreated_def
    by (cases re; cases r1) (auto simp: run_simps told_def)
qed

lemma CreateTaxRateVersion_tells:
  assumes "CreateTaxRateVersion c i rate s = (r, s')" "told s"
  shows "told s'"
proof -
  let ?s = "s\<lparr>reads := Suc (reads s)\<rparr>"
  obtain r1 s1 where row: "CreateTaxRateVersionRow i rate (clock s (reads s)) ?s = (r1, s1)" by fastforce
  have q: "faults ?s = []" using assms(2) by (simp add: told_def)
  note ran = CreateTaxRateVersionRow_calm [OF q row]
  obtain re se where e: "employees_tx c s = (re, se)" by fastforce
  then have "se = s" by (rule employees_tx_run)
  then show ?thesis
    using assms e row ran unfolding CreateTaxRateVersion_def run_andThen PublishTaxRateVersionCreated_def
    by (cases re; cases r1) (auto simp: run_simps told_def)
qed

lemma UpdateTaxRate_tells: "UpdateTaxRate c i n d s = (r, s') \<Longrightarrow> told s \<Longrightarrow> told s'"
  unfolding UpdateTaxRate_def run_andThen UpdateTaxRateRow_def
  by (auto simp: run_simps told_def Let_def dest!: employees_tx_run split: prod.splits sum.splits option.splits if_splits)

lemma requests_tell: "tax_request\<^sup>*\<^sup>* s s' \<Longrightarrow> told s \<Longrightarrow> told s'"
  by (induction rule: rtranclp_induct)
    (auto elim!: tax_request.cases intro: CreateTaxRate_tells CreateTaxRateVersion_tells UpdateTaxRate_tells)


subsection \<open>Following\<close>

text \<open>Which version of a rate a row makes current at the order service.\<close>

lemma messages_of_rate:
  "filter (\<lambda>m. tre_TaxRateID m = i) (map row_message vs) = map row_message (filter (\<lambda>v. tv_TaxRateID v = i) vs)"
  by (induction vs) simp_all

definition replica :: "order_db \<Rightarrow> uuid \<Rightarrow> TaxRate option" where
  "replica o' i = find (\<lambda>r. tr_ID r = i) (taxRates o')"

lemma follows_current:
  assumes "tax_request\<^sup>*\<^sup>* s s'" "tax_books s" "told s" "faults o' = []" "t \<in> set (rateRows s')"
  obtains v where "v \<in> set (taxVersionRows s')" "tx_CurrentVersionID t = Some (tv_ID v)"
    "replica (deliver_versions (version_messages (outbox s')) o') (tx_ID t) = Some (told_rate (row_message v))"
proof -
  have n: "numbered_versions tv_ID tv_Version (version_list s' (tx_ID t)) (tx_CurrentVersionID t)"
    using version_books_numbered [OF tax_steps_keep [OF tax_request_steps [OF assms(1)] assms(2), unfolded tax_books_def] assms(5)]
    by (simp add: version_list_def)
  let ?vs = "version_list s' (tx_ID t)"
  have "version_messages (outbox s') = map row_message (taxVersionRows s')"
    using requests_tell [OF assms(1,3)] by (simp add: told_def)
  then have "replica (deliver_versions (version_messages (outbox s')) o') (tx_ID t) = Some (told_rate (row_message (last ?vs)))"
    using deliver_versions_lookup [OF assms(4), of "map row_message (taxVersionRows s')" "tx_ID t"] n
    by (simp add: replica_def messages_of_rate version_list_def [symmetric] numbered_versions_def last_map)
  moreover have "last ?vs \<in> set (taxVersionRows s')"
    using n last_in_set [of ?vs] by (auto simp: numbered_versions_def version_list_def)
  ultimately show ?thesis using n that by (auto simp: numbered_versions_def)
qed

text \<open>
  C31. After any sequence of requests that were answered, delivering the announced versions to the order service
  in their order gives it the current version of every rate.
\<close>

theorem order_follows_tax:
  assumes "tax_request\<^sup>*\<^sup>* s s'" "tax_books s" "told s" "faults o' = []" "t \<in> set (rateRows s')"
  shows "\<exists>v \<in> set (taxVersionRows s'). tx_CurrentVersionID t = Some (tv_ID v) \<and>
    replica (deliver_versions (version_messages (outbox s')) o') (tx_ID t) = Some (told_rate (row_message v))"
  by (rule follows_current [OF assms]) blast

text \<open>
  The order service does not compare version numbers: when the announcement of an older version of a rate is
  delivered again after all others, orders go from the current version back to the older one.
\<close>

theorem redelivered_rate_reverts:
  assumes "tax_request\<^sup>*\<^sup>* s s'" "tax_books s" "told s" "faults o' = []" "t \<in> set (rateRows s')"
    and "v \<in> set (taxVersionRows s')" "tv_TaxRateID v = tx_ID t" "tx_CurrentVersionID t \<noteq> Some (tv_ID v)"
  shows "let ms = version_messages (outbox s') in row_message v \<in> set ms \<and>
    map_option (Some \<circ> trv_ID \<circ> tr_CurrentVersion) (replica (deliver_versions ms o') (tx_ID t)) = Some (tx_CurrentVersionID t) \<and>
    replica (deliver_versions (ms @ [row_message v]) o') (tx_ID t) = Some (told_rate (row_message v)) \<and>
    tx_CurrentVersionID t \<noteq> Some (trv_ID (tr_CurrentVersion (told_rate (row_message v))))"
proof -
  have ms: "version_messages (outbox s') = map row_message (taxVersionRows s')"
    using requests_tell [OF assms(1,3)] by (simp add: told_def)
  obtain w where w: "tx_CurrentVersionID t = Some (tv_ID w)"
      "replica (deliver_versions (version_messages (outbox s')) o') (tx_ID t) = Some (told_rate (row_message w))"
    by (rule follows_current [OF assms(1-5)])
  have id: "trv_ID (tr_CurrentVersion (told_rate (row_message x))) = tv_ID x" for x
    by (simp add: told_rate_def row_message_def wire_def versionEvent_def)
  have "replica (deliver_versions (version_messages (outbox s') @ [row_message v]) o') (tx_ID t) = Some (told_rate (row_message v))"
    using deliver_versions_lookup [OF assms(4), of "version_messages (outbox s') @ [row_message v]" "tx_ID t"] assms(7)
    by (simp add: replica_def)
  then show ?thesis using w id assms(6,8) ms by (simp add: Let_def)
qed

definition tax_second :: tax_db where
  "tax_second = snd (CreateTaxRateVersion tax_clerk (UUID 1) (Fin 20 0) tax_first)"

lemma tax_second_rows:
  "rateRows tax_second = [\<lparr>tx_ID = UUID 1, tx_Name = ''VAT'', tx_Description = ''standard'', tx_CurrentVersionID = Some (UUID 3)\<rparr>]"
  "hd (taxVersionRows tax_second) = \<lparr>tv_ID = UUID 2, tv_Rate = Fin 19 0, tv_Version = 1, tv_CreatedAt = 0, tv_TaxRateID = UUID 1\<rparr>"
  "taxVersionRows tax_second \<noteq> []"
proof -
  define db where "db = tax_start\<lparr>minted := 2, reads := 1, outbox := outbox tax_first,
     rateRows := [\<lparr>tx_ID = UUID 1, tx_Name = ''VAT'', tx_Description = ''standard'', tx_CurrentVersionID = Some (UUID 2)\<rparr>],
     taxVersionRows := [\<lparr>tv_ID = UUID 2, tv_Rate = Fin 19 0, tv_Version = 1, tv_CreatedAt = 0, tv_TaxRateID = UUID 1\<rparr>]\<rparr>"
  have "tax_first = db" unfolding db_def by (rule tax_first_state)
  then have 2: "tax_second = snd (CreateTaxRateVersion tax_clerk (UUID 1) (Fin 20 0) db)" by (simp add: tax_second_def)
  show "rateRows tax_second = [\<lparr>tx_ID = UUID 1, tx_Name = ''VAT'', tx_Description = ''standard'', tx_CurrentVersionID = Some (UUID 3)\<rparr>]"
    "hd (taxVersionRows tax_second) = \<lparr>tv_ID = UUID 2, tv_Rate = Fin 19 0, tv_Version = 1, tv_CreatedAt = 0, tv_TaxRateID = UUID 1\<rparr>"
    "taxVersionRows tax_second \<noteq> []"
    unfolding 2 CreateTaxRateVersion_def tax_clerk_passes db_def
    by (simp_all add: tax_run_defs run_simps run_andThen tax_start_def Let_def max_version_def sql_max_def int4_def pg_time_def map_all_def)
qed

lemma tax_second_run: "tax_request\<^sup>*\<^sup>* tax_start tax_second"
proof -
  have "tax_request tax_start tax_first" unfolding tax_first_def by (rule tax_request.create [OF prod.collapse [symmetric]])
  moreover have "tax_request tax_first tax_second" unfolding tax_second_def by (rule tax_request.version [OF prod.collapse [symmetric]])
  ultimately show ?thesis by (meson converse_rtranclp_into_rtranclp r_into_rtranclp)
qed

lemma tax_start_told: "told tax_start"
  by (simp add: told_def tax_start_def)

definition tax_shop :: order_db where
  "tax_shop = \<lparr>faults = [], outbox = [], fresh = (\<lambda>n. UUID 0), minted = 0, clock = (\<lambda>n. 0), reads = 0, orders = [], orderItems = [],
     users = [], productVariants = [], taxRates = [], coupons = [], shipmentMethods = [], orderCompensations = []\<rparr>"

lemma order_follows_tax_witness:
  "\<exists>v. Some (UUID 3) = Some (tv_ID v) \<and>
     replica (deliver_versions (version_messages (outbox tax_second)) tax_shop) (UUID 1) = Some (told_rate (row_message v))"
  using order_follows_tax [OF tax_second_run tax_start_ok tax_start_told, of tax_shop "hd (rateRows tax_second)"]
  by (auto simp: tax_second_rows tax_shop_def)

lemma redelivered_rate_reverts_witness:
  "replica (deliver_versions (version_messages (outbox tax_second) @ [row_message (hd (taxVersionRows tax_second))]) tax_shop) (UUID 1) =
     Some (told_rate (row_message (hd (taxVersionRows tax_second))))"
  using redelivered_rate_reverts [OF tax_second_run tax_start_ok tax_start_told, of tax_shop "hd (rateRows tax_second)" "hd (taxVersionRows tax_second)"]
    list.set_sel(1) [OF tax_second_rows(3)]
  by (simp add: tax_second_rows tax_shop_def Let_def)

end
