(* ===== verification/Cart.thy ===== *)
theory Cart
  imports Auth Order_Graph Postgres
begin

text \<open>
  \<open>src/shoppingcart\<close>: one cart per user, embedded in the user's document, and the ids of the known
  product variants. Users, variants and placed orders arrive as events; the mutations change carts. The
  instants a document keeps are BSON datetimes, the counts 32-bit integers. A handler takes its decoded
  payload, \<open>None\<close> when \<open>json.Unmarshal\<close> fails. The types \<open>direction\<close> and \<open>CommonOrderInput\<close> are
  those of the order service's schema.
\<close>

subsection \<open>Documents\<close>

record CartItem =
  ca_ID :: uuid
  ca_Count :: int
  ca_AddedAt :: time
  ca_ProductVariantID :: uuid

record CartUser =
  cu_ID :: uuid
  cu_LastUpdatedAt :: time
  cu_Items :: "CartItem list"

record CartData =
  cd_LastUpdatedAt :: time
  cd_Items :: "CartItem list"

datatype cart_err =
    CaDriver
  | CaNotFound
  | CaDuplicate
  | CaProjection
  | CaBadPayload
  | CaAuth auth_err
  | CaItemNotFound uuid
  | CaUserNotFound uuid
  | CaCartNotFound uuid
  | CaVariantNotPresent uuid
  | CaVariantsQuery
  | CaReplaceFailed uuid
  | CaAddFailed uuid
  | CaCountFailed uuid
  | CaDeleteFailed uuid

text \<open>The service publishes nothing.\<close>

record cart_db = "unit io" +
  cartUsers :: "CartUser list"
  cartVariants :: "uuid list"

type_synonym 'a cart_act = "(cart_db, cart_err, 'a) act"

definition i32 :: "int \<Rightarrow> int" where
  "i32 x = signed_take_bit 31 x"

definition toItemDoc :: "CartItem \<Rightarrow> CartItem" where
  "toItemDoc it = it\<lparr>ca_Count := i32 (ca_Count it), ca_AddedAt := bson_time (ca_AddedAt it)\<rparr>"

definition toCart :: "CartUser \<Rightarrow> CartData" where
  "toCart u = \<lparr>cd_LastUpdatedAt = cu_LastUpdatedAt u, cd_Items = cu_Items u\<rparr>"

subsection \<open>Store\<close>

definition FindUser :: "uuid \<Rightarrow> CartUser cart_act" where
  "FindUser i = find_one CaDriver CaNotFound cartUsers (\<lambda>u. cu_ID u = i)"

definition FindUserCart :: "uuid \<Rightarrow> CartData cart_act" where
  "FindUserCart i = andThen (FindUser i) (\<lambda>u. ret (toCart u))"

definition holds_item :: "uuid \<Rightarrow> CartUser \<Rightarrow> bool" where
  "holds_item i u \<longleftrightarrow> list_ex (\<lambda>it. ca_ID it = i) (cu_Items u)"

text \<open>The positional projection keeps the first item that matches.\<close>

definition FindItemOwner :: "uuid \<Rightarrow> (uuid \<times> CartItem) cart_act" where
  "FindItemOwner i =
     andThen (find_one CaDriver CaNotFound cartUsers (holds_item i)) (\<lambda>u.
       case find (\<lambda>it. ca_ID it = i) (cu_Items u) of None \<Rightarrow> fail CaProjection | Some it \<Rightarrow> ret (cu_ID u, it))"

definition FindItem :: "uuid \<Rightarrow> CartItem cart_act" where
  "FindItem i = andThen (FindItemOwner i) (\<lambda>(owner, it). ret it)"

definition FindItemByVariant :: "uuid \<Rightarrow> uuid \<Rightarrow> CartItem option cart_act" where
  "FindItemByVariant userID variantID =
     andThen (or_none CaNotFound (find_one CaDriver CaNotFound cartUsers
       (\<lambda>u. cu_ID u = userID \<and> list_ex (\<lambda>it. ca_ProductVariantID it = variantID) (cu_Items u)))) (\<lambda>found.
       ret (case found of None \<Rightarrow> None | Some u \<Rightarrow> find (\<lambda>it. ca_ProductVariantID it = variantID) (cu_Items u)))"

text \<open>The first id that is missing, if one is.\<close>

definition ProductVariantsExist :: "uuid list \<Rightarrow> uuid option cart_act" where
  "ProductVariantsExist ids =
     andThen (find_all CaDriver cartVariants (\<lambda>i. i \<in> set ids)) (\<lambda>present.
       ret (find (\<lambda>i. i \<notin> set present) ids))"

definition ProductVariantExists :: "uuid \<Rightarrow> bool cart_act" where
  "ProductVariantExists i =
     andThen (attempt (find_one CaDriver CaNotFound cartVariants (\<lambda>v. v = i))) (\<lambda>r.
       case r of Inl e \<Rightarrow> ret False | Inr v \<Rightarrow> ret True)"

definition ReplaceCartItems :: "uuid \<Rightarrow> CartItem list \<Rightarrow> time \<Rightarrow> unit cart_act" where
  "ReplaceCartItems userID items ts = update_one CaDriver cartUsers_update (\<lambda>u. cu_ID u = userID)
     (\<lambda>u. u\<lparr>cu_Items := map toItemDoc items, cu_LastUpdatedAt := bson_time ts\<rparr>)"

definition PushItem :: "uuid \<Rightarrow> CartItem \<Rightarrow> unit cart_act" where
  "PushItem userID item = update_one CaDriver cartUsers_update (\<lambda>u. cu_ID u = userID)
     (\<lambda>u. u\<lparr>cu_Items := cu_Items u @ [toItemDoc item]\<rparr>)"

definition UpdateItemCount :: "uuid \<Rightarrow> int \<Rightarrow> unit cart_act" where
  "UpdateItemCount i n = update_one CaDriver cartUsers_update (holds_item i)
     (\<lambda>u. u\<lparr>cu_Items := map_first (\<lambda>it. ca_ID it = i) (\<lambda>it. it\<lparr>ca_Count := i32 n\<rparr>) (cu_Items u)\<rparr>)"

definition PullItem :: "uuid \<Rightarrow> unit cart_act" where
  "PullItem i = update_one CaDriver cartUsers_update (holds_item i)
     (\<lambda>u. u\<lparr>cu_Items := filter (\<lambda>it. ca_ID it \<noteq> i) (cu_Items u)\<rparr>)"

definition PullItems :: "uuid \<Rightarrow> uuid list \<Rightarrow> unit cart_act" where
  "PullItems userID ids = update_one CaDriver cartUsers_update (\<lambda>u. cu_ID u = userID)
     (\<lambda>u. u\<lparr>cu_Items := filter (\<lambda>it. ca_ID it \<notin> set ids) (cu_Items u)\<rparr>)"

definition InsertUser_cart :: "uuid \<Rightarrow> time \<Rightarrow> unit cart_act" where
  "InsertUser_cart i t = insert_one CaDriver CaDuplicate cartUsers cartUsers_update cu_ID
     \<lparr>cu_ID = i, cu_LastUpdatedAt = bson_time t, cu_Items = []\<rparr>"

definition InsertProductVariant_cart :: "uuid \<Rightarrow> unit cart_act" where
  "InsertProductVariant_cart i = insert_one CaDriver CaDuplicate cartVariants cartVariants_update id i"

subsection \<open>Events\<close>

record OrderCreatedC =
  oco_UserID :: uuid
  oco_ItemIDs :: "uuid list"

definition UserCreated_cart :: "uuid option \<Rightarrow> unit cart_act" where
  "UserCreated_cart data = (case data of None \<Rightarrow> fail CaBadPayload | Some i \<Rightarrow> andThen now (\<lambda>t. InsertUser_cart i t))"

definition ProductVariantCreated_cart :: "uuid option \<Rightarrow> unit cart_act" where
  "ProductVariantCreated_cart data = (case data of None \<Rightarrow> fail CaBadPayload | Some i \<Rightarrow> InsertProductVariant_cart i)"

definition OrderCreated_cart :: "OrderCreatedC option \<Rightarrow> unit cart_act" where
  "OrderCreated_cart data =
     (case data of None \<Rightarrow> fail CaBadPayload | Some ev \<Rightarrow> PullItems (oco_UserID ev) (oco_ItemIDs ev))"

subsection \<open>Resolvers\<close>

record CartItemInput =
  ci_Count :: int
  ci_ProductVariantID :: uuid

definition owner_or_employee :: "ctx \<Rightarrow> uuid \<Rightarrow> unit cart_act" where
  "owner_or_employee c owner = (case RequireSelfOrEmployee c owner of Inl e \<Rightarrow> fail (CaAuth e) | Inr _ \<Rightarrow> ret ())"

definition dedupItemInputs :: "CartItemInput list \<Rightarrow> CartItemInput list" where
  "dedupItemInputs inputs = first_seen (\<lambda>it. (ci_Count it, ci_ProductVariantID it)) {} inputs"

text \<open>A fresh item per input, in the order of the inputs.\<close>

fun fresh_lines :: "time \<Rightarrow> CartItemInput list \<Rightarrow> CartItem list cart_act" where
  "fresh_lines t [] = ret []"
| "fresh_lines t (it # its) =
     andThen new_uuid (\<lambda>i. andThen (fresh_lines t its) (\<lambda>items.
       ret (\<lparr>ca_ID = i, ca_Count = ci_Count it, ca_AddedAt = t, ca_ProductVariantID = ci_ProductVariantID it\<rparr> # items)))"

text \<open>\<open>if errorsIs(err, ErrNotFound) { return notFound }; return err\<close>\<close>

definition not_found_as :: "cart_err \<Rightarrow> cart_err \<Rightarrow> cart_err" where
  "not_found_as nf e = (if e = CaNotFound then nf else e)"

definition itemLookupError :: "uuid \<Rightarrow> cart_err \<Rightarrow> cart_err" where
  "itemLookupError i e = not_found_as (CaItemNotFound i) e"

definition UpdateShoppingcart :: "ctx \<Rightarrow> uuid \<Rightarrow> CartItemInput list option \<Rightarrow> CartData cart_act" where
  "UpdateShoppingcart c i items =
     andThen (owner_or_employee c i) (\<lambda>_.
     andThen now (\<lambda>t.
     andThen (case items of
        None \<Rightarrow> ret ()
      | Some inputs \<Rightarrow>
          let deduped = dedupItemInputs inputs in
          andThen (map_err (\<lambda>_. CaVariantsQuery) (ProductVariantsExist (map ci_ProductVariantID deduped))) (\<lambda>missing.
            case missing of
              Some v \<Rightarrow> fail (CaVariantNotPresent v)
            | None \<Rightarrow>
                andThen (map_err (not_found_as (CaUserNotFound i)) (FindUser i)) (\<lambda>_.
                andThen (fresh_lines t deduped) (\<lambda>new.
                  map_err (\<lambda>_. CaReplaceFailed i) (ReplaceCartItems i new t))))) (\<lambda>_.
     map_err (not_found_as (CaCartNotFound i)) (FindUserCart i))))"

definition CreateShoppingcartItem :: "ctx \<Rightarrow> uuid \<Rightarrow> CartItemInput \<Rightarrow> CartItem cart_act" where
  "CreateShoppingcartItem c i it =
     andThen (owner_or_employee c i) (\<lambda>_.
     andThen (map_err (not_found_as (CaUserNotFound i)) (FindUser i)) (\<lambda>_.
     andThen (ProductVariantExists (ci_ProductVariantID it)) (\<lambda>exists.
       if \<not> exists then fail (CaVariantNotPresent (ci_ProductVariantID it))
       else andThen (FindItemByVariant i (ci_ProductVariantID it)) (\<lambda>found.
         case found of
           Some existing \<Rightarrow> ret existing
         | None \<Rightarrow>
             andThen new_uuid (\<lambda>new.
             andThen now (\<lambda>t.
               let item = \<lparr>ca_ID = new, ca_Count = ci_Count it, ca_AddedAt = t, ca_ProductVariantID = ci_ProductVariantID it\<rparr> in
               andThen (map_err (\<lambda>_. CaAddFailed new) (PushItem i item)) (\<lambda>_. ret item)))))))"

definition UpdateShoppingcartItem :: "ctx \<Rightarrow> uuid \<Rightarrow> int \<Rightarrow> CartItem cart_act" where
  "UpdateShoppingcartItem c i n =
     andThen (map_err (itemLookupError i) (FindItemOwner i)) (\<lambda>(owner, _).
     andThen (owner_or_employee c owner) (\<lambda>_.
     andThen (map_err (\<lambda>_. CaCountFailed i) (UpdateItemCount i n)) (\<lambda>_.
       map_err (itemLookupError i) (FindItem i))))"

definition DeleteShoppingcartItem :: "ctx \<Rightarrow> uuid \<Rightarrow> bool cart_act" where
  "DeleteShoppingcartItem c i =
     andThen (map_err (itemLookupError i) (FindItemOwner i)) (\<lambda>(owner, _).
     andThen (owner_or_employee c owner) (\<lambda>_.
     andThen (map_err (\<lambda>_. CaDeleteFailed i) (PullItem i)) (\<lambda>_. ret True)))"

definition Query_ShoppingcartItem :: "ctx \<Rightarrow> uuid \<Rightarrow> CartItem cart_act" where
  "Query_ShoppingcartItem c i =
     andThen (map_err (itemLookupError i) (FindItemOwner i)) (\<lambda>(owner, it).
     andThen (owner_or_employee c owner) (\<lambda>_. ret it))"

definition Entity_ShoppingCartItem :: "uuid \<Rightarrow> CartItem cart_act" where
  "Entity_ShoppingCartItem i = map_err (itemLookupError i) (FindItem i)"

definition Entity_User_cart :: "uuid \<Rightarrow> (uuid \<times> CartData) cart_act" where
  "Entity_User_cart i =
     andThen (map_err (not_found_as (CaUserNotFound i)) (FindUserCart i)) (\<lambda>cart. ret (i, cart))"

text \<open>Items are sorted by their id alone, whatever field is asked for; item ids are unique within a cart.\<close>

definition paginateItems ::
  "CartItem list \<Rightarrow> int option \<Rightarrow> int option \<Rightarrow> CommonOrderInput option \<Rightarrow> CartItem PgConnection" where
  "paginateItems items first skip orderBy =
     (let asc = (case orderBy of None \<Rightarrow> True | Some ob \<Rightarrow> directionAscending (coi_Direction ob));
          sorted' = (if asc then sort_key ca_ID items else rev (sort_key ca_ID items));
          total = int (length sorted');
          sk = (case skip of None \<Rightarrow> 0 | Some n \<Rightarrow> max n 0);
          rest = (if sk < total then drop (nat sk) sorted' else []);
          page = (case first of
                    Some n \<Rightarrow> if n \<ge> 0 \<and> n < int (length rest) then take (nat n) rest else rest
                  | None \<Rightarrow> rest)
      in \<lparr>con_Nodes = page, con_TotalCount = total, con_HasNextPage = total > int (length page) + sk\<rparr>)"

definition ShoppingCart_ShoppingcartItems ::
  "CartData \<Rightarrow> int option \<Rightarrow> int option \<Rightarrow> CommonOrderInput option \<Rightarrow> CartItem PgConnection cart_act" where
  "ShoppingCart_ShoppingcartItems obj first skip orderBy = ret (paginateItems (cd_Items obj) first skip orderBy)"

end
