(* ===== verification/Cart_Claims.thy ===== *)
theory Cart_Claims
  imports Cart Order_Claims
begin

text \<open>
  The properties of the shopping cart service: whose requests can change a cart, how often a variant can
  be in it, and what an order made from it takes out of it.
\<close>

subsection \<open>Carts are private\<close>

definition others :: "uuid \<Rightarrow> cart_db \<Rightarrow> CartUser list" where
  "others i s = filter (\<lambda>u. cu_ID u \<noteq> i) (cartUsers s)"

definition only_cart :: "uuid \<Rightarrow> cart_db \<Rightarrow> cart_db \<Rightarrow> bool" where
  "only_cart i s s' \<longleftrightarrow> others i s' = others i s \<and> cartVariants s' = cartVariants s"

lemma only_cart_rows:
  "cartUsers s' = cartUsers s \<Longrightarrow> cartVariants s' = cartVariants s \<Longrightarrow> only_cart i s s'"
  by (simp add: only_cart_def others_def)

interpretation only_cart: effect_rel "only_cart i" for i
  by unfold_locales (auto simp: only_cart_def others_def)

lemma filter_map_first:
  "(\<And>x. P x \<Longrightarrow> \<not> Q x \<and> \<not> Q (f x)) \<Longrightarrow> filter Q (map_first P f xs) = filter Q xs"
  by (induction xs) auto

lemma only_cart_writes [guar_intros]:
  "guar (only_cart i) (ReplaceCartItems i items t)" "guar (only_cart i) (PushItem i item)" "guar (only_cart i) (PullItems i ids)"
  unfolding ReplaceCartItems_def PushItem_def PullItems_def
  by (intro only_cart.guar_update_one; simp add: only_cart_def others_def filter_map_first)+

lemma only_cart_reads [guar_intros]:
  "guar (only_cart i) (FindUser j)" "guar (only_cart i) (FindUserCart j)" "guar (only_cart i) (ProductVariantsExist vs)"
  "guar (only_cart i) (ProductVariantExists v)" "guar (only_cart i) (FindItemByVariant j v)" "guar (only_cart i) (owner_or_employee c j)"
  unfolding FindUser_def FindUserCart_def ProductVariantsExist_def ProductVariantExists_def FindItemByVariant_def owner_or_employee_def
  by (intro guar_intros)+

lemma only_cart_fresh_lines [guar_intros]: "guar (only_cart i) (fresh_lines t its)"
  by (induction its) (auto intro: guar_intros)

lemma cart_io [simp]:
  "cartUsers (s\<lparr>faults := fs\<rparr>) = cartUsers s" "cartVariants (s\<lparr>faults := fs\<rparr>) = cartVariants s"
  by simp_all

lemma FindItemOwner_run:
  assumes "FindItemOwner i s = (Inr (owner, it), s')"
  shows "\<exists>u fs. find (holds_item i) (cartUsers s) = Some u \<and> owner = cu_ID u \<and>
    find (\<lambda>it. ca_ID it = i) (cu_Items u) = Some it \<and> s' = s\<lparr>faults := fs\<rparr>"
proof -
  obtain u s1 where f: "find_one CaDriver CaNotFound cartUsers (holds_item i) s = (Inr u, s1)"
    and r: "(case find (\<lambda>it. ca_ID it = i) (cu_Items u) of None \<Rightarrow> fail CaProjection | Some it \<Rightarrow> ret (cu_ID u, it)) s1 =
      (Inr (owner, it), s')"
    using assms unfolding FindItemOwner_def by (rule andThen_InrE)
  show ?thesis using find_one_run [OF f] r by (auto simp: run_ret run_fail split: option.splits)
qed

lemma filter_first_holder:
  "find P us = Some u \<Longrightarrow> (\<And>x. cu_ID (f x) = cu_ID x) \<Longrightarrow>
     filter (\<lambda>x. cu_ID x \<noteq> cu_ID u) (map_first P f us) = filter (\<lambda>x. cu_ID x \<noteq> cu_ID u) us"
  by (induction us) (auto split: if_splits)

lemma holder_write:
  assumes "find (holds_item i) (cartUsers s) = Some u" "\<And>x. cu_ID (f x) = cu_ID x"
    and "update_one CaDriver cartUsers_update (holds_item i) f s = (r, s')"
  shows "only_cart (cu_ID u) s s'"
  using assms(3)
  by (cases rule: update_one_run) (auto simp: only_cart_def others_def filter_first_holder [OF assms(1,2)])

lemma owner_or_employee_run:
  "owner_or_employee c i s = (r, s') \<Longrightarrow> s' = s \<and> (\<not> IsEmployeeOrAdmin c \<longrightarrow> r = Inr () \<longrightarrow> (\<exists>w. c = Some w \<and> user_ID w = i))"
  by (auto simp: owner_or_employee_def RequireSelfOrEmployee_def Require_def FromContext_def ret_def fail_def
      split: option.splits sum.splits if_splits)

text \<open>What a caller without the employee's role can reach.\<close>

definition own_cart :: "ctx \<Rightarrow> cart_db \<Rightarrow> cart_db \<Rightarrow> bool" where
  "own_cart c s s' \<longleftrightarrow> (case c of None \<Rightarrow> io.more s' = io.more s | Some w \<Rightarrow> only_cart (user_ID w) s s')"

lemma own_cart_more: "io.more s' = io.more s \<Longrightarrow> own_cart c s s'"
  by (cases s; cases s'; simp add: own_cart_def only_cart_rows split: option.split)

lemma guarded_own_cart:
  assumes "\<not> IsEmployeeOrAdmin c" "andThen (owner_or_employee c i) k s = (r, s')"
    and "\<And>s r s'. k () s = (r, s') \<Longrightarrow> only_cart i s s'"
  shows "own_cart c s s'"
proof -
  obtain q s1 where o': "owner_or_employee c i s = (q, s1)" by fastforce
  note run = owner_or_employee_run [OF o']
  show ?thesis
  proof (cases q)
    case (Inl e)
    then show ?thesis using assms(2) run by (intro own_cart_more) (simp add: run_andThen o')
  next
    case (Inr u)
    then have "k () s = (r, s')" using assms(2) run by (simp add: run_andThen o')
    then show ?thesis using run assms(1,3) Inr by (auto simp: own_cart_def)
  qed
qed

inductive cart_request :: "ctx \<Rightarrow> cart_db \<Rightarrow> cart_db \<Rightarrow> bool" where
  update: "UpdateShoppingcart c i items s = (r, s') \<Longrightarrow> cart_request c s s'"
| create: "CreateShoppingcartItem c i it s = (ri, s') \<Longrightarrow> cart_request c s s'"
| count: "UpdateShoppingcartItem c i n s = (ri, s') \<Longrightarrow> cart_request c s s'"
| delete: "DeleteShoppingcartItem c i s = (rb, s') \<Longrightarrow> cart_request c s s'"

lemma looked_up_own_cart:
  assumes "\<not> IsEmployeeOrAdmin c"
    and run: "andThen (map_err (itemLookupError i) (FindItemOwner i)) (\<lambda>(owner, x). andThen (owner_or_employee c owner) k) s = (r, s')"
    and stays: "\<And>u s r s'. find (holds_item i) (cartUsers s) = Some u \<Longrightarrow> k () s = (r, s') \<Longrightarrow> only_cart (cu_ID u) s s'"
  shows "own_cart c s s'"
proof -
  obtain q s1 where f: "FindItemOwner i s = (q, s1)" by fastforce
  have "guar reading (FindItemOwner i)"
    unfolding FindItemOwner_def by (intro guar_intros)
  then have same: "io.more s1 = io.more s" using f by (auto dest!: guarD simp: reading_def)
  show ?thesis
  proof (cases q)
    case (Inl e)
    then have "s' = s1" using run by (simp add: run_andThen run_map_err f)
    then show ?thesis using same own_cart_more by simp
  next
    case (Inr p)
    obtain owner it where p: "p = (owner, it)" by (cases p)
    obtain u fs where u: "find (holds_item i) (cartUsers s) = Some u" "owner = cu_ID u" "s1 = s\<lparr>faults := fs\<rparr>"
      using FindItemOwner_run [OF f [unfolded Inr p]] by auto
    have rest: "andThen (owner_or_employee c owner) k s1 = (r, s')" using run by (simp add: run_andThen run_map_err f Inr p)
    obtain q2 s2 where o': "owner_or_employee c owner s1 = (q2, s2)" by fastforce
    have "own_cart c s1 s'"
    proof (cases q2)
      case (Inl e)
      then show ?thesis using rest owner_or_employee_run [OF o'] by (intro own_cart_more) (simp add: run_andThen o')
    next
      case (Inr w)
      then have "k () s1 = (r, s')" using rest owner_or_employee_run [OF o'] by (simp add: run_andThen o')
      then have "only_cart owner s1 s'" using stays [of s1 u r s'] u by simp
      then show ?thesis using owner_or_employee_run [OF o'] assms(1) Inr by (auto simp: own_cart_def)
    qed
    then show ?thesis using u(3) by (auto simp: own_cart_def only_cart_def others_def split: option.splits)
  qed
qed

text \<open>
  C33. A request of a caller who is neither employee nor admin changes no cart but the caller's own, under every script
  of failures; an anonymous one changes nothing.
\<close>

theorem carts_private:
  assumes "cart_request c s s'" "\<not> IsEmployeeOrAdmin c"
  shows "case c of None \<Rightarrow> io.more s' = io.more s
    | Some w \<Rightarrow> filter (\<lambda>u. cu_ID u \<noteq> user_ID w) (cartUsers s') = filter (\<lambda>u. cu_ID u \<noteq> user_ID w) (cartUsers s) \<and>
        cartVariants s' = cartVariants s"
proof -
  have "own_cart c s s'"
    using assms(1)
  proof cases
    case (update i items r)
    show ?thesis
      by (rule guarded_own_cart [OF assms(2) update [unfolded UpdateShoppingcart_def]])
        (erule guarD [rotated], unfold Let_def, intro guar_intros)
  next
    case (create i it r)
    show ?thesis
      by (rule guarded_own_cart [OF assms(2) create [unfolded CreateShoppingcartItem_def]])
        (erule guarD [rotated], unfold Let_def, intro guar_intros)
  next
    case (count i n r)
    show ?thesis
    proof (rule looked_up_own_cart [OF assms(2) count [unfolded UpdateShoppingcartItem_def]])
      fix u t q t'
      assume u: "find (holds_item i) (cartUsers t) = Some u"
        and k: "andThen (map_err (\<lambda>_. CaCountFailed i) (UpdateItemCount i n)) (\<lambda>_. map_err (itemLookupError i) (FindItem i)) t = (q, t')"
      obtain q1 t1 where w: "UpdateItemCount i n t = (q1, t1)" by fastforce
      have 1: "only_cart (cu_ID u) t t1" by (rule holder_write [OF u _ w [unfolded UpdateItemCount_def]]) simp
      have "guar (only_cart (cu_ID u)) (map_err (itemLookupError i) (FindItem i))"
        unfolding FindItem_def FindItemOwner_def by (intro guar_intros)
      then have "only_cart (cu_ID u) t1 t'" if "q1 = Inr ()" using k that by (auto simp: run_andThen run_map_err w dest: guarD)
      moreover have "t' = t1" if "q1 \<noteq> Inr ()" using k that by (cases q1) (auto simp: run_andThen run_map_err w)
      ultimately show "only_cart (cu_ID u) t t'" using 1 only_cart.R_trans by metis
    qed
  next
    case (delete i r)
    show ?thesis
    proof (rule looked_up_own_cart [OF assms(2) delete [unfolded DeleteShoppingcartItem_def]])
      fix u t q t'
      assume u: "find (holds_item i) (cartUsers t) = Some u"
        and k: "andThen (map_err (\<lambda>_. CaDeleteFailed i) (PullItem i)) (\<lambda>_. ret True) t = (q, t')"
      obtain q1 t1 where w: "PullItem i t = (q1, t1)" by fastforce
      have "only_cart (cu_ID u) t t1" by (rule holder_write [OF u _ w [unfolded PullItem_def]]) simp
      moreover have "t' = t1" using k by (cases q1) (auto simp: run_andThen run_map_err run_ret w)
      ultimately show "only_cart (cu_ID u) t t'" by simp
    qed
  qed
  then show ?thesis by (simp add: own_cart_def only_cart_def others_def split: option.splits)
qed

subsection \<open>One line per variant\<close>

definition one_line :: "CartUser \<Rightarrow> bool" where
  "one_line u \<longleftrightarrow> distinct (map ca_ProductVariantID (cu_Items u))"

definition lines_unique :: "cart_db \<Rightarrow> bool" where
  "lines_unique s \<longleftrightarrow> list_all one_line (cartUsers s)"

lemma lines_unique_more: "io.more s = io.more t \<Longrightarrow> lines_unique s = lines_unique t"
  by (cases s; cases t; simp add: lines_unique_def)

interpretation lines: table_invariant lines_unique
  by unfold_locales (rule lines_unique_more)

lemma list_all_map_first: "list_all Q xs \<Longrightarrow> (\<And>x. P x \<Longrightarrow> Q x \<Longrightarrow> Q (f x)) \<Longrightarrow> list_all Q (map_first P f xs)"
  by (induction xs) auto

lemma lines_update_one:
  "(\<And>u. P u \<Longrightarrow> one_line u \<Longrightarrow> one_line (f u)) \<Longrightarrow> guar (keeping lines_unique) (update_one CaDriver cartUsers_update P f)"
  by (intro lines.guar_update_one) (auto simp: keeping_def lines_unique_def intro!: list_all_map_first)

lemma toItemDoc_variant [simp]: "ca_ProductVariantID (toItemDoc it) = ca_ProductVariantID it"
  by (simp add: toItemDoc_def)

lemma lines_store [guar_intros]:
  "guar (keeping lines_unique) (UpdateItemCount i n)" "guar (keeping lines_unique) (PullItem i)"
  "guar (keeping lines_unique) (PullItems i ids)" "guar (keeping lines_unique) (InsertUser_cart i t)"
  "guar (keeping lines_unique) (InsertProductVariant_cart v)"
  "guar (keeping lines_unique) (FindUser j)" "guar (keeping lines_unique) (ProductVariantsExist vs)"
  "guar (keeping lines_unique) (ProductVariantExists v)" "guar (keeping lines_unique) (FindItemOwner i)"
  "guar (keeping lines_unique) (FindItemByVariant i v)" "guar (keeping lines_unique) (owner_or_employee c i)"
proof -
  show "guar (keeping lines_unique) (UpdateItemCount i n)"
    unfolding UpdateItemCount_def by (rule lines_update_one) (simp add: one_line_def map_map_first)
  show "guar (keeping lines_unique) (PullItem i)" "guar (keeping lines_unique) (PullItems i ids)"
    unfolding PullItem_def PullItems_def by (rule lines_update_one, simp add: one_line_def distinct_map_filter)+
  show "guar (keeping lines_unique) (InsertUser_cart i t)" "guar (keeping lines_unique) (InsertProductVariant_cart v)"
    unfolding InsertUser_cart_def InsertProductVariant_cart_def
    by (intro lines.guar_insert_one; simp add: keeping_def lines_unique_def one_line_def)+
qed (unfold FindUser_def ProductVariantsExist_def ProductVariantExists_def FindItemOwner_def FindItemByVariant_def owner_or_employee_def,
    (intro guar_intros)+)

lemma fresh_lines_run:
  "\<exists>items. fresh_lines t its s = (Inr items, s\<lparr>minted := minted s + length its\<rparr>) \<and>
     map ca_ProductVariantID items = map ci_ProductVariantID its"
proof (induction its arbitrary: s)
  case (Cons it its)
  obtain items where "fresh_lines t its (s\<lparr>minted := Suc (minted s)\<rparr>) = (Inr items, s\<lparr>minted := Suc (minted s) + length its\<rparr>)"
    "map ca_ProductVariantID items = map ci_ProductVariantID its"
    using Cons [of "s\<lparr>minted := Suc (minted s)\<rparr>"] by auto
  then show ?case by (simp add: run_simps)
qed (simp add: run_ret)

lemma lines_replace:
  assumes "distinct (map ci_ProductVariantID its)"
  shows "guar (keeping lines_unique) (andThen (fresh_lines t its) (\<lambda>new. map_err (\<lambda>_. e) (ReplaceCartItems i new t)))"
proof (rule guarI)
  fix s :: cart_db
  let ?s1 = "s\<lparr>minted := minted s + length its\<rparr>"
  obtain items where run: "fresh_lines t its s = (Inr items, ?s1)" and variants: "map ca_ProductVariantID items = map ci_ProductVariantID its"
    using fresh_lines_run by blast
  have "guar (keeping lines_unique) (map_err (\<lambda>_. e) (ReplaceCartItems i items t))"
    unfolding ReplaceCartItems_def
    by (intro guar_intros lines_update_one) (use variants assms in \<open>simp add: one_line_def comp_def\<close>)
  then have "keeping lines_unique ?s1 (snd (map_err (\<lambda>_. e) (ReplaceCartItems i items t) ?s1))" by (simp add: guar_def)
  moreover have "lines_unique ?s1 = lines_unique s" by (rule lines_unique_more) simp
  ultimately show "keeping lines_unique s (snd (andThen (fresh_lines t its) (\<lambda>new. map_err (\<lambda>_. e) (ReplaceCartItems i new t)) s))"
    by (simp add: keeping_def run_andThen run)
qed

lemma lines_update:
  "distinct (map ci_ProductVariantID (dedupItemInputs inputs)) \<Longrightarrow> guar (keeping lines_unique) (UpdateShoppingcart c i (Some inputs))"
  "guar (keeping lines_unique) (UpdateShoppingcart c i None)"
  unfolding UpdateShoppingcart_def Let_def FindUserCart_def by (simp, intro guar_intros lines_replace; simp)+

text \<open>An item is only added when no line of the cart has its variant.\<close>

lemma FindItemByVariant_None:
  assumes "FindItemByVariant i v s = (Inr None, s')"
  shows "(\<forall>u \<in> set (cartUsers s). cu_ID u = i \<longrightarrow> v \<notin> ca_ProductVariantID ` set (cu_Items u)) \<and> io.more s' = io.more s"
proof -
  have "guar reading (FindItemByVariant i v)" unfolding FindItemByVariant_def by (intro guar_intros)
  then have "io.more s' = io.more s" using assms by (auto dest!: guarD simp: reading_def)
  moreover have "v \<notin> ca_ProductVariantID ` set (cu_Items u)" if "u \<in> set (cartUsers s)" "cu_ID u = i" for u
  proof
    note u = that
    let ?P = "\<lambda>u. cu_ID u = i \<and> list_ex (\<lambda>it. ca_ProductVariantID it = v) (cu_Items u)"
    assume "v \<in> ca_ProductVariantID ` set (cu_Items u)"
    then have "?P u" using u(2) by (auto simp: list_ex_iff)
    then obtain w where w: "find ?P (cartUsers s) = Some w" using u(1) by (cases "find ?P (cartUsers s)") (auto simp: find_None_iff)
    then have "?P w" by (auto simp: find_Some_iff)
    then have "\<exists>it. find (\<lambda>it. ca_ProductVariantID it = v) (cu_Items w) = Some it"
      by (cases "find (\<lambda>it. ca_ProductVariantID it = v) (cu_Items w)") (auto simp: find_None_iff list_ex_iff)
    then show False
      using assms w unfolding FindItemByVariant_def or_none_def find_one_def
      by (cases rule: ext_cases [of CaDriver "\<lambda>s. case find ?P (cartUsers s) of None \<Rightarrow> (Inl CaNotFound, s) | Some d \<Rightarrow> (Inr d, s)" s])
        (auto simp: run_andThen run_attempt run_ret run_fail)
  qed
  ultimately show ?thesis by blast
qed

lemma lines_push:
  assumes "lines_unique s" "\<forall>u \<in> set (cartUsers s). cu_ID u = i \<longrightarrow> ca_ProductVariantID item \<notin> ca_ProductVariantID ` set (cu_Items u)"
    and "PushItem i item s = (r, s')"
  shows "lines_unique s'"
proof -
  have "list_all one_line (map_first (\<lambda>u. cu_ID u = i) (\<lambda>u. u\<lparr>cu_Items := cu_Items u @ [toItemDoc item]\<rparr>) us)"
    if "list_all one_line us" "\<forall>u \<in> set us. cu_ID u = i \<longrightarrow> ca_ProductVariantID item \<notin> ca_ProductVariantID ` set (cu_Items u)" for us
    using that by (induction us) (auto simp: one_line_def)
  note pushed = this [OF assms(1) [unfolded lines_unique_def] assms(2)]
  show ?thesis
    using assms(3) unfolding PushItem_def
    by (cases rule: update_one_run) (use assms(1) pushed in \<open>auto simp: lines_unique_def\<close>)
qed

lemma lines_create: "guar (keeping lines_unique) (CreateShoppingcartItem c i it)"
proof -
  let ?v = "ci_ProductVariantID it"
  have add: "guar (keeping lines_unique) (andThen (FindItemByVariant i ?v) (\<lambda>found. case found of
      Some existing \<Rightarrow> ret existing
    | None \<Rightarrow> andThen new_uuid (\<lambda>new. andThen now (\<lambda>t.
        let item = \<lparr>ca_ID = new, ca_Count = ci_Count it, ca_AddedAt = t, ca_ProductVariantID = ?v\<rparr> in
        andThen (map_err (\<lambda>_. CaAddFailed new) (PushItem i item)) (\<lambda>_. ret item)))))" (is "guar _ ?m")
  proof (rule guarI)
    fix s
    obtain q s1 where f: "FindItemByVariant i ?v s = (q, s1)" by fastforce
    have k: "keeping lines_unique s s1" by (rule guarD [OF lines_store(10) f])
    show "keeping lines_unique s (snd (?m s))"
    proof (cases "q = Inr None")
      case True
      note none = FindItemByVariant_None [OF f [unfolded True]]
      then have users: "cartUsers s1 = cartUsers s" by (cases s; cases s1; simp)
      let ?item = "\<lparr>ca_ID = fresh s1 (minted s1), ca_Count = ci_Count it, ca_AddedAt = clock s1 (reads s1), ca_ProductVariantID = ?v\<rparr>"
      let ?s2 = "s1\<lparr>minted := Suc (minted s1), reads := Suc (reads s1)\<rparr>"
      obtain q2 s3 where p: "PushItem i ?item ?s2 = (q2, s3)" by fastforce
      have "lines_unique s \<Longrightarrow> lines_unique ?s2" using k lines_unique_more [of ?s2 s1] by (simp add: keeping_def)
      then have "keeping lines_unique s s3" using lines_push [OF _ _ p] none users by (simp add: keeping_def)
      then show ?thesis by (cases q2) (simp_all add: run_andThen f True run_new_uuid run_now Let_def run_map_err p run_ret)
    next
      case False
      then show ?thesis using k by (cases q) (auto simp: run_andThen f run_ret split: option.split)
    qed
  qed
  show ?thesis unfolding CreateShoppingcartItem_def by (intro guar_intros add)
qed

inductive cart_step :: "cart_db \<Rightarrow> cart_db \<Rightarrow> bool" where
  script: "cart_step s (s\<lparr>faults := fs\<rparr>)"
| update: "distinct (map ci_ProductVariantID (dedupItemInputs inputs)) \<Longrightarrow> UpdateShoppingcart c i (Some inputs) s = (r, s') \<Longrightarrow> cart_step s s'"
| touch: "UpdateShoppingcart c i None s = (r, s') \<Longrightarrow> cart_step s s'"
| create: "CreateShoppingcartItem c i it s = (ri, s') \<Longrightarrow> cart_step s s'"
| count: "UpdateShoppingcartItem c i n s = (ri, s') \<Longrightarrow> cart_step s s'"
| delete: "DeleteShoppingcartItem c i s = (rb, s') \<Longrightarrow> cart_step s s'"
| user: "UserCreated_cart d s = (ru, s') \<Longrightarrow> cart_step s s'"
| variant: "ProductVariantCreated_cart d s = (ru, s') \<Longrightarrow> cart_step s s'"
| ordered: "OrderCreated_cart e s = (ru, s') \<Longrightarrow> cart_step s s'"

lemma lines_requests:
  "guar (keeping lines_unique) (UpdateShoppingcartItem c i n)" "guar (keeping lines_unique) (DeleteShoppingcartItem c i)"
  "guar (keeping lines_unique) (UserCreated_cart d)" "guar (keeping lines_unique) (ProductVariantCreated_cart d)"
  "guar (keeping lines_unique) (OrderCreated_cart e)"
  unfolding UpdateShoppingcartItem_def DeleteShoppingcartItem_def UserCreated_cart_def ProductVariantCreated_cart_def
    OrderCreated_cart_def FindItem_def
  by (intro guar_intros)+

lemma cart_step_lines: "cart_step s s' \<Longrightarrow> lines_unique s \<Longrightarrow> lines_unique s'"
  by (induction rule: cart_step.induct)
    (use lines_update [THEN guarD] lines_create [THEN guarD] lines_requests [THEN guarD] in \<open>auto simp: keeping_def lines_unique_def [of "_\<lparr>faults := _\<rparr>"] lines_unique_def\<close>)

text \<open>
  C34. As long as every replacement of a cart names each variant once, no cart has two lines of one variant, over all
  runs of requests, events and failures.
\<close>

theorem one_line_per_variant:
  assumes "cart_step\<^sup>*\<^sup>* s s'" "list_all one_line (cartUsers s)" "u \<in> set (cartUsers s')"
  shows "distinct (map ca_ProductVariantID (cu_Items u))"
proof -
  have "lines_unique s'"
    using assms(1,2) by (induction rule: rtranclp_induct) (auto simp: lines_unique_def intro: cart_step_lines [unfolded lines_unique_def])
  then show ?thesis using assms(3) by (auto simp: lines_unique_def one_line_def list_all_iff)
qed

subsection \<open>Checking out\<close>

text \<open>What the service answers to the order service's query for the cart of a user.\<close>

definition cart_nodes :: "CartData \<Rightarrow> cartNode list" where
  "cart_nodes cart = map (\<lambda>it. \<lparr>cn_ID = ca_ID it, cn_ProductVariantID = ca_ProductVariantID it, cn_Count = ca_Count it\<rparr>)
     (con_Nodes (paginateItems (cd_Items cart) None None None))"

definition cart_service :: "cart_db \<Rightarrow> uuid \<Rightarrow> string \<Rightarrow> shoppingCartEntity list gql_reply" where
  "cart_service s u h = (case fst (Entity_User_cart u s) of
     Inl e \<Rightarrow> Reply [''error''] NullData
   | Inr (i, cart) \<Rightarrow> Reply [] (Data [\<lparr>sce_Shoppingcart = Some (cart_nodes cart)\<rparr>]))"

text \<open>What it reads of the event an order is announced with.\<close>

definition cart_event :: "OrderDTO \<Rightarrow> OrderCreatedC" where
  "cart_event dto = \<lparr>oco_UserID = odto_UserID dto, oco_ItemIDs = map oid_ShoppingCartItemID (odto_OrderItems dto)\<rparr>"

definition without_lines :: "uuid \<Rightarrow> uuid set \<Rightarrow> CartUser list \<Rightarrow> CartUser list" where
  "without_lines i ids us = map (\<lambda>u. if cu_ID u = i then u\<lparr>cu_Items := filter (\<lambda>it. ca_ID it \<notin> ids) (cu_Items u)\<rparr> else u) us"

lemma all_items: "con_Nodes (paginateItems items None None None) = sort_key ca_ID items"
  by (cases "sort_key ca_ID items = []") (simp_all add: paginateItems_def Let_def)

lemma cart_service_nodes:
  assumes "faults s = []" "cart_service s i h = Reply [] (Data (entity # es))" "sce_Shoppingcart entity = Some nodes"
  obtains u where "u \<in> set (cartUsers s)" "cu_ID u = i"
    "set nodes = (\<lambda>it. \<lparr>cn_ID = ca_ID it, cn_ProductVariantID = ca_ProductVariantID it, cn_Count = ca_Count it\<rparr>) ` set (cu_Items u)"
proof (cases "find (\<lambda>u. cu_ID u = i) (cartUsers s)")
  case None
  then show ?thesis
    using assms by (simp add: cart_service_def Entity_User_cart_def FindUserCart_def FindUser_def find_one_def run_andThen
        run_map_err run_ext_quiet)
next
  case (Some u)
  then have "nodes = cart_nodes (toCart u)"
    using assms by (simp add: cart_service_def Entity_User_cart_def FindUserCart_def FindUser_def find_one_def run_andThen
        run_map_err run_ext_quiet run_ret) auto
  then show ?thesis
    using that [of u] find_Some_in [OF Some] by (simp add: cart_nodes_def all_items toCart_def)
qed

lemma OrderCreated_cart_run:
  assumes "faults s = []" "distinct (map cu_ID (cartUsers s))"
  shows "OrderCreated_cart (Some ev) s = (Inr (), cartUsers_update (without_lines (oco_UserID ev) (set (oco_ItemIDs ev))) s)"
proof -
  have "map_first (\<lambda>u. cu_ID u = i) f (cartUsers s) = map_all (\<lambda>u. cu_ID u = i) f (cartUsers s)" for i f
    using assms(2) by (rule map_first_eq_map_all)
  then have "cartUsers_update (map_first (\<lambda>u. cu_ID u = i) f) s = cartUsers_update (map_all (\<lambda>u. cu_ID u = i) f) s" for i f
    by (cases s) simp
  then show ?thesis
    using assms(1) by (simp add: OrderCreated_cart_def PullItems_def update_one_def run_simps without_lines_def [abs_def]
        map_all_def [abs_def])
qed

text \<open>
  C32. An order created from the cart the shopping cart service answered consists of lines of the user's cart with their
  variants and counts. Once it is placed and its announcement delivered, exactly these lines are gone from that cart
  and no other cart has changed; delivering the announcement again changes nothing.
\<close>

theorem checkout_takes_ordered_lines:
  assumes "CreateOrder D marshal c input s = (Inr g, s')" "runtime_ok D"
    and "ask_shoppingcart D = cart_service cs" "faults cs = []" "distinct (map cu_ID (cartUsers cs))"
  shows "\<exists>order u. orders s' = orders s @ [order] \<and> u \<in> set (cartUsers cs) \<and> cu_ID u = coi_UserID input \<and>
    (\<forall>it \<in> set (o_InternalOrderItems order). \<exists>line \<in> set (cu_Items u). ca_ID line = ref_ID (oi_ShoppingCartItem it) \<and>
       ca_ProductVariantID line = pv_ID (oi_ProductVariant it) \<and> oi_Count it = word_of_int (ca_Count line)) \<and>
    (\<forall>t auth. \<exists>dto. toOrderDTO (placed_at t order) auth = Inr dto \<and>
       (let deliver = OrderCreated_cart (Some (cart_event dto));
            after = cartUsers_update (without_lines (cu_ID u) ((\<lambda>it. ref_ID (oi_ShoppingCartItem it)) ` set (o_InternalOrderItems order))) cs
        in deliver cs = (Inr (), after) \<and> deliver after = (Inr (), after)))"
proof -
  obtain i t items nodes stock req granted h entity es where
      os: "orders s' = orders s @ [bson_order (newOrder input i t items)]"
    and ask: "ask_shoppingcart D (coi_UserID input) h = Reply [] (Data (entity # es))" "sce_Shoppingcart entity = Some nodes"
    and sound: "\<forall>it \<in> set items. item_sound D (dedupeOrderItemInputs (coi_OrderItemInputs input)) (cart_of nodes) stock req granted s t it"
    using CreateOrder_sound [OF assms(1,2)] by metis
  let ?order = "bson_order (newOrder input i t items)"
  obtain u where u: "u \<in> set (cartUsers cs)" "cu_ID u = coi_UserID input"
    "set nodes = (\<lambda>it. \<lparr>cn_ID = ca_ID it, cn_ProductVariantID = ca_ProductVariantID it, cn_Count = ca_Count it\<rparr>) ` set (cu_Items u)"
    using cart_service_nodes [OF assms(4) ask(1) [unfolded assms(3)] ask(2)] by blast
  have line: "\<exists>line \<in> set (cu_Items u). ca_ID line = ref_ID (oi_ShoppingCartItem it) \<and>
       ca_ProductVariantID line = pv_ID (oi_ProductVariant it) \<and> oi_Count it = word_of_int (ca_Count line)"
    if it: "it \<in> set (o_InternalOrderItems ?order)" for it
  proof -
    obtain it0 where "it0 \<in> set items" "it = bson_item it0" using it by (auto simp: bson_order_def newOrder_def)
    then have "map_of (cart_of nodes) (ref_ID (oi_ShoppingCartItem it)) = Some (pv_ID (oi_ProductVariant it), oi_Count it)"
      using sound by (auto simp: item_sound_def bson_item_def)
    then have "(ref_ID (oi_ShoppingCartItem it), pv_ID (oi_ProductVariant it), oi_Count it) \<in>
        (\<lambda>n. (cn_ID n, cn_ProductVariantID n, word_of_int (cn_Count n))) ` set nodes"
      by (auto simp: cart_of_def map_of_gomap_of dest!: map_of_SomeD)
    then show ?thesis unfolding u(3) by (auto simp: image_image)
  qed
  have "\<exists>dto. toOrderDTO (placed_at t' ?order) auth = Inr dto \<and>
       (let deliver = OrderCreated_cart (Some (cart_event dto));
            after = cartUsers_update (without_lines (cu_ID u) ((\<lambda>it. ref_ID (oi_ShoppingCartItem it)) ` set (o_InternalOrderItems ?order))) cs
        in deliver cs = (Inr (), after) \<and> deliver after = (Inr (), after))" for t' auth
  proof -
    let ?ids = "(\<lambda>it. ref_ID (oi_ShoppingCartItem it)) ` set (o_InternalOrderItems ?order)"
    let ?after = "cartUsers_update (without_lines (cu_ID u) ?ids) cs"
    obtain dto where dto: "toOrderDTO (placed_at t' ?order) auth = Inr dto" "odto_UserID dto = cu_ID u"
        "set (map oid_ShoppingCartItemID (odto_OrderItems dto)) = ?ids"
      using u(2) by (auto simp: toOrderDTO_def placed_at_def toOrderItemDTO_def bson_order_def newOrder_def image_image)
    have "distinct (map cu_ID (cartUsers ?after))"
      using assms(5) by (simp add: without_lines_def comp_def if_distrib cong: if_cong)
    moreover have "cartUsers_update (without_lines (cu_ID u) ?ids) ?after = ?after"
      by (cases cs) (simp add: without_lines_def comp_def)
    ultimately show ?thesis
      using dto assms(4) OrderCreated_cart_run [of cs "cart_event dto"] OrderCreated_cart_run [of ?after "cart_event dto"] assms(5)
      by (intro exI [of _ dto]) (simp add: cart_event_def Let_def)
  qed
  then show ?thesis using os u(1,2) line by blast
qed

subsection \<open>Witnesses\<close>

definition two_carts :: cart_db where
  "two_carts = \<lparr>faults = [], outbox = [], fresh = (\<lambda>n. UUID (of_nat (n + 100))), minted = 0, clock = (\<lambda>n. 10 ^ 9), reads = 0,
     cartUsers = [\<lparr>cu_ID = UUID 1, cu_LastUpdatedAt = 0, cu_Items =
         [\<lparr>ca_ID = UUID 31, ca_Count = 1, ca_AddedAt = 0, ca_ProductVariantID = UUID 25\<rparr>,
          \<lparr>ca_ID = UUID 30, ca_Count = 2, ca_AddedAt = 0, ca_ProductVariantID = UUID 20\<rparr>]\<rparr>,
       \<lparr>cu_ID = UUID 2, cu_LastUpdatedAt = 0, cu_Items = []\<rparr>],
     cartVariants = [UUID 20, UUID 25]\<rparr>"

definition cart_demo :: "(cart_err + CartItem) \<times> cart_db" where
  "cart_demo = CreateShoppingcartItem demo_caller (UUID 1) \<lparr>ci_Count = 3, ci_ProductVariantID = UUID 20\<rparr> two_carts"

lemma carts_private_witness:
  "filter (\<lambda>u. cu_ID u \<noteq> UUID 1) (cartUsers (snd cart_demo)) = [\<lparr>cu_ID = UUID 2, cu_LastUpdatedAt = 0, cu_Items = []\<rparr>]"
proof -
  have "cart_request demo_caller two_carts (snd cart_demo)"
    unfolding cart_demo_def by (rule cart_request.create [OF prod.collapse [symmetric]])
  moreover have "\<not> IsEmployeeOrAdmin demo_caller" by code_simp
  ultimately show ?thesis using carts_private by (fastforce simp: demo_caller_def two_carts_def)
qed

lemma one_line_per_variant_witness:
  "list_all (\<lambda>u. distinct (map ca_ProductVariantID (cu_Items u))) (cartUsers (snd cart_demo))"
proof -
  have "cart_step two_carts (snd cart_demo)"
    unfolding cart_demo_def by (rule cart_step.create [OF prod.collapse [symmetric]])
  moreover have "list_all one_line (cartUsers two_carts)" by (simp add: two_carts_def one_line_def)
  ultimately show ?thesis
    by (intro list_all_iff [THEN iffD2] ballI) (rule one_line_per_variant [OF r_into_rtranclp])
qed

definition cart_downstream :: downstream where
  "cart_downstream = demo_downstream\<lparr>ask_shoppingcart := cart_service two_carts\<rparr>"

definition checked_out :: "(order_err + GOrder) \<times> order_db" where
  "checked_out = CreateOrder cart_downstream (\<lambda>u. ''h'') demo_caller demo_input demo_shop"

lemma checked_out_run: "isl (fst checked_out) = False"
  by code_simp

lemma checkout_takes_ordered_lines_witness:
  "\<exists>order u. orders (snd checked_out) = [order] \<and> cu_ID u = UUID 1 \<and> u \<in> set (cartUsers two_carts)"
proof -
  obtain g where "fst checked_out = Inr g" using checked_out_run by (cases "fst checked_out") auto
  then have run: "CreateOrder cart_downstream (\<lambda>u. ''h'') demo_caller demo_input demo_shop = (Inr g, snd checked_out)"
    by (metis prod.collapse checked_out_def)
  have 1: "runtime_ok cart_downstream" using demo_runtime by (simp add: runtime_ok_def cart_downstream_def)
  have 2: "ask_shoppingcart cart_downstream = cart_service two_carts" by (simp add: cart_downstream_def)
  have 3: "faults two_carts = []" "distinct (map cu_ID (cartUsers two_carts))" by (simp_all add: two_carts_def)
  have 4: "orders demo_shop = []" "coi_UserID demo_input = UUID 1" by (simp_all add: demo_shop_def demo_db_def demo_input_def)
  show ?thesis
    using checkout_takes_ordered_lines [OF run 1 2 3] unfolding 4 append_Nil by blast
qed

end
