(* ===== verification/Invoice.thy ===== *)
theory Invoice
  imports Order_Events Timestamps
begin

text \<open>
  \<open>src/invoice\<close>: an invoice is built when an order's discounts are validated, from the documents of the
  user, of the user's addresses and of the vendor's, which arrive as events. A user document has two arrays of
  addresses, \<open>addresses\<close>, which is read, and \<open>user_addresses\<close>, which is written and absent before
  the first write. Decoding fills fields a document lacks with zero values. An event carries the order in the
  shape the order service announces it (\<open>OrderDTO\<close>). \<open>str\<close> is the string form of an id.
\<close>

subsection \<open>Documents\<close>

record InvUserAddress =
  ia_ID :: uuid
  ia_Street1 :: string
  ia_Street2 :: string
  ia_City :: string
  ia_PostalCode :: string
  ia_Country :: string
  ia_CompanyName :: string
  ia_UserID :: uuid

record InvVendorAddress =
  va_ID :: uuid
  va_Street1 :: string
  va_Street2 :: string
  va_City :: string
  va_PostalCode :: string
  va_Country :: string
  va_CompanyName :: string

record InvoiceDoc =
  inv_ID :: uuid
  inv_OrderID :: uuid
  inv_IssuedAt :: time
  inv_Content :: string
  inv_UserAddress :: InvUserAddress
  inv_VendorAddress :: InvVendorAddress
  inv_VatNumber :: "string option"

record InvUser =
  iu_ID :: uuid
  iu_FirstName :: string
  iu_LastName :: string
  iu_Addresses :: "InvUserAddress list"
  iu_UserAddresses :: "InvUserAddress list option"

record InvoiceDTO =
  id_OrderID :: uuid
  id_IssuedAt :: time
  id_Content :: string

datatype invoice_err =
    InvDriver
  | InvNoDocuments
  | InvDuplicate
  | InvProjection
  | InvTransport
  | InvNotFound uuid
  | InvByOrderNotFound uuid

text \<open>A POST leaves with its URL: the one used here names no component of the sidecar.\<close>

datatype invoice_post = Posted string "OrderDTO \<times> InvoiceDTO"

record invoice_db = "invoice_post io" +
  invoiceDocs :: "InvoiceDoc list"
  vendorDocs :: "InvVendorAddress list"
  invUsers :: "InvUser list"

type_synonym 'a invoice_act = "(invoice_db, invoice_err, 'a) act"

subsection \<open>Store\<close>

definition GetInvoice :: "uuid \<Rightarrow> InvoiceDoc invoice_act" where
  "GetInvoice i = find_one InvDriver InvNoDocuments invoiceDocs (\<lambda>d. inv_ID d = i)"

definition GetInvoiceByOrderID :: "uuid \<Rightarrow> InvoiceDoc invoice_act" where
  "GetInvoiceByOrderID i = find_one InvDriver InvNoDocuments invoiceDocs (\<lambda>d. inv_OrderID d = i)"

definition InsertInvoice :: "InvoiceDoc \<Rightarrow> unit invoice_act" where
  "InsertInvoice d = insert_one InvDriver InvDuplicate invoiceDocs invoiceDocs_update inv_ID d"

definition GetUser_inv :: "uuid \<Rightarrow> InvUser invoice_act" where
  "GetUser_inv i = find_one InvDriver InvNoDocuments invUsers (\<lambda>u. iu_ID u = i)"

text \<open>The projection leaves the id and the first address that matched.\<close>

definition address_projection :: "uuid \<Rightarrow> InvUser \<Rightarrow> InvUser" where
  "address_projection i u = \<lparr>iu_ID = iu_ID u, iu_FirstName = [], iu_LastName = [],
     iu_Addresses = take 1 (filter (\<lambda>a. ia_ID a = i) (iu_Addresses u)), iu_UserAddresses = None\<rparr>"

definition GetUserByAddressID :: "uuid \<Rightarrow> InvUser invoice_act" where
  "GetUserByAddressID i =
     andThen (find_one InvDriver InvNoDocuments invUsers (\<lambda>u. list_ex (\<lambda>a. ia_ID a = i) (iu_Addresses u))) (\<lambda>u.
       ret (address_projection i u))"

definition GetVendorAddress :: "InvVendorAddress invoice_act" where
  "GetVendorAddress = find_one InvDriver InvNoDocuments vendorDocs (\<lambda>_. True)"

definition UpsertVendorAddress :: "uuid \<Rightarrow> unit invoice_act" where
  "UpsertVendorAddress i = upsert_one InvDriver vendorDocs vendorDocs_update (\<lambda>v. va_ID v = i) (\<lambda>v. v\<lparr>va_ID := i\<rparr>)
     \<lparr>va_ID = i, va_Street1 = [], va_Street2 = [], va_City = [], va_PostalCode = [], va_Country = [], va_CompanyName = []\<rparr>"

definition InsertUser_inv :: "InvUser \<Rightarrow> unit invoice_act" where
  "InsertUser_inv u = insert_one InvDriver InvDuplicate invUsers invUsers_update iu_ID u"

definition PushUserAddress_inv :: "uuid \<Rightarrow> InvUserAddress \<Rightarrow> unit invoice_act" where
  "PushUserAddress_inv userID addr = update_one InvDriver invUsers_update (\<lambda>u. iu_ID u = userID)
     (\<lambda>u. u\<lparr>iu_UserAddresses := Some ((case iu_UserAddresses u of None \<Rightarrow> [] | Some as \<Rightarrow> as) @ [addr])\<rparr>)"

text \<open>\<open>$pull\<close> through an array by a dotted path is refused by the server; on an absent field it does nothing.\<close>

definition PullUserAddress_inv :: "uuid \<Rightarrow> uuid \<Rightarrow> unit invoice_act" where
  "PullUserAddress_inv userID addressID = ext InvDriver (\<lambda>s.
     case find (\<lambda>u. iu_ID u = userID) (invUsers s) of
       None \<Rightarrow> (Inr (), s)
     | Some u \<Rightarrow> if iu_UserAddresses u = None then (Inr (), s) else (Inl InvDriver, s))"

subsection \<open>Rendering\<close>

definition invoiceTerms :: string where
  "invoiceTerms = ''This invoice is created according the the companies terms and conditions specified on the website.''"

definition nl :: string where "nl = [CHR 0x0A]"

definition item_row :: "(uuid \<Rightarrow> string) \<Rightarrow> OrderItemDTO \<Rightarrow> string" where
  "item_row str it = ''| '' @ str (oid_ID it) @ '' | '' @ str (oid_ProductVariantID it) @ '' | '' @
     padded 1 (uint (oid_Count it)) @ '' | '' @ padded 1 (uint (oid_CompensatableAmount it)) @ '' |'' @ nl"

definition buildOrderItemsTable :: "(uuid \<Rightarrow> string) \<Rightarrow> OrderDTO \<Rightarrow> string" where
  "buildOrderItemsTable str order =
     ''| Item UUID | Product variant UUID | count | Compensatable amount |'' @ nl @ ''| --- | --- | --- | --- |'' @ nl @
     concat (map (item_row str) (odto_OrderItems order))"

definition renderContent ::
  "(uuid \<Rightarrow> string) \<Rightarrow> InvVendorAddress \<Rightarrow> InvUserAddress \<Rightarrow> InvUser \<Rightarrow> string \<Rightarrow> uuid \<Rightarrow> string \<Rightarrow> string \<Rightarrow> u64 \<Rightarrow> string" where
  "renderContent str vendor userAddress user vat i issuedAt itemsTable amount =
     nl @ ''# Invoice'' @ nl @ nl @
     ''### Company information:'' @ nl @
     va_CompanyName vendor @ nl @
     va_Street1 vendor @ '', '' @ va_Street2 vendor @ nl @
     va_City vendor @ '', '' @ va_Country vendor @ nl @
     nl @ ''VAT number: '' @ vat @ nl @ nl @
     ''### Customer information:'' @ nl @
     ''ID: '' @ str (iu_ID user) @ nl @
     ''Name: '' @ iu_FirstName user @ '', '' @ iu_LastName user @ nl @
     ''Address:'' @ nl @
     ia_CompanyName userAddress @ nl @
     ia_Street1 userAddress @ '', '' @ ia_Street2 userAddress @ nl @
     ia_City userAddress @ '', '' @ ia_Country userAddress @ nl @
     nl @ ''### Invoice ID: '' @ str i @ '', issued at: '' @ issuedAt @ '' '' @ nl @ nl @
     ''Terms and conditions: '' @ invoiceTerms @ nl @ nl @
     ''---'' @ nl @ nl @
     ''Purchased items overview:'' @ nl @ nl @
     itemsTable @ nl @ nl @
     ''---'' @ nl @ nl @
     ''Total compensatable amount: '' @ padded 1 (uint amount) @ nl"

text \<open>The layout \<open>2006-01-02 15:04:05\<close>.\<close>

definition format_issued :: "time \<Rightarrow> string" where
  "format_issued t = (let secs = seconds_of t; sod = secs mod 86400
     in format_date (secs div 86400) @ '' '' @ padded 2 (sod div 3600) @ '':'' @
        padded 2 (sod mod 3600 div 60) @ '':'' @ padded 2 (sod mod 60))"

definition projectUserAddress :: "InvUser \<Rightarrow> InvUserAddress invoice_act" where
  "projectUserAddress u = (case iu_Addresses u of [] \<Rightarrow> fail InvProjection | a # _ \<Rightarrow> ret a)"

definition BuildInvoice :: "(uuid \<Rightarrow> string) \<Rightarrow> OrderDTO \<Rightarrow> InvoiceDoc invoice_act" where
  "BuildInvoice str order =
     andThen new_uuid (\<lambda>i.
     andThen now (\<lambda>t.
     let issuedAt = bson_time t; itemsTable = buildOrderItemsTable str order in
     andThen (GetUserByAddressID (odto_InvoiceAddressID order)) (\<lambda>addrUser.
     andThen (projectUserAddress addrUser) (\<lambda>userAddress.
     andThen GetVendorAddress (\<lambda>vendorAddress.
     andThen (GetUser_inv (odto_UserID order)) (\<lambda>user.
       ret \<lparr>inv_ID = i, inv_OrderID = odto_ID order, inv_IssuedAt = issuedAt,
         inv_Content = renderContent str vendorAddress userAddress user
           (case odto_VatNumber order of None \<Rightarrow> ''-'' | Some v \<Rightarrow> v) i (format_issued issuedAt) itemsTable
           (odto_CompensatableOrderAmount order),
         inv_UserAddress = userAddress, inv_VendorAddress = vendorAddress, inv_VatNumber = odto_VatNumber order\<rparr>))))))"

definition ToInvoiceDTO :: "InvoiceDoc \<Rightarrow> InvoiceDTO" where
  "ToInvoiceDTO d = \<lparr>id_OrderID = inv_OrderID d, id_IssuedAt = inv_IssuedAt d, id_Content = inv_Content d\<rparr>"

definition publishURL :: string where
  "publishURL = ''/v1.0/publish/invoice/invoice/created''"

definition PublishInvoiceCreated :: "OrderDTO \<times> InvoiceDTO \<Rightarrow> unit invoice_act" where
  "PublishInvoiceCreated dto = emit InvTransport (Posted publishURL dto)"

subsection \<open>Handlers\<close>

record VendorAddressEvent =
  ve_ID :: uuid

record InvUserEvent =
  ive_ID :: uuid
  ive_FirstName :: string
  ive_LastName :: string

record InvAddressEvent =
  iae_ID :: uuid
  iae_Street1 :: string
  iae_Street2 :: string
  iae_City :: string
  iae_PostalCode :: string
  iae_Country :: string
  iae_CompanyName :: "string option"
  iae_UserID :: uuid

record InvArchivedEvent =
  iar_ID :: uuid
  iar_UserID :: uuid

definition onDiscountValidationSucceeded :: "(uuid \<Rightarrow> string) \<Rightarrow> OrderDTO \<Rightarrow> unit invoice_act" where
  "onDiscountValidationSucceeded str order =
     andThen (BuildInvoice str order) (\<lambda>inv.
     andThen (InsertInvoice inv) (\<lambda>_.
       PublishInvoiceCreated (order, ToInvoiceDTO inv)))"

definition onVendorAddressCreated :: "VendorAddressEvent \<Rightarrow> unit invoice_act" where
  "onVendorAddressCreated data = UpsertVendorAddress (ve_ID data)"

definition onUserCreated_inv :: "InvUserEvent \<Rightarrow> unit invoice_act" where
  "onUserCreated_inv data = InsertUser_inv \<lparr>iu_ID = ive_ID data, iu_FirstName = ive_FirstName data,
     iu_LastName = ive_LastName data, iu_Addresses = [], iu_UserAddresses = None\<rparr>"

definition onUserAddressCreated_inv :: "InvAddressEvent \<Rightarrow> unit invoice_act" where
  "onUserAddressCreated_inv data = PushUserAddress_inv (iae_UserID data)
     \<lparr>ia_ID = iae_ID data, ia_Street1 = iae_Street1 data, ia_Street2 = iae_Street2 data, ia_City = iae_City data,
      ia_PostalCode = iae_PostalCode data, ia_Country = iae_Country data,
      ia_CompanyName = (case iae_CompanyName data of None \<Rightarrow> [] | Some c \<Rightarrow> c), ia_UserID = iae_UserID data\<rparr>"

definition onUserAddressArchived_inv :: "InvArchivedEvent \<Rightarrow> unit invoice_act" where
  "onUserAddressArchived_inv data = PullUserAddress_inv (iar_UserID data) (iar_ID data)"

subsection \<open>Routes\<close>

definition RouteDiscountValidationSucceeded :: string where
  "RouteDiscountValidationSucceeded = ''/on-discount-validation-succeded''"

definition RouteVendorAddressCreated :: string where
  "RouteVendorAddressCreated = ''/on-vendor-address-creation-event''"

definition RouteUserCreated :: string where
  "RouteUserCreated = ''/on-user-creation-event''"

definition RouteUserCreatedSubscribed :: string where
  "RouteUserCreatedSubscribed = ''/on-id-creation-event''"

definition RouteUserAddressCreated :: string where
  "RouteUserAddressCreated = ''/on-user-address-creation-event''"

definition RouteUserAddressArchived :: string where
  "RouteUserAddressArchived = ''/on-user-address-archived-event''"

definition TopicDiscountValidationSucceeded :: string where
  "TopicDiscountValidationSucceeded = ''discount/order/validation-succeeded''"

definition TopicVendorAddressCreated :: string where
  "TopicVendorAddressCreated = ''address/vendor-address/created''"

text \<open>What the sidecar is told to deliver where.\<close>

definition subscriptions :: "(string \<times> string) list" where
  "subscriptions =
     [(TopicDiscountValidationSucceeded, RouteDiscountValidationSucceeded),
      (TopicVendorAddressCreated, RouteVendorAddressCreated),
      (TopicUserCreated, RouteUserCreatedSubscribed),
      (TopicUserAddressCreated, RouteUserAddressCreated),
      (TopicUserAddressArchived, RouteUserAddressArchived)]"

definition handle_inv :: "string \<Rightarrow> ('a \<Rightarrow> unit invoice_act) \<Rightarrow> 'a delivery \<Rightarrow> invoice_db \<Rightarrow> int \<times> invoice_db" where
  "handle_inv expectedTopic fn r s =
     (case decodeEnvelope r of
        Inl status \<Rightarrow> (status, s)
      | Inr env \<Rightarrow>
          if env_Topic env \<noteq> expectedTopic then (500, s)
          else (case fn (env_Data env) s of
                  (Inl _, s') \<Rightarrow> (500, s')
                | (Inr _, s') \<Rightarrow> (200, s')))"

text \<open>A body as each handler would decode it, for the route it is posted to; an unknown route is 404.\<close>

record inv_body =
  as_order :: "OrderDTO delivery"
  as_vendor :: "VendorAddressEvent delivery"
  as_user :: "InvUserEvent delivery"
  as_address :: "InvAddressEvent delivery"
  as_archived :: "InvArchivedEvent delivery"

definition route_inv :: "(uuid \<Rightarrow> string) \<Rightarrow> string \<Rightarrow> inv_body \<Rightarrow> invoice_db \<Rightarrow> int \<times> invoice_db" where
  "route_inv str path body =
     (if path = RouteDiscountValidationSucceeded then handle_inv TopicDiscountValidationSucceeded (onDiscountValidationSucceeded str) (as_order body)
      else if path = RouteVendorAddressCreated then handle_inv TopicVendorAddressCreated onVendorAddressCreated (as_vendor body)
      else if path = RouteUserCreated then handle_inv TopicUserCreated onUserCreated_inv (as_user body)
      else if path = RouteUserAddressCreated then handle_inv TopicUserAddressCreated onUserAddressCreated_inv (as_address body)
      else if path = RouteUserAddressArchived then handle_inv TopicUserAddressArchived onUserAddressArchived_inv (as_archived body)
      else Pair 404)"

text \<open>A message of a topic goes to the route subscribed for it.\<close>

definition dapr_deliver :: "(uuid \<Rightarrow> string) \<Rightarrow> string \<Rightarrow> inv_body \<Rightarrow> invoice_db \<Rightarrow> int \<times> invoice_db" where
  "dapr_deliver str topic body s =
     (case map_of subscriptions topic of None \<Rightarrow> (200, s) | Some path \<Rightarrow> route_inv str path body s)"

subsection \<open>Queries\<close>

record GInvoice =
  gi_ID :: uuid
  gi_OrderID :: uuid
  gi_IssuedAt :: time
  gi_Content :: string
  gi_UserAddressID :: uuid
  gi_VendorAddressID :: uuid
  gi_VatNumber :: "string option"

definition toInvoice :: "InvoiceDoc \<Rightarrow> GInvoice" where
  "toInvoice d = \<lparr>gi_ID = inv_ID d, gi_OrderID = inv_OrderID d, gi_IssuedAt = inv_IssuedAt d, gi_Content = inv_Content d,
     gi_UserAddressID = ia_ID (inv_UserAddress d), gi_VendorAddressID = va_ID (inv_VendorAddress d),
     gi_VatNumber = inv_VatNumber d\<rparr>"

definition Query_Invoice :: "uuid \<Rightarrow> GInvoice invoice_act" where
  "Query_Invoice i = andThen (map_err (\<lambda>_. InvNotFound i) (GetInvoice i)) (\<lambda>d. ret (toInvoice d))"

definition Entity_Invoice :: "uuid \<Rightarrow> GInvoice invoice_act" where
  "Entity_Invoice i = andThen (map_err (\<lambda>_. InvNotFound i) (GetInvoice i)) (\<lambda>d. ret (toInvoice d))"

definition Entity_Order_invoice :: "uuid \<Rightarrow> (uuid \<times> GInvoice) invoice_act" where
  "Entity_Order_invoice i =
     andThen (map_err (\<lambda>e. if e = InvNoDocuments then InvByOrderNotFound i else e) (GetInvoiceByOrderID i)) (\<lambda>d.
       ret (i, toInvoice d))"

end
