(* ===== verification/Invoice_Claims.thy ===== *)
theory Invoice_Claims
  imports Invoice
begin

text \<open>
  The properties of the invoice service: what an invoice is when its inputs are stored, and that as the service
  is fed by events they never are.
\<close>

subsection \<open>Building one\<close>

lemma invoice_io [simp]:
  "invoiceDocs (s\<lparr>faults := fs\<rparr>) = invoiceDocs s" "vendorDocs (s\<lparr>faults := fs\<rparr>) = vendorDocs s"
  "invUsers (s\<lparr>faults := fs\<rparr>) = invUsers s"
  by simp_all

text \<open>The document an order's invoice is, for the address, vendor and user found.\<close>

definition invoice_of :: "(uuid \<Rightarrow> string) \<Rightarrow> OrderDTO \<Rightarrow> uuid \<Rightarrow> time \<Rightarrow> InvUserAddress \<Rightarrow> InvVendorAddress \<Rightarrow> InvUser \<Rightarrow> InvoiceDoc" where
  "invoice_of str order i t addr vendor user =
     \<lparr>inv_ID = i, inv_OrderID = odto_ID order, inv_IssuedAt = bson_time t,
      inv_Content = renderContent str vendor addr user (case odto_VatNumber order of None \<Rightarrow> ''-'' | Some v \<Rightarrow> v) i
        (format_issued (bson_time t)) (buildOrderItemsTable str order) (odto_CompensatableOrderAmount order),
      inv_UserAddress = addr, inv_VendorAddress = vendor, inv_VatNumber = odto_VatNumber order\<rparr>"

definition billed_address :: "uuid \<Rightarrow> InvUser list \<Rightarrow> InvUserAddress option" where
  "billed_address i us = (case find (\<lambda>u. list_ex (\<lambda>a. ia_ID a = i) (iu_Addresses u)) us of
     None \<Rightarrow> None | Some u \<Rightarrow> find (\<lambda>a. ia_ID a = i) (iu_Addresses u))"

lemma first_match: "list_ex P xs \<Longrightarrow> \<exists>x. find P xs = Some x \<and> take 1 (filter P xs) = [x]"
  by (induction xs) auto

lemma GetUserByAddressID_quiet:
  assumes "faults s = []"
  shows "andThen (GetUserByAddressID i) projectUserAddress s =
    (case billed_address i (invUsers s) of None \<Rightarrow> (Inl InvNoDocuments, s) | Some a \<Rightarrow> (Inr a, s))"
proof (cases "find (\<lambda>u. list_ex (\<lambda>a. ia_ID a = i) (iu_Addresses u)) (invUsers s)")
  case (Some u)
  then have "list_ex (\<lambda>a. ia_ID a = i) (iu_Addresses u)" by (auto simp: find_Some_iff)
  from first_match [OF this] obtain a where "find (\<lambda>a. ia_ID a = i) (iu_Addresses u) = Some a"
    "take 1 (filter (\<lambda>a. ia_ID a = i) (iu_Addresses u)) = [a]" by blast
  then show ?thesis using Some assms
    by (simp add: GetUserByAddressID_def find_one_def billed_address_def run_andThen run_ext_quiet run_ret
        address_projection_def projectUserAddress_def)
qed (use assms in \<open>simp add: GetUserByAddressID_def find_one_def billed_address_def run_andThen run_ext_quiet\<close>)

lemma find_any: "find (\<lambda>_. True) xs = (case xs of [] \<Rightarrow> None | x # _ \<Rightarrow> Some x)"
  by (cases xs) simp_all

lemma BuildInvoice_quiet:
  assumes "faults s = []"
  shows "BuildInvoice str order s = (let s1 = s\<lparr>minted := Suc (minted s), reads := Suc (reads s)\<rparr> in
    case (billed_address (odto_InvoiceAddressID order) (invUsers s), vendorDocs s,
        find (\<lambda>u. iu_ID u = odto_UserID order) (invUsers s)) of
      (Some a, v # _, Some u) \<Rightarrow> (Inr (invoice_of str order (fresh s (minted s)) (clock s (reads s)) a v u), s1)
    | _ \<Rightarrow> (Inl InvNoDocuments, s1))"
proof -
  let ?s1 = "s\<lparr>minted := Suc (minted s), reads := Suc (reads s)\<rparr>"
  have q: "faults ?s1 = []" using assms by simp
  have assoc: "andThen m (\<lambda>x. andThen (k x) l) s = andThen (andThen m k) l s" for m k l and s :: invoice_db
    by (simp add: andThen_def split: prod.split sum.split)
  show ?thesis
    unfolding BuildInvoice_def Let_def
    by (simp add: run_simps assoc)
      (simp add: run_andThen GetUserByAddressID_quiet [OF q, unfolded run_andThen] GetVendorAddress_def GetUser_inv_def find_one_def q
        run_ext_quiet run_ret invoice_of_def assms find_any split: option.split list.split)
qed


text \<open>
  With every call answered, a validated order is invoiced exactly when some user has its invoice address among
  \<open>addresses\<close>, a vendor address is stored and the ordering user is known; then one document is stored, of the
  first such address and vendor, with the rendered content, and posted with the order to the fixed URL. Otherwise
  nothing is stored or posted.
\<close>

theorem validated_order_invoiced:
  assumes "faults s = []" "fresh s (minted s) \<notin> inv_ID ` set (invoiceDocs s)"
    and "onDiscountValidationSucceeded str order s = (r, s')"
  shows "case (billed_address (odto_InvoiceAddressID order) (invUsers s), vendorDocs s,
      find (\<lambda>u. iu_ID u = odto_UserID order) (invUsers s)) of
    (Some a, v # _, Some u) \<Rightarrow>
      (let inv = invoice_of str order (fresh s (minted s)) (clock s (reads s)) a v u
       in r = Inr () \<and> invoiceDocs s' = invoiceDocs s @ [inv] \<and> outbox s' = outbox s @ [Posted publishURL (order, ToInvoiceDTO inv)])
  | _ \<Rightarrow> r = Inl InvNoDocuments \<and> invoiceDocs s' = invoiceDocs s \<and> outbox s' = outbox s"
  using assms(3) unfolding onDiscountValidationSucceeded_def run_andThen BuildInvoice_quiet [OF assms(1)] Let_def
  by (auto simp: InsertInvoice_def insert_one_def PublishInvoiceCreated_def run_simps assms(1,2) invoice_of_def
      split: option.splits list.splits)

subsection \<open>Never one\<close>

definition no_addresses :: "invoice_db \<Rightarrow> bool" where
  "no_addresses s \<longleftrightarrow> list_all (\<lambda>u. iu_Addresses u = []) (invUsers s)"

text \<open>Without addresses to read nothing is invoiced; what else arrives leaves invoices and the outbox alone.\<close>

definition uninvoiced :: "invoice_db \<Rightarrow> invoice_db \<Rightarrow> bool" where
  "uninvoiced s s' \<longleftrightarrow> (no_addresses s \<longrightarrow> no_addresses s' \<and> invoiceDocs s' = invoiceDocs s \<and> outbox s' = outbox s)"

interpretation uninvoiced: effect_rel uninvoiced
  by unfold_locales (auto simp: uninvoiced_def no_addresses_def)

lemma no_addresses_map_first:
  "(\<And>u. iu_Addresses (f u) = iu_Addresses u) \<Longrightarrow>
     list_all (\<lambda>u. iu_Addresses u = []) us \<Longrightarrow> list_all (\<lambda>u. iu_Addresses u = []) (map_first P f us)"
  by (induction us) auto

lemma uninvoiced_handlers:
  "guar uninvoiced (onVendorAddressCreated v)" "guar uninvoiced (onUserCreated_inv u)"
  "guar uninvoiced (onUserAddressCreated_inv a)" "guar uninvoiced (onUserAddressArchived_inv r)"
proof -
  show "guar uninvoiced (onVendorAddressCreated v)" "guar uninvoiced (onUserCreated_inv u)"
    unfolding onVendorAddressCreated_def UpsertVendorAddress_def onUserCreated_inv_def InsertUser_inv_def
    by (intro uninvoiced.guar_upsert_one uninvoiced.guar_insert_one; simp add: uninvoiced_def no_addresses_def)+
  show "guar uninvoiced (onUserAddressCreated_inv a)"
    unfolding onUserAddressCreated_inv_def PushUserAddress_inv_def
    by (intro uninvoiced.guar_update_one) (simp add: uninvoiced_def no_addresses_def no_addresses_map_first)
  show "guar uninvoiced (onUserAddressArchived_inv r)"
    unfolding onUserAddressArchived_inv_def PullUserAddress_inv_def
    by (intro uninvoiced.guar_ext guarI) (simp add: uninvoiced.R_refl split: option.split)
qed

lemma no_addresses_not_found:
  assumes "no_addresses s"
  shows "\<exists>e fs. GetUserByAddressID i s = (Inl e, s\<lparr>faults := fs\<rparr>)"
proof -
  have "find (\<lambda>u. list_ex (\<lambda>a. ia_ID a = i) (iu_Addresses u)) (invUsers s) = None"
    using assms by (auto simp: find_None_iff no_addresses_def list_all_iff)
  then show ?thesis
    unfolding GetUserByAddressID_def find_one_def run_andThen
    by (cases rule: ext_cases [of InvDriver "\<lambda>s. case find (\<lambda>u. list_ex (\<lambda>a. ia_ID a = i) (iu_Addresses u)) (invUsers s) of
      None \<Rightarrow> (Inl InvNoDocuments, s) | Some d \<Rightarrow> (Inr d, s)" s]) auto
qed

lemma validation_fails:
  assumes "no_addresses s"
  shows "\<exists>e fs. onDiscountValidationSucceeded str order s = (Inl e, s\<lparr>minted := Suc (minted s), reads := Suc (reads s), faults := fs\<rparr>)"
proof -
  have "no_addresses (s\<lparr>minted := Suc (minted s), reads := Suc (reads s)\<rparr>)" using assms by (simp add: no_addresses_def)
  from no_addresses_not_found [OF this, of "odto_InvoiceAddressID order"] show ?thesis
    unfolding onDiscountValidationSucceeded_def BuildInvoice_def Let_def run_andThen run_new_uuid run_now by fastforce
qed

lemma handle_inv_guar:
  assumes "\<And>d. guar R (fn d)" "\<And>s. R s s"
  shows "R s (snd (handle_inv topic fn r s))"
proof (cases "decodeEnvelope r")
  case (Inr env)
  obtain q s1 where run: "fn (env_Data env) s = (q, s1)" by fastforce
  have "R s s1" by (rule guarD [OF assms(1) run])
  then show ?thesis using Inr run assms(2) by (cases q) (simp_all add: handle_inv_def)
qed (simp add: handle_inv_def assms(2))

lemma uninvoiced_validation: "guar uninvoiced (onDiscountValidationSucceeded str order)"
proof (rule guarI)
  fix s
  show "uninvoiced s (snd (onDiscountValidationSucceeded str order s))"
  proof (cases "no_addresses s")
    case True
    from validation_fails [OF this] obtain e fs where
      "onDiscountValidationSucceeded str order s = (Inl e, s\<lparr>minted := Suc (minted s), reads := Suc (reads s), faults := fs\<rparr>)" by blast
    then show ?thesis by (simp add: uninvoiced_def no_addresses_def)
  qed (simp add: uninvoiced_def)
qed

lemma uninvoiced_routes: "uninvoiced s (snd (route_inv str path body s))"
proof -
  note handled = handle_inv_guar [OF uninvoiced_validation uninvoiced.R_refl] handle_inv_guar [OF uninvoiced_handlers(1) uninvoiced.R_refl]
    handle_inv_guar [OF uninvoiced_handlers(2) uninvoiced.R_refl] handle_inv_guar [OF uninvoiced_handlers(3) uninvoiced.R_refl]
    handle_inv_guar [OF uninvoiced_handlers(4) uninvoiced.R_refl]
  show ?thesis
    unfolding route_inv_def by (split if_split)+ (simp add: handled uninvoiced.R_refl)
qed

text \<open>A request to any route, subscribed or not.\<close>

inductive inv_step :: "(uuid \<Rightarrow> string) \<Rightarrow> invoice_db \<Rightarrow> invoice_db \<Rightarrow> bool" for str where
  script: "inv_step str s (s\<lparr>faults := fs\<rparr>)"
| posted: "route_inv str path body s = (status, s') \<Longrightarrow> inv_step str s s'"

lemma inv_steps_uninvoiced: "(inv_step str)\<^sup>*\<^sup>* s s' \<Longrightarrow> uninvoiced s s'"
proof (induction rule: rtranclp_induct)
  case (step t u)
  have "uninvoiced t u"
    using step.hyps(2)
  proof cases
    case (posted path body status)
    then show ?thesis using uninvoiced_routes [of t str path body] by simp
  qed (simp add: uninvoiced.R_faults)
  then show ?case using step.IH uninvoiced.R_trans by blast
qed (rule uninvoiced.R_refl)

text \<open>
  C36. The events fill a field the lookup does not read: starting without addresses in the field it reads, whatever is
  posted to the service in whatever order and with whatever failures, no invoice is ever stored or announced and every
  validated order is answered with an error.
\<close>

theorem no_invoice_ever:
  assumes "(inv_step str)\<^sup>*\<^sup>* s s'" "list_all (\<lambda>u. iu_Addresses u = []) (invUsers s)"
  shows "invoiceDocs s' = invoiceDocs s \<and> outbox s' = outbox s \<and>
    (\<forall>body. fst (route_inv str RouteDiscountValidationSucceeded body s') \<noteq> 200)"
proof -
  have "no_addresses s" using assms(2) by (simp add: no_addresses_def)
  then have s': "no_addresses s'" "invoiceDocs s' = invoiceDocs s" "outbox s' = outbox s"
    using inv_steps_uninvoiced [OF assms(1)] by (simp_all add: uninvoiced_def)
  have "fst (handle_inv topic (onDiscountValidationSucceeded str) r s') \<noteq> 200" for topic r
  proof (cases "decodeEnvelope r")
    case (Inl status)
    then show ?thesis by (auto simp: handle_inv_def decodeEnvelope_def split: if_splits event_body.splits)
  next
    case (Inr env)
    then show ?thesis using validation_fails [OF s'(1), of str "env_Data env"] by (auto simp: handle_inv_def)
  qed
  then show ?thesis using s' by (simp add: route_inv_def)
qed


subsection \<open>Witnesses\<close>

definition inv_address :: InvUserAddress where
  "inv_address = \<lparr>ia_ID = UUID 2, ia_Street1 = ''1 Road'', ia_Street2 = [], ia_City = ''Town'', ia_PostalCode = ''1'',
     ia_Country = ''X'', ia_CompanyName = [], ia_UserID = UUID 1\<rparr>"

definition inv_user :: InvUser where
  "inv_user = \<lparr>iu_ID = UUID 1, iu_FirstName = ''A'', iu_LastName = ''B'', iu_Addresses = [inv_address], iu_UserAddresses = None\<rparr>"

text \<open>The vendor's document as its event leaves it, with nothing but an id.\<close>

definition inv_vendor :: InvVendorAddress where
  "inv_vendor = \<lparr>va_ID = UUID 3, va_Street1 = [], va_Street2 = [], va_City = [], va_PostalCode = [], va_Country = [], va_CompanyName = []\<rparr>"

definition inv_db :: "InvUser list \<Rightarrow> invoice_db" where
  "inv_db us = \<lparr>faults = [], outbox = [], fresh = (\<lambda>n. UUID (of_nat (n + 100))), minted = 0, clock = (\<lambda>n. 10 ^ 9), reads = 0,
     invoiceDocs = [], vendorDocs = [inv_vendor], invUsers = us\<rparr>"

definition inv_order :: OrderDTO where
  "inv_order = \<lparr>odto_ID = UUID 7, odto_UserID = UUID 1, odto_CreatedAt = 0, odto_OrderStatus = ''PLACED'', odto_PlacedAt = 0,
     odto_RejectionReason = None, odto_OrderItems = [], odto_ShipmentAddressID = UUID 2, odto_InvoiceAddressID = UUID 2,
     odto_CompensatableOrderAmount = 0, odto_PaymentInformationID = UUID 4, odto_PaymentAuthorization = None, odto_VatNumber = None\<rparr>"

lemma validated_order_invoiced_witness:
  "invoiceDocs (snd (onDiscountValidationSucceeded (\<lambda>_. ''id'') inv_order (inv_db [inv_user]))) =
     [invoice_of (\<lambda>_. ''id'') inv_order (UUID 100) (10 ^ 9) inv_address inv_vendor inv_user]"
  using validated_order_invoiced [OF _ _ prod.collapse [symmetric], of "inv_db [inv_user]" "\<lambda>_. ''id''" inv_order]
  by (simp add: inv_db_def inv_order_def inv_user_def inv_address_def billed_address_def Let_def)

definition inv_body_user :: inv_body where
  "inv_body_user = \<lparr>as_order = \<lparr>dl_ContentType = [], dl_Body = Unreadable\<rparr>, as_vendor = \<lparr>dl_ContentType = [], dl_Body = Unreadable\<rparr>,
      as_user = \<lparr>dl_ContentType = [], dl_Body = Decoded \<lparr>env_Topic = TopicUserCreated,
         env_Data = \<lparr>ive_ID = UUID 1, ive_FirstName = ''A'', ive_LastName = ''B''\<rparr>\<rparr>\<rparr>,
      as_address = \<lparr>dl_ContentType = [], dl_Body = Unreadable\<rparr>, as_archived = \<lparr>dl_ContentType = [], dl_Body = Unreadable\<rparr>\<rparr>"

lemma no_invoice_ever_witness:
  "invoiceDocs (snd (route_inv (\<lambda>_. ''id'') RouteUserCreated inv_body_user (inv_db []))) = []"
proof -
  have "inv_step (\<lambda>_. ''id'') (inv_db []) (snd (route_inv (\<lambda>_. ''id'') RouteUserCreated inv_body_user (inv_db [])))"
    by (rule inv_step.posted [OF prod.collapse [symmetric]])
  then show ?thesis using no_invoice_ever [OF r_into_rtranclp, of "\<lambda>_. ''id''" "inv_db []"] by (simp add: inv_db_def)
qed

end
