(* ===== verification/Catalog_Store.thy ===== *)
theory Catalog_Store
  imports Versions Auth Go_Float Timestamps "HOL-Library.Product_Lexorder"
begin

text \<open>
  \<open>src/catalog/store\<close>: products, their variants and numbered versions, categories with their
  characteristics, and the values of a version, in Postgres, with id-only mirrors of tax rates and media.
  Every id but the mirrors' is generated by the database. A product without a default variant and a variant
  without a current version exist only inside the transactions that create them; NULL reads as the zero id.
\<close>

subsection \<open>Tables\<close>

definition DiscriminatorCategorical :: string where "DiscriminatorCategorical = ''CATEGORICAL''"
definition DiscriminatorNumerical :: string where "DiscriminatorNumerical = ''NUMERICAL''"

record ProductRow =
  kp_ID :: uuid
  kp_InternalName :: string
  kp_IsPubliclyVisible :: bool
  kp_DefaultVariantID :: "uuid option"

record CVariantRow =
  kv_ID :: uuid
  kv_IsPubliclyVisible :: bool
  kv_ProductID :: uuid
  kv_CurrentVersion :: "uuid option"

record CVersionRow =
  kw_ID :: uuid
  kw_Name :: string
  kw_Description :: string
  kw_Version :: int
  kw_RetailPrice :: int
  kw_CreatedAt :: time
  kw_CanBeReturnedForDays :: "int option"
  kw_ProductVariantID :: uuid
  kw_TaxRateID :: uuid
  kw_Weight :: f64

record CategoryRow =
  kc_ID :: uuid
  kc_Name :: string
  kc_Description :: string

record CharacteristicRow =
  kh_ID :: uuid
  kh_Discriminator :: string
  kh_Name :: string
  kh_Description :: string
  kh_Unit :: "string option"
  kh_CategoryID :: uuid

record CharacteristicValueRow =
  kx_ID :: uuid
  kx_Discriminator :: string
  kx_StringValue :: "string option"
  kx_DoubleValue :: "f64 option"
  kx_CharacteristicID :: uuid
  kx_VersionID :: uuid

record ProductCategoryRow =
  kl_ID :: uuid
  kl_ProductID :: uuid
  kl_CategoryID :: uuid

record VersionMediaRow =
  km_ID :: uuid
  km_VersionID :: uuid
  km_MediaID :: uuid

datatype catalog_err =
    CatDbError
  | TaxRateMissing uuid
  | MediaMissing uuid
  | CategoryMissing uuid
  | ProductMissing uuid
  | VariantMissing uuid
  | ProductUnknown uuid
  | VariantUnknown uuid
  | VersionUnknown uuid
  | CategoryUnknown uuid
  | CharacteristicUnknown uuid
  | TaxRateStubUnknown uuid
  | NotCategorical uuid
  | NotNumerical uuid
  | VariantOfOtherProduct uuid uuid
  | DuplicateCharacteristics "uuid list"
  | InvalidCharacteristics "uuid list"
  | WrongCharacteristicType uuid
  | DuplicateNames "string list"
  | CatUnauthorized
  | CatNotEmployee uuid
  | CatPublishFailed
  | CatBadEvent

text \<open>The payloads of the announcements (\<open>src/catalog/events\<close>).\<close>

record ProductDTO =
  pd_ID :: uuid
  pd_InternalName :: string
  pd_IsPubliclyVisible :: bool
  pd_DefaultVariantID :: uuid
  pd_CategoryIDs :: "uuid list"

record CreatedVariantDTO =
  vd_ID :: uuid
  vd_ProductID :: uuid
  vd_CurrentVersionID :: uuid
  vd_IsPubliclyVisible :: bool

record UpdatedVariantDTO =
  ud_ID :: uuid
  ud_IsPubliclyVisible :: bool

record VersionDTO =
  wd_ID :: uuid
  wd_Name :: string
  wd_Description :: string
  wd_Version :: int
  wd_RetailPrice :: int
  wd_CreatedAt :: string
  wd_CanBeReturnedForDays :: "int option"
  wd_ProductVariantID :: uuid
  wd_TaxRateID :: uuid
  wd_Weight :: f64
  wd_MediaIDs :: "uuid list"

record CategoryDTO =
  gd_ID :: uuid
  gd_Name :: string
  gd_Description :: string

datatype catalog_event =
    ProductCreated ProductDTO
  | ProductUpdated ProductDTO
  | VariantCreated CreatedVariantDTO
  | VariantUpdated UpdatedVariantDTO
  | VersionCreated VersionDTO
  | CategoryCreated CategoryDTO

record catalog_db = "catalog_event io" +
  products :: "ProductRow list"
  cvariants :: "CVariantRow list"
  cversions :: "CVersionRow list"
  categories :: "CategoryRow list"
  characteristics :: "CharacteristicRow list"
  charValues :: "CharacteristicValueRow list"
  productCategories :: "ProductCategoryRow list"
  versionMedias :: "VersionMediaRow list"
  taxMirror :: "uuid list"
  mediaMirror :: "uuid list"

type_synonym 'a catalog_act = "(catalog_db, catalog_err, 'a) act"

subsection \<open>Inputs\<close>

record CharacteristicValueInput =
  cvi_CharacteristicID :: uuid
  cvi_Value :: string

record NumericalValueInput =
  nvi_CharacteristicID :: uuid
  nvi_Value :: f64

record VersionInput =
  vin_Name :: string
  vin_Description :: string
  vin_RetailPrice :: int
  vin_CanBeReturnedForDays :: "int option"
  vin_TaxRateID :: uuid
  vin_Weight :: f64
  vin_MediaIDs :: "uuid list"
  vin_CategoricalValues :: "CharacteristicValueInput list"
  vin_NumericalValues :: "NumericalValueInput list"

record VariantInput =
  van_IsPubliclyVisible :: bool
  van_InitialVersion :: VersionInput

record NamedInput =
  nin_Name :: string
  nin_Description :: string
  nin_Unit :: "string option"

record CreatedVersion =
  crv_Version :: CVersionRow
  crv_MediaIDs :: "uuid list"

subsection \<open>Reads\<close>

definition existsByID_cat :: "(catalog_db \<Rightarrow> uuid list) \<Rightarrow> uuid \<Rightarrow> bool catalog_act" where
  "existsByID_cat ids i = ext CatDbError (gets (\<lambda>s. i \<in> set (ids s)))"

definition require :: "catalog_err \<Rightarrow> (catalog_db \<Rightarrow> uuid list) \<Rightarrow> uuid \<Rightarrow> unit catalog_act" where
  "require e ids i = andThen (existsByID_cat ids i) (\<lambda>b. if b then ret () else fail e)"

definition GetProduct :: "uuid \<Rightarrow> ProductRow catalog_act" where
  "GetProduct i = find_one CatDbError (ProductUnknown i) products (\<lambda>p. kp_ID p = i)"

definition GetProductVariantRow :: "uuid \<Rightarrow> CVariantRow catalog_act" where
  "GetProductVariantRow i = find_one CatDbError (VariantUnknown i) cvariants (\<lambda>v. kv_ID v = i)"

definition GetProductVariantVersion :: "uuid \<Rightarrow> CVersionRow catalog_act" where
  "GetProductVariantVersion i = find_one CatDbError (VersionUnknown i) cversions (\<lambda>v. kw_ID v = i)"

definition GetCategory :: "uuid \<Rightarrow> CategoryRow catalog_act" where
  "GetCategory i = find_one CatDbError (CategoryUnknown i) categories (\<lambda>c. kc_ID c = i)"

definition GetCharacteristic :: "uuid \<Rightarrow> CharacteristicRow catalog_act" where
  "GetCharacteristic i = find_one CatDbError (CharacteristicUnknown i) characteristics (\<lambda>c. kh_ID c = i)"

definition GetCategoricalCharacteristic :: "uuid \<Rightarrow> CharacteristicRow catalog_act" where
  "GetCategoricalCharacteristic i = andThen (GetCharacteristic i) (\<lambda>c.
     if kh_Discriminator c \<noteq> DiscriminatorCategorical then fail (NotCategorical i) else ret c)"

definition GetNumericalCharacteristic :: "uuid \<Rightarrow> CharacteristicRow catalog_act" where
  "GetNumericalCharacteristic i = andThen (GetCharacteristic i) (\<lambda>c.
     if kh_Discriminator c \<noteq> DiscriminatorNumerical then fail (NotNumerical i) else ret c)"

definition GetTaxRateStub :: "uuid \<Rightarrow> uuid catalog_act" where
  "GetTaxRateStub i = find_one CatDbError (TaxRateStubUnknown i) taxMirror (\<lambda>t. t = i)"

text \<open>\<open>ORDER BY id\<close>: the link's own random id.\<close>

definition categoryIDsForProduct :: "uuid \<Rightarrow> uuid list catalog_act" where
  "categoryIDsForProduct i = ext CatDbError (gets (\<lambda>s.
     map kl_CategoryID (sort_key kl_ID (filter (\<lambda>l. kl_ProductID l = i) (productCategories s)))))"

subsection \<open>Characteristic values\<close>

text \<open>The loops of \<open>duplicateUUIDs\<close> and \<open>duplicateStrings\<close>: what occurs more than once, in first-encounter order.\<close>

definition duplicates :: "'a list \<Rightarrow> 'a list" where
  "duplicates xs = filter (\<lambda>x. 1 < count_list xs x) (first_seen id {} xs)"

definition dedupeUUIDs_cat :: "uuid list \<Rightarrow> uuid list" where
  "dedupeUUIDs_cat ids = first_seen id {} ids"

text \<open>The joins of \<open>findValidCharacteristics\<close>: the categories of the product of a version.\<close>

definition version_categories :: "catalog_db \<Rightarrow> uuid \<Rightarrow> uuid list" where
  "version_categories s version =
     [kc_ID c. w \<leftarrow> cversions s, kw_ID w = version, v \<leftarrow> cvariants s, kw_ProductVariantID w = kv_ID v,
        p \<leftarrow> products s, kv_ProductID v = kp_ID p, l \<leftarrow> productCategories s, kp_ID p = kl_ProductID l,
        c \<leftarrow> categories s, kl_CategoryID l = kc_ID c]"

text \<open>\<open>DISTINCT\<close> leaves the order of the rows open; here it is the table's.\<close>

definition findValidCharacteristics :: "uuid \<Rightarrow> uuid list \<Rightarrow> (uuid \<times> string) list catalog_act" where
  "findValidCharacteristics version ids = ext CatDbError (gets (\<lambda>s.
     map (\<lambda>h. (kh_ID h, kh_Discriminator h))
       (filter (\<lambda>h. kh_CategoryID h \<in> set (version_categories s version) \<and> kh_ID h \<in> set ids) (characteristics s))))"

text \<open>The trigger \<open>check_category_value_product_category_fn\<close> of the migrations.\<close>

definition value_trigger :: "catalog_db \<Rightarrow> uuid \<Rightarrow> uuid \<Rightarrow> bool" where
  "value_trigger s characteristic version \<longleftrightarrow>
     list_ex (\<lambda>w. kw_ID w = version \<and>
       list_ex (\<lambda>v. kw_ProductVariantID w = kv_ID v \<and>
         list_ex (\<lambda>l. kv_ProductID v = kl_ProductID l \<and>
           list_ex (\<lambda>h. kh_CategoryID h = kl_CategoryID l \<and> kh_ID h = characteristic) (characteristics s)) (productCategories s))
         (cvariants s)) (cversions s)"

definition upsertValue :: "uuid \<Rightarrow> uuid \<Rightarrow> string option \<Rightarrow> f64 option \<Rightarrow> string \<Rightarrow> unit catalog_act" where
  "upsertValue characteristic version stringValue doubleValue discriminator =
     andThen (pg_generated CatDbError
       (\<lambda>i s. value_trigger s characteristic version \<and> (case stringValue of None \<Rightarrow> True | Some x \<Rightarrow> varchar x) \<and>
          i \<notin> kx_ID ` set (charValues s))
       (\<lambda>i s. if list_ex (\<lambda>x. kx_CharacteristicID x = characteristic \<and> kx_VersionID x = version) (charValues s)
          then charValues_update (map_all (\<lambda>x. kx_CharacteristicID x = characteristic \<and> kx_VersionID x = version)
            (\<lambda>x. x\<lparr>kx_StringValue := stringValue, kx_DoubleValue := doubleValue\<rparr>)) s
          else charValues_update (\<lambda>rows. rows @ [\<lparr>kx_ID = i, kx_Discriminator = discriminator, kx_StringValue = stringValue,
            kx_DoubleValue = doubleValue, kx_CharacteristicID = characteristic, kx_VersionID = version\<rparr>]) s))
       (\<lambda>_. ret ())"

text \<open>A characteristic is expected in the list of its discriminator.\<close>

definition wrong_list :: "uuid list \<Rightarrow> uuid list \<Rightarrow> uuid \<times> string \<Rightarrow> bool" where
  "wrong_list categoricalIDs numericalIDs v \<longleftrightarrow>
     \<not> (if snd v = DiscriminatorCategorical then fst v \<in> set categoricalIDs
        else if snd v = DiscriminatorNumerical then fst v \<in> set numericalIDs else False)"

definition upsertCharacteristicValues ::
  "uuid \<Rightarrow> CharacteristicValueInput list \<Rightarrow> NumericalValueInput list \<Rightarrow> unit catalog_act" where
  "upsertCharacteristicValues version categorical numerical =
     (let categoricalIDs = map cvi_CharacteristicID categorical; numericalIDs = map nvi_CharacteristicID numerical;
          all = categoricalIDs @ numericalIDs; dups = duplicates all
      in if all = [] then ret ()
         else if dups \<noteq> [] then fail (DuplicateCharacteristics dups)
         else andThen (findValidCharacteristics version all) (\<lambda>valid.
           let invalid = first_seen id {} (filter (\<lambda>i. i \<notin> fst ` set valid) all) in
           if invalid \<noteq> [] then fail (InvalidCharacteristics invalid)
           else case find (wrong_list categoricalIDs numericalIDs) valid of
             Some v \<Rightarrow> fail (WrongCharacteristicType (fst v))
           | None \<Rightarrow>
               andThen (each (\<lambda>c. upsertValue (cvi_CharacteristicID c) version (Some (cvi_Value c)) None DiscriminatorCategorical) categorical)
                 (\<lambda>_. each (\<lambda>n. upsertValue (nvi_CharacteristicID n) version None (Some (nvi_Value n)) DiscriminatorNumerical) numerical)))"

subsection \<open>Versions and variants\<close>

definition maxVersion :: "uuid \<Rightarrow> int option catalog_act" where
  "maxVersion variant = ext CatDbError (gets (\<lambda>s.
     sql_max (map kw_Version (filter (\<lambda>w. kw_ProductVariantID w = variant) (cversions s)))))"

text \<open>\<open>INSERT \<dots> RETURNING\<close> the row as it is stored.\<close>

definition insertVersion :: "VersionInput \<Rightarrow> int \<Rightarrow> uuid \<Rightarrow> time \<Rightarrow> CVersionRow catalog_act" where
  "insertVersion inp version variant t =
     (let row = (\<lambda>i. \<lparr>kw_ID = i, kw_Name = vin_Name inp, kw_Description = vin_Description inp, kw_Version = version,
        kw_RetailPrice = vin_RetailPrice inp, kw_CreatedAt = pg_time t, kw_CanBeReturnedForDays = vin_CanBeReturnedForDays inp,
        kw_ProductVariantID = variant, kw_TaxRateID = vin_TaxRateID inp, kw_Weight = vin_Weight inp\<rparr>)
      in andThen (pg_generated CatDbError
           (\<lambda>i s. varchar (vin_Name inp) \<and> varchar (vin_Description inp) \<and> int4 version \<and> int4 (vin_RetailPrice inp) \<and>
              int4_opt (vin_CanBeReturnedForDays inp) \<and> i \<notin> kw_ID ` set (cversions s) \<and>
              variant \<in> kv_ID ` set (cvariants s) \<and> vin_TaxRateID inp \<in> set (taxMirror s))
           (\<lambda>i. cversions_update (\<lambda>rows. rows @ [row i])))
         (\<lambda>i. ret (row i)))"

definition linkMedia :: "uuid \<Rightarrow> uuid \<Rightarrow> unit catalog_act" where
  "linkMedia version media = andThen (pg_generated CatDbError
     (\<lambda>i s. i \<notin> km_ID ` set (versionMedias s) \<and> version \<in> kw_ID ` set (cversions s) \<and> media \<in> set (mediaMirror s) \<and>
        (version, media) \<notin> (\<lambda>m. (km_VersionID m, km_MediaID m)) ` set (versionMedias s))
     (\<lambda>i. versionMedias_update (\<lambda>rows. rows @ [\<lparr>km_ID = i, km_VersionID = version, km_MediaID = media\<rparr>])))
     (\<lambda>_. ret ())"

definition createVersionInternal :: "VersionInput \<Rightarrow> uuid \<Rightarrow> time \<Rightarrow> CreatedVersion catalog_act" where
  "createVersionInternal inp variant t =
     andThen (require (TaxRateMissing (vin_TaxRateID inp)) taxMirror (vin_TaxRateID inp)) (\<lambda>_.
     andThen (each (\<lambda>m. require (MediaMissing m) mediaMirror m) (vin_MediaIDs inp)) (\<lambda>_.
     andThen (maxVersion variant) (\<lambda>highest.
     andThen (insertVersion inp (case highest of None \<Rightarrow> 1 | Some n \<Rightarrow> n + 1) variant t) (\<lambda>v.
     andThen (upsertCharacteristicValues (kw_ID v) (vin_CategoricalValues inp) (vin_NumericalValues inp)) (\<lambda>_.
     andThen (each (linkMedia (kw_ID v)) (dedupeUUIDs_cat (vin_MediaIDs inp))) (\<lambda>_.
       ret \<lparr>crv_Version = v, crv_MediaIDs = dedupeUUIDs_cat (vin_MediaIDs inp)\<rparr>))))))"

definition setCurrentVersion :: "uuid \<Rightarrow> uuid \<Rightarrow> unit catalog_act" where
  "setCurrentVersion variant version = pg_insert CatDbError
     (\<lambda>s. version \<in> kw_ID ` set (cversions s) \<or> variant \<notin> kv_ID ` set (cvariants s))
     (cvariants_update (map_all (\<lambda>v. kv_ID v = variant) (\<lambda>v. v\<lparr>kv_CurrentVersion := Some version\<rparr>)))"

definition insertVariant :: "bool \<Rightarrow> uuid \<Rightarrow> uuid catalog_act" where
  "insertVariant visible product = pg_generated CatDbError
     (\<lambda>i s. i \<notin> kv_ID ` set (cvariants s) \<and> product \<in> kp_ID ` set (products s))
     (\<lambda>i. cvariants_update (\<lambda>rows. rows @ [\<lparr>kv_ID = i, kv_IsPubliclyVisible = visible, kv_ProductID = product, kv_CurrentVersion = None\<rparr>]))"

definition createVariantInternal :: "VariantInput \<Rightarrow> uuid \<Rightarrow> time \<Rightarrow> (CVariantRow \<times> CreatedVersion) catalog_act" where
  "createVariantInternal inp product t =
     andThen (insertVariant (van_IsPubliclyVisible inp) product) (\<lambda>variant.
     andThen (createVersionInternal (van_InitialVersion inp) variant t) (\<lambda>created.
     andThen (setCurrentVersion variant (kw_ID (crv_Version created))) (\<lambda>_.
       ret (\<lparr>kv_ID = variant, kv_IsPubliclyVisible = van_IsPubliclyVisible inp, kv_ProductID = product,
              kv_CurrentVersion = Some (kw_ID (crv_Version created))\<rparr>, created))))"

subsection \<open>Products\<close>

definition insertProduct :: "string \<Rightarrow> bool \<Rightarrow> uuid catalog_act" where
  "insertProduct name visible = pg_generated CatDbError
     (\<lambda>i s. varchar name \<and> i \<notin> kp_ID ` set (products s))
     (\<lambda>i. products_update (\<lambda>rows. rows @ [\<lparr>kp_ID = i, kp_InternalName = name, kp_IsPubliclyVisible = visible, kp_DefaultVariantID = None\<rparr>]))"

definition linkCategory :: "uuid \<Rightarrow> uuid \<Rightarrow> unit catalog_act" where
  "linkCategory product category = andThen (pg_generated CatDbError
     (\<lambda>i s. i \<notin> kl_ID ` set (productCategories s) \<and> product \<in> kp_ID ` set (products s) \<and> category \<in> kc_ID ` set (categories s) \<and>
        (product, category) \<notin> (\<lambda>l. (kl_ProductID l, kl_CategoryID l)) ` set (productCategories s))
     (\<lambda>i. productCategories_update (\<lambda>rows. rows @ [\<lparr>kl_ID = i, kl_ProductID = product, kl_CategoryID = category\<rparr>])))
     (\<lambda>_. ret ())"

definition addCategories :: "uuid \<Rightarrow> uuid list \<Rightarrow> unit catalog_act" where
  "addCategories product ids =
     andThen (each (\<lambda>c. require (CategoryMissing c) (\<lambda>s. map kc_ID (categories s)) c) ids) (\<lambda>_.
       each (linkCategory product) ids)"

definition setDefaultVariant :: "uuid \<Rightarrow> uuid \<Rightarrow> unit catalog_act" where
  "setDefaultVariant product variant = pg_insert CatDbError
     (\<lambda>s. variant \<in> kv_ID ` set (cvariants s) \<or> product \<notin> kp_ID ` set (products s))
     (products_update (map_all (\<lambda>p. kp_ID p = product) (\<lambda>p. p\<lparr>kp_DefaultVariantID := Some variant\<rparr>)))"

definition CreateProductRow ::
  "string \<Rightarrow> bool \<Rightarrow> uuid list \<Rightarrow> VariantInput \<Rightarrow> time \<Rightarrow> (ProductRow \<times> CVariantRow \<times> CreatedVersion \<times> uuid list) catalog_act" where
  "CreateProductRow name visible categoryIDs variantIn t = transaction CatDbError CatDbError
     (andThen (insertProduct name visible) (\<lambda>product.
      andThen (addCategories product categoryIDs) (\<lambda>_.
      andThen (createVariantInternal variantIn product t) (\<lambda>(variant, created).
      andThen (setDefaultVariant product (kv_ID variant)) (\<lambda>_.
        ret (\<lparr>kp_ID = product, kp_InternalName = name, kp_IsPubliclyVisible = visible, kp_DefaultVariantID = Some (kv_ID variant)\<rparr>,
             variant, created, dedupeUUIDs_cat categoryIDs))))))"

definition CreateProductVariantRow :: "uuid \<Rightarrow> VariantInput \<Rightarrow> time \<Rightarrow> (CVariantRow \<times> CreatedVersion) catalog_act" where
  "CreateProductVariantRow product inp t = transaction CatDbError CatDbError
     (andThen (require (ProductMissing product) (\<lambda>s. map kp_ID (products s)) product) (\<lambda>_.
        createVariantInternal inp product t))"

definition CreateProductVariantVersionRow :: "uuid \<Rightarrow> VersionInput \<Rightarrow> time \<Rightarrow> CreatedVersion catalog_act" where
  "CreateProductVariantVersionRow variant inp t = transaction CatDbError CatDbError
     (andThen (require (VariantMissing variant) (\<lambda>s. map kv_ID (cvariants s)) variant) (\<lambda>_.
      andThen (createVersionInternal inp variant t) (\<lambda>created.
      andThen (setCurrentVersion variant (kw_ID (crv_Version created))) (\<lambda>_.
        ret created))))"

definition or_zero :: "uuid option \<Rightarrow> uuid" where
  "or_zero x = (case x of None \<Rightarrow> UUID 0 | Some i \<Rightarrow> i)"

definition saveProduct :: "ProductRow \<Rightarrow> unit catalog_act" where
  "saveProduct p = pg_insert CatDbError
     (\<lambda>s. varchar (kp_InternalName p) \<and> (case kp_DefaultVariantID p of None \<Rightarrow> True | Some v \<Rightarrow> v \<in> kv_ID ` set (cvariants s)) \<or>
        kp_ID p \<notin> kp_ID ` set (products s))
     (products_update (map_all (\<lambda>q. kp_ID q = kp_ID p) (\<lambda>q. q\<lparr>kp_InternalName := kp_InternalName p,
        kp_IsPubliclyVisible := kp_IsPubliclyVisible p, kp_DefaultVariantID := kp_DefaultVariantID p\<rparr>)))"

definition patchedProduct :: "bool option \<Rightarrow> string option \<Rightarrow> ProductRow \<Rightarrow> ProductRow" where
  "patchedProduct visible name p = p\<lparr>kp_IsPubliclyVisible := (case visible of None \<Rightarrow> kp_IsPubliclyVisible p | Some b \<Rightarrow> b),
     kp_InternalName := (case name of None \<Rightarrow> kp_InternalName p | Some n \<Rightarrow> n),
     kp_DefaultVariantID := Some (or_zero (kp_DefaultVariantID p))\<rparr>"

definition chooseDefault :: "uuid option \<Rightarrow> ProductRow \<Rightarrow> ProductRow catalog_act" where
  "chooseDefault defaultVariant p = (case defaultVariant of
     None \<Rightarrow> ret p
   | Some d \<Rightarrow> andThen (find_one CatDbError (VariantUnknown d) cvariants (\<lambda>v. kv_ID v = d)) (\<lambda>v.
       if kv_ProductID v \<noteq> kp_ID p then fail (VariantOfOtherProduct d (kp_ID p))
       else ret (p\<lparr>kp_DefaultVariantID := Some d\<rparr>)))"

definition UpdateProductRow ::
  "uuid \<Rightarrow> bool option \<Rightarrow> string option \<Rightarrow> uuid option \<Rightarrow> (ProductRow \<times> uuid list) catalog_act" where
  "UpdateProductRow i visible name defaultVariant = transaction CatDbError CatDbError
     (andThen (find_one CatDbError (ProductUnknown i) products (\<lambda>p. kp_ID p = i)) (\<lambda>p0.
      andThen (chooseDefault defaultVariant (patchedProduct visible name p0)) (\<lambda>p.
      andThen (saveProduct p) (\<lambda>_.
      andThen (categoryIDsForProduct (kp_ID p)) (\<lambda>categoryIDs.
        ret (p, categoryIDs))))))"

definition UpdateProductVariantRow :: "uuid \<Rightarrow> bool option \<Rightarrow> CVariantRow catalog_act" where
  "UpdateProductVariantRow i visible = transaction CatDbError CatDbError
     (andThen (find_one CatDbError (VariantUnknown i) cvariants (\<lambda>v. kv_ID v = i)) (\<lambda>v0.
      let v = v0\<lparr>kv_IsPubliclyVisible := (case visible of None \<Rightarrow> kv_IsPubliclyVisible v0 | Some b \<Rightarrow> b)\<rparr> in
      andThen (pg_insert CatDbError (\<lambda>_. True) (cvariants_update
        (map_all (\<lambda>w. kv_ID w = kv_ID v) (\<lambda>w. w\<lparr>kv_IsPubliclyVisible := kv_IsPubliclyVisible v\<rparr>)))) (\<lambda>_.
        ret v)))"

subsection \<open>Categories\<close>

definition insertCharacteristic ::
  "uuid \<Rightarrow> string \<Rightarrow> string \<Rightarrow> string \<Rightarrow> string option \<Rightarrow> CharacteristicRow catalog_act" where
  "insertCharacteristic category discriminator name description unit' =
     (let row = (\<lambda>i. \<lparr>kh_ID = i, kh_Discriminator = discriminator, kh_Name = name, kh_Description = description, kh_Unit = unit',
        kh_CategoryID = category\<rparr>)
      in andThen (pg_generated CatDbError
           (\<lambda>i s. varchar name \<and> varchar description \<and> (case unit' of None \<Rightarrow> True | Some u \<Rightarrow> varchar u) \<and>
              i \<notin> kh_ID ` set (characteristics s) \<and> category \<in> kc_ID ` set (categories s))
           (\<lambda>i. characteristics_update (\<lambda>rows. rows @ [row i])))
         (\<lambda>i. ret (row i)))"

definition insertCategory :: "string \<Rightarrow> string \<Rightarrow> uuid catalog_act" where
  "insertCategory name description = pg_generated CatDbError
     (\<lambda>i s. varchar name \<and> varchar description \<and> i \<notin> kc_ID ` set (categories s))
     (\<lambda>i. categories_update (\<lambda>rows. rows @ [\<lparr>kc_ID = i, kc_Name = name, kc_Description = description\<rparr>]))"

definition CreateCategoryRow :: "string \<Rightarrow> string \<Rightarrow> NamedInput list \<Rightarrow> NamedInput list \<Rightarrow> CategoryRow catalog_act" where
  "CreateCategoryRow name description categorical numerical = transaction CatDbError CatDbError
     (andThen (insertCategory name description) (\<lambda>category.
      let dups = duplicates (map nin_Name categorical @ map nin_Name numerical) in
      if dups \<noteq> [] then fail (DuplicateNames dups)
      else
      andThen (each (\<lambda>c. andThen (insertCharacteristic category DiscriminatorCategorical (nin_Name c) (nin_Description c) None)
        (\<lambda>_. ret ())) categorical) (\<lambda>_.
      andThen (each (\<lambda>n. andThen (insertCharacteristic category DiscriminatorNumerical (nin_Name n) (nin_Description n) (nin_Unit n))
        (\<lambda>_. ret ())) numerical) (\<lambda>_.
        ret \<lparr>kc_ID = category, kc_Name = name, kc_Description = description\<rparr>))))"

definition createStandaloneCharacteristic ::
  "uuid \<Rightarrow> string \<Rightarrow> string \<Rightarrow> string \<Rightarrow> string option \<Rightarrow> CharacteristicRow catalog_act" where
  "createStandaloneCharacteristic category discriminator name description unit' = transaction CatDbError CatDbError
     (andThen (require (CategoryMissing category) (\<lambda>s. map kc_ID (categories s)) category) (\<lambda>_.
        insertCharacteristic category discriminator name description unit'))"

definition CreateCategoricalCharacteristic :: "uuid \<Rightarrow> string \<Rightarrow> string \<Rightarrow> CharacteristicRow catalog_act" where
  "CreateCategoricalCharacteristic category name description =
     createStandaloneCharacteristic category DiscriminatorCategorical name description None"

definition CreateNumericalCharacteristic :: "uuid \<Rightarrow> string \<Rightarrow> string \<Rightarrow> string \<Rightarrow> CharacteristicRow catalog_act" where
  "CreateNumericalCharacteristic category name description unit' =
     createStandaloneCharacteristic category DiscriminatorNumerical name description (Some unit')"

subsection \<open>Mirrors\<close>

definition RegisterTaxRate :: "uuid \<Rightarrow> unit catalog_act" where
  "RegisterTaxRate i = insert_one CatDbError CatDbError taxMirror taxMirror_update id i"

definition RegisterMedia :: "uuid \<Rightarrow> unit catalog_act" where
  "RegisterMedia i = insert_one CatDbError CatDbError mediaMirror mediaMirror_update id i"

subsection \<open>Pages\<close>

text \<open>The order of strings is the database's; \<open>rank\<close> stands for its collation.\<close>

datatype product_order = ProductOrderByID | ProductOrderByInternalName

fun product_key :: "(string \<Rightarrow> int) \<Rightarrow> product_order \<Rightarrow> ProductRow \<Rightarrow> int \<times> uuid" where
  "product_key rank ProductOrderByID p = (0, kp_ID p)"
| "product_key rank ProductOrderByInternalName p = (rank (kp_InternalName p), kp_ID p)"

datatype category_order = CategoryOrderByID | CategoryOrderByName

fun category_key :: "(string \<Rightarrow> int) \<Rightarrow> category_order \<Rightarrow> CategoryRow \<Rightarrow> int \<times> uuid" where
  "category_key rank CategoryOrderByID c = (0, kc_ID c)"
| "category_key rank CategoryOrderByName c = (rank (kc_Name c), kc_ID c)"

datatype version_order = VersionOrderByID | VersionOrderByVersion | VersionOrderByCreatedAt

fun version_key :: "version_order \<Rightarrow> CVersionRow \<Rightarrow> int \<times> uuid" where
  "version_key VersionOrderByID w = (0, kw_ID w)"
| "version_key VersionOrderByVersion w = (kw_Version w, kw_ID w)"
| "version_key VersionOrderByCreatedAt w = (kw_CreatedAt w, kw_ID w)"

definition visible_to :: "bool \<Rightarrow> bool option \<Rightarrow> bool \<Rightarrow> bool" where
  "visible_to employee filterVisible visible \<longleftrightarrow>
     (case filterVisible of None \<Rightarrow> True | Some b \<Rightarrow> visible = b) \<and> (employee \<or> visible)"

definition product_rows :: "uuid option \<Rightarrow> bool option \<Rightarrow> bool \<Rightarrow> catalog_db \<Rightarrow> ProductRow list" where
  "product_rows category filterVisible employee s =
     filter (\<lambda>p. visible_to employee filterVisible (kp_IsPubliclyVisible p))
       (case category of
          None \<Rightarrow> products s
        | Some c \<Rightarrow> [p. p \<leftarrow> products s, l \<leftarrow> productCategories s, kl_ProductID l = kp_ID p, kl_CategoryID l = c])"

definition ListProducts ::
  "(string \<Rightarrow> int) \<Rightarrow> int option \<Rightarrow> int option \<Rightarrow> product_order \<Rightarrow> bool \<Rightarrow> uuid option \<Rightarrow> bool option \<Rightarrow> bool \<Rightarrow>
     ProductRow PgConnection catalog_act" where
  "ListProducts rank first skip order asc category filterVisible employee =
     pgList CatDbError (product_rows category filterVisible employee) (product_key rank order) first skip asc"

definition variant_rows :: "uuid \<Rightarrow> bool option \<Rightarrow> bool \<Rightarrow> catalog_db \<Rightarrow> CVariantRow list" where
  "variant_rows product filterVisible employee s =
     filter (\<lambda>v. kv_ProductID v = product \<and> visible_to employee filterVisible (kv_IsPubliclyVisible v)) (cvariants s)"

definition ListProductVariants ::
  "int option \<Rightarrow> int option \<Rightarrow> bool \<Rightarrow> uuid \<Rightarrow> bool option \<Rightarrow> bool \<Rightarrow> CVariantRow PgConnection catalog_act" where
  "ListProductVariants first skip asc product filterVisible employee =
     pgList CatDbError (variant_rows product filterVisible employee) kv_ID first skip asc"

definition ListProductVariantVersions ::
  "int option \<Rightarrow> int option \<Rightarrow> version_order \<Rightarrow> bool \<Rightarrow> uuid \<Rightarrow> CVersionRow PgConnection catalog_act" where
  "ListProductVariantVersions first skip order asc variant =
     pgList CatDbError (\<lambda>s. filter (\<lambda>w. kw_ProductVariantID w = variant) (cversions s)) (version_key order) first skip asc"

definition category_rows :: "uuid option \<Rightarrow> catalog_db \<Rightarrow> CategoryRow list" where
  "category_rows product s = (case product of
     None \<Rightarrow> categories s
   | Some p \<Rightarrow> [c. c \<leftarrow> categories s, l \<leftarrow> productCategories s, kl_CategoryID l = kc_ID c, kl_ProductID l = p])"

definition ListCategories ::
  "(string \<Rightarrow> int) \<Rightarrow> int option \<Rightarrow> int option \<Rightarrow> category_order \<Rightarrow> bool \<Rightarrow> uuid option \<Rightarrow> CategoryRow PgConnection catalog_act" where
  "ListCategories rank first skip order asc product =
     pgList CatDbError (category_rows product) (category_key rank order) first skip asc"

definition ListCharacteristics ::
  "int option \<Rightarrow> int option \<Rightarrow> bool \<Rightarrow> uuid \<Rightarrow> CharacteristicRow PgConnection catalog_act" where
  "ListCharacteristics first skip asc category =
     pgList CatDbError (\<lambda>s. filter (\<lambda>h. kh_CategoryID h = category) (characteristics s)) kh_ID first skip asc"

definition ListCharacteristicValues ::
  "int option \<Rightarrow> int option \<Rightarrow> bool \<Rightarrow> uuid \<Rightarrow> CharacteristicValueRow PgConnection catalog_act" where
  "ListCharacteristicValues first skip asc version =
     pgList CatDbError (\<lambda>s. filter (\<lambda>x. kx_VersionID x = version) (charValues s)) kx_ID first skip asc"

definition ListMedias :: "int option \<Rightarrow> int option \<Rightarrow> bool \<Rightarrow> uuid \<Rightarrow> uuid PgConnection catalog_act" where
  "ListMedias first skip asc version =
     pgList CatDbError (\<lambda>s. [i. i \<leftarrow> mediaMirror s, m \<leftarrow> versionMedias s, km_MediaID m = i, km_VersionID m = version]) id first skip asc"

text \<open>\<open>SELECT DISTINCT stringvalue\<close>, counted by \<open>COUNT(DISTINCT stringvalue)\<close>; each wrapped with its characteristic.\<close>

definition distinct_values :: "uuid \<Rightarrow> catalog_db \<Rightarrow> string list" where
  "distinct_values characteristic s = first_seen id {}
     [x. r \<leftarrow> charValues s, kx_CharacteristicID r = characteristic, x \<leftarrow> (case kx_StringValue r of None \<Rightarrow> [] | Some x \<Rightarrow> [x])]"

definition ListCategoricalValues ::
  "(string \<Rightarrow> int) \<Rightarrow> int option \<Rightarrow> int option \<Rightarrow> bool \<Rightarrow> uuid \<Rightarrow> (uuid \<times> string) PgConnection catalog_act" where
  "ListCategoricalValues rank first skip asc characteristic =
     andThen (pgList CatDbError (distinct_values characteristic) rank first skip asc) (\<lambda>conn.
       ret (map_connection (Pair characteristic) conn))"

end
