(* ===== verification/Catalog.thy ===== *)
theory Catalog
  imports Catalog_Store
begin

text \<open>
  \<open>src/catalog/graph\<close>, \<open>src/catalog/events\<close> and the deliveries of \<open>src/catalog/main.go\<close>:
  the resolvers of the catalog, who may call them, and what each announces after its transaction.
\<close>

subsection \<open>Authorisation\<close>

definition checkIsEmployee_cat :: "ctx \<Rightarrow> unit catalog_act" where
  "checkIsEmployee_cat c = (case FromContext c of
     None \<Rightarrow> fail CatUnauthorized
   | Some u \<Rightarrow> if \<not> IsEmployeeOrAdmin (Some u) then fail (CatNotEmployee (user_ID u)) else ret ())"

definition isEmployee :: "ctx \<Rightarrow> bool" where
  "isEmployee c \<longleftrightarrow> FromContext c \<noteq> None \<and> IsEmployeeOrAdmin (FromContext c)"

subsection \<open>Models\<close>

record GProduct =
  gp_ID :: uuid
  gp_InternalName :: string
  gp_IsPubliclyVisible :: bool
  gp_DefaultVariantID :: uuid

record GProductVariant =
  gv_ID :: uuid
  gv_IsPubliclyVisible :: bool
  gv_ProductID :: uuid
  gv_CurrentVersionID :: uuid

datatype GCharacteristic =
    CategoricalCharacteristic uuid string string uuid
  | NumericalCharacteristic uuid string string string uuid

datatype GCharacteristicValue =
    CategoricalCharacteristicValue string uuid
  | NumericalCharacteristicValue f64 uuid

definition toProduct :: "ProductRow \<Rightarrow> GProduct" where
  "toProduct p = \<lparr>gp_ID = kp_ID p, gp_InternalName = kp_InternalName p, gp_IsPubliclyVisible = kp_IsPubliclyVisible p,
     gp_DefaultVariantID = or_zero (kp_DefaultVariantID p)\<rparr>"

definition toProductVariant :: "CVariantRow \<Rightarrow> GProductVariant" where
  "toProductVariant v = \<lparr>gv_ID = kv_ID v, gv_IsPubliclyVisible = kv_IsPubliclyVisible v, gv_ProductID = kv_ProductID v,
     gv_CurrentVersionID = or_zero (kv_CurrentVersion v)\<rparr>"

text \<open>The GraphQL models of a version and of a category have the fields of the row.\<close>

definition toProductVariantVersion :: "CVersionRow \<Rightarrow> CVersionRow" where
  "toProductVariantVersion w = w"

definition toCategory :: "CategoryRow \<Rightarrow> CategoryRow" where
  "toCategory c = c"

definition toCharacteristic :: "CharacteristicRow \<Rightarrow> GCharacteristic" where
  "toCharacteristic h = (if kh_Discriminator h = DiscriminatorNumerical
     then NumericalCharacteristic (kh_ID h) (kh_Name h) (kh_Description h) (case kh_Unit h of None \<Rightarrow> [] | Some u \<Rightarrow> u) (kh_CategoryID h)
     else CategoricalCharacteristic (kh_ID h) (kh_Name h) (kh_Description h) (kh_CategoryID h))"

definition toCharacteristicValue :: "CharacteristicValueRow \<Rightarrow> GCharacteristicValue" where
  "toCharacteristicValue x = (if kx_Discriminator x = DiscriminatorNumerical
     then NumericalCharacteristicValue (case kx_DoubleValue x of None \<Rightarrow> Fin 0 0 | Some d \<Rightarrow> d) (kx_CharacteristicID x)
     else CategoricalCharacteristicValue (case kx_StringValue x of None \<Rightarrow> [] | Some t \<Rightarrow> t) (kx_CharacteristicID x))"

definition cat_ascending :: "OrderDirectionD option \<Rightarrow> bool" where
  "cat_ascending d \<longleftrightarrow> d = None \<or> d \<noteq> Some DirDesc"

text \<open>An order input is its direction and its field; the orders with one field only have a direction.\<close>

definition productOrder :: "(OrderDirectionD option \<times> product_order option) option \<Rightarrow> product_order \<times> bool" where
  "productOrder ord = (case ord of
     None \<Rightarrow> (ProductOrderByID, True)
   | Some (d, f) \<Rightarrow> (if f = Some ProductOrderByInternalName then ProductOrderByInternalName else ProductOrderByID, cat_ascending d))"

definition categoryOrder :: "(OrderDirectionD option \<times> category_order option) option \<Rightarrow> category_order \<times> bool" where
  "categoryOrder ord = (case ord of
     None \<Rightarrow> (CategoryOrderByID, True)
   | Some (d, f) \<Rightarrow> (if f = Some CategoryOrderByName then CategoryOrderByName else CategoryOrderByID, cat_ascending d))"

definition productVariantVersionOrder :: "(OrderDirectionD option \<times> version_order option) option \<Rightarrow> version_order \<times> bool" where
  "productVariantVersionOrder ord = (case ord of
     None \<Rightarrow> (VersionOrderByID, True)
   | Some (d, f) \<Rightarrow> (case f of None \<Rightarrow> VersionOrderByID | Some col \<Rightarrow> col, cat_ascending d))"

definition commonOrder_cat :: "OrderDirectionD option option \<Rightarrow> bool" where
  "commonOrder_cat ord = (case ord of None \<Rightarrow> True | Some d \<Rightarrow> cat_ascending d)"

subsection \<open>Announcements\<close>

definition FormatCreatedAt_cat :: "time \<Rightarrow> string" where
  "FormatCreatedAt_cat t = MarshalDateTime t"

definition productEvent :: "ProductRow \<Rightarrow> uuid list \<Rightarrow> ProductDTO" where
  "productEvent p categoryIDs = \<lparr>pd_ID = kp_ID p, pd_InternalName = kp_InternalName p, pd_IsPubliclyVisible = kp_IsPubliclyVisible p,
     pd_DefaultVariantID = or_zero (kp_DefaultVariantID p), pd_CategoryIDs = categoryIDs\<rparr>"

definition variantCreatedEvent :: "CVariantRow \<Rightarrow> CreatedVariantDTO" where
  "variantCreatedEvent v = \<lparr>vd_ID = kv_ID v, vd_ProductID = kv_ProductID v, vd_CurrentVersionID = or_zero (kv_CurrentVersion v),
     vd_IsPubliclyVisible = kv_IsPubliclyVisible v\<rparr>"

definition versionCreatedEvent :: "CreatedVersion \<Rightarrow> VersionDTO" where
  "versionCreatedEvent c = (let w = crv_Version c in
     \<lparr>wd_ID = kw_ID w, wd_Name = kw_Name w, wd_Description = kw_Description w, wd_Version = kw_Version w,
      wd_RetailPrice = kw_RetailPrice w, wd_CreatedAt = FormatCreatedAt_cat (kw_CreatedAt w),
      wd_CanBeReturnedForDays = kw_CanBeReturnedForDays w, wd_ProductVariantID = kw_ProductVariantID w,
      wd_TaxRateID = kw_TaxRateID w, wd_Weight = kw_Weight w, wd_MediaIDs = crv_MediaIDs c\<rparr>)"

definition PublishCat :: "catalog_event \<Rightarrow> unit catalog_act" where
  "PublishCat e = emit CatPublishFailed e"

subsection \<open>Mutations\<close>

definition CreateCategory :: "ctx \<Rightarrow> string \<Rightarrow> string \<Rightarrow> NamedInput list \<Rightarrow> NamedInput list \<Rightarrow> CategoryRow catalog_act" where
  "CreateCategory c name description categorical numerical =
     andThen (checkIsEmployee_cat c) (\<lambda>_.
     andThen (CreateCategoryRow name description categorical numerical) (\<lambda>category.
     andThen (PublishCat (CategoryCreated \<lparr>gd_ID = kc_ID category, gd_Name = kc_Name category, gd_Description = kc_Description category\<rparr>)) (\<lambda>_.
       ret (toCategory category))))"

definition CreateCategoricalCategoryCharacteristic :: "ctx \<Rightarrow> uuid \<Rightarrow> string \<Rightarrow> string \<Rightarrow> GCharacteristic catalog_act" where
  "CreateCategoricalCategoryCharacteristic c category name description =
     andThen (checkIsEmployee_cat c) (\<lambda>_.
     andThen (CreateCategoricalCharacteristic category name description) (\<lambda>h. ret (toCharacteristic h)))"

definition CreateNumericalCategoryCharacteristic ::
  "ctx \<Rightarrow> uuid \<Rightarrow> string \<Rightarrow> string \<Rightarrow> string \<Rightarrow> GCharacteristic catalog_act" where
  "CreateNumericalCategoryCharacteristic c category name description unit' =
     andThen (checkIsEmployee_cat c) (\<lambda>_.
     andThen (CreateNumericalCharacteristic category name description unit') (\<lambda>h. ret (toCharacteristic h)))"

definition CreateProduct :: "ctx \<Rightarrow> string \<Rightarrow> bool \<Rightarrow> uuid list \<Rightarrow> VariantInput \<Rightarrow> GProduct catalog_act" where
  "CreateProduct c name visible categoryIDs variantIn =
     andThen (checkIsEmployee_cat c) (\<lambda>_.
     andThen now (\<lambda>t.
     andThen (CreateProductRow name visible categoryIDs variantIn t) (\<lambda>(product, variant, created, ids).
     andThen (PublishCat (ProductCreated (productEvent product ids))) (\<lambda>_.
     andThen (PublishCat (VariantCreated (variantCreatedEvent variant))) (\<lambda>_.
     andThen (PublishCat (VersionCreated (versionCreatedEvent created))) (\<lambda>_.
       ret (toProduct product)))))))"

definition CreateProductVariant :: "ctx \<Rightarrow> uuid \<Rightarrow> VariantInput \<Rightarrow> GProductVariant catalog_act" where
  "CreateProductVariant c product variantIn =
     andThen (checkIsEmployee_cat c) (\<lambda>_.
     andThen now (\<lambda>t.
     andThen (CreateProductVariantRow product variantIn t) (\<lambda>(variant, created).
     andThen (PublishCat (VariantCreated (variantCreatedEvent variant))) (\<lambda>_.
     andThen (PublishCat (VersionCreated (versionCreatedEvent created))) (\<lambda>_.
       ret (toProductVariant variant))))))"

definition CreateProductVariantVersion_cat :: "ctx \<Rightarrow> uuid \<Rightarrow> VersionInput \<Rightarrow> CVersionRow catalog_act" where
  "CreateProductVariantVersion_cat c variant versionIn =
     andThen (checkIsEmployee_cat c) (\<lambda>_.
     andThen now (\<lambda>t.
     andThen (CreateProductVariantVersionRow variant versionIn t) (\<lambda>created.
     andThen (PublishCat (VersionCreated (versionCreatedEvent created))) (\<lambda>_.
       ret (toProductVariantVersion (crv_Version created))))))"

definition UpdateProduct :: "ctx \<Rightarrow> uuid \<Rightarrow> bool option \<Rightarrow> string option \<Rightarrow> uuid option \<Rightarrow> GProduct catalog_act" where
  "UpdateProduct c i visible name defaultVariant =
     andThen (checkIsEmployee_cat c) (\<lambda>_.
     andThen (UpdateProductRow i visible name defaultVariant) (\<lambda>(product, categoryIDs).
     andThen (PublishCat (ProductUpdated (productEvent product categoryIDs))) (\<lambda>_.
       ret (toProduct product))))"

definition UpdateProductVariant :: "ctx \<Rightarrow> uuid \<Rightarrow> bool option \<Rightarrow> GProductVariant catalog_act" where
  "UpdateProductVariant c i visible =
     andThen (checkIsEmployee_cat c) (\<lambda>_.
     andThen (UpdateProductVariantRow i visible) (\<lambda>variant.
     andThen (PublishCat (VariantUpdated \<lparr>ud_ID = kv_ID variant, ud_IsPubliclyVisible = kv_IsPubliclyVisible variant\<rparr>)) (\<lambda>_.
       ret (toProductVariant variant))))"

subsection \<open>Queries and fields\<close>

definition Query_Category :: "uuid \<Rightarrow> CategoryRow catalog_act" where
  "Query_Category i = andThen (GetCategory i) (\<lambda>c. ret (toCategory c))"

definition Query_CategoryCharacteristic :: "uuid \<Rightarrow> GCharacteristic catalog_act" where
  "Query_CategoryCharacteristic i = andThen (GetCharacteristic i) (\<lambda>h. ret (toCharacteristic h))"

definition Query_Categories ::
  "(string \<Rightarrow> int) \<Rightarrow> int option \<Rightarrow> (OrderDirectionD option \<times> category_order option) option \<Rightarrow> int option \<Rightarrow>
     CategoryRow PgConnection catalog_act" where
  "Query_Categories rank first orderBy skip =
     andThen (ListCategories rank first skip (fst (categoryOrder orderBy)) (snd (categoryOrder orderBy)) None) (\<lambda>conn.
       ret (map_connection toCategory conn))"

definition Query_Product :: "ctx \<Rightarrow> uuid \<Rightarrow> GProduct catalog_act" where
  "Query_Product c i =
     andThen (GetProduct i) (\<lambda>p.
     andThen (if \<not> kp_IsPubliclyVisible p then checkIsEmployee_cat c else ret ()) (\<lambda>_.
       ret (toProduct p)))"

definition Query_Products ::
  "(string \<Rightarrow> int) \<Rightarrow> ctx \<Rightarrow> bool option \<Rightarrow> int option \<Rightarrow> (OrderDirectionD option \<times> product_order option) option \<Rightarrow> int option \<Rightarrow>
     GProduct PgConnection catalog_act" where
  "Query_Products rank c filterVisible first orderBy skip =
     andThen (ListProducts rank first skip (fst (productOrder orderBy)) (snd (productOrder orderBy)) None filterVisible (isEmployee c))
       (\<lambda>conn. ret (map_connection toProduct conn))"

definition Category_Products ::
  "(string \<Rightarrow> int) \<Rightarrow> ctx \<Rightarrow> uuid \<Rightarrow> bool option \<Rightarrow> int option \<Rightarrow> (OrderDirectionD option \<times> product_order option) option \<Rightarrow> int option \<Rightarrow>
     GProduct PgConnection catalog_act" where
  "Category_Products rank c category filterVisible first orderBy skip =
     andThen (ListProducts rank first skip (fst (productOrder orderBy)) (snd (productOrder orderBy)) (Some category) filterVisible (isEmployee c))
       (\<lambda>conn. ret (map_connection toProduct conn))"

definition Category_Characteristics ::
  "uuid \<Rightarrow> int option \<Rightarrow> OrderDirectionD option option \<Rightarrow> int option \<Rightarrow> GCharacteristic PgConnection catalog_act" where
  "Category_Characteristics category first orderBy skip =
     andThen (ListCharacteristics first skip (commonOrder_cat orderBy) category) (\<lambda>conn. ret (map_connection toCharacteristic conn))"

definition Characteristic_Category :: "uuid \<Rightarrow> CategoryRow catalog_act" where
  "Characteristic_Category category = andThen (GetCategory category) (\<lambda>c. ret (toCategory c))"

definition Characteristic_Values ::
  "(string \<Rightarrow> int) \<Rightarrow> uuid \<Rightarrow> int option \<Rightarrow> OrderDirectionD option option \<Rightarrow> int option \<Rightarrow> GCharacteristicValue PgConnection catalog_act" where
  "Characteristic_Values rank characteristic first orderBy skip =
     andThen (ListCategoricalValues rank first skip (commonOrder_cat orderBy) characteristic) (\<lambda>conn.
       ret (map_connection (\<lambda>(h, x). CategoricalCharacteristicValue x h) conn))"

definition Value_Characteristic :: "uuid \<Rightarrow> GCharacteristic catalog_act" where
  "Value_Characteristic characteristic = andThen (GetCharacteristic characteristic) (\<lambda>h. ret (toCharacteristic h))"

definition Product_Categories ::
  "(string \<Rightarrow> int) \<Rightarrow> GProduct \<Rightarrow> int option \<Rightarrow> (OrderDirectionD option \<times> category_order option) option \<Rightarrow> int option \<Rightarrow>
     CategoryRow PgConnection catalog_act" where
  "Product_Categories rank obj first orderBy skip =
     andThen (ListCategories rank first skip (fst (categoryOrder orderBy)) (snd (categoryOrder orderBy)) (Some (gp_ID obj))) (\<lambda>conn.
       ret (map_connection toCategory conn))"

text \<open>The default variant is guarded by the visibility of the product.\<close>

definition Product_DefaultVariant :: "ctx \<Rightarrow> GProduct \<Rightarrow> GProductVariant catalog_act" where
  "Product_DefaultVariant c obj =
     andThen (if \<not> gp_IsPubliclyVisible obj then checkIsEmployee_cat c else ret ()) (\<lambda>_.
     andThen (GetProductVariantRow (gp_DefaultVariantID obj)) (\<lambda>v. ret (toProductVariant v)))"

definition Product_InternalName :: "ctx \<Rightarrow> GProduct \<Rightarrow> string catalog_act" where
  "Product_InternalName c obj = andThen (checkIsEmployee_cat c) (\<lambda>_. ret (gp_InternalName obj))"

definition Product_Variants ::
  "ctx \<Rightarrow> GProduct \<Rightarrow> bool option \<Rightarrow> int option \<Rightarrow> OrderDirectionD option option \<Rightarrow> int option \<Rightarrow> GProductVariant PgConnection catalog_act" where
  "Product_Variants c obj filterVisible first orderBy skip =
     andThen (if \<not> gp_IsPubliclyVisible obj then checkIsEmployee_cat c else ret ()) (\<lambda>_.
     andThen (ListProductVariants first skip (commonOrder_cat orderBy) (gp_ID obj) filterVisible (isEmployee c)) (\<lambda>conn.
       ret (map_connection toProductVariant conn)))"

definition Variant_CurrentVersion :: "ctx \<Rightarrow> GProductVariant \<Rightarrow> CVersionRow catalog_act" where
  "Variant_CurrentVersion c obj =
     andThen (if \<not> gv_IsPubliclyVisible obj then checkIsEmployee_cat c else ret ()) (\<lambda>_.
     andThen (GetProductVariantVersion (gv_CurrentVersionID obj)) (\<lambda>w. ret (toProductVariantVersion w)))"

definition Variant_Product :: "GProductVariant \<Rightarrow> GProduct catalog_act" where
  "Variant_Product obj = andThen (GetProduct (gv_ProductID obj)) (\<lambda>p. ret (toProduct p))"

definition Variant_Versions ::
  "ctx \<Rightarrow> GProductVariant \<Rightarrow> int option \<Rightarrow> (OrderDirectionD option \<times> version_order option) option \<Rightarrow> int option \<Rightarrow>
     CVersionRow PgConnection catalog_act" where
  "Variant_Versions c obj first orderBy skip =
     andThen (checkIsEmployee_cat c) (\<lambda>_.
     andThen (ListProductVariantVersions first skip (fst (productVariantVersionOrder orderBy)) (snd (productVariantVersionOrder orderBy)) (gv_ID obj))
       (\<lambda>conn. ret (map_connection toProductVariantVersion conn)))"

definition Version_CharacteristicValues ::
  "CVersionRow \<Rightarrow> int option \<Rightarrow> OrderDirectionD option option \<Rightarrow> int option \<Rightarrow> GCharacteristicValue PgConnection catalog_act" where
  "Version_CharacteristicValues obj first orderBy skip =
     andThen (ListCharacteristicValues first skip (commonOrder_cat orderBy) (kw_ID obj)) (\<lambda>conn.
       ret (map_connection toCharacteristicValue conn))"

definition Version_Medias ::
  "CVersionRow \<Rightarrow> int option \<Rightarrow> OrderDirectionD option option \<Rightarrow> int option \<Rightarrow> uuid PgConnection catalog_act" where
  "Version_Medias obj first orderBy skip = ListMedias first skip (commonOrder_cat orderBy) (kw_ID obj)"

definition Version_ProductVariant :: "CVersionRow \<Rightarrow> GProductVariant catalog_act" where
  "Version_ProductVariant obj = andThen (GetProductVariantRow (kw_ProductVariantID obj)) (\<lambda>v. ret (toProductVariant v))"

definition Version_TaxRate :: "CVersionRow \<Rightarrow> uuid catalog_act" where
  "Version_TaxRate obj = GetTaxRateStub (kw_TaxRateID obj)"

subsection \<open>Federation\<close>

definition Entity_CategoricalCharacteristic :: "uuid \<Rightarrow> GCharacteristic catalog_act" where
  "Entity_CategoricalCharacteristic i = andThen (GetCategoricalCharacteristic i) (\<lambda>h. ret (toCharacteristic h))"

definition Entity_NumericalCharacteristic :: "uuid \<Rightarrow> GCharacteristic catalog_act" where
  "Entity_NumericalCharacteristic i = andThen (GetNumericalCharacteristic i) (\<lambda>h. ret (toCharacteristic h))"

definition Entity_Category :: "uuid \<Rightarrow> CategoryRow catalog_act" where
  "Entity_Category i = andThen (GetCategory i) (\<lambda>c. ret (toCategory c))"

definition Entity_Product :: "uuid \<Rightarrow> GProduct catalog_act" where
  "Entity_Product i = andThen (GetProduct i) (\<lambda>p. ret (toProduct p))"

definition Entity_ProductVariant :: "uuid \<Rightarrow> GProductVariant catalog_act" where
  "Entity_ProductVariant i = andThen (GetProductVariantRow i) (\<lambda>v. ret (toProductVariant v))"

definition Entity_ProductVariantVersion :: "uuid \<Rightarrow> CVersionRow catalog_act" where
  "Entity_ProductVariantVersion i = andThen (GetProductVariantVersion i) (\<lambda>w. ret (toProductVariantVersion w))"

subsection \<open>Deliveries\<close>

text \<open>The payload as \<open>json.Unmarshal\<close> decodes it, \<open>None\<close> when it fails.\<close>

definition parseEventID :: "uuid option \<Rightarrow> uuid catalog_act" where
  "parseEventID data = (case data of None \<Rightarrow> fail CatBadEvent | Some i \<Rightarrow> ret i)"

definition onTaxRateCreated :: "uuid option \<Rightarrow> unit catalog_act" where
  "onTaxRateCreated data = andThen (parseEventID data) RegisterTaxRate"

definition onMediaCreated :: "uuid option \<Rightarrow> unit catalog_act" where
  "onMediaCreated data = andThen (parseEventID data) RegisterMedia"

end
