(* ===== verification/Catalog_Claims.thy ===== *)
theory Catalog_Claims
  imports Catalog
begin

text \<open>
  The properties of the catalog service: the effect of each write under every script of failures, what
  holds of the tables over all runs, and what visitors see.
\<close>

subsection \<open>Writes\<close>

text \<open>What the values and media of a new version leave alone, and what only grows.\<close>

definition shelf :: "catalog_db \<Rightarrow> catalog_db \<Rightarrow> bool" where
  "shelf s s' \<longleftrightarrow> products s' = products s \<and> cvariants s' = cvariants s \<and> cversions s' = cversions s \<and>
     categories s' = categories s \<and> characteristics s' = characteristics s"

interpretation shelf: effect_rel shelf
  by unfold_locales (auto simp: shelf_def)

lemma shelf_existsByID [guar_intros]: "guar shelf (existsByID_cat ids i)"
  unfolding existsByID_cat_def by (intro guar_intros)

lemma shelf_require [guar_intros]: "guar shelf (require e ids i)"
  unfolding require_def by (intro guar_intros)

lemma shelf_upsertValue [guar_intros]: "guar shelf (upsertValue h w x d k)"
  unfolding upsertValue_def by (intro guar_intros shelf.guar_pg_generated) (auto simp: shelf_def)

lemma shelf_upsertCharacteristicValues [guar_intros]: "guar shelf (upsertCharacteristicValues w cs ns)"
  unfolding upsertCharacteristicValues_def findValidCharacteristics_def by (intro guar_intros)

lemma shelf_linkMedia [guar_intros]: "guar shelf (linkMedia w m)"
  unfolding linkMedia_def by (intro guar_intros shelf.guar_pg_generated) (auto simp: shelf_def)

lemma shelf_linkCategory [guar_intros]: "guar shelf (linkCategory p c)"
  unfolding linkCategory_def by (intro guar_intros shelf.guar_pg_generated) (auto simp: shelf_def)

lemma shelf_addCategories [guar_intros]: "guar shelf (addCategories p cs)"
  unfolding addCategories_def by (intro guar_intros)

lemma shelf_maxVersion [guar_intros]: "guar shelf (maxVersion v)"
  unfolding maxVersion_def by (intro guar_intros)

definition version_list_of :: "catalog_db \<Rightarrow> uuid \<Rightarrow> CVersionRow list" where
  "version_list_of s i = filter (\<lambda>w. kw_ProductVariantID w = i) (cversions s)"

lemma maxVersion_run: "maxVersion i s = (Inr m, s') \<Longrightarrow> m = sql_max (map kw_Version (version_list_of s i))"
  unfolding maxVersion_def version_list_of_def by (drule ext_gets_run) auto

lemma insertVersion_run:
  assumes "insertVersion inp n i t s = (Inr w, s')"
  shows "kw_ID w \<notin> kw_ID ` set (cversions s) \<and> kw_Version w = n \<and> kw_ProductVariantID w = i \<and>
    kw_RetailPrice w = vin_RetailPrice inp \<and> kw_TaxRateID w = vin_TaxRateID inp \<and> i \<in> kv_ID ` set (cvariants s) \<and>
    products s' = products s \<and> cvariants s' = cvariants s \<and> cversions s' = cversions s @ [w]"
  using assms unfolding insertVersion_def Let_def
  by (elim andThen_InrE) (auto simp: run_ret dest!: pg_generated_Inr)

lemma createVersionInternal_run:
  assumes "createVersionInternal inp i t s = (Inr c, s')"
  shows "let w = crv_Version c in
    kw_ID w \<notin> kw_ID ` set (cversions s) \<and> kw_ProductVariantID w = i \<and> i \<in> kv_ID ` set (cvariants s) \<and>
    kw_Version w = max_version (map kw_Version (version_list_of s i)) + 1 \<and>
    products s' = products s \<and> cvariants s' = cvariants s \<and> cversions s' = cversions s @ [w]"
proof -
  obtain s1 s2 m s3 w s4 s5 where
    1: "require (TaxRateMissing (vin_TaxRateID inp)) taxMirror (vin_TaxRateID inp) s = (Inr (), s1)"
    and 2: "each (\<lambda>m. require (MediaMissing m) mediaMirror m) (vin_MediaIDs inp) s1 = (Inr (), s2)"
    and 3: "maxVersion i s2 = (Inr m, s3)"
    and 4: "insertVersion inp (case m of None \<Rightarrow> 1 | Some n \<Rightarrow> n + 1) i t s3 = (Inr w, s4)"
    and 5: "upsertCharacteristicValues (kw_ID w) (vin_CategoricalValues inp) (vin_NumericalValues inp) s4 = (Inr (), s5)"
    and 6: "each (linkMedia (kw_ID w)) (dedupeUUIDs_cat (vin_MediaIDs inp)) s5 = (Inr (), s')"
    and c: "crv_Version c = w"
    using assms unfolding createVersionInternal_def by (elim andThen_InrE) (auto simp: run_ret)
  note 1 = guarD [OF shelf_require 1] and 2 = guarD [OF shelf.guar_each [OF shelf_require] 2]
    and 5 = guarD [OF shelf_upsertCharacteristicValues 5] and 6 = guarD [OF shelf.guar_each [OF shelf_linkMedia] 6]
  have a: "shelf s s3" by (rule shelf.R_trans [OF shelf.R_trans [OF 1 2] guarD [OF shelf_maxVersion 3]])
  have b: "shelf s4 s'" by (rule shelf.R_trans [OF 5 6])
  have "m = sql_max (map kw_Version (version_list_of s i))"
    using maxVersion_run [OF 3] 1 2 by (simp add: shelf_def version_list_of_def)
  then have "kw_Version w = max_version (map kw_Version (version_list_of s i)) + 1"
    using insertVersion_run [OF 4] by (auto simp: max_version_def split: option.splits)
  then show ?thesis using insertVersion_run [OF 4] a b c by (simp add: Let_def shelf_def)
qed

lemma setCurrentVersion_run:
  assumes "setCurrentVersion i w s = (Inr (), s')"
  shows "products s' = products s \<and> cversions s' = cversions s \<and>
    cvariants s' = map_all (\<lambda>v. kv_ID v = i) (\<lambda>v. v\<lparr>kv_CurrentVersion := Some w\<rparr>) (cvariants s)"
  using pg_insert_Inr [OF assms [unfolded setCurrentVersion_def]] by auto

lemma insertVariant_run:
  assumes "insertVariant visible p s = (Inr i, s')"
  shows "i \<notin> kv_ID ` set (cvariants s) \<and> p \<in> kp_ID ` set (products s) \<and> products s' = products s \<and> cversions s' = cversions s \<and>
    cvariants s' = cvariants s @ [\<lparr>kv_ID = i, kv_IsPubliclyVisible = visible, kv_ProductID = p, kv_CurrentVersion = None\<rparr>]"
  using pg_generated_Inr [OF assms [unfolded insertVariant_def]] by auto

subsection \<open>Products, variants and versions\<close>

definition books_of :: "catalog_db \<Rightarrow> bool" where
  "books_of s \<longleftrightarrow> version_books kv_ID kv_CurrentVersion kw_ID kw_ProductVariantID kw_Version (cvariants s) (cversions s)"

text \<open>A product's default variant is one of its variants, and every variant has a product.\<close>

definition default_of :: "CVariantRow list \<Rightarrow> ProductRow \<Rightarrow> bool" where
  "default_of vs p \<longleftrightarrow> list_ex (\<lambda>v. kp_DefaultVariantID p = Some (kv_ID v) \<and> kv_ProductID v = kp_ID p) vs"

definition shelves :: "catalog_db \<Rightarrow> bool" where
  "shelves s \<longleftrightarrow> books_of s \<and> distinct (map kp_ID (products s)) \<and> kv_ProductID ` set (cvariants s) \<subseteq> kp_ID ` set (products s) \<and>
     list_all (default_of (cvariants s)) (products s)"

interpretation shelves: table_invariant shelves
proof
  fix s t :: catalog_db
  assume "io.more s = io.more t"
  then have "products s = products t" "cvariants s = cvariants t" "cversions s = cversions t" by (cases s; cases t; simp)+
  then show "shelves s = shelves t" by (simp add: shelves_def books_of_def)
qed

lemma map_all_append [simp]: "map_all P f (xs @ ys) = map_all P f xs @ map_all P f ys"
  by (simp add: map_all_def)

lemma books_next:
  assumes "books_of s" "kw_ID w \<notin> kw_ID ` set (cversions s)"
    and "kw_Version w = max_version (map kw_Version (version_list_of s (kw_ProductVariantID w))) + 1"
    and "kw_ProductVariantID w \<in> kv_ID ` set (cvariants s) \<and> new = [] \<or>
      (\<exists>v. new = [v] \<and> kv_ID v = kw_ProductVariantID w \<and> kv_ID v \<notin> kv_ID ` set (cvariants s))"
    and "cvariants s' = map_all (\<lambda>v. kv_ID v = kw_ProductVariantID w) (\<lambda>v. v\<lparr>kv_CurrentVersion := Some (kw_ID w)\<rparr>) (cvariants s @ new)"
    and "cversions s' = cversions s @ [w]"
  shows "books_of s'"
  using version_books_next [OF assms(1) [unfolded books_of_def] assms(2), of "\<lambda>v. v\<lparr>kv_CurrentVersion := Some (kw_ID w)\<rparr>" new] assms(3-6)
  by (simp add: books_of_def version_list_of_def)

lemma createVariantInternal_run:
  assumes "createVariantInternal inp p t s = (Inr (v, c), s')"
  shows "kv_ID v \<notin> kv_ID ` set (cvariants s) \<and> kv_ProductID v = p \<and> p \<in> kp_ID ` set (products s) \<and> products s' = products s \<and>
    cvariants s' = cvariants s @ [v] \<and> cversions s' = cversions s @ [crv_Version c] \<and> (books_of s \<longrightarrow> books_of s')"
proof -
  obtain i s1 s2 where
    1: "insertVariant (van_IsPubliclyVisible inp) p s = (Inr i, s1)"
    and 2: "createVersionInternal (van_InitialVersion inp) i t s1 = (Inr c, s2)"
    and 3: "setCurrentVersion i (kw_ID (crv_Version c)) s2 = (Inr (), s')"
    and v: "v = \<lparr>kv_ID = i, kv_IsPubliclyVisible = van_IsPubliclyVisible inp, kv_ProductID = p, kv_CurrentVersion = Some (kw_ID (crv_Version c))\<rparr>"
    using assms unfolding createVariantInternal_def by (elim andThen_InrE) (auto simp: run_ret)
  let ?v0 = "\<lparr>kv_ID = i, kv_IsPubliclyVisible = van_IsPubliclyVisible inp, kv_ProductID = p, kv_CurrentVersion = None\<rparr>"
  note a = insertVariant_run [OF 1] and b = createVersionInternal_run [OF 2, unfolded Let_def] and d = setCurrentVersion_run [OF 3]
  have all: "cvariants s' = map_all (\<lambda>v. kv_ID v = i) (\<lambda>v. v\<lparr>kv_CurrentVersion := Some (kw_ID (crv_Version c))\<rparr>) (cvariants s @ [?v0])"
    using a b d by simp
  moreover have "map_all (\<lambda>v. kv_ID v = i) f (cvariants s) = cvariants s" for f using a by (intro map_all_none) auto
  ultimately have "cvariants s' = cvariants s @ [v]" using v by (simp add: map_all_def)
  moreover have "books_of s'" if "books_of s"
    by (rule books_next [OF that, of "crv_Version c" "[?v0]"]) (use a b d all in \<open>simp_all add: version_list_of_def\<close>)
  ultimately show ?thesis using a b d v by simp
qed

lemma setDefaultVariant_run:
  assumes "setDefaultVariant p v s = (Inr (), s')"
  shows "cvariants s' = cvariants s \<and> cversions s' = cversions s \<and>
    products s' = map_all (\<lambda>q. kp_ID q = p) (\<lambda>q. q\<lparr>kp_DefaultVariantID := Some v\<rparr>) (products s)"
  using pg_insert_Inr [OF assms [unfolded setDefaultVariant_def]] by auto

lemma insertProduct_run:
  assumes "insertProduct name visible s = (Inr i, s')"
  shows "i \<notin> kp_ID ` set (products s) \<and> cvariants s' = cvariants s \<and> cversions s' = cversions s \<and>
    products s' = products s @ [\<lparr>kp_ID = i, kp_InternalName = name, kp_IsPubliclyVisible = visible, kp_DefaultVariantID = None\<rparr>]"
  using pg_generated_Inr [OF assms [unfolded insertProduct_def]] by auto

lemma default_of_mono: "default_of vs p \<Longrightarrow> default_of (vs @ vs') p"
  by (auto simp: default_of_def)

lemma shelves_CreateProductRow: "guar (keeping shelves) (CreateProductRow name visible cats inp t)"
  unfolding CreateProductRow_def
proof (rule shelves.guar_keeping_transaction)
  fix s x s'
  assume run: "andThen (insertProduct name visible) (\<lambda>product.
      andThen (addCategories product cats) (\<lambda>_.
      andThen (createVariantInternal inp product t) (\<lambda>(variant, created).
      andThen (setDefaultVariant product (kv_ID variant)) (\<lambda>_.
        ret (\<lparr>kp_ID = product, kp_InternalName = name, kp_IsPubliclyVisible = visible, kp_DefaultVariantID = Some (kv_ID variant)\<rparr>,
             variant, created, dedupeUUIDs_cat cats))))) s = (Inr x, s')" and ok: "shelves s"
  obtain p s1 s2 v c s3 where 1: "insertProduct name visible s = (Inr p, s1)" and 2: "addCategories p cats s1 = (Inr (), s2)"
    and 3: "createVariantInternal inp p t s2 = (Inr (v, c), s3)" and 4: "setDefaultVariant p (kv_ID v) s3 = (Inr (), s')"
    using run by (elim andThen_InrE) (auto simp: run_ret elim!: andThen_InrE)
  note a = insertProduct_run [OF 1] and b = guarD [OF shelf_addCategories 2] and d = createVariantInternal_run [OF 3]
    and e = setDefaultVariant_run [OF 4]
  have old: "kp_ID q \<noteq> p" if "q \<in> set (products s)" for q using that a by auto
  have prods: "products s' = products s @ [\<lparr>kp_ID = p, kp_InternalName = name, kp_IsPubliclyVisible = visible, kp_DefaultVariantID = Some (kv_ID v)\<rparr>]"
    using a b d e map_all_none [OF old] by (simp add: shelf_def map_all_def)
  have vars: "cvariants s' = cvariants s @ [v]" using a b d e by (simp add: shelf_def)
  have "books_of s2" using ok a b by (simp add: shelves_def shelf_def books_of_def)
  then have "books_of s3" using d by simp
  then have "books_of s'" using e by (simp add: books_of_def)
  moreover have "list_all (default_of (cvariants s')) (products s')"
    using ok d default_of_mono unfolding vars prods by (auto simp: shelves_def list_all_iff default_of_def)
  ultimately show "shelves s'"
    using ok a d unfolding shelves_def vars prods by auto
qed

lemma shelves_CreateProductVariantRow: "guar (keeping shelves) (CreateProductVariantRow p inp t)"
  unfolding CreateProductVariantRow_def
proof (rule shelves.guar_keeping_transaction)
  fix s x s'
  assume run: "andThen (require (ProductMissing p) (\<lambda>s. map kp_ID (products s)) p) (\<lambda>_. createVariantInternal inp p t) s = (Inr x, s')"
    and ok: "shelves s"
  obtain s1 v c where 1: "require (ProductMissing p) (\<lambda>s. map kp_ID (products s)) p s = (Inr (), s1)"
    and 2: "createVariantInternal inp p t s1 = (Inr (v, c), s')"
    using run by (elim andThen_InrE) (metis old.unit.exhaust prod.collapse)
  note a = guarD [OF shelf_require 1] and b = createVariantInternal_run [OF 2]
  then show "shelves s'" using ok default_of_mono by (auto simp: shelves_def shelf_def books_of_def list_all_iff)
qed

text \<open>Changing columns of the variants other than their id and product.\<close>

lemma shelves_map_variants:
  assumes "shelves s" "books_of s'" "products s' = products s" "cvariants s' = map_all P f (cvariants s)"
    and "\<And>v. kv_ID (f v) = kv_ID v" "\<And>v. kv_ProductID (f v) = kv_ProductID v"
  shows "shelves s'"
proof -
  let ?g = "\<lambda>v. if P v then f v else v"
  have vs: "cvariants s' = map ?g (cvariants s)" using assms(4) by (simp add: map_all_def)
  have "default_of (map ?g vs) = default_of vs" for vs
    by (rule ext, induction vs) (auto simp: default_of_def assms(5,6))
  moreover have "kv_ProductID ` set (map ?g vs) = kv_ProductID ` set vs" for vs
    by (induction vs) (simp_all add: assms(6))
  ultimately show ?thesis using assms(1-3) unfolding shelves_def vs by (simp only:)
qed

lemma shelves_CreateProductVariantVersionRow: "guar (keeping shelves) (CreateProductVariantVersionRow i inp t)"
  unfolding CreateProductVariantVersionRow_def
proof (rule shelves.guar_keeping_transaction)
  fix s x s'
  assume run: "andThen (require (VariantMissing i) (\<lambda>s. map kv_ID (cvariants s)) i) (\<lambda>_.
      andThen (createVersionInternal inp i t) (\<lambda>created.
      andThen (setCurrentVersion i (kw_ID (crv_Version created))) (\<lambda>_. ret created))) s = (Inr x, s')" and ok: "shelves s"
  obtain s1 s2 c where 1: "require (VariantMissing i) (\<lambda>s. map kv_ID (cvariants s)) i s = (Inr (), s1)"
    and 2: "createVersionInternal inp i t s1 = (Inr c, s2)"
    and 3: "setCurrentVersion i (kw_ID (crv_Version c)) s2 = (Inr (), s')"
    using run by (elim andThen_InrE) (auto simp: run_ret)
  note a = guarD [OF shelf_require 1] and b = createVersionInternal_run [OF 2, unfolded Let_def] and d = setCurrentVersion_run [OF 3]
  let ?f = "\<lambda>v. v\<lparr>kv_CurrentVersion := Some (kw_ID (crv_Version c))\<rparr>"
  have vars: "cvariants s' = map_all (\<lambda>v. kv_ID v = i) ?f (cvariants s)" using a b d by (simp add: shelf_def)
  have "books_of s'"
    by (rule books_next [of s "crv_Version c" "[]"]) (use ok a b d vars in \<open>simp_all add: shelves_def shelf_def version_list_of_def\<close>)
  then show "shelves s'"
    using a b d by (intro shelves_map_variants [OF ok _ _ vars]) (simp_all add: shelf_def)
qed

lemma shelves_UpdateProductVariantRow: "guar (keeping shelves) (UpdateProductVariantRow i visible)"
proof -
  have "shelves (cvariants_update (map_all P (\<lambda>w. w\<lparr>kv_IsPubliclyVisible := b\<rparr>)) s)" if ok: "shelves s" for P b s
  proof (rule shelves_map_variants [OF ok, where P = P and f = "\<lambda>w. w\<lparr>kv_IsPubliclyVisible := b\<rparr>"])
    show "books_of (cvariants_update (map_all P (\<lambda>w. w\<lparr>kv_IsPubliclyVisible := b\<rparr>)) s)"
      using ok by (simp add: shelves_def books_of_def map_all_def
        version_books_map [of kv_ID "\<lambda>w. if P w then w\<lparr>kv_IsPubliclyVisible := b\<rparr> else w" kv_CurrentVersion])
  qed simp_all
  then show ?thesis
    unfolding UpdateProductVariantRow_def find_one_def Let_def
    by (intro guar_intros shelves.guar_pg_insert guarI) (auto simp: keeping_def split: option.split)
qed

lemma saveProduct_run:
  assumes "saveProduct p s = (Inr (), s')"
  shows "cvariants s' = cvariants s \<and> cversions s' = cversions s \<and>
    products s' = map_all (\<lambda>q. kp_ID q = kp_ID p) (\<lambda>q. q\<lparr>kp_InternalName := kp_InternalName p,
        kp_IsPubliclyVisible := kp_IsPubliclyVisible p, kp_DefaultVariantID := kp_DefaultVariantID p\<rparr>) (products s)"
  using pg_insert_Inr [OF assms [unfolded saveProduct_def]] by auto

lemma shelf_find_one [guar_intros]: "guar shelf (find_one e1 e2 get P)"
  unfolding find_one_def by (intro guar_intros guarI) (simp add: shelf_def split: option.split)

lemma shelf_categoryIDs [guar_intros]: "guar shelf (categoryIDsForProduct i)"
  unfolding categoryIDsForProduct_def by (intro guar_intros)

lemma shelf_chooseDefault [guar_intros]: "guar shelf (chooseDefault d p)"
  unfolding chooseDefault_def by (intro guar_intros)

lemma find_one_member:
  assumes "find_one e1 e2 get P s = (Inr d, s')" "\<And>t fs. get (t\<lparr>faults := fs\<rparr>) = get t"
  shows "d \<in> set (get s) \<and> P d"
  using find_one_run [OF assms] by (auto simp: find_Some_iff in_set_conv_nth)

lemma chooseDefault_run:
  assumes "chooseDefault d p s = (Inr q, s')" "default_of (cvariants s) p"
  shows "kp_ID q = kp_ID p \<and> default_of (cvariants s) q"
proof (cases d)
  case None
  then show ?thesis using assms by (simp add: chooseDefault_def run_ret)
next
  case (Some i)
  obtain v s1 where v: "find_one CatDbError (VariantUnknown i) cvariants (\<lambda>v. kv_ID v = i) s = (Inr v, s1)"
    and q: "(if kv_ProductID v \<noteq> kp_ID p then fail (VariantOfOtherProduct i (kp_ID p))
       else ret (p\<lparr>kp_DefaultVariantID := Some i\<rparr>)) s1 = (Inr q, s')"
    using assms(1) Some unfolding chooseDefault_def by (auto elim: andThen_InrE)
  have "v \<in> set (cvariants s)" "kv_ID v = i" using find_one_member [OF v] by simp_all
  then show ?thesis using q by (auto simp: default_of_def list_ex_iff run_ret run_fail split: if_splits)
qed

lemma shelves_UpdateProductRow: "guar (keeping shelves) (UpdateProductRow i visible name defaultVariant)"
  unfolding UpdateProductRow_def
proof (rule shelves.guar_keeping_transaction)
  fix s x s'
  assume run: "andThen (find_one CatDbError (ProductUnknown i) products (\<lambda>p. kp_ID p = i)) (\<lambda>p0.
      andThen (chooseDefault defaultVariant (patchedProduct visible name p0)) (\<lambda>p.
      andThen (saveProduct p) (\<lambda>_. andThen (categoryIDsForProduct (kp_ID p)) (\<lambda>categoryIDs. ret (p, categoryIDs))))) s = (Inr x, s')"
    and ok: "shelves s"
  obtain p0 s1 p s2 s3 cats where 1: "find_one CatDbError (ProductUnknown i) products (\<lambda>p. kp_ID p = i) s = (Inr p0, s1)"
    and 2: "chooseDefault defaultVariant (patchedProduct visible name p0) s1 = (Inr p, s2)"
    and 3: "saveProduct p s2 = (Inr (), s3)" and 4: "categoryIDsForProduct (kp_ID p) s3 = (Inr cats, s')"
    using run by (elim andThen_InrE) (auto simp: run_ret)
  have "p0 \<in> set (products s)" using find_one_member [OF 1] by simp
  then have "default_of (cvariants s) p0" using ok by (simp add: shelves_def list_all_iff)
  then have def0: "default_of (cvariants s) (patchedProduct visible name p0)"
    by (auto simp: default_of_def list_ex_iff or_zero_def patchedProduct_def)
  note same = guarD [OF shelf_find_one 1] guarD [OF shelf_chooseDefault 2] guarD [OF shelf_categoryIDs 4]
  have default: "default_of (cvariants s) p" using chooseDefault_run [OF 2] def0 same by (simp add: shelf_def)
  let ?f = "\<lambda>q. q\<lparr>kp_InternalName := kp_InternalName p, kp_IsPubliclyVisible := kp_IsPubliclyVisible p, kp_DefaultVariantID := kp_DefaultVariantID p\<rparr>"
  have s': "cvariants s' = cvariants s" "cversions s' = cversions s" "products s' = map_all (\<lambda>q. kp_ID q = kp_ID p) ?f (products s)"
    using saveProduct_run [OF 3] same by (simp_all add: shelf_def)
  have ids: "map kp_ID (products s') = map kp_ID (products s)" unfolding s' by (rule map_map_all) simp
  then have "kp_ID ` set (products s') = kp_ID ` set (products s)" by (metis list.set_map)
  moreover have "default_of (cvariants s) q" if "q \<in> set (products s')" for q
    using that ok default unfolding s' set_map_all by (auto simp: shelves_def list_all_iff default_of_def)
  ultimately show "shelves s'" using ok ids unfolding shelves_def s'(1) books_of_def s'(2) list_all_iff by simp
qed

text \<open>The other writes leave products, variants and versions alone.\<close>

definition stock :: "catalog_db \<Rightarrow> catalog_db \<Rightarrow> bool" where
  "stock s s' \<longleftrightarrow> products s' = products s \<and> cvariants s' = cvariants s \<and> cversions s' = cversions s"

lemma restore_catalog [simp]:
  "products (restore s t) = products s" "cvariants (restore s t) = cvariants s" "cversions (restore s t) = cversions s"
  "charValues (restore s t) = charValues s" "productCategories (restore s t) = productCategories s"
  "characteristics (restore s t) = characteristics s"
  by (cases s; cases t; simp add: restore_def)+

interpretation stock: effect_rel_tx stock
  by unfold_locales (auto simp: stock_def)

lemma stock_insertCharacteristic [guar_intros]: "guar stock (insertCharacteristic c k n d u)"
  unfolding insertCharacteristic_def by (intro guar_intros stock.guar_pg_generated) (simp_all add: stock_def)

lemma stock_require [guar_intros]: "guar stock (require e ids i)"
  unfolding require_def existsByID_cat_def by (intro guar_intros)

lemma stock_categories:
  "guar stock (CreateCategoryRow name d cats nums)" "guar stock (createStandaloneCharacteristic i k name d u)"
  "guar stock (RegisterTaxRate v)" "guar stock (RegisterMedia v)"
  unfolding CreateCategoryRow_def insertCategory_def createStandaloneCharacteristic_def RegisterTaxRate_def RegisterMedia_def insert_one_def
  by (intro guar_intros stock.guar_pg_generated guarI; simp add: stock_def)+

lemma shelves_stock: "guar stock m \<Longrightarrow> guar (keeping shelves) m"
  by (auto simp: guar_def keeping_def stock_def shelves_def books_of_def)

text \<open>A run: requests and deliveries in any order, each under any script of failures.\<close>

inductive catalog_step :: "catalog_db \<Rightarrow> catalog_db \<Rightarrow> bool" where
  script: "catalog_step s (s\<lparr>faults := fs\<rparr>)"
| category: "CreateCategory c name d cats nums s = (rc, s') \<Longrightarrow> catalog_step s s'"
| categorical: "CreateCategoricalCategoryCharacteristic c i name d s = (rh, s') \<Longrightarrow> catalog_step s s'"
| numerical: "CreateNumericalCategoryCharacteristic c i name d u s = (rh, s') \<Longrightarrow> catalog_step s s'"
| product: "CreateProduct c name visible ids inp s = (rp, s') \<Longrightarrow> catalog_step s s'"
| variant: "CreateProductVariant c p inp s = (rv, s') \<Longrightarrow> catalog_step s s'"
| version: "CreateProductVariantVersion_cat c v winp s = (rw, s') \<Longrightarrow> catalog_step s s'"
| update_product: "UpdateProduct c p b n dv s = (rp, s') \<Longrightarrow> catalog_step s s'"
| update_variant: "UpdateProductVariant c v b s = (rv, s') \<Longrightarrow> catalog_step s s'"
| tax_rate: "onTaxRateCreated x s = (ru, s') \<Longrightarrow> catalog_step s s'"
| media: "onMediaCreated x s = (ru, s') \<Longrightarrow> catalog_step s s'"

text \<open>What an invariant of the tables has to survive for every run to keep it.\<close>

locale catalog_invariant = table_invariant I for I :: "catalog_db \<Rightarrow> bool" +
  assumes rows: "guar (keeping I) (CreateProductRow name visible ids inp t)" "guar (keeping I) (CreateProductVariantRow p inp t)"
      "guar (keeping I) (CreateProductVariantVersionRow v winp t)" "guar (keeping I) (UpdateProductRow p b n dv)"
      "guar (keeping I) (UpdateProductVariantRow v b)" "guar (keeping I) (CreateCategoryRow name d cats nums)"
      "guar (keeping I) (createStandaloneCharacteristic i k name d u)"
      "guar (keeping I) (RegisterTaxRate v)" "guar (keeping I) (RegisterMedia v)"
begin

lemma checkIsEmployee_keeps [guar_intros]: "guar (keeping I) (checkIsEmployee_cat c)"
  unfolding checkIsEmployee_cat_def by (intro guar_intros)

lemma requests_keep:
  "guar (keeping I) (CreateCategory c name d cats nums)" "guar (keeping I) (CreateCategoricalCategoryCharacteristic c i name d)"
  "guar (keeping I) (CreateNumericalCategoryCharacteristic c i name d u)" "guar (keeping I) (CreateProduct c name visible ids inp)"
  "guar (keeping I) (CreateProductVariant c p inp)" "guar (keeping I) (CreateProductVariantVersion_cat c v winp)"
  "guar (keeping I) (UpdateProduct c p b n dv)" "guar (keeping I) (UpdateProductVariant c v b)"
  "guar (keeping I) (onTaxRateCreated x)" "guar (keeping I) (onMediaCreated x)"
  unfolding CreateCategory_def CreateCategoricalCategoryCharacteristic_def CreateCategoricalCharacteristic_def
    CreateNumericalCategoryCharacteristic_def CreateNumericalCharacteristic_def CreateProduct_def CreateProductVariant_def
    CreateProductVariantVersion_cat_def UpdateProduct_def UpdateProductVariant_def onTaxRateCreated_def onMediaCreated_def
    parseEventID_def PublishCat_def
  by (intro guar_intros rows)+

lemma step_keeps: "catalog_step s s' \<Longrightarrow> I s \<Longrightarrow> I s'"
  by (induction rule: catalog_step.induct) (use requests_keep [THEN guarD] in \<open>auto simp: keeping_def\<close>)

lemma run_keeps: "catalog_step\<^sup>*\<^sup>* s s' \<Longrightarrow> I s \<Longrightarrow> I s'"
  by (induction rule: rtranclp_induct) (auto intro: step_keeps)

end

interpretation catalog_shelves: catalog_invariant shelves
proof
  show "guar (keeping shelves) (CreateCategoryRow name d cats nums)" "guar (keeping shelves) (createStandaloneCharacteristic i k name d u)"
    "guar (keeping shelves) (RegisterTaxRate v)" "guar (keeping shelves) (RegisterMedia v)" for name d cats nums i k u v
    by (rule shelves_stock, rule stock_categories)+
qed (rule shelves_CreateProductRow shelves_CreateProductVariantRow shelves_CreateProductVariantVersionRow
  shelves_UpdateProductRow shelves_UpdateProductVariantRow)+

subsection \<open>Values\<close>

text \<open>
  A value belongs to a characteristic of a category of the version's product, has the kind of its
  characteristic, and only the column of its kind is set.
\<close>

definition value_ok :: "catalog_db \<Rightarrow> CharacteristicValueRow \<Rightarrow> bool" where
  "value_ok s x \<longleftrightarrow> value_trigger s (kx_CharacteristicID x) (kx_VersionID x) \<and>
     list_ex (\<lambda>h. kh_ID h = kx_CharacteristicID x \<and> kh_Discriminator h = kx_Discriminator x) (characteristics s) \<and>
     (if kx_Discriminator x = DiscriminatorCategorical then kx_StringValue x \<noteq> None \<and> kx_DoubleValue x = None
      else kx_Discriminator x = DiscriminatorNumerical \<and> kx_StringValue x = None \<and> kx_DoubleValue x \<noteq> None)"

definition values_ok :: "catalog_db \<Rightarrow> bool" where
  "values_ok s \<longleftrightarrow> list_all (value_ok s) (charValues s) \<and>
     distinct (map (\<lambda>x. (kx_CharacteristicID x, kx_VersionID x)) (charValues s)) \<and> distinct (map kh_ID (characteristics s))"

text \<open>What the trigger joins.\<close>

definition version_pairs :: "catalog_db \<Rightarrow> (uuid \<times> uuid) set" where
  "version_pairs s = (\<lambda>w. (kw_ID w, kw_ProductVariantID w)) ` set (cversions s)"
definition variant_pairs :: "catalog_db \<Rightarrow> (uuid \<times> uuid) set" where
  "variant_pairs s = (\<lambda>v. (kv_ID v, kv_ProductID v)) ` set (cvariants s)"
definition link_pairs :: "catalog_db \<Rightarrow> (uuid \<times> uuid) set" where
  "link_pairs s = (\<lambda>l. (kl_ProductID l, kl_CategoryID l)) ` set (productCategories s)"

lemmas pairs_defs = version_pairs_def variant_pairs_def link_pairs_def

lemma value_trigger_iff:
  "value_trigger s i w \<longleftrightarrow> (\<exists>v p h. (w, v) \<in> version_pairs s \<and> (v, p) \<in> variant_pairs s \<and> (p, kh_CategoryID h) \<in> link_pairs s \<and>
     h \<in> set (characteristics s) \<and> kh_ID h = i)"
proof
  assume "value_trigger s i w"
  then obtain w' v l h where "w' \<in> set (cversions s)" "v \<in> set (cvariants s)" "kw_ProductVariantID w' = kv_ID v"
    "l \<in> set (productCategories s)" "kv_ProductID v = kl_ProductID l" and h: "h \<in> set (characteristics s)"
    "kh_CategoryID h = kl_CategoryID l" "kh_ID h = i" "kw_ID w' = w"
    unfolding value_trigger_def list_ex_iff by blast
  then have "(w, kv_ID v) \<in> version_pairs s" "(kv_ID v, kl_ProductID l) \<in> variant_pairs s"
    "(kl_ProductID l, kh_CategoryID h) \<in> link_pairs s"
    by (force simp: pairs_defs)+
  then show "\<exists>v p h. (w, v) \<in> version_pairs s \<and> (v, p) \<in> variant_pairs s \<and> (p, kh_CategoryID h) \<in> link_pairs s \<and>
     h \<in> set (characteristics s) \<and> kh_ID h = i" using h by blast
next
  assume "\<exists>v p h. (w, v) \<in> version_pairs s \<and> (v, p) \<in> variant_pairs s \<and> (p, kh_CategoryID h) \<in> link_pairs s \<and>
     h \<in> set (characteristics s) \<and> kh_ID h = i"
  then obtain w' v l h where "w' \<in> set (cversions s)" "v \<in> set (cvariants s)" "kw_ProductVariantID w' = kv_ID v"
    "l \<in> set (productCategories s)" "kv_ProductID v = kl_ProductID l" "h \<in> set (characteristics s)"
    "kh_CategoryID h = kl_CategoryID l" "kh_ID h = i" "kw_ID w' = w"
    by (auto simp: pairs_defs)
  then show "value_trigger s i w" unfolding value_trigger_def list_ex_iff by blast
qed

lemma values_ok_more: "io.more s = io.more t \<Longrightarrow> values_ok s = values_ok t"
proof -
  assume "io.more s = io.more t"
  then have "charValues s = charValues t" "characteristics s = characteristics t" "cversions s = cversions t" "cvariants s = cvariants t"
    "productCategories s = productCategories t" by (cases s; cases t; simp)+
  moreover from this have "value_ok s = value_ok t" by (intro ext) (simp add: value_ok_def value_trigger_def)
  ultimately show ?thesis by (simp add: values_ok_def)
qed

interpretation value_rows: table_invariant values_ok
  by unfold_locales (rule values_ok_more)

text \<open>Nothing that a value depends on is ever taken away.\<close>

definition grows :: "catalog_db \<Rightarrow> catalog_db \<Rightarrow> bool" where
  "grows s s' \<longleftrightarrow> version_pairs s \<subseteq> version_pairs s' \<and> variant_pairs s \<subseteq> variant_pairs s' \<and> link_pairs s \<subseteq> link_pairs s' \<and>
     set (characteristics s) \<subseteq> set (characteristics s')"

lemma value_ok_grows:
  assumes "grows s s'" "value_ok s x"
  shows "value_ok s' x"
proof -
  have "value_trigger s' (kx_CharacteristicID x) (kx_VersionID x)"
    using assms unfolding value_ok_def value_trigger_iff grows_def by blast
  then show ?thesis using assms unfolding value_ok_def grows_def list_ex_iff by blast
qed

text \<open>Steps that leave the values alone.\<close>

definition valueless :: "catalog_db \<Rightarrow> catalog_db \<Rightarrow> bool" where
  "valueless s s' \<longleftrightarrow> grows s s' \<and> charValues s' = charValues s \<and>
     (distinct (map kh_ID (characteristics s)) \<longrightarrow> distinct (map kh_ID (characteristics s')))"

lemma pairs_tables [simp]:
  "cversions s = cversions t \<Longrightarrow> version_pairs s = version_pairs t" "cvariants s = cvariants t \<Longrightarrow> variant_pairs s = variant_pairs t"
  "productCategories s = productCategories t \<Longrightarrow> link_pairs s = link_pairs t"
  by (simp_all add: pairs_defs)

interpretation valueless: effect_rel_tx valueless
proof
  show "valueless s u" if "valueless s t" "valueless t u" for s t u
    using that unfolding valueless_def grows_def by (metis subset_trans)
qed (auto simp: valueless_def grows_def pairs_defs)

lemma valueless_keeps: "valueless s s' \<Longrightarrow> values_ok s \<Longrightarrow> values_ok s'"
  using value_ok_grows by (auto simp: valueless_def values_ok_def list_all_iff)

lemma valueless_keeping: "guar valueless m \<Longrightarrow> guar (keeping values_ok) m"
  using valueless_keeps by (auto simp: guar_def keeping_def)

lemma valueless_basic [guar_intros]:
  "guar valueless (existsByID_cat ids i)" "guar valueless (require e ids i)" "guar valueless (maxVersion v)" "guar valueless (checkIsEmployee_cat c)"
  "guar valueless (find_one e e' get P)" "guar valueless (categoryIDsForProduct i)" "guar valueless (findValidCharacteristics w hs)"
  unfolding require_def existsByID_cat_def maxVersion_def checkIsEmployee_cat_def find_one_def categoryIDsForProduct_def findValidCharacteristics_def
  by (intro guar_intros guarI; auto simp: valueless.R_refl split: option.split)+

lemma valueless_writes [guar_intros]:
  "guar valueless (insertVersion vin n v t)" "guar valueless (linkMedia w m)" "guar valueless (setCurrentVersion v w)"
  "guar valueless (insertVariant b p)" "guar valueless (insertProduct name b)" "guar valueless (linkCategory p c)"
  "guar valueless (setDefaultVariant p v)" "guar valueless (saveProduct q)" "guar valueless (insertCategory name d)"
  "guar valueless (insertCharacteristic c k name d u)"
  unfolding insertVersion_def linkMedia_def setCurrentVersion_def insertVariant_def insertProduct_def linkCategory_def
    setDefaultVariant_def saveProduct_def insertCategory_def insertCharacteristic_def Let_def
  by (intro guar_intros valueless.guar_pg_generated valueless.guar_pg_insert; auto simp: valueless_def grows_def pairs_defs image_map_all)+

text \<open>One upsert, of the kind of its characteristic.\<close>

definition right_kind :: "catalog_db \<Rightarrow> string \<Rightarrow> uuid \<Rightarrow> bool" where
  "right_kind s k i \<longleftrightarrow> list_ex (\<lambda>h. kh_ID h = i \<and> kh_Discriminator h = k) (characteristics s)"

lemma upsertValue_run:
  assumes "upsertValue i w x d k s = (Inr (), s')"
  obtains (updated) "charValues s' = map_all (\<lambda>x. kx_CharacteristicID x = i \<and> kx_VersionID x = w)
      (\<lambda>y. y\<lparr>kx_StringValue := x, kx_DoubleValue := d\<rparr>) (charValues s)" "shelf s s'" "productCategories s' = productCategories s"
  | (inserted) j where "charValues s' = charValues s @ [\<lparr>kx_ID = j, kx_Discriminator = k, kx_StringValue = x, kx_DoubleValue = d,
      kx_CharacteristicID = i, kx_VersionID = w\<rparr>]" "(i, w) \<notin> (\<lambda>x. (kx_CharacteristicID x, kx_VersionID x)) ` set (charValues s)"
      "value_trigger s i w" "shelf s s'" "productCategories s' = productCategories s"
proof -
  obtain j where gen: "pg_generated CatDbError
       (\<lambda>j s. value_trigger s i w \<and> (case x of None \<Rightarrow> True | Some x \<Rightarrow> varchar x) \<and> j \<notin> kx_ID ` set (charValues s))
       (\<lambda>j s. if list_ex (\<lambda>x. kx_CharacteristicID x = i \<and> kx_VersionID x = w) (charValues s)
          then charValues_update (map_all (\<lambda>x. kx_CharacteristicID x = i \<and> kx_VersionID x = w)
            (\<lambda>y. y\<lparr>kx_StringValue := x, kx_DoubleValue := d\<rparr>)) s
          else charValues_update (\<lambda>rows. rows @ [\<lparr>kx_ID = j, kx_Discriminator = k, kx_StringValue = x,
            kx_DoubleValue = d, kx_CharacteristicID = i, kx_VersionID = w\<rparr>]) s) s = (Inr j, s')"
    using assms unfolding upsertValue_def by (elim andThen_InrE) (simp add: run_ret)
  have same: "shelf s s'" by (rule guarD [OF shelf_upsertValue assms])
  show thesis
  proof (cases "list_ex (\<lambda>x. kx_CharacteristicID x = i \<and> kx_VersionID x = w) (charValues s)")
    case True
    then show ?thesis using pg_generated_Inr [OF gen] same by (intro updated) auto
  next
    case False
    then have "(i, w) \<notin> (\<lambda>x. (kx_CharacteristicID x, kx_VersionID x)) ` set (charValues s)" by (auto simp: list_ex_iff)
    moreover have "value_trigger (s\<lparr>faults := fs, minted := n\<rparr>) i w = value_trigger s i w" for fs n by (simp add: value_trigger_def)
    ultimately show ?thesis using False pg_generated_Inr [OF gen] same by (intro inserted) auto
  qed
qed

lemma value_ok_tables:
  assumes "shelf s s'" "productCategories s' = productCategories s"
  shows "value_ok s' = value_ok s"
  using assms by (intro ext) (simp add: value_ok_def value_trigger_def shelf_def)

lemma upsertValue_keeps:
  assumes "upsertValue i w x d k s = (Inr (), s')" "values_ok s" "right_kind s k i"
    and shape: "k = DiscriminatorCategorical \<and> x \<noteq> None \<and> d = None \<or> k = DiscriminatorNumerical \<and> x = None \<and> d \<noteq> None"
  shows "values_ok s' \<and> characteristics s' = characteristics s"
  using assms(1)
proof (cases rule: upsertValue_run)
  case updated
  let ?f = "\<lambda>y. y\<lparr>kx_StringValue := x, kx_DoubleValue := d\<rparr>"
  have kind: "kx_Discriminator y = k" if y: "y \<in> set (charValues s)" "kx_CharacteristicID y = i" for y
  proof -
    have "value_ok s y" using assms(2) y by (simp add: values_ok_def list_all_iff)
    then obtain h where "h \<in> set (characteristics s)" "kh_ID h = i" "kh_Discriminator h = kx_Discriminator y"
      using y(2) by (auto simp: value_ok_def list_ex_iff)
    moreover obtain h' where "h' \<in> set (characteristics s)" "kh_ID h' = i" "kh_Discriminator h' = k"
      using assms(3) by (auto simp: right_kind_def list_ex_iff)
    moreover have "inj_on kh_ID (set (characteristics s))" using assms(2) by (simp add: values_ok_def distinct_map)
    ultimately show ?thesis by (metis inj_onD)
  qed
  have "value_ok s (?f y)" if "y \<in> set (charValues s)" "kx_CharacteristicID y = i" for y
    using assms(2) that kind [OF that] shape
    by (auto simp: values_ok_def list_all_iff value_ok_def DiscriminatorCategorical_def DiscriminatorNumerical_def)
  then have "list_all (value_ok s') (charValues s')"
    using assms(2) unfolding updated(1) value_ok_tables [OF updated(2,3)] list_all_iff set_map_all by (auto simp: values_ok_def list_all_iff)
  moreover have "map (\<lambda>x. (kx_CharacteristicID x, kx_VersionID x)) (charValues s') = map (\<lambda>x. (kx_CharacteristicID x, kx_VersionID x)) (charValues s)"
    unfolding updated(1) by (rule map_map_all) simp
  ultimately show ?thesis using assms(2) updated(2) unfolding values_ok_def by (simp add: shelf_def)
next
  case (inserted j)
  have "value_ok s \<lparr>kx_ID = j, kx_Discriminator = k, kx_StringValue = x, kx_DoubleValue = d, kx_CharacteristicID = i, kx_VersionID = w\<rparr>"
    using inserted(3) assms(3) shape
    by (auto simp: value_ok_def right_kind_def DiscriminatorCategorical_def DiscriminatorNumerical_def)
  then have "list_all (value_ok s') (charValues s')"
    using assms(2) unfolding inserted(1) value_ok_tables [OF inserted(4,5)] by (simp add: values_ok_def)
  then show ?thesis using assms(2) inserted(2,4) unfolding values_ok_def inserted(1) by (auto simp: shelf_def)
qed

lemma upserts_keep:
  assumes "each f cs s = (Inr (), s')" "values_ok s"
    and "\<And>c. c \<in> set cs \<Longrightarrow> right_kind s k (cid c)"
    and "\<And>c. \<exists>x d. f c = upsertValue (cid c) w x d k \<and>
      (k = DiscriminatorCategorical \<and> x \<noteq> None \<and> d = None \<or> k = DiscriminatorNumerical \<and> x = None \<and> d \<noteq> None)"
  shows "values_ok s' \<and> characteristics s' = characteristics s"
  using assms(1-3)
proof (induction cs arbitrary: s)
  case (Cons c cs)
  obtain s1 where 1: "f c s = (Inr (), s1)" and 2: "each f cs s1 = (Inr (), s')"
    using Cons.prems(1) by (auto elim: andThen_InrE)
  have "values_ok s1 \<and> characteristics s1 = characteristics s"
    using 1 assms(4) [of c] upsertValue_keeps Cons.prems(2,3) by (metis list.set_intros(1))
  then show ?case using Cons.IH [OF 2] Cons.prems(3) by (simp add: right_kind_def)
qed (simp add: run_ret)

lemma first_seen_none: "first_seen id {} xs = [] \<Longrightarrow> xs = []"
  by (cases xs) simp_all

lemma duplicates_none: "duplicates xs = [] \<Longrightarrow> distinct xs"
proof -
  assume "duplicates xs = []"
  then have "\<forall>x \<in> set xs. count_list xs x \<le> 1" by (auto simp: duplicates_def filter_empty_conv)
  then show "distinct xs"
  proof (induction xs)
    case (Cons x xs)
    have "count_list (x # xs) x \<le> 1" using Cons.prems by (meson list.set_intros(1))
    then have "x \<notin> set xs" by (simp add: count_list_0_iff)
    moreover have "count_list xs y \<le> 1" if "y \<in> set xs" for y
    proof -
      have "count_list (x # xs) y \<le> 1" using Cons.prems that by (meson list.set_intros(2))
      then show ?thesis by (simp split: if_splits)
    qed
    ultimately show ?case using Cons.IH by simp
  qed simp
qed

text \<open>The validation: every id is that of a characteristic whose kind is the list it came in.\<close>

lemma valid_kinds:
  assumes "distinct (cids @ nids)" "set (cids @ nids) \<subseteq> fst ` set valid" "find (wrong_list cids nids) valid = None"
    and "\<And>i k. (i, k) \<in> set valid \<Longrightarrow> right_kind s k i"
  shows "i \<in> set cids \<Longrightarrow> right_kind s DiscriminatorCategorical i" "i \<in> set nids \<Longrightarrow> right_kind s DiscriminatorNumerical i"
proof -
  have listed: "k = DiscriminatorCategorical \<and> i \<in> set cids \<or> k = DiscriminatorNumerical \<and> i \<in> set nids" if "(i, k) \<in> set valid" for i k
  proof -
    have "\<not> wrong_list cids nids (i, k)" using assms(3) that by (metis find_None_iff)
    then show ?thesis by (auto simp: wrong_list_def split: if_splits)
  qed
  have found: "\<exists>k. (i, k) \<in> set valid" if "i \<in> set (cids @ nids)" for i using assms(2) that by force
  have apart: "set cids \<inter> set nids = {}" using assms(1) by simp
  show "right_kind s DiscriminatorCategorical i" if "i \<in> set cids"
    using found [of i] listed assms(4) that apart by (metis UnI1 disjoint_iff set_append)
  show "right_kind s DiscriminatorNumerical i" if "i \<in> set nids"
    using found [of i] listed assms(4) that apart by (metis UnI2 disjoint_iff set_append)
qed

lemma upsertCharacteristicValues_keeps:
  assumes "upsertCharacteristicValues w cs ns s = (Inr (), s')" "values_ok s"
  shows "values_ok s'"
proof (cases "cs = [] \<and> ns = []")
  case True
  then show ?thesis using assms by (simp add: upsertCharacteristicValues_def run_ret)
next
  case False
  let ?cids = "map cvi_CharacteristicID cs" and ?nids = "map nvi_CharacteristicID ns"
  let ?rest = "\<lambda>valid. let invalid = first_seen id {} (filter (\<lambda>i. i \<notin> fst ` set valid) (?cids @ ?nids)) in
           if invalid \<noteq> [] then fail (InvalidCharacteristics invalid)
           else case find (wrong_list ?cids ?nids) valid of
             Some v \<Rightarrow> fail (WrongCharacteristicType (fst v))
           | None \<Rightarrow>
               andThen (each (\<lambda>c. upsertValue (cvi_CharacteristicID c) w (Some (cvi_Value c)) None DiscriminatorCategorical) cs)
                 (\<lambda>_. each (\<lambda>n. upsertValue (nvi_CharacteristicID n) w None (Some (nvi_Value n)) DiscriminatorNumerical) ns)"
  have dups: "duplicates (?cids @ ?nids) = []" and run: "andThen (findValidCharacteristics w (?cids @ ?nids)) ?rest s = (Inr (), s')"
    using assms(1) False unfolding upsertCharacteristicValues_def Let_def by (auto simp: run_fail split: if_splits)
  obtain valid s1 where 1: "findValidCharacteristics w (?cids @ ?nids) s = (Inr valid, s1)" and rest: "?rest valid s1 = (Inr (), s')"
    by (rule andThen_InrE [OF run])
  note found = ext_gets_run [OF 1 [unfolded findValidCharacteristics_def]]
  have none: "filter (\<lambda>i. i \<notin> fst ` set valid) (?cids @ ?nids) = []" "find (wrong_list ?cids ?nids) valid = None"
    using rest first_seen_none by (auto simp: Let_def run_fail simp del: filter_append split: if_splits option.splits)
  obtain s2 where 2: "each (\<lambda>c. upsertValue (cvi_CharacteristicID c) w (Some (cvi_Value c)) None DiscriminatorCategorical) cs s1 = (Inr (), s2)"
    and 3: "each (\<lambda>n. upsertValue (nvi_CharacteristicID n) w None (Some (nvi_Value n)) DiscriminatorNumerical) ns s2 = (Inr (), s')"
    using rest none by (auto simp: Let_def elim: andThen_InrE)
  have ok1: "values_ok s1" and same: "characteristics s1 = characteristics s"
    using found assms(2) by auto
  have kinds: "right_kind s1 k i" if "(i, k) \<in> set valid" for i k
    using that found same by (auto simp: right_kind_def list_ex_iff)
  have sub: "set (?cids @ ?nids) \<subseteq> fst ` set valid" using none(1) by (auto simp: filter_empty_conv)
  note vk = valid_kinds [OF duplicates_none [OF dups] sub none(2) kinds]
  have "values_ok s2 \<and> characteristics s2 = characteristics s1"
    by (rule upserts_keep [OF 2 ok1, where cid = cvi_CharacteristicID]) (auto intro: vk(1))
  then show ?thesis
    using upserts_keep [OF 3, where cid = nvi_CharacteristicID and k = DiscriminatorNumerical and w = w] vk(2)
    by (auto simp: right_kind_def)
qed

text \<open>Bodies of transactions: what succeeds keeps the invariant.\<close>

definition succeeds_keeping :: "(catalog_db, catalog_err, 'a) act \<Rightarrow> bool" where
  "succeeds_keeping m \<longleftrightarrow> (\<forall>s x s'. m s = (Inr x, s') \<longrightarrow> values_ok s \<longrightarrow> values_ok s')"

lemma sk_andThen: "succeeds_keeping m \<Longrightarrow> (\<And>x. succeeds_keeping (k x)) \<Longrightarrow> succeeds_keeping (andThen m k)"
  unfolding succeeds_keeping_def by (metis andThen_InrE)

lemma sk_valueless: "guar valueless m \<Longrightarrow> succeeds_keeping m"
  using valueless_keeps by (fastforce simp: succeeds_keeping_def dest: guarD)

lemma sk_upserts: "succeeds_keeping (upsertCharacteristicValues w cs ns)"
  using upsertCharacteristicValues_keeps by (auto simp: succeeds_keeping_def)

lemma sk_createVersionInternal: "succeeds_keeping (createVersionInternal inp v t)"
  unfolding createVersionInternal_def
  by (intro sk_andThen sk_upserts; intro sk_valueless guar_intros)

lemma sk_case_prod: "(\<And>a b. succeeds_keeping (f a b)) \<Longrightarrow> succeeds_keeping (case p of (a, b) \<Rightarrow> f a b)"
  by (cases p) simp

lemma sk_createVariantInternal: "succeeds_keeping (createVariantInternal inp p t)"
  unfolding createVariantInternal_def
  by (intro sk_andThen sk_createVersionInternal; intro sk_valueless guar_intros)

lemma sk_transaction: "succeeds_keeping m \<Longrightarrow> guar (keeping values_ok) (transaction eB eC m)"
  by (rule value_rows.guar_keeping_transaction) (auto simp: succeeds_keeping_def)

interpretation catalog_values: catalog_invariant values_ok
proof
  show "guar (keeping values_ok) (CreateProductRow name visible ids inp t)" for name visible ids inp t
    unfolding CreateProductRow_def addCategories_def
    by (intro sk_transaction sk_andThen sk_case_prod sk_createVariantInternal; intro sk_valueless guar_intros)
  show "guar (keeping values_ok) (CreateProductVariantRow p inp t)" for p inp t
    unfolding CreateProductVariantRow_def
    by (intro sk_transaction sk_andThen sk_createVariantInternal; intro sk_valueless guar_intros)
  show "guar (keeping values_ok) (CreateProductVariantVersionRow v winp t)" for v winp t
    unfolding CreateProductVariantVersionRow_def
    by (intro sk_transaction sk_andThen sk_createVersionInternal; intro sk_valueless guar_intros)
  show "guar (keeping values_ok) (UpdateProductRow p b n dv)" for p b n dv
    unfolding UpdateProductRow_def chooseDefault_def by (intro valueless_keeping guar_intros)
  show "guar (keeping values_ok) (UpdateProductVariantRow v b)" for v b
    unfolding UpdateProductVariantRow_def Let_def
    by (intro valueless_keeping guar_intros valueless.guar_pg_insert) (auto simp: valueless_def grows_def pairs_defs image_map_all)
  show "guar (keeping values_ok) (CreateCategoryRow name d cats nums)" for name d cats nums
    unfolding CreateCategoryRow_def by (intro valueless_keeping guar_intros)
  show "guar (keeping values_ok) (createStandaloneCharacteristic i k name d u)" for i k name d u
    unfolding createStandaloneCharacteristic_def by (intro valueless_keeping guar_intros)
  show "guar (keeping values_ok) (RegisterTaxRate v)" "guar (keeping values_ok) (RegisterMedia v)" for v
    unfolding RegisterTaxRate_def RegisterMedia_def insert_one_def
    by (intro valueless_keeping guar_intros guarI; auto simp: valueless_def grows_def pairs_defs)+
qed

lemma filter_by_key: "distinct (map f xs) \<Longrightarrow> x \<in> set xs \<Longrightarrow> filter (\<lambda>y. f y = f x) xs = [x]"
proof (induction xs)
  case (Cons z zs)
  show ?case
  proof (cases "f z = f x")
    case True
    then have "z = x" "filter (\<lambda>y. f y = f x) zs = []" using Cons.prems by (auto simp: filter_empty_conv) (metis imageI)+
    then show ?thesis by simp
  next
    case False
    then show ?thesis using Cons by auto
  qed
qed simp

subsection \<open>Properties\<close>

text \<open>
  C38. Over any run of requests, deliveries and failures, the versions of a product variant are numbered from one
  without gaps or repetitions in the order they were stored; its current version is its own and the one with the highest
  number; and its product exists and has one of its own variants as the default.
\<close>

theorem catalog_shelves:
  assumes "catalog_step\<^sup>*\<^sup>* s s'" "shelves s" "v \<in> set (cvariants s')"
  shows "map kw_Version (version_list_of s' (kv_ID v)) = [1..int (length (version_list_of s' (kv_ID v)))] \<and>
    (\<exists>w \<in> set (cversions s'). kv_CurrentVersion v = Some (kw_ID w) \<and> kw_ProductVariantID w = kv_ID v \<and>
       kw_Version w = int (length (version_list_of s' (kv_ID v)))) \<and>
    (\<exists>p \<in> set (products s'). kp_ID p = kv_ProductID v \<and>
       (\<exists>d \<in> set (cvariants s'). kp_DefaultVariantID p = Some (kv_ID d) \<and> kv_ProductID d = kp_ID p))"
proof -
  have ok: "shelves s'" by (rule catalog_shelves.run_keeps [OF assms(1,2)])
  have n: "numbered_versions kw_ID kw_Version (version_list_of s' (kv_ID v)) (kv_CurrentVersion v)"
    using version_books_numbered [of kv_ID kv_CurrentVersion kw_ID kw_ProductVariantID kw_Version "cvariants s'" "cversions s'"] ok assms(3)
    by (simp add: shelves_def books_of_def version_list_of_def)
  obtain w where w: "w \<in> set (version_list_of s' (kv_ID v))" "kv_CurrentVersion v = Some (kw_ID w)"
    "kw_Version w = int (length (version_list_of s' (kv_ID v)))"
    by (rule numbered_current [OF n])
  have "w \<in> set (cversions s')" "kw_ProductVariantID w = kv_ID v" using w(1) by (simp_all add: version_list_of_def)
  moreover obtain p where p: "p \<in> set (products s')" "kp_ID p = kv_ProductID v" using ok assms(3) by (auto simp: shelves_def)
  moreover from p(1) have "default_of (cvariants s') p" using ok by (simp add: shelves_def list_all_iff)
  ultimately show ?thesis using w n unfolding default_of_def list_ex_iff numbered_versions_def by blast
qed

text \<open>
  C39. Over any run a characteristic value belongs to an existing version and to a characteristic of a category of
  that version's product, is the only value of the two, has the kind of its characteristic, and carries exactly the
  column of that kind: a string when categorical, a number when numerical.
\<close>

theorem values_fit_categories:
  assumes "catalog_step\<^sup>*\<^sup>* s s'" "values_ok s" "x \<in> set (charValues s')"
  shows "(\<exists>w v p h. w = kx_VersionID x \<and> (w, v) \<in> version_pairs s' \<and> (v, p) \<in> variant_pairs s' \<and> (p, kh_CategoryID h) \<in> link_pairs s' \<and>
      h \<in> set (characteristics s') \<and> kh_ID h = kx_CharacteristicID x \<and> kh_Discriminator h = kx_Discriminator x) \<and>
    (kx_Discriminator x = DiscriminatorCategorical) = (kx_StringValue x \<noteq> None) \<and>
    (kx_Discriminator x = DiscriminatorNumerical) = (kx_DoubleValue x \<noteq> None) \<and>
    filter (\<lambda>y. kx_CharacteristicID y = kx_CharacteristicID x \<and> kx_VersionID y = kx_VersionID x) (charValues s') = [x]"
proof -
  have ok: "values_ok s'" by (rule catalog_values.run_keeps [OF assms(1,2)])
  then have x: "value_ok s' x" using assms(3) by (simp add: values_ok_def list_all_iff)
  then obtain h where h: "h \<in> set (characteristics s')" "kh_ID h = kx_CharacteristicID x" "kh_Discriminator h = kx_Discriminator x"
    by (auto simp: value_ok_def list_ex_iff)
  have inj: "inj_on kh_ID (set (characteristics s'))" using ok by (simp add: values_ok_def distinct_map)
  obtain v p h' where "(kx_VersionID x, v) \<in> version_pairs s'" "(v, p) \<in> variant_pairs s'" "(p, kh_CategoryID h') \<in> link_pairs s'"
    "h' \<in> set (characteristics s')" "kh_ID h' = kx_CharacteristicID x"
    using x unfolding value_ok_def value_trigger_iff by blast
  moreover from this have "h' = h" using h inj by (metis inj_onD)
  moreover have "filter (\<lambda>y. kx_CharacteristicID y = kx_CharacteristicID x \<and> kx_VersionID y = kx_VersionID x) (charValues s') = [x]"
    using filter_by_key [of "\<lambda>x. (kx_CharacteristicID x, kx_VersionID x)" "charValues s'" x] ok assms(3) by (simp add: values_ok_def)
  moreover have "(kx_Discriminator x = DiscriminatorCategorical) = (kx_StringValue x \<noteq> None)"
    "(kx_Discriminator x = DiscriminatorNumerical) = (kx_DoubleValue x \<noteq> None)"
    using x by (auto simp: value_ok_def DiscriminatorCategorical_def DiscriminatorNumerical_def split: if_splits)
  ultimately show ?thesis using h by blast
qed

text \<open>What a page shows is in the table.\<close>

lemma pgList_nodes:
  assumes "pgList e rows key first skip asc s = (Inr conn, s')" "\<And>t fs. rows (t\<lparr>faults := fs\<rparr>) = rows t"
  shows "set (con_Nodes conn) \<subseteq> set (rows s)"
proof -
  obtain total s1 nodes s2 where 1: "totalCount e rows s = (Inr total, s1)" and 2: "nodesSQL e rows key asc first skip s1 = (Inr nodes, s2)"
    and c: "con_Nodes conn = nodes"
    using assms(1) unfolding pgList_def by (elim andThen_InrE) (auto simp: run_ret)
  have "rows s1 = rows s" using ext_gets_run [OF 1 [unfolded totalCount_def]] assms(2) by auto
  moreover have "set nodes \<subseteq> set (rows s1)"
    using 2 assms(2) [where t = s1] unfolding nodesSQL_def
    by (cases rule: ext_cases [of e "\<lambda>s. let sorted' = sort_key key (rows s); dir = (if asc then sorted' else rev sorted');
         k = (case skip of None \<Rightarrow> 0 | Some n \<Rightarrow> n)
       in if k < 0 \<or> (case first of None \<Rightarrow> False | Some n \<Rightarrow> n < 0) then (Inl e, s)
          else (Inr ((case first of None \<Rightarrow> id | Some n \<Rightarrow> take (nat n)) (drop (nat k) dir)), s)" s1])
      (auto simp: Let_def split: if_splits option.splits dest!: in_set_takeD in_set_dropD)
  ultimately show ?thesis using c by simp
qed

lemma ListProducts_visible:
  assumes "ListProducts rank first skip order asc category fv False s = (Inr conn, s')"
  shows "list_all kp_IsPubliclyVisible (con_Nodes conn)"
proof -
  have "set (con_Nodes conn) \<subseteq> set (product_rows category fv False s)"
    by (rule pgList_nodes [OF assms [unfolded ListProducts_def]]) (simp add: product_rows_def split: option.split)
  then show ?thesis by (auto simp: list_all_iff product_rows_def visible_to_def)
qed

lemma guest_refused: "\<not> isEmployee c \<Longrightarrow> \<exists>e. checkIsEmployee_cat c = fail e"
  by (auto simp: checkIsEmployee_cat_def isEmployee_def split: option.splits)

text \<open>
  C40. What someone who is not an employee is shown: the product asked for by its id, the list of all products and
  the one of a category show publicly visible products only, and the variants of a product are listed only when the
  product is publicly visible, and then only the publicly visible ones. The checks are on these four resolvers and
  not on the rows: the default variant of a publicly visible product is shown whether or not it is visible itself,
  and the entity lookups show any stored product and variant.
\<close>

theorem guest_visibility:
  assumes "\<not> isEmployee c"
  shows "(case Query_Product c i s of (Inl e, s') \<Rightarrow> True | (Inr p, s') \<Rightarrow> gp_IsPubliclyVisible p) \<and>
    (case Query_Products rank c fv first ord skip s of (Inl e, s') \<Rightarrow> True | (Inr conn, s') \<Rightarrow> list_all gp_IsPubliclyVisible (con_Nodes conn)) \<and>
    (case Category_Products rank c cat fv first ord skip s of (Inl e, s') \<Rightarrow> True | (Inr conn, s') \<Rightarrow> list_all gp_IsPubliclyVisible (con_Nodes conn)) \<and>
    (case Product_Variants c obj fv first vord skip s of (Inl e, s') \<Rightarrow> True
     | (Inr conn, s') \<Rightarrow> gp_IsPubliclyVisible obj \<and> list_all gv_IsPubliclyVisible (con_Nodes conn)) \<and>
    (faults s = [] \<longrightarrow> find (\<lambda>v. kv_ID v = gp_DefaultVariantID obj) (cvariants s) = Some v \<longrightarrow> gp_IsPubliclyVisible obj \<longrightarrow>
      fst (Product_DefaultVariant c obj s) = Inr (toProductVariant v)) \<and>
    (faults s = [] \<longrightarrow> find (\<lambda>p. kp_ID p = i) (products s) = Some p \<longrightarrow> fst (Entity_Product i s) = Inr (toProduct p)) \<and>
    (faults s = [] \<longrightarrow> find (\<lambda>v. kv_ID v = i) (cvariants s) = Some v \<longrightarrow>
      fst (Entity_ProductVariant i s) = Inr (toProductVariant v))"
proof (intro conjI impI)
  obtain e where refused: "checkIsEmployee_cat c = fail e" using guest_refused [OF assms] by blast
  show "case Query_Product c i s of (Inl e, s') \<Rightarrow> True | (Inr p, s') \<Rightarrow> gp_IsPubliclyVisible p"
    unfolding Query_Product_def refused run_andThen by (auto simp: run_ret run_fail toProduct_def split: prod.split sum.split if_splits)
  show "case Query_Products rank c fv first ord skip s of (Inl e, s') \<Rightarrow> True | (Inr conn, s') \<Rightarrow> list_all gp_IsPubliclyVisible (con_Nodes conn)"
    using ListProducts_visible [of rank first skip "fst (productOrder ord)" "snd (productOrder ord)" None fv s] assms
    unfolding Query_Products_def run_andThen
    by (auto simp: run_ret map_connection_def list_all_iff toProduct_def split: prod.split sum.split)
  show "case Category_Products rank c cat fv first ord skip s of (Inl e, s') \<Rightarrow> True | (Inr conn, s') \<Rightarrow> list_all gp_IsPubliclyVisible (con_Nodes conn)"
    using ListProducts_visible [of rank first skip "fst (productOrder ord)" "snd (productOrder ord)" "Some cat" fv s] assms
    unfolding Category_Products_def run_andThen
    by (auto simp: run_ret map_connection_def list_all_iff toProduct_def split: prod.split sum.split)
  show "case Product_Variants c obj fv first vord skip s of (Inl e, s') \<Rightarrow> True
     | (Inr conn, s') \<Rightarrow> gp_IsPubliclyVisible obj \<and> list_all gv_IsPubliclyVisible (con_Nodes conn)"
    using pgList_nodes [of CatDbError "variant_rows (gp_ID obj) fv False" kv_ID first skip "commonOrder_cat vord" s] assms
    unfolding Product_Variants_def ListProductVariants_def refused run_andThen
    by (auto simp: run_ret run_fail map_connection_def list_all_iff toProductVariant_def variant_rows_def visible_to_def
        split: prod.split sum.split if_splits)
qed (simp_all add: Product_DefaultVariant_def Entity_Product_def Entity_ProductVariant_def GetProductVariantRow_def
    GetProduct_def find_one_def run_andThen run_ret run_ext_quiet)

subsection \<open>A run\<close>

definition catalog_start :: catalog_db where
  "catalog_start = \<lparr>faults = [], outbox = [], fresh = (\<lambda>n. UUID (word_of_nat (n + 1))), minted = 3, clock = (\<lambda>n. 1000 * int n), reads = 0,
     products = [], cvariants = [], cversions = [], categories = [\<lparr>kc_ID = UUID 1, kc_Name = ''Tea'', kc_Description = []\<rparr>],
     characteristics =
       [\<lparr>kh_ID = UUID 2, kh_Discriminator = DiscriminatorCategorical, kh_Name = ''Origin'', kh_Description = [], kh_Unit = None, kh_CategoryID = UUID 1\<rparr>,
        \<lparr>kh_ID = UUID 3, kh_Discriminator = DiscriminatorNumerical, kh_Name = ''Grams'', kh_Description = [], kh_Unit = Some ''g'', kh_CategoryID = UUID 1\<rparr>],
     charValues = [], productCategories = [], versionMedias = [], taxMirror = [UUID 70], mediaMirror = [UUID 80]\<rparr>"

definition catalog_clerk :: ctx where
  "catalog_clerk = Some \<lparr>user_ID = UUID 9, user_Roles = [RoleEmployee]\<rparr>"

definition tea_input :: VersionInput where
  "tea_input = \<lparr>vin_Name = ''Green'', vin_Description = [], vin_RetailPrice = 500, vin_CanBeReturnedForDays = Some 14, vin_TaxRateID = UUID 70,
     vin_Weight = Fin 1 0, vin_MediaIDs = [UUID 80, UUID 80],
     vin_CategoricalValues = [\<lparr>cvi_CharacteristicID = UUID 2, cvi_Value = ''China''\<rparr>],
     vin_NumericalValues = [\<lparr>nvi_CharacteristicID = UUID 3, nvi_Value = Fin 100 0\<rparr>]\<rparr>"

definition tea_created :: catalog_db where
  "tea_created = snd (CreateProduct catalog_clerk ''tea'' True [UUID 1] \<lparr>van_IsPubliclyVisible = False, van_InitialVersion = tea_input\<rparr> catalog_start)"

lemma catalog_start_ok: "shelves catalog_start" "values_ok catalog_start"
  by (simp_all add: catalog_start_def shelves_def books_of_def version_books_def values_ok_def)

lemma clerk_passes: "checkIsEmployee_cat catalog_clerk = ret ()"
  by (simp add: checkIsEmployee_cat_def catalog_clerk_def FromContext_def IsEmployeeOrAdmin_def)

lemmas catalog_run_defs = CreateProduct_def CreateProductRow_def insertProduct_def addCategories_def require_def existsByID_cat_def
  linkCategory_def createVariantInternal_def insertVariant_def createVersionInternal_def maxVersion_def insertVersion_def
  upsertCharacteristicValues_def findValidCharacteristics_def version_categories_def value_trigger_def upsertValue_def wrong_list_def
  duplicates_def dedupeUUIDs_cat_def linkMedia_def setCurrentVersion_def setDefaultVariant_def transaction_def pg_generated_def pg_insert_def
  PublishCat_def sql_max_def map_all_def varchar_def int4_def int4_opt_def DiscriminatorCategorical_def DiscriminatorNumerical_def

lemma tea_rows:
  "cvariants tea_created = [\<lparr>kv_ID = UUID 6, kv_IsPubliclyVisible = False, kv_ProductID = UUID 4, kv_CurrentVersion = Some (UUID 7)\<rparr>]"
  unfolding tea_created_def
  by (simp add: catalog_run_defs clerk_passes run_simps run_andThen tea_input_def catalog_start_def Let_def)

lemma tea_values:
  "map kx_StringValue (charValues tea_created) = [Some ''China'', None]" "map kx_ID (charValues tea_created) = [UUID 8, UUID 9]"
  unfolding tea_created_def
  by (simp_all add: catalog_run_defs clerk_passes run_simps run_andThen tea_input_def catalog_start_def Let_def)

lemma tea_run: "catalog_step\<^sup>*\<^sup>* catalog_start tea_created"
  unfolding tea_created_def by (rule r_into_rtranclp, rule catalog_step.product, rule prod.collapse [symmetric])

lemma catalog_shelves_witness:
  "map kw_Version (version_list_of tea_created (UUID 6)) = [1..int (length (version_list_of tea_created (UUID 6)))] \<and>
   (\<exists>p \<in> set (products tea_created). \<exists>d \<in> set (cvariants tea_created). kp_DefaultVariantID p = Some (kv_ID d) \<and> kv_ProductID d = kp_ID p)"
  using catalog_shelves [OF tea_run catalog_start_ok(1), of "hd (cvariants tea_created)"] unfolding tea_rows by auto

lemma values_fit_categories_witness:
  "\<exists>x \<in> set (charValues tea_created). (kx_Discriminator x = DiscriminatorCategorical) = (kx_StringValue x \<noteq> None) \<and>
     filter (\<lambda>y. kx_CharacteristicID y = kx_CharacteristicID x \<and> kx_VersionID y = kx_VersionID x) (charValues tea_created) = [x]"
proof -
  have x: "hd (charValues tea_created) \<in> set (charValues tea_created)" using tea_values(2) by (intro hd_in_set) auto
  show ?thesis by (rule bexI [OF _ x]) (use values_fit_categories [OF tea_run catalog_start_ok(2) x] in blast)
qed

lemma tea_guest:
  "faults tea_created = []" "find (\<lambda>p. kp_ID p = UUID 4) (products tea_created) =
     Some \<lparr>kp_ID = UUID 4, kp_InternalName = ''tea'', kp_IsPubliclyVisible = True, kp_DefaultVariantID = Some (UUID 6)\<rparr>"
  unfolding tea_created_def
  by (simp_all add: catalog_run_defs clerk_passes run_simps run_andThen tea_input_def catalog_start_def Let_def)

text \<open>The only variant of the tea is hidden: its list is empty for a guest, and its default variant is shown.\<close>

lemma guest_visibility_witness:
  "(case Query_Product None (UUID 4) tea_created of (Inl e, s') \<Rightarrow> True | (Inr p, s') \<Rightarrow> gp_IsPubliclyVisible p) \<and>
   fst (Product_DefaultVariant None \<lparr>gp_ID = UUID 4, gp_InternalName = ''tea'', gp_IsPubliclyVisible = True,
     gp_DefaultVariantID = UUID 6\<rparr> tea_created) = Inr (toProductVariant (hd (cvariants tea_created))) \<and>
   \<not> gv_IsPubliclyVisible (toProductVariant (hd (cvariants tea_created)))"
proof -
  let ?obj = "\<lparr>gp_ID = UUID 4, gp_InternalName = ''tea'', gp_IsPubliclyVisible = True, gp_DefaultVariantID = UUID 6\<rparr>"
  have "\<not> isEmployee None" by (simp add: isEmployee_def FromContext_def)
  from guest_visibility [OF this, where i = "UUID 4" and s = tea_created and obj = ?obj and v = "hd (cvariants tea_created)"]
  show ?thesis by (simp add: tea_guest tea_rows toProductVariant_def)
qed

end
