(* ===== verification/Catalog_Order.thy ===== *)
theory Catalog_Order
  imports Catalog_Claims Calm Order_Events Go_Json
begin

text \<open>
  The catalog and the order service together. The order service keeps, per product variant, the version it
  was told last (\<open>onProductVariantVersionCreated\<close>) with a price that is an unsigned 32-bit number, and a
  visibility it expects to be told as a string, while the catalog sends a boolean.
\<close>

subsection \<open>What travels\<close>

text \<open>\<open>encoding/json\<close> into a \<open>uint32\<close>.\<close>

definition json_u32 :: "int \<Rightarrow> u32 option" where
  "json_u32 n = (if 0 \<le> n \<and> n < 2 ^ 32 then Some (word_of_int n) else None)"

definition version_body :: "VersionDTO \<Rightarrow> ProductVariantVersionEventData event_body" where
  "version_body d = (case json_u32 (wd_RetailPrice d) of
     None \<Rightarrow> WrongShape
   | Some price \<Rightarrow> Decoded \<lparr>env_Topic = TopicProductVariantVersionCreated,
       env_Data = \<lparr>pve_ID = wd_ID d, pve_RetailPrice = price, pve_TaxRateID = wd_TaxRateID d, pve_ProductVariantID = wd_ProductVariantID d\<rparr>\<rparr>)"

text \<open>The update as JSON, and what the order service's struct makes of it; \<open>show_id\<close> and \<open>read_id\<close> are the uuid library's.\<close>

definition update_json :: "(uuid \<Rightarrow> string) \<Rightarrow> UpdatedVariantDTO \<Rightarrow> json" where
  "update_json show_id d = JObj [(''id'', JStr (show_id (ud_ID d))), (''isPubliclyVisible'', JBool (ud_IsPubliclyVisible d))]"

definition update_body :: "(string \<Rightarrow> uuid option) \<Rightarrow> json \<Rightarrow> UpdateProductVariantEventData event_body" where
  "update_body read_id j = (case struct_members j of
     None \<Rightarrow> WrongShape
   | Some kvs \<Rightarrow> (case (Option.bind (string_field ''id'' kvs) read_id, string_field ''isPubliclyVisible'' kvs) of
       (Some i, Some v) \<Rightarrow> Decoded \<lparr>env_Topic = TopicProductVariantUpdated, env_Data = \<lparr>upe_ID = i, upe_IsPubliclyVisible = v\<rparr>\<rparr>
     | _ \<Rightarrow> WrongShape))"

text \<open>The deliveries of the catalog's events to the order service, which subscribes to two of them.\<close>

fun order_hears :: "(uuid \<Rightarrow> string) \<Rightarrow> (string \<Rightarrow> uuid option) \<Rightarrow> catalog_event \<Rightarrow> order_db \<Rightarrow> int \<times> order_db" where
  "order_hears show_id read_id (VersionCreated d) s =
     handle TopicProductVariantVersionCreated onProductVariantVersionCreated
       \<lparr>dl_ContentType = ''application/json'', dl_Body = version_body d\<rparr> s"
| "order_hears show_id read_id (VariantUpdated d) s =
     handle TopicProductVariantUpdated onProductVariantUpdated
       \<lparr>dl_ContentType = ''application/json'', dl_Body = update_body read_id (update_json show_id d)\<rparr> s"
| "order_hears show_id read_id _ s = (200, s)"

definition order_after :: "(uuid \<Rightarrow> string) \<Rightarrow> (string \<Rightarrow> uuid option) \<Rightarrow> catalog_event list \<Rightarrow> order_db \<Rightarrow> order_db" where
  "order_after show_id read_id = fold (\<lambda>e s. snd (order_hears show_id read_id e s))"

subsection \<open>The order service\<close>

lemma json_media: "EqualFold (TrimSpace ''application/json'') ''application/json''"
  by (simp add: EqualFold_def TrimSpace_def is_space_def)

lemma bool_is_no_string: "update_body read_id (update_json show_id d) = WrongShape"
proof -
  have "string_field ''isPubliclyVisible'' [(''id'', JStr x), (''isPubliclyVisible'', JBool b)] = None" for x b
    by (simp add: string_field_def members_def EqualFold_def ascii_lower_def)
  then show ?thesis by (simp add: update_body_def update_json_def split: option.split)
qed

lemma update_refused: "order_hears show_id read_id (VariantUpdated d) s = (422, s)"
  by (simp add: handle_def decodeEnvelope_def json_media bool_is_no_string)

definition sold :: "VersionDTO \<Rightarrow> ProductVariant" where
  "sold d = \<lparr>pv_ID = wd_ProductVariantID d, pv_CurrentVersion = \<lparr>pvv_ID = wd_ID d, pvv_Price = word_of_int (wd_RetailPrice d),
     pvv_TaxRateID = wd_TaxRateID d\<rparr>, pv_IsPubliclyVisible = BsonBool True\<rparr>"

fun version_news :: "catalog_event \<Rightarrow> VersionDTO list" where
  "version_news (VersionCreated d) = [d]"
| "version_news _ = []"

definition heard :: "order_db \<Rightarrow> (uuid \<Rightarrow> ProductVariant option) \<Rightarrow> bool" where
  "heard s f \<longleftrightarrow> faults s = [] \<and> (\<forall>i. find (\<lambda>p. pv_ID p = i) (productVariants s) = f i) \<and>
     list_all (\<lambda>p. pv_IsPubliclyVisible p = BsonBool True) (productVariants s)"

lemma onVersion_heard:
  assumes "heard s f" and wf: "\<And>i p. f i = Some p \<Longrightarrow> pv_ID p = i"
  shows "fst (onProductVariantVersionCreated m s) = Inr () \<and>
    heard (snd (onProductVariantVersionCreated m s)) (f (pve_ProductVariantID m := Some \<lparr>pv_ID = pve_ProductVariantID m,
      pv_CurrentVersion = \<lparr>pvv_ID = pve_ID m, pvv_Price = pve_RetailPrice m, pvv_TaxRateID = pve_TaxRateID m\<rparr>, pv_IsPubliclyVisible = BsonBool True\<rparr>))"
proof (cases "f (pve_ProductVariantID m)")
  case None
  let ?i = "pve_ProductVariantID m"
  have q: "faults s = []" and none: "find (\<lambda>p. pv_ID p = ?i) (productVariants s) = None" using assms(1) None by (simp_all add: heard_def)
  then have "?i \<notin> pv_ID ` set (productVariants s)" by (auto simp: find_None_iff)
  then show ?thesis
    using assms(1) q none unfolding onProductVariantVersionCreated_def GetProductVariant_def InsertProductVariant_def find_one_def insert_one_def heard_def
    by (auto simp: run_simps run_andThen Let_def find_append split: option.splits)
next
  case (Some p)
  let ?i = "pve_ProductVariantID m" and ?v = "\<lparr>pvv_ID = pve_ID m, pvv_Price = pve_RetailPrice m, pvv_TaxRateID = pve_TaxRateID m\<rparr>"
  have q: "faults s = []" and found: "find (\<lambda>p. pv_ID p = ?i) (productVariants s) = Some p" using assms(1) Some by (simp_all add: heard_def)
  have "p \<in> set (productVariants s)" using found by (auto simp: find_Some_iff in_set_conv_nth)
  then have p: "pv_IsPubliclyVisible p = BsonBool True" using assms(1) by (simp add: heard_def list_all_iff)
  have "snd (onProductVariantVersionCreated m s) = productVariants_update (map_first (\<lambda>p. pv_ID p = ?i) (\<lambda>p. p\<lparr>pv_CurrentVersion := ?v\<rparr>)) s"
    "fst (onProductVariantVersionCreated m s) = Inr ()"
    using q found unfolding onProductVariantVersionCreated_def GetProductVariant_def UpdateProductVariantVersion_def find_one_def update_one_def
    by (simp_all add: run_simps run_andThen Let_def)
  moreover have "find (\<lambda>p. pv_ID p = i) (map_first (\<lambda>p. pv_ID p = ?i) (\<lambda>p. p\<lparr>pv_CurrentVersion := ?v\<rparr>) (productVariants s)) =
      (if i = ?i then Some (p\<lparr>pv_CurrentVersion := ?v\<rparr>) else find (\<lambda>p. pv_ID p = i) (productVariants s))" for i
    using find_map_first_same [OF found, of "\<lambda>p. p\<lparr>pv_CurrentVersion := ?v\<rparr>"] wf [OF Some]
      find_map_first_other [of "\<lambda>p. pv_ID p = i" "\<lambda>p. pv_ID p = ?i" "\<lambda>p. p\<lparr>pv_CurrentVersion := ?v\<rparr>"] by auto
  moreover have "p\<lparr>pv_CurrentVersion := ?v\<rparr> = \<lparr>pv_ID = ?i, pv_CurrentVersion = ?v, pv_IsPubliclyVisible = BsonBool True\<rparr>"
    using p wf [OF Some] by (cases p) simp
  moreover have "list_all (\<lambda>p. pv_IsPubliclyVisible p = BsonBool True) (map_first (\<lambda>p. pv_ID p = ?i) (\<lambda>p. p\<lparr>pv_CurrentVersion := ?v\<rparr>) ps)"
    if "list_all (\<lambda>p. pv_IsPubliclyVisible p = BsonBool True) ps" for ps
    using that by (induction ps) auto
  ultimately show ?thesis using assms(1) q by (auto simp: heard_def)
qed

text \<open>What the order service sells after a sequence of announcements: the last version with a price it can read.\<close>

definition sellable :: "VersionDTO \<Rightarrow> bool" where
  "sellable d \<longleftrightarrow> 0 \<le> wd_RetailPrice d \<and> wd_RetailPrice d < 2 ^ 32"

fun last_sold :: "VersionDTO list \<Rightarrow> uuid \<Rightarrow> ProductVariant option" where
  "last_sold [] i = None"
| "last_sold (d # ds) i = (case last_sold ds i of
     Some p \<Rightarrow> Some p
   | None \<Rightarrow> if wd_ProductVariantID d = i \<and> sellable d then Some (sold d) else None)"

lemma last_sold_snoc:
  "last_sold (ds @ [d]) i = (if wd_ProductVariantID d = i \<and> sellable d then Some (sold d) else last_sold ds i)"
  by (induction ds) (auto split: option.splits)

lemma last_sold_id: "last_sold ds i = Some p \<Longrightarrow> pv_ID p = i"
  by (induction ds i rule: last_sold.induct) (auto simp: sold_def split: option.splits if_splits)

lemma order_after_heard:
  assumes "faults s = []" "productVariants s = []"
  shows "heard (order_after show_id read_id es s) (last_sold (concat (map version_news es)))"
proof (induction es rule: rev_induct)
  case Nil
  then show ?case using assms by (simp add: order_after_def heard_def)
next
  case (snoc e es)
  let ?s = "order_after show_id read_id es s" and ?f = "last_sold (concat (map version_news es))"
  have step: "order_after show_id read_id (es @ [e]) s = snd (order_hears show_id read_id e ?s)" by (simp add: order_after_def)
  show ?case
  proof (cases e)
    case (VersionCreated d)
    have news: "last_sold (concat (map version_news (es @ [e]))) = (if sellable d then ?f (wd_ProductVariantID d := Some (sold d)) else ?f)"
      by (rule ext) (simp add: VersionCreated last_sold_snoc)
    show ?thesis
    proof (cases "sellable d")
      case True
      let ?m = "\<lparr>pve_ID = wd_ID d, pve_RetailPrice = word_of_int (wd_RetailPrice d), pve_TaxRateID = wd_TaxRateID d, pve_ProductVariantID = wd_ProductVariantID d\<rparr>"
      have heard': "fst (onProductVariantVersionCreated ?m ?s) = Inr ()" "heard (snd (onProductVariantVersionCreated ?m ?s))
          (?f (wd_ProductVariantID d := Some (sold d)))"
        using onVersion_heard [of ?s ?f ?m] snoc last_sold_id by (simp_all add: sold_def)
      have "snd (order_hears show_id read_id e ?s) = snd (onProductVariantVersionCreated ?m ?s)"
        using True heard'(1)
        by (cases "onProductVariantVersionCreated ?m ?s")
          (simp add: VersionCreated handle_def decodeEnvelope_def json_media version_body_def json_u32_def sellable_def)
      then show ?thesis using heard'(2) True unfolding step news by (simp add: fun_upd_def)
    next
      case False
      then have "version_body d = WrongShape" by (simp add: version_body_def json_u32_def sellable_def)
      then show ?thesis using snoc False unfolding step news by (simp add: VersionCreated handle_def decodeEnvelope_def json_media)
    qed
  next
    case (VariantUpdated d)
    have "snd (order_hears show_id read_id e ?s) = ?s" unfolding VariantUpdated update_refused by simp
    then show ?thesis using snoc unfolding step by (simp add: VariantUpdated)
  qed (use snoc step in simp_all)
qed

subsection \<open>The catalog\<close>

text \<open>A request or delivery when every outside call is answered.\<close>

inductive catalog_request :: "catalog_db \<Rightarrow> catalog_db \<Rightarrow> bool" where
  category: "CreateCategory c name d cats nums s = (rc, s') \<Longrightarrow> catalog_request s s'"
| categorical: "CreateCategoricalCategoryCharacteristic c i name d s = (rh, s') \<Longrightarrow> catalog_request s s'"
| numerical: "CreateNumericalCategoryCharacteristic c i name d u s = (rh, s') \<Longrightarrow> catalog_request s s'"
| product: "CreateProduct c name visible ids inp s = (rp, s') \<Longrightarrow> catalog_request s s'"
| variant: "CreateProductVariant c p inp s = (rv, s') \<Longrightarrow> catalog_request s s'"
| version: "CreateProductVariantVersion_cat c v winp s = (rw, s') \<Longrightarrow> catalog_request s s'"
| update_product: "UpdateProduct c p b n dv s = (rp, s') \<Longrightarrow> catalog_request s s'"
| update_variant: "UpdateProductVariant c v b s = (rv, s') \<Longrightarrow> catalog_request s s'"
| tax_rate: "onTaxRateCreated x s = (ru, s') \<Longrightarrow> catalog_request s s'"
| media: "onMediaCreated x s = (ru, s') \<Longrightarrow> catalog_request s s'"

lemma catalog_request_steps: "catalog_request\<^sup>*\<^sup>* s s' \<Longrightarrow> catalog_step\<^sup>*\<^sup>* s s'"
  by (induction rule: rtranclp_induct) (auto elim!: catalog_request.cases intro: rtranclp.rtrancl_into_rtrancl catalog_step.intros)

lemma calmly_catalog:
  "calmly (require e ids i)" "calmly (linkCategory p c)" "calmly (insertProduct name b)" "calmly (insertVariant b p)"
  "calmly (setCurrentVersion v w)" "calmly (setDefaultVariant p v)" "calmly (maxVersion v)" "calmly (insertVersion inp n v t)"
  "calmly (linkMedia w m)" "calmly (upsertValue h w x d k)" "calmly (findValidCharacteristics w hs)" "calmly (chooseDefault dv q)"
  "calmly (saveProduct q)" "calmly (categoryIDsForProduct i)" "calmly (insertCategory name desc)" "calmly (insertCharacteristic c k name desc u)"
  "calmly (checkIsEmployee_cat cx)" "calmly (parseEventID ev)"
  unfolding require_def existsByID_cat_def linkCategory_def insertProduct_def insertVariant_def setCurrentVersion_def setDefaultVariant_def
    maxVersion_def insertVersion_def linkMedia_def upsertValue_def findValidCharacteristics_def chooseDefault_def saveProduct_def
    categoryIDsForProduct_def insertCategory_def insertCharacteristic_def checkIsEmployee_cat_def parseEventID_def Let_def
  by (intro calm_intros; simp split: if_split)+

lemma calmly_bodies:
  "calmly (createVersionInternal inp v t)" "calmly (createVariantInternal vinp p t)" "calmly (addCategories p cs)"
  unfolding createVersionInternal_def createVariantInternal_def addCategories_def upsertCharacteristicValues_def Let_def
  by (intro calm_intros calmly_catalog)+

lemma mute_catalog [guar_intros]:
  "guar mute (require e ids i)" "guar mute (linkCategory p c)" "guar mute (insertProduct name b)" "guar mute (insertVariant b p)"
  "guar mute (setCurrentVersion v w)" "guar mute (setDefaultVariant p v)" "guar mute (maxVersion v)" "guar mute (insertVersion inp n v t)"
  "guar mute (linkMedia w m)" "guar mute (upsertValue h w x d k)" "guar mute (findValidCharacteristics w hs)"
  unfolding require_def existsByID_cat_def linkCategory_def insertProduct_def insertVariant_def setCurrentVersion_def setDefaultVariant_def
    maxVersion_def insertVersion_def linkMedia_def upsertValue_def findValidCharacteristics_def Let_def
  by (intro guar_intros mute.guar_pg_generated mute.guar_pg_insert; simp add: mute_def)+

lemma mute_bodies [guar_intros]:
  "guar mute (createVersionInternal inp v t)" "guar mute (createVariantInternal vinp p t)" "guar mute (addCategories p cs)"
  unfolding createVersionInternal_def createVariantInternal_def addCategories_def upsertCharacteristicValues_def Let_def
  by (intro guar_intros)+

text \<open>A calm transaction that sends nothing stores what its body stores, or nothing.\<close>

lemma transaction_news:
  assumes "transaction eB eC m s = (r, s')" "calmly m" "guar mute m" "faults s = []"
    and "\<And>x. m s = (Inr x, s') \<Longrightarrow> cversions s' = cversions s @ new x"
  shows "faults s' = [] \<and> outbox s' = outbox s \<and> cversions s' = cversions s @ (case r of Inl e \<Rightarrow> [] | Inr x \<Rightarrow> new x)"
proof -
  note ran = transaction_calm [OF assms(2,4,1)]
  have "mute s s'" by (rule guarD [OF mute.guar_transaction [OF assms(3)] assms(1)])
  moreover have "cversions s' = cversions s @ (case r of Inl e \<Rightarrow> [] | Inr x \<Rightarrow> new x)"
  proof (cases r)
    case (Inl e)
    then have "io.more s' = io.more s" using ran by simp
    then show ?thesis using Inl by (cases s; cases s'; simp)
  qed (use ran assms(5) in simp)
  ultimately show ?thesis using ran by (simp add: mute_def)
qed

lemma CreateProductRow_news:
  assumes "CreateProductRow name visible ids inp t s = (r, s')" "faults s = []"
  shows "faults s' = [] \<and> outbox s' = outbox s \<and> cversions s' = cversions s @ (case r of Inl e \<Rightarrow> [] | Inr (p, v, c, ids) \<Rightarrow> [crv_Version c])"
proof -
  have new: "cversions s' = cversions s @ (case x of (p, v, c, ids) \<Rightarrow> [crv_Version c])"
    if run: "andThen (insertProduct name visible) (\<lambda>product.
      andThen (addCategories product ids) (\<lambda>_.
      andThen (createVariantInternal inp product t) (\<lambda>(variant, created).
      andThen (setDefaultVariant product (kv_ID variant)) (\<lambda>_.
        ret (\<lparr>kp_ID = product, kp_InternalName = name, kp_IsPubliclyVisible = visible, kp_DefaultVariantID = Some (kv_ID variant)\<rparr>,
             variant, created, dedupeUUIDs_cat ids))))) s = (Inr x, s')" for x
  proof -
    obtain p s1 s2 v c s3 where 1: "insertProduct name visible s = (Inr p, s1)" and 2: "addCategories p ids s1 = (Inr (), s2)"
      and 3: "createVariantInternal inp p t s2 = (Inr (v, c), s3)" and 4: "setDefaultVariant p (kv_ID v) s3 = (Inr (), s')"
      and x: "fst (snd (snd x)) = c"
      using run by (elim andThen_InrE) (auto simp: run_ret elim!: andThen_InrE)
    show ?thesis
      using insertProduct_run [OF 1] guarD [OF shelf_addCategories 2] createVariantInternal_run [OF 3] setDefaultVariant_run [OF 4] x
      by (cases x) (simp add: shelf_def)
  qed
  show ?thesis
    by (rule transaction_news [where new = "\<lambda>(p, v, c, ids). [crv_Version c]", OF assms(1) [unfolded CreateProductRow_def] _ _ assms(2) new])
      (intro calm_intros calmly_catalog calmly_bodies guar_intros | assumption)+
qed

lemma CreateProductVariantRow_news:
  assumes "CreateProductVariantRow p inp t s = (r, s')" "faults s = []"
  shows "faults s' = [] \<and> outbox s' = outbox s \<and> cversions s' = cversions s @ (case r of Inl e \<Rightarrow> [] | Inr x \<Rightarrow> [crv_Version (snd x)])"
proof (rule transaction_news [OF assms(1) [unfolded CreateProductVariantRow_def] _ _ assms(2)])
  fix x
  assume run: "andThen (require (ProductMissing p) (\<lambda>s. map kp_ID (products s)) p) (\<lambda>_. createVariantInternal inp p t) s = (Inr x, s')"
  obtain s1 v c where 1: "require (ProductMissing p) (\<lambda>s. map kp_ID (products s)) p s = (Inr (), s1)"
    and 2: "createVariantInternal inp p t s1 = (Inr (v, c), s')" and x: "x = (v, c)"
    using run by (elim andThen_InrE) (metis old.unit.exhaust prod.collapse)
  show "cversions s' = cversions s @ [crv_Version (snd x)]"
    using guarD [OF shelf_require 1] createVariantInternal_run [OF 2] x by (simp add: shelf_def)
qed (intro calm_intros calmly_catalog calmly_bodies guar_intros)+

lemma CreateProductVariantVersionRow_news:
  assumes "CreateProductVariantVersionRow i inp t s = (r, s')" "faults s = []"
  shows "faults s' = [] \<and> outbox s' = outbox s \<and> cversions s' = cversions s @ (case r of Inl e \<Rightarrow> [] | Inr c \<Rightarrow> [crv_Version c])"
proof (rule transaction_news [OF assms(1) [unfolded CreateProductVariantVersionRow_def] _ _ assms(2)])
  fix c
  assume run: "andThen (require (VariantMissing i) (\<lambda>s. map kv_ID (cvariants s)) i) (\<lambda>_.
      andThen (createVersionInternal inp i t) (\<lambda>created.
      andThen (setCurrentVersion i (kw_ID (crv_Version created))) (\<lambda>_. ret created))) s = (Inr c, s')"
  obtain s1 s2 where 1: "require (VariantMissing i) (\<lambda>s. map kv_ID (cvariants s)) i s = (Inr (), s1)"
    and 2: "createVersionInternal inp i t s1 = (Inr c, s2)" and 3: "setCurrentVersion i (kw_ID (crv_Version c)) s2 = (Inr (), s')"
    using run by (elim andThen_InrE) (auto simp: run_ret)
  show "cversions s' = cversions s @ [crv_Version c]"
    using guarD [OF shelf_require 1] createVersionInternal_run [OF 2, unfolded Let_def] setCurrentVersion_run [OF 3] by (simp add: shelf_def)
qed (intro calm_intros calmly_catalog calmly_bodies guar_intros)+

text \<open>Every stored version was announced, in the order stored; the lists of media aside.\<close>

definition strip :: "VersionDTO \<Rightarrow> VersionDTO" where
  "strip d = d\<lparr>wd_MediaIDs := []\<rparr>"

definition row_news :: "CVersionRow \<Rightarrow> VersionDTO" where
  "row_news w = versionCreatedEvent \<lparr>crv_Version = w, crv_MediaIDs = []\<rparr>"

definition told_versions :: "catalog_db \<Rightarrow> bool" where
  "told_versions s \<longleftrightarrow> faults s = [] \<and> map strip (concat (map version_news (outbox s))) = map row_news (cversions s)"

lemma strip_news [simp]: "strip (versionCreatedEvent c) = row_news (crv_Version c)"
  by (simp add: strip_def row_news_def versionCreatedEvent_def Let_def)

text \<open>Requests that neither store nor announce a version.\<close>

definition no_version :: "catalog_db \<Rightarrow> catalog_db \<Rightarrow> bool" where
  "no_version s s' \<longleftrightarrow> cversions s' = cversions s \<and> concat (map version_news (outbox s')) = concat (map version_news (outbox s))"

interpretation no_version: effect_rel_tx no_version
  by unfold_locales (auto simp: no_version_def)

lemma told_no_version: "guar no_version m \<Longrightarrow> calmly m \<Longrightarrow> m s = (r, s') \<Longrightarrow> told_versions s \<Longrightarrow> told_versions s'"
  by (drule guarD, assumption, drule calmlyD, assumption) (auto simp: told_versions_def no_version_def)

lemma no_version_stock: "guar stock m \<Longrightarrow> guar mute m \<Longrightarrow> guar no_version m"
  by (auto simp: guar_def stock_def mute_def no_version_def)

lemma no_version_writes [guar_intros]:
  "guar no_version (require e ids i)" "guar no_version (insertCharacteristic c k name desc u)" "guar no_version (insertCategory name desc)"
  "guar no_version (chooseDefault dv q)" "guar no_version (saveProduct q)" "guar no_version (categoryIDsForProduct i)"
  "guar no_version (find_one e e' get P)" "guar no_version (checkIsEmployee_cat cx)"
  unfolding require_def existsByID_cat_def insertCharacteristic_def insertCategory_def chooseDefault_def saveProduct_def categoryIDsForProduct_def
    find_one_def checkIsEmployee_cat_def Let_def
  by (intro guar_intros no_version.guar_pg_generated no_version.guar_pg_insert guarI; simp add: no_version_def split: option.split)+

lemma no_version_rows:
  "guar no_version (CreateCategoryRow name d cats nums)" "guar no_version (createStandaloneCharacteristic i k name d u)"
  "guar no_version (UpdateProductRow p b n dv)" "guar no_version (UpdateProductVariantRow v b)"
  "guar no_version (RegisterTaxRate v)" "guar no_version (RegisterMedia v)"
  unfolding CreateCategoryRow_def createStandaloneCharacteristic_def UpdateProductRow_def UpdateProductVariantRow_def RegisterTaxRate_def
    RegisterMedia_def insert_one_def Let_def
  by (intro guar_intros no_version.guar_pg_insert guarI; simp add: no_version_def)+

lemma calmly_rows:
  "calmly (CreateCategoryRow name d cats nums)" "calmly (createStandaloneCharacteristic i k name d u)"
  "calmly (UpdateProductRow p b n dv)" "calmly (UpdateProductVariantRow v b)" "calmly (RegisterTaxRate v)" "calmly (RegisterMedia v)"
  unfolding CreateCategoryRow_def createStandaloneCharacteristic_def UpdateProductRow_def UpdateProductVariantRow_def RegisterTaxRate_def
    RegisterMedia_def insert_one_def Let_def
  by (intro calmly_transaction calm_intros calmly_catalog calmly_ext; simp)+

lemmas quiet_requests = CreateCategory_def CreateCategoricalCategoryCharacteristic_def CreateCategoricalCharacteristic_def
  CreateNumericalCategoryCharacteristic_def CreateNumericalCharacteristic_def UpdateProduct_def UpdateProductVariant_def
  onTaxRateCreated_def onMediaCreated_def parseEventID_def PublishCat_def

lemma no_version_requests:
  "guar no_version (CreateCategory c name d cats nums)" "guar no_version (CreateCategoricalCategoryCharacteristic c i name d)"
  "guar no_version (CreateNumericalCategoryCharacteristic c i name d u)" "guar no_version (UpdateProduct c p b n dv)"
  "guar no_version (UpdateProductVariant c v b)" "guar no_version (onTaxRateCreated x)" "guar no_version (onMediaCreated x)"
  unfolding quiet_requests
  by (intro guar_intros no_version_rows no_version.guar_emit; simp add: no_version_def)+

lemma calmly_requests:
  "calmly (CreateCategory c name d cats nums)" "calmly (CreateCategoricalCategoryCharacteristic c i name d)"
  "calmly (CreateNumericalCategoryCharacteristic c i name d u)" "calmly (UpdateProduct c p b n dv)"
  "calmly (UpdateProductVariant c v b)" "calmly (onTaxRateCreated x)" "calmly (onMediaCreated x)"
  unfolding quiet_requests
  by (intro calm_intros calmly_catalog calmly_rows calmly_emit)+

lemma checkIsEmployee_run: "checkIsEmployee_cat c s = (r, s') \<Longrightarrow> s' = s"
  by (auto simp: checkIsEmployee_cat_def ret_def fail_def split: option.splits if_splits)

lemma publish_quiet: "faults s = [] \<Longrightarrow> PublishCat e s = (Inr (), s\<lparr>outbox := outbox s @ [e]\<rparr>)"
  by (simp add: PublishCat_def run_simps)

lemma CreateProduct_tells:
  assumes "CreateProduct c name visible ids inp s = (r, s')" "told_versions s"
  shows "told_versions s'"
proof -
  let ?s = "s\<lparr>reads := Suc (reads s)\<rparr>"
  obtain r1 s1 where row: "CreateProductRow name visible ids inp (clock s (reads s)) ?s = (r1, s1)" by fastforce
  have q: "faults ?s = []" using assms(2) by (simp add: told_versions_def)
  note ran = CreateProductRow_news [OF row q]
  obtain re se where e: "checkIsEmployee_cat c s = (re, se)" by fastforce
  then have "se = s" by (rule checkIsEmployee_run)
  then show ?thesis
    using assms e row ran unfolding CreateProduct_def run_andThen
    by (cases re; cases r1) (auto simp: run_now publish_quiet run_ret told_versions_def)
qed

lemma CreateProductVariant_tells:
  assumes "CreateProductVariant c p inp s = (r, s')" "told_versions s"
  shows "told_versions s'"
proof -
  let ?s = "s\<lparr>reads := Suc (reads s)\<rparr>"
  obtain r1 s1 where row: "CreateProductVariantRow p inp (clock s (reads s)) ?s = (r1, s1)" by fastforce
  have q: "faults ?s = []" using assms(2) by (simp add: told_versions_def)
  note ran = CreateProductVariantRow_news [OF row q]
  obtain re se where e: "checkIsEmployee_cat c s = (re, se)" by fastforce
  then have "se = s" by (rule checkIsEmployee_run)
  then show ?thesis
    using assms e row ran unfolding CreateProductVariant_def run_andThen
    by (cases re; cases r1) (auto simp: run_now publish_quiet run_ret told_versions_def)
qed

lemma CreateProductVariantVersion_tells:
  assumes "CreateProductVariantVersion_cat c i inp s = (r, s')" "told_versions s"
  shows "told_versions s'"
proof -
  let ?s = "s\<lparr>reads := Suc (reads s)\<rparr>"
  obtain r1 s1 where row: "CreateProductVariantVersionRow i inp (clock s (reads s)) ?s = (r1, s1)" by fastforce
  have q: "faults ?s = []" using assms(2) by (simp add: told_versions_def)
  note ran = CreateProductVariantVersionRow_news [OF row q]
  obtain re se where e: "checkIsEmployee_cat c s = (re, se)" by fastforce
  then have "se = s" by (rule checkIsEmployee_run)
  then show ?thesis
    using assms e row ran unfolding CreateProductVariantVersion_cat_def run_andThen
    by (cases re; cases r1) (auto simp: run_now publish_quiet run_ret told_versions_def)
qed

lemma request_tells:
  assumes "catalog_request s s'" "told_versions s"
  shows "told_versions s'"
  using assms(1)
proof cases
  case (product c name visible ids inp rp)
  then show ?thesis using CreateProduct_tells assms(2) by blast
next
  case (variant c p inp rv)
  then show ?thesis using CreateProductVariant_tells assms(2) by blast
next
  case (version c v winp rw)
  then show ?thesis using CreateProductVariantVersion_tells assms(2) by blast
qed (rule told_no_version [OF no_version_requests(1) calmly_requests(1) _ assms(2)] told_no_version [OF no_version_requests(2) calmly_requests(2) _ assms(2)]
  told_no_version [OF no_version_requests(3) calmly_requests(3) _ assms(2)] told_no_version [OF no_version_requests(4) calmly_requests(4) _ assms(2)]
  told_no_version [OF no_version_requests(5) calmly_requests(5) _ assms(2)] told_no_version [OF no_version_requests(6) calmly_requests(6) _ assms(2)]
  told_no_version [OF no_version_requests(7) calmly_requests(7) _ assms(2)], assumption)+

lemma requests_tell_versions: "catalog_request\<^sup>*\<^sup>* s s' \<Longrightarrow> told_versions s \<Longrightarrow> told_versions s'"
  by (induction rule: rtranclp_induct) (auto intro: request_tells)

subsection \<open>Following\<close>

lemma sold_strip [simp]: "sold (strip d) = sold d" "sellable (strip d) = sellable d" "wd_ProductVariantID (strip d) = wd_ProductVariantID d"
  by (simp_all add: sold_def sellable_def strip_def)

lemma last_sold_strip: "last_sold (map strip ds) = last_sold ds"
  by (rule ext, induction ds) (simp_all split: option.split)

lemma row_news_fields [simp]:
  "wd_ProductVariantID (row_news w) = kw_ProductVariantID w" "wd_RetailPrice (row_news w) = kw_RetailPrice w"
  "wd_ID (row_news w) = kw_ID w" "wd_TaxRateID (row_news w) = kw_TaxRateID w"
  by (simp_all add: row_news_def versionCreatedEvent_def Let_def)

definition readable_price :: "CVersionRow \<Rightarrow> bool" where
  "readable_price w \<longleftrightarrow> 0 \<le> kw_RetailPrice w \<and> kw_RetailPrice w < 2 ^ 32"

definition sold_row :: "CVersionRow \<Rightarrow> ProductVariant" where
  "sold_row w = \<lparr>pv_ID = kw_ProductVariantID w, pv_CurrentVersion = \<lparr>pvv_ID = kw_ID w, pvv_Price = word_of_int (kw_RetailPrice w),
     pvv_TaxRateID = kw_TaxRateID w\<rparr>, pv_IsPubliclyVisible = BsonBool True\<rparr>"

lemma last_sold_rows:
  "last_sold (map row_news ws) i =
     (case filter readable_price (filter (\<lambda>w. kw_ProductVariantID w = i) ws) of [] \<Rightarrow> None | vs \<Rightarrow> Some (sold_row (last vs)))"
proof -
  have last: "(case vs of [] \<Rightarrow> None | x # xs \<Rightarrow> Some (f (last (x # xs)))) = (if vs = [] then None else Some (f (last vs)))"
    for f :: "CVersionRow \<Rightarrow> ProductVariant" and vs by (cases vs) simp_all
  have sold: "sold (row_news w) = sold_row w" "sellable (row_news w) = readable_price w" for w
    by (simp_all add: sold_def sold_row_def sellable_def readable_price_def)
  show ?thesis unfolding last by (induction ws rule: rev_induct) (simp_all add: last_sold_snoc sold)
qed

definition order_offers :: "order_db \<Rightarrow> uuid \<Rightarrow> ProductVariant option" where
  "order_offers s i = find (\<lambda>p. pv_ID p = i) (productVariants s)"

text \<open>
  C37. After any sequence of requests that were answered, delivering the catalog's announcements to the order service in
  their order, each as an envelope with Content-Type application/json, makes it offer each variant at the last of its versions with a price that is not negative: the current version
  when its price is readable, an older one or nothing otherwise. The variant counts as visible however often the catalog
  hides it, since every update of a visibility is refused.
\<close>

theorem order_follows_catalog:
  assumes "catalog_request\<^sup>*\<^sup>* s s'" "shelves s" "told_versions s" "faults o' = []" "productVariants o' = []" "v \<in> set (cvariants s')"
  shows "let ws = version_list_of s' (kv_ID v); offer = order_offers (order_after show_id read_id (outbox s') o') (kv_ID v) in
    ws \<noteq> [] \<and> kv_CurrentVersion v = Some (kw_ID (last ws)) \<and>
    offer = (case filter readable_price ws of [] \<Rightarrow> None | rs \<Rightarrow> Some (sold_row (last rs))) \<and>
    (case offer of None \<Rightarrow> True | Some p \<Rightarrow> IsVisible p)"
proof -
  have n: "numbered_versions kw_ID kw_Version (version_list_of s' (kv_ID v)) (kv_CurrentVersion v)"
    using catalog_shelves.run_keeps [OF catalog_request_steps [OF assms(1)] assms(2)] assms(6)
      version_books_numbered [of kv_ID kv_CurrentVersion kw_ID kw_ProductVariantID kw_Version "cvariants s'" "cversions s'"]
    by (simp add: shelves_def books_of_def version_list_of_def)
  let ?news = "concat (map version_news (outbox s'))"
  have "map strip ?news = map row_news (cversions s')"
    using requests_tell_versions [OF assms(1,3)] by (simp add: told_versions_def)
  then have news: "last_sold ?news = last_sold (map row_news (cversions s'))" using last_sold_strip by metis
  have "order_offers (order_after show_id read_id (outbox s') o') (kv_ID v) = last_sold ?news (kv_ID v)"
    using order_after_heard [OF assms(4,5)] by (simp add: heard_def order_offers_def)
  then have offer: "order_offers (order_after show_id read_id (outbox s') o') (kv_ID v) =
      (case filter readable_price (version_list_of s' (kv_ID v)) of [] \<Rightarrow> None | rs \<Rightarrow> Some (sold_row (last rs)))"
    by (simp add: news last_sold_rows version_list_of_def)
  have "IsVisible (sold_row w)" for w by (simp add: IsVisible_def sold_row_def)
  then show ?thesis using n unfolding Let_def offer numbered_versions_def by (simp split: list.split)
qed

definition catalog_shop :: order_db where
  "catalog_shop = \<lparr>faults = [], outbox = [], fresh = (\<lambda>n. UUID 0), minted = 0, clock = (\<lambda>n. 0), reads = 0, orders = [], orderItems = [],
     users = [], productVariants = [], taxRates = [], coupons = [], shipmentMethods = [], orderCompensations = []\<rparr>"

lemma tea_versions: "map kw_RetailPrice (version_list_of tea_created (UUID 6)) = [500]"
  unfolding tea_created_def version_list_of_def
  by (simp add: catalog_run_defs clerk_passes run_simps run_andThen tea_input_def catalog_start_def Let_def)

lemma tea_request: "catalog_request\<^sup>*\<^sup>* catalog_start tea_created"
  unfolding tea_created_def by (rule r_into_rtranclp, rule catalog_request.product, rule prod.collapse [symmetric])

text \<open>A hidden variant is offered.\<close>

lemma order_follows_catalog_witness:
  "kv_IsPubliclyVisible (hd (cvariants tea_created)) = False \<and>
   order_offers (order_after (\<lambda>i. ''id'') (\<lambda>t. None) (outbox tea_created) catalog_shop) (UUID 6) =
     Some (sold_row (last (version_list_of tea_created (UUID 6))))"
proof -
  have told: "told_versions catalog_start" by (simp add: told_versions_def catalog_start_def)
  have shop: "faults catalog_shop = []" "productVariants catalog_shop = []" by (simp_all add: catalog_shop_def)
  obtain w where w: "version_list_of tea_created (UUID 6) = [w]" "kw_RetailPrice w = 500" using tea_versions by auto
  have "hd (cvariants tea_created) \<in> set (cvariants tea_created)" by (simp add: tea_rows)
  from order_follows_catalog [OF tea_request catalog_start_ok(1) told shop this, of "\<lambda>i. ''id''" "\<lambda>t. None"]
  have "order_offers (order_after (\<lambda>i. ''id'') (\<lambda>t. None) (outbox tea_created) catalog_shop) (UUID 6) =
      (case filter readable_price (version_list_of tea_created (UUID 6)) of [] \<Rightarrow> None | rs \<Rightarrow> Some (sold_row (last rs)))"
    unfolding Let_def tea_rows by simp
  then show ?thesis using w by (simp add: tea_rows readable_price_def)
qed

end
