(* ===== verification/Spec2Isabelle.thy ===== *)
theory Spec2Isabelle
  imports Order_Claims Order_Pages Order_Compensation Inventory_Graph Payment_Claims Shipment_Claims Timestamps
    Sim_Runs Sim_Http Order_Discount Return_Exact Tax_Order Cart_Claims Invoice_Claims Catalog_Order
begin

text \<open>
  A verification library of the misarch services (Go).

  \<^bold>\<open>The program.\<close> misarch is a web shop of microservices. Each service owns a database (MongoDB or
  Postgres), serves a GraphQL schema (\<open>graph/\<close>), and reacts to events that other services publish
  through Dapr, with at-least-once delivery. An order runs through them as a saga: \<open>order\<close> creates
  it, asking the cart, inventory, tax, discount and shipment services, and announces it when it is placed;
  \<open>inventory\<close> reserves the items; \<open>discount\<close> validates and charges the discounts;
  \<open>payment\<close> collects the money through a simulated provider; \<open>shipment\<close> ships, again through a
  simulated provider; failures run the saga backwards (\<open>order\<close> compensates, \<open>inventory\<close>
  releases). \<open>simulation\<close> stands for the two providers, with a RabbitMQ queue for each.

  \<^bold>\<open>How a service is modelled.\<close> A method is an action: a function from the service's state to an
  error or a value and the new state (theory Effects; \<open>andThen\<close> is Go's \<open>if err != nil\<close> chain, and
  \<open>attempt\<close> a call whose error the caller inspects). The state is a record that
  extends \<open>io\<close>: \<open>faults\<close> scripts the outcome of each call that leaves the process (answered,
  refused, or done with the reply lost), \<open>outbox\<close> holds what was sent in order, \<open>fresh\<close> and
  \<open>clock\<close> are the oracles of \<open>uuid.New\<close> (and of ids a database generates) and \<open>time.Now\<close>. The
  other fields are the collections and tables, as lists in the order a scan returns them; the theorems hold
  for every list, hence for every scan order. A query document or a \<open>WHERE\<close> clause is the predicate it
  denotes; unique indexes, primary and foreign keys, 32- and 64-bit columns and the migrations' triggers
  are conditions of the writes (theories Collections, Postgres). Where a query passes a slice that can be nil,
  the slice is an \<open>option\<close> and nil is refused, as MongoDB refuses the \<open>$in: null\<close> the driver sends for it. Unless a theorem says \<open>faults s = []\<close>
  it covers every script of failures. Requests are atomic with respect to each other except in the simulation,
  whose critical sections interleave in a step relation: updates that two requests could lose to each other (the
  coupon trigger's counter, the next version number of a tax rate) are single steps. In the simulation a consumer
  reads its configuration inside its critical section. Errors are constructors of one datatype per service,
  not message texts. Context cancellation is modelled for the callback retry loop only.

  \<^bold>\<open>Values.\<close> Go's \<open>int\<close> and \<open>int64\<close> are integers wrapped by \<open>i64\<close> where the code can overflow, unsigned
  64-bit values are words, a UUID is its 128-bit value in byte order, a \<open>float64\<close> is an
  executable model of binary64 without the sign of zero (Go_Float; no code here looks at it), an instant is its
  nanoseconds in UTC, stored to milliseconds in BSON and to microseconds in Postgres. What Go leaves to the
  machine or to a library not under \<open>src/\<close> is a parameter: the out-of-range float conversion
  \<open>oob\<close>, the order of \<open>range\<close> over a map and of an unstable sort (record \<open>downstream\<close>),
  JSON marshalling of the user header, the string form of an id, the database's order of strings
  (\<open>rank\<close>), and what \<open>fmt\<close> prints for a composite value (\<open>fmt\<close>).

  \<^bold>\<open>The theories.\<close>
  Prelude, Effects, Collections, Postgres: the shared library above, with the locales \<open>effect_rel\<close>,
  \<open>effect_rel_tx\<close>, \<open>table_invariant\<close> and \<open>collection\<close>: a relation or invariant that every
  primitive keeps is kept by every method, by the rules of \<open>guar_intros\<close>.
  Go_Float, Go_Text, Go_Json, Timestamps: Go's numbers, strings, JSON and RFC 3339 instants.
  Auth: \<open>pkg/auth\<close>.
  Order_Store, Order_Saga, Order_Graph, Order_Events: \<open>src/order\<close>; Order_Items, Order_Props: what its
  saga builds and what no operation can break; Order_Claims, Order_Pages, Order_Compensation: its properties.
  Inventory_Store, Inventory, Inventory_Graph: \<open>src/inventory\<close>; the Go interface between its handlers
  and its store is the locale \<open>reservation_store\<close>, interpreted on the store.
  Payment_Store, Payment, Payment_Graph: \<open>src/payment\<close>; Payment_Cards, Payment_Claims: its properties.
  Shipment_Store, Shipment, Shipment_Graph: \<open>src/shipment\<close>; Shipment_Claims: its properties.
  Discount_Store, Discount, Discount_Graph: \<open>src/discount\<close>; Discount_Lists: budgets, totals and the abstract
  ledger of usages; Discount_Claims, Discount_Coupons: its properties and the locales \<open>discount_writes\<close>,
  \<open>discount_invariant\<close> and \<open>discount_inserts\<close>; Order_Discount: its answers in the orders that use them.
  Return_Store, Return_Graph: \<open>src/return\<close>; Return_Claims, Return_Exact: its properties and the locale
  \<open>return_relation\<close>.
  Versions: numbered versions and their current one, shared by the tax and the catalog service; Calm: runs in
  which every outside call is answered.
  Catalog_Store, Catalog: \<open>src/catalog\<close>; Catalog_Claims, Catalog_Order: its properties with the locale
  \<open>catalog_invariant\<close>, alone and together with the order service.
  Tax: \<open>src/tax\<close>; Tax_Claims, Tax_Order: its properties, alone and together with the order service.
  Cart: \<open>src/shoppingcart\<close>; Cart_Claims: its properties, alone and together with the order service.
  Invoice: \<open>src/invoice\<close>; Invoice_Claims: its properties.
  Sim_Config, Sim_Queue, Sim_Http: \<open>src/simulation\<close>; Sim_Runs: its runs and their properties.

  \<^bold>\<open>What the theorems show.\<close> For the order service: placing succeeds exactly for a pending, timely order of
  the caller and announces it once, over all runs; statuses only move forward; a created order is built from
  what the other services answered, and needs a coupon to be created at all; compensation on every branch. For the inventory: a
  reservation is all or nothing under every script of failures. For the payment service: the outcomes of
  starting, paying, failing and expiring a payment, and the invariants of all runs. For the shipment service: the
  provider is posted to a bounded number of times, fees are exact sums, and what is announced was stored. For the
  discount service: validating orders refines a ledger of usages per user, is all or nothing, is not
  idempotent, and coupon counters are exact in every run; its factors stay between 0 and 1, so that an order asking
  it never compensates more than a price. For the
  return service: the exact condition of a return, that items are returned once, and that nothing can be returned
  as the service is wired. For the catalog: versions are numbered with the highest one current, defaults and
  characteristic values belong where they say, which resolvers hide rows from visitors and which do not, and what the order service offers after
  hearing its announcements. For the tax service: the numbering of versions, and that the order service, told of them
  in order, taxes with the current ones. For the shopping cart: carts are private, a variant has one line, and an
  order takes exactly its lines out of the cart it was made from. For the invoice service: that as
  wired no invoice is ever made. For the simulation: messages are conserved over all interleavings, and can be
  drained. Several
  theorems describe behaviour the authors will not have wanted; they are listed as findings of the
  development.

  \<^bold>\<open>Termination and fuel.\<close> Recursion is structural, except for the callback retry loop, a
  \<open>partial_function\<close> into \<open>option\<close> whose termination is a theorem (and fails for an infinite retry count and for finite ones beyond the counter).
  No definition takes fuel.

  \<^bold>\<open>Not modelled.\<close> Generated gqlgen executors and models; server start-up, configuration of HTTP, Dapr,
  OpenTelemetry, logging, migrations and index creation (I/O glue); the gateway and media services (proxying and
  object storage); the services that only keep and list rows and are not named above.
\<close>

end
